(* ===== verification/Prelude.thy ===== *)
theory Prelude
  imports Main "HOL-Library.Char_ord" "HOL-Library.List_Lexorder"
begin

text \<open>
  What every component of the model shares: Go's byte strings, its error values, the results of
  fallible functions, the outcome of calling code that may panic, and 64-bit signed arithmetic.

  A Go string is a sequence of bytes and an Isabelle \<open>char\<close> is a byte, so a Go string is a
  \<open>string\<close>. A function that returns \<open>(T, error)\<close> returns \<open>go_error + 'a\<close>: \<open>Inl\<close> is a
  non-nil error, \<open>Inr\<close> the value. A call into a component that the project supplies may panic;
  its result is \<open>'a ext\<close>.
\<close>

named_theorems go_simps \<open>evaluation rules of the modelled Go library functions\<close>

section \<open>Bytes\<close>

abbreviation byte :: "char \<Rightarrow> nat" where
  "byte c \<equiv> of_char c"

lemma byte_less_256 [simp]: "byte c < 256"
  using of_char_mod_256 [of c, where 'a = nat]
  by (metis mod_less_divisor zero_less_numeral)

lemma byte_inject [simp]: "byte c = byte d \<longleftrightarrow> c = d"
  by (simp add: of_char_eq_iff)

lemma byte_char_of [simp]: "n < 256 \<Longrightarrow> byte (char_of n) = n"
  by (simp add: of_char_of)

section \<open>Errors\<close>

text \<open>
  A Go error is compared by identity along its \<open>Unwrap\<close> tree. \<open>Sentinel\<close> is a package-level
  error variable, known by its text (no two of the program's share one); \<open>Plain\<close> is an error made at the point where it is
  returned, whose text is kept; \<open>Wrap\<close> is an error with a text and the errors it unwraps to.
\<close>

datatype go_error =
    Sentinel string
  | Plain string
  | Wrap string "go_error list"

text \<open>\<open>errors.Is\<close> against a sentinel: depth-first over the \<open>Unwrap\<close> tree.\<close>

fun errors_is :: "go_error \<Rightarrow> string \<Rightarrow> bool" where
  "errors_is (Sentinel n) t = (n = t)"
| "errors_is (Plain m) t = False"
| "errors_is (Wrap m es) t = (\<exists>e \<in> set es. errors_is e t)"

text \<open>\<open>err.Error()\<close>.\<close>

fun error_text :: "go_error \<Rightarrow> string" where
  "error_text (Sentinel m) = m"
| "error_text (Plain m) = m"
| "error_text (Wrap m es) = m"

type_synonym 'a result = "go_error + 'a"

fun is_ok :: "'e + 'a \<Rightarrow> bool" where
  "is_ok (Inl e) = False"
| "is_ok (Inr a) = True"

text \<open>\<open>if err != nil { return err }\<close>: continue only with a value.\<close>

fun and_then :: "'e + 'a \<Rightarrow> ('a \<Rightarrow> 'e + 'b) \<Rightarrow> 'e + 'b" where
  "and_then (Inl e) f = Inl e"
| "and_then (Inr a) f = f a"

lemma and_then_eq_Inr:
  "and_then x f = Inr b \<longleftrightarrow> (\<exists>a. x = Inr a \<and> f a = Inr b)"
  by (cases x) auto

lemma and_then_eq_Inl:
  "and_then x f = Inl e \<longleftrightarrow> x = Inl e \<or> (\<exists>a. x = Inr a \<and> f a = Inl e)"
  by (cases x) auto

lemma if_Inl_eq_Inr [simp]: "(if b then Inl e else x) = Inr c \<longleftrightarrow> \<not> b \<and> x = Inr c"
  by simp

text \<open>A guard: \<open>if bad { return errors.New(msg) }\<close>.\<close>

definition reject_if :: "bool \<Rightarrow> string \<Rightarrow> unit result" where
  "reject_if bad msg = (if bad then Inl (Plain msg) else Inr ())"

lemma reject_if_Inr [simp]: "reject_if bad msg = Inr u \<longleftrightarrow> \<not> bad"
  by (simp add: reject_if_def)

lemma reject_if_Inl [simp]: "reject_if bad msg = Inl e \<longleftrightarrow> bad \<and> e = Plain msg"
  by (auto simp: reject_if_def)

lemma reject_if_cases [simp]:
  "reject_if True msg = Inl (Plain msg)" "reject_if False msg = Inr ()"
  by (simp_all add: reject_if_def)

text \<open>A loop over a slice whose body may return early with an error.\<close>

fun map_result :: "('a \<Rightarrow> 'e + 'b) \<Rightarrow> 'a list \<Rightarrow> 'e + 'b list" where
  "map_result f [] = Inr []"
| "map_result f (x # xs) = and_then (f x) (\<lambda>y. and_then (map_result f xs) (\<lambda>ys. Inr (y # ys)))"

lemma map_result_eq_Inr:
  "map_result f xs = Inr ys \<longleftrightarrow> list_all2 (\<lambda>x y. f x = Inr y) xs ys"
proof (induction xs arbitrary: ys)
  case Nil
  then show ?case by auto
next
  case (Cons x xs)
  then show ?case
    by (cases ys) (auto simp: and_then_eq_Inr)
qed

lemma list_all2_right_mem: "list_all2 P xs ys \<Longrightarrow> y \<in> set ys \<Longrightarrow> \<exists>x \<in> set xs. P x y"
  by (induction xs ys rule: list_all2_induct) auto

lemma list_all2_left_mem: "list_all2 P xs ys \<Longrightarrow> x \<in> set xs \<Longrightarrow> \<exists>y \<in> set ys. P x y"
  by (induction xs ys rule: list_all2_induct) auto

lemma map_result_length: "map_result f xs = Inr ys \<Longrightarrow> length ys = length xs"
  by (auto simp: map_result_eq_Inr dest: list_all2_lengthD)

section \<open>Calls that may panic\<close>

text \<open>
  \<open>AbortHandler\<close> is \<open>http.ErrAbortHandler\<close>, the one panic value the gateway treats apart.
\<close>

datatype panic = AbortHandler | OtherPanic string

datatype 'a ext = Ret 'a | Panics panic

section \<open>64-bit signed integers\<close>

text \<open>
  Go's \<open>int\<close>, \<open>int64\<close> and \<open>time.Duration\<close> are 64-bit two's complement; an operation that
  could leave the range is followed by \<open>wrap64\<close>, the value Go computes.
\<close>

definition max_int64 :: int where
  "max_int64 = 2 ^ 63 - 1"

definition min_int64 :: int where
  "min_int64 = - (2 ^ 63)"

definition in_int64 :: "int \<Rightarrow> bool" where
  "in_int64 n \<longleftrightarrow> min_int64 \<le> n \<and> n \<le> max_int64"

definition wrap64 :: "int \<Rightarrow> int" where
  "wrap64 n = (n + 2 ^ 63) mod 2 ^ 64 - 2 ^ 63"

lemma wrap64_id: "in_int64 n \<Longrightarrow> wrap64 n = n"
  by (simp add: in_int64_def wrap64_def min_int64_def max_int64_def)

lemma wrap64_in_int64: "in_int64 (wrap64 n)"
proof -
  have "0 \<le> (n + 2 ^ 63) mod 2 ^ 64" and "(n + 2 ^ 63) mod 2 ^ 64 < (2::int) ^ 64"
    by simp_all
  then show ?thesis
    by (simp add: in_int64_def wrap64_def min_int64_def max_int64_def)
qed

text \<open>Durations are counted in nanoseconds.\<close>

definition millisecond :: int where "millisecond = 1000000"
definition second :: int where "second = 1000000000"
definition minute :: int where "minute = 60 * second"
definition hour :: int where "hour = 60 * minute"

text \<open>\<open>Duration.Milliseconds\<close> truncates towards zero.\<close>

definition milliseconds :: "int \<Rightarrow> int" where
  "milliseconds d = (if d < 0 then - (- d div millisecond) else d div millisecond)"

end
