(* ===== verification/GoStrings.thy ===== *)
theory GoStrings
  imports Prelude
begin

text \<open>
  The parts of Go's \<open>strings\<close>, \<open>unicode/utf8\<close>, \<open>unicode\<close> and \<open>strconv\<close> packages that the
  program uses, on byte strings. UTF-8 decoding follows \<open>utf8.DecodeRuneInString\<close>: a byte that
  starts no valid sequence decodes to U+FFFD with width 1. Letter case and character classes
  beyond ASCII come from the Unicode tables of the Go release; they are an argument
  (\<open>unicode_tables\<close>), so what is proved holds for every such table.
\<close>

section \<open>UTF-8\<close>

definition rune_error :: nat where
  "rune_error = 65533"

definition in_range :: "nat \<Rightarrow> nat \<Rightarrow> char \<Rightarrow> bool" where
  "in_range lo hi c \<longleftrightarrow> lo \<le> byte c \<and> byte c \<le> hi"

text \<open>The range the second byte must lie in, and the number of bytes, per first byte.\<close>

definition second_range :: "nat \<Rightarrow> nat \<times> nat" where
  "second_range b0 =
     (if b0 = 224 then (160, 191)
      else if b0 = 237 then (128, 159)
      else if b0 = 240 then (144, 191)
      else if b0 = 244 then (128, 143)
      else (128, 191))"

definition sequence_length :: "nat \<Rightarrow> nat" where
  "sequence_length b0 =
     (if b0 < 128 then 1
      else if 194 \<le> b0 \<and> b0 \<le> 223 then 2
      else if 224 \<le> b0 \<and> b0 \<le> 239 then 3
      else if 240 \<le> b0 \<and> b0 \<le> 244 then 4
      else 0)"

fun decode_rune :: "string \<Rightarrow> nat \<times> nat" where
  "decode_rune [] = (rune_error, 0)"
| "decode_rune (c # s) =
     (let b0 = byte c; n = sequence_length b0; (lo, hi) = second_range b0 in
      if n = 1 then (b0, 1)
      else case s of
        c1 # s1 \<Rightarrow>
          if n = 0 \<or> \<not> in_range lo hi c1 then (rune_error, 1)
          else if n = 2 then ((b0 - 192) * 64 + (byte c1 - 128), 2)
          else (case s1 of
            c2 # s2 \<Rightarrow>
              if \<not> in_range 128 191 c2 then (rune_error, 1)
              else if n = 3 then
                ((b0 - 224) * 4096 + (byte c1 - 128) * 64 + (byte c2 - 128), 3)
              else (case s2 of
                c3 # s3 \<Rightarrow>
                  if \<not> in_range 128 191 c3 then (rune_error, 1)
                  else ((b0 - 240) * 262144 + (byte c1 - 128) * 4096
                        + (byte c2 - 128) * 64 + (byte c3 - 128), 4)
              | [] \<Rightarrow> (rune_error, 1))
          | [] \<Rightarrow> (rune_error, 1))
      | [] \<Rightarrow> (rune_error, 1))"

declare decode_rune.simps(2) [simp del]

lemma decode_rune_width_pos: "0 < snd (decode_rune (c # s))"
  by (auto simp: decode_rune.simps Let_def split: list.splits prod.splits)

lemma decode_rune_width_le: "snd (decode_rune s) \<le> length s"
  by (cases s) (auto simp: decode_rune.simps Let_def split: list.splits prod.splits)

lemma decode_rune_ascii: "byte c < 128 \<Longrightarrow> decode_rune (c # s) = (byte c, 1)"
  by (simp add: decode_rune.simps Let_def sequence_length_def split: prod.splits)

text \<open>A rune below 128 is a single ASCII byte.\<close>

lemma decode_rune_small:
  assumes "fst (decode_rune (c # s)) < 128"
  shows "byte c < 128 \<and> decode_rune (c # s) = (byte c, 1)"
proof (cases "byte c < 128")
  case True
  then show ?thesis by (simp add: decode_rune_ascii)
next
  case False
  have "128 \<le> fst (decode_rune (c # s))"
    using False
    by (auto simp: decode_rune.simps Let_def rune_error_def sequence_length_def second_range_def
        in_range_def split: list.splits prod.splits if_splits)
  with assms show ?thesis by simp
qed

text \<open>\<open>for _, c := range s\<close>: the runes of a string with their widths.\<close>

function runes :: "string \<Rightarrow> (nat \<times> nat) list" where
  "runes [] = []"
| "runes (c # s) = (let (r, w) = decode_rune (c # s) in (r, w) # runes (drop w (c # s)))"
  by pat_completeness auto
termination
proof (relation "measure length", simp, goal_cases)
  case (1 c s x xa y)
  then have "0 < y" using decode_rune_width_pos [of c s] by (metis snd_conv)
  then show ?case by simp
qed

declare runes.simps(2) [simp del]

lemma runes_Cons: "runes (c # s) = decode_rune (c # s) # runes (drop (snd (decode_rune (c # s))) (c # s))"
  by (simp add: runes.simps(2) split: prod.splits)

lemma runes_ascii_Cons: "byte c < 128 \<Longrightarrow> runes (c # s) = (byte c, 1) # runes s"
  by (simp add: runes_Cons decode_rune_ascii)

definition is_ascii :: "string \<Rightarrow> bool" where
  "is_ascii s \<longleftrightarrow> (\<forall>c \<in> set s. byte c < 128)"

lemma is_ascii_simps [simp]:
  "is_ascii []" "is_ascii (c # s) \<longleftrightarrow> byte c < 128 \<and> is_ascii s"
  "is_ascii (s @ t) \<longleftrightarrow> is_ascii s \<and> is_ascii t"
  by (auto simp: is_ascii_def)

lemma runes_ascii: "is_ascii s \<Longrightarrow> runes s = map (\<lambda>c. (byte c, 1)) s"
  by (induction s) (auto simp: runes_ascii_Cons)

text \<open>If every rune is below 128 then the runes are the bytes.\<close>

lemma runes_all_small:
  assumes "\<forall>(r, w) \<in> set (runes s). P r" and "\<And>r. P r \<Longrightarrow> r < 128"
  shows "\<forall>c \<in> set s. P (byte c)"
  using assms(1)
proof (induction s rule: runes.induct)
  case 1
  then show ?case by simp
next
  case (2 c s)
  obtain r w where rw: "decode_rune (c # s) = (r, w)" by fastforce
  have "P r" using "2.prems" by (auto simp: runes_Cons rw)
  then have small: "r < 128" by (rule assms(2))
  then have c: "byte c < 128" and d: "decode_rune (c # s) = (byte c, 1)"
    using decode_rune_small [of c s] rw by auto
  then have "\<forall>x \<in> set s. P (byte x)"
    using "2.IH" [of "(r, w)" r w] "2.prems" rw by (auto simp: runes_Cons)
  with \<open>P r\<close> rw d show ?case by simp
qed

definition valid_string :: "string \<Rightarrow> bool" where
  "valid_string s \<longleftrightarrow> (rune_error, 1) \<notin> set (runes s)"

definition rune_count :: "string \<Rightarrow> nat" where
  "rune_count s = length (runes s)"

lemma valid_string_ascii: "is_ascii s \<Longrightarrow> valid_string s"
  by (auto simp: valid_string_def runes_ascii rune_error_def is_ascii_def)

text \<open>\<open>utf8.AppendRune\<close>: surrogates and values beyond U+10FFFF are written as U+FFFD.\<close>

definition encode_rune :: "nat \<Rightarrow> string" where
  "encode_rune r =
     (let r = (if 1114111 < r \<or> 55296 \<le> r \<and> r \<le> 57343 then rune_error else r) in
      if r < 128 then [char_of r]
      else if r < 2048 then [char_of (192 + r div 64), char_of (128 + r mod 64)]
      else if r < 65536 then
        [char_of (224 + r div 4096), char_of (128 + r div 64 mod 64), char_of (128 + r mod 64)]
      else
        [char_of (240 + r div 262144), char_of (128 + r div 4096 mod 64),
         char_of (128 + r div 64 mod 64), char_of (128 + r mod 64)])"

text \<open>\<open>utf8.DecodeLastRuneInString\<close>: look back at most four bytes for a start byte.\<close>

definition rune_start :: "char \<Rightarrow> bool" where
  "rune_start c \<longleftrightarrow> \<not> (128 \<le> byte c \<and> byte c \<le> 191)"

definition last_start :: "string \<Rightarrow> nat" where
  "last_start s =
     (let n = length s; ks = filter (\<lambda>k. k \<le> n \<and> rune_start (s ! (n - k))) [2, 3, 4] in
      case ks of k # _ \<Rightarrow> n - k | [] \<Rightarrow> n - 5)"

definition decode_last_rune :: "string \<Rightarrow> nat \<times> nat" where
  "decode_last_rune s =
     (if s = [] then (rune_error, 0)
      else if byte (last s) < 128 then (byte (last s), 1)
      else let i = last_start s; (r, w) = decode_rune (drop i s) in
           if i + w \<noteq> length s then (rune_error, 1) else (r, w))"

lemma decode_last_rune_width:
  "s \<noteq> [] \<Longrightarrow> 0 < snd (decode_last_rune s) \<and> snd (decode_last_rune s) \<le> length s"
proof -
  assume s: "s \<noteq> []"
  have "last_start s < length s"
    using s by (auto simp: last_start_def Let_def split: if_splits list.splits)
  then obtain c t where d: "drop (last_start s) s = c # t"
    by (metis Cons_nth_drop_Suc)
  have len: "length (drop (last_start s) s) \<le> length s" by simp
  show ?thesis
    using s d decode_rune_width_pos [of c t] decode_rune_width_le [of "c # t"] len
    by (auto simp: decode_last_rune_def Let_def Suc_leI split: prod.splits)
qed

section \<open>Character classes\<close>

text \<open>\<open>unicode.IsSpace\<close>.\<close>

definition is_space :: "nat \<Rightarrow> bool" where
  "is_space r \<longleftrightarrow> 9 \<le> r \<and> r \<le> 13 \<or> r = 32 \<or> r = 133 \<or> r = 160 \<or> r = 5760
     \<or> 8192 \<le> r \<and> r \<le> 8202 \<or> r = 8232 \<or> r = 8233 \<or> r = 8239 \<or> r = 8287 \<or> r = 12288"

text \<open>\<open>unicode.IsControl\<close>.\<close>

definition is_control :: "nat \<Rightarrow> bool" where
  "is_control r \<longleftrightarrow> r < 32 \<or> 127 \<le> r \<and> r < 160"

definition contains_control :: "string \<Rightarrow> bool" where
  "contains_control s \<longleftrightarrow> (\<exists>(r, w) \<in> set (runes s). is_control r)"

section \<open>Trimming\<close>

definition trim_left_func :: "(nat \<Rightarrow> bool) \<Rightarrow> string \<Rightarrow> string" where
  "trim_left_func p s = drop (sum_list (map snd (takeWhile (\<lambda>(r, w). p r) (runes s)))) s"

function trim_right_func :: "(nat \<Rightarrow> bool) \<Rightarrow> string \<Rightarrow> string" where
  "trim_right_func p s =
     (if s = [] then []
      else let (r, w) = decode_last_rune s in
           if p r then trim_right_func p (take (length s - w) s) else s)"
  by pat_completeness auto
termination
proof (relation "measure (\<lambda>(p, s). length s)", simp, goal_cases)
  case (1 p s x xa y)
  then have "0 < y" using decode_last_rune_width [of s] by (metis snd_conv)
  with 1 show ?case by simp
qed

declare trim_right_func.simps [simp del]

definition trim_space :: "string \<Rightarrow> string" where
  "trim_space s = trim_right_func is_space (trim_left_func is_space s)"

text \<open>On ASCII strings the two trims are \<open>dropWhile\<close> from either end.\<close>

lemma trim_left_func_ascii:
  "is_ascii s \<Longrightarrow> trim_left_func p s = dropWhile (\<lambda>c. p (byte c)) s"
proof (induction s)
  case Nil
  then show ?case by (simp add: trim_left_func_def)
next
  case (Cons c s)
  then show ?case
    by (auto simp: trim_left_func_def runes_ascii_Cons)
qed

lemma trim_right_func_Nil [simp]: "trim_right_func p [] = []"
  by (simp add: trim_right_func.simps)

lemma trim_right_func_ascii_snoc:
  "byte c < 128 \<Longrightarrow>
   trim_right_func p (s @ [c]) = (if p (byte c) then trim_right_func p s else s @ [c])"
  by (simp add: trim_right_func.simps [of p "s @ [c]"] decode_last_rune_def)

lemma trim_right_func_ascii:
  "is_ascii s \<Longrightarrow> trim_right_func p s = rev (dropWhile (\<lambda>c. p (byte c)) (rev s))"
  by (induction s rule: rev_induct) (auto simp: trim_right_func_ascii_snoc)

lemma is_ascii_dropWhile: "is_ascii s \<Longrightarrow> is_ascii (dropWhile P s)"
  by (auto simp: is_ascii_def dest: set_dropWhileD)

lemma trim_space_ascii:
  "is_ascii s \<Longrightarrow> trim_space s =
     rev (dropWhile (\<lambda>c. is_space (byte c)) (rev (dropWhile (\<lambda>c. is_space (byte c)) s)))"
  by (simp add: trim_space_def trim_left_func_ascii trim_right_func_ascii is_ascii_dropWhile)

lemma trim_space_Nil [simp]: "trim_space [] = []"
  by (simp add: trim_space_ascii)

text \<open>Trimming only ever takes a contiguous part of the string.\<close>

lemma trim_left_func_suffix: "\<exists>u. s = u @ trim_left_func p s"
  by (metis append_take_drop_id trim_left_func_def)

lemma trim_right_func_prefix: "\<exists>v. s = trim_right_func p s @ v"
proof (induction p s rule: trim_right_func.induct)
  case (1 p s)
  obtain r w where rw: "decode_last_rune s = (r, w)" by fastforce
  show ?case
  proof (cases "s \<noteq> [] \<and> p r")
    case True
    then obtain v where "take (length s - w) s = trim_right_func p (take (length s - w) s) @ v"
      using "1.IH" [of "(r, w)" r w] rw by auto
    then have "s = trim_right_func p (take (length s - w) s) @ (v @ drop (length s - w) s)"
      by (metis append_assoc append_take_drop_id)
    then show ?thesis using True rw by (auto simp: trim_right_func.simps [of p s])
  next
    case False
    then show ?thesis using rw by (auto simp: trim_right_func.simps [of p s])
  qed
qed

lemma trim_space_infix: "\<exists>u v. s = u @ trim_space s @ v"
  by (metis trim_left_func_suffix trim_right_func_prefix trim_space_def)

lemma trim_space_subset: "set (trim_space s) \<subseteq> set s"
proof -
  obtain u v where "s = u @ trim_space s @ v" using trim_space_infix by blast
  then have "set s = set u \<union> set (trim_space s) \<union> set v" by (metis set_append sup_assoc)
  then show ?thesis by blast
qed

lemma length_trim_space: "length (trim_space s) \<le> length s"
proof -
  obtain u v where "s = u @ trim_space s @ v" using trim_space_infix by blast
  then have "length s = length u + (length (trim_space s) + length v)"
    by (metis length_append)
  then show ?thesis by simp
qed

lemma is_ascii_trim_space: "is_ascii s \<Longrightarrow> is_ascii (trim_space s)"
  using trim_space_subset by (auto simp: is_ascii_def)

text \<open>A string whose bytes are all visible ASCII has nothing to trim.\<close>

lemma trim_space_visible:
  assumes "\<forall>c \<in> set s. 33 \<le> byte c \<and> byte c \<le> 126"
  shows "trim_space s = s"
proof -
  have a: "is_ascii s" using assms by (force simp: is_ascii_def)
  have n: "\<forall>c \<in> set s. \<not> is_space (byte c)" using assms by (force simp: is_space_def)
  have d: "dropWhile (\<lambda>c. is_space (byte c)) s = s"
    using n by (cases s) auto
  have "dropWhile (\<lambda>c. is_space (byte c)) (rev s) = rev s"
    using n hd_in_set [of "rev s"] by (auto simp: dropWhile_eq_self_iff)
  with d show ?thesis by (simp add: trim_space_ascii [OF a])
qed

text \<open>Nor has an ASCII string that starts and ends with a non-space.\<close>

lemma trim_space_framed:
  assumes "is_ascii s" "s \<noteq> []" "\<not> is_space (byte (hd s))" "\<not> is_space (byte (last s))"
  shows "trim_space s = s"
proof -
  have "dropWhile (\<lambda>c. is_space (byte c)) s = s"
    and "dropWhile (\<lambda>c. is_space (byte c)) (rev s) = rev s"
    using assms(2-4) by (simp_all add: dropWhile_eq_self_iff hd_rev)
  then show ?thesis by (simp add: trim_space_ascii [OF assms(1)])
qed

section \<open>Letter case\<close>

text \<open>
  \<open>unicode_tables\<close> holds what \<open>unicode.ToUpper\<close>, \<open>ToLower\<close>, \<open>IsLetter\<close> and \<open>IsDigit\<close> give
  from U+0080 up; below that the values are fixed here.
\<close>

record unicode_tables =
  table_upper :: "nat \<Rightarrow> nat"
  table_lower :: "nat \<Rightarrow> nat"
  table_letter :: "nat \<Rightarrow> bool"
  table_digit :: "nat \<Rightarrow> bool"

text \<open>A table to evaluate examples with: no letters beyond ASCII.\<close>

definition ascii_tables :: unicode_tables where
  "ascii_tables = \<lparr>table_upper = id, table_lower = id, table_letter = (\<lambda>_. False),
                   table_digit = (\<lambda>_. False)\<rparr>"

definition rune_upper :: "unicode_tables \<Rightarrow> nat \<Rightarrow> nat" where
  "rune_upper U r = (if r < 128 then (if 97 \<le> r \<and> r \<le> 122 then r - 32 else r) else table_upper U r)"

definition rune_lower :: "unicode_tables \<Rightarrow> nat \<Rightarrow> nat" where
  "rune_lower U r = (if r < 128 then (if 65 \<le> r \<and> r \<le> 90 then r + 32 else r) else table_lower U r)"

definition rune_letter :: "unicode_tables \<Rightarrow> nat \<Rightarrow> bool" where
  "rune_letter U r \<longleftrightarrow>
     (if r < 128 then 65 \<le> r \<and> r \<le> 90 \<or> 97 \<le> r \<and> r \<le> 122 else table_letter U r)"

definition rune_digit :: "unicode_tables \<Rightarrow> nat \<Rightarrow> bool" where
  "rune_digit U r \<longleftrightarrow> (if r < 128 then 48 \<le> r \<and> r \<le> 57 else table_digit U r)"

text \<open>\<open>strings.Map\<close>: \<open>None\<close> drops the rune.\<close>

definition map_runes :: "(nat \<Rightarrow> nat option) \<Rightarrow> string \<Rightarrow> string" where
  "map_runes f s = concat (map (\<lambda>(r, w). case f r of None \<Rightarrow> [] | Some r' \<Rightarrow> encode_rune r') (runes s))"

definition to_upper :: "unicode_tables \<Rightarrow> string \<Rightarrow> string" where
  "to_upper U s = map_runes (\<lambda>r. Some (rune_upper U r)) s"

definition to_lower :: "unicode_tables \<Rightarrow> string \<Rightarrow> string" where
  "to_lower U s = map_runes (\<lambda>r. Some (rune_lower U r)) s"

definition ascii_upper :: "char \<Rightarrow> char" where
  "ascii_upper c = (if 97 \<le> byte c \<and> byte c \<le> 122 then char_of (byte c - 32) else c)"

definition ascii_lower :: "char \<Rightarrow> char" where
  "ascii_lower c = (if 65 \<le> byte c \<and> byte c \<le> 90 then char_of (byte c + 32) else c)"

lemma byte_ascii_upper:
  "byte (ascii_upper c) = (if 97 \<le> byte c \<and> byte c \<le> 122 then byte c - 32 else byte c)"
  using byte_less_256 [of c] by (auto simp: ascii_upper_def intro!: mod_less)

lemma byte_ascii_lower:
  "byte (ascii_lower c) = (if 65 \<le> byte c \<and> byte c \<le> 90 then byte c + 32 else byte c)"
  by (auto simp: ascii_lower_def)

lemma encode_rune_ascii: "r < 128 \<Longrightarrow> encode_rune r = [char_of r]"
  by (simp add: encode_rune_def)

lemma to_upper_ascii: "is_ascii s \<Longrightarrow> to_upper U s = map ascii_upper s"
  by (induction s)
    (auto simp: to_upper_def map_runes_def runes_ascii rune_upper_def encode_rune_ascii ascii_upper_def)

lemma to_lower_ascii: "is_ascii s \<Longrightarrow> to_lower U s = map ascii_lower s"
  by (induction s)
    (auto simp: to_lower_def map_runes_def runes_ascii rune_lower_def encode_rune_ascii ascii_lower_def)

lemma is_ascii_to_upper: "is_ascii s \<Longrightarrow> is_ascii (map ascii_upper s)"
  by (auto simp: is_ascii_def byte_ascii_upper)

lemma to_upper_idem_ascii: "is_ascii s \<Longrightarrow> to_upper U (to_upper U s) = to_upper U s"
  by (simp add: to_upper_ascii is_ascii_to_upper)
    (auto simp: ascii_upper_def)

text \<open>\<open>strings.EqualFold(s, t)\<close> for an ASCII \<open>t\<close> whose letters have no fold outside ASCII
  (every letter but \<open>k\<close> and \<open>s\<close>): equal up to ASCII case.\<close>

definition equal_fold_ascii :: "string \<Rightarrow> string \<Rightarrow> bool" where
  "equal_fold_ascii s t \<longleftrightarrow> map ascii_lower s = map ascii_lower t"

section \<open>Prefixes, splitting and joining\<close>

fun has_prefix :: "string \<Rightarrow> string \<Rightarrow> bool" where
  "has_prefix s [] = True"
| "has_prefix [] (p # ps) = False"
| "has_prefix (c # s) (p # ps) = (c = p \<and> has_prefix s ps)"

lemma has_prefix_iff: "has_prefix s p \<longleftrightarrow> (\<exists>t. s = p @ t)"
  by (induction s p rule: has_prefix.induct) auto

lemma has_prefix_length: "has_prefix s p \<Longrightarrow> length p \<le> length s"
  by (auto simp: has_prefix_iff)

lemma has_prefix_same_length:
  "has_prefix s p \<Longrightarrow> has_prefix s q \<Longrightarrow> length p = length q \<Longrightarrow> p = q"
  by (auto simp: has_prefix_iff)

definition has_suffix :: "string \<Rightarrow> string \<Rightarrow> bool" where
  "has_suffix s p = has_prefix (rev s) (rev p)"

text \<open>\<open>strings.Split\<close> at a one-byte separator: always at least one part.\<close>

fun split_on :: "char \<Rightarrow> string \<Rightarrow> string list" where
  "split_on d [] = [[]]"
| "split_on d (c # s) =
     (if c = d then [] # split_on d s
      else case split_on d s of p # ps \<Rightarrow> (c # p) # ps | [] \<Rightarrow> [[c]])"

lemma split_on_nonempty [simp]: "split_on d s \<noteq> []"
  by (cases s) (auto split: list.splits)

text \<open>\<open>strings.Cut\<close> at a one-byte separator.\<close>

fun cut_at :: "char \<Rightarrow> string \<Rightarrow> string \<times> string \<times> bool" where
  "cut_at d [] = ([], [], False)"
| "cut_at d (c # s) =
     (if c = d then ([], s, True)
      else let (before, after, found) = cut_at d s in (c # before, after, found))"

lemma cut_at_found:
  "cut_at d s = (a, b, True) \<Longrightarrow> s = a @ d # b \<and> d \<notin> set a"
  by (induction s arbitrary: a) (auto split: if_splits prod.splits)

lemma cut_at_sep: "d \<notin> set a \<Longrightarrow> cut_at d (a @ d # b) = (a, b, True)"
  by (induction a) auto

text \<open>\<open>strings.Join\<close>.\<close>

fun join :: "string \<Rightarrow> string list \<Rightarrow> string" where
  "join sep [] = []"
| "join sep [x] = x"
| "join sep (x # y # xs) = x @ sep @ join sep (y # xs)"

lemma join_split_on: "join [d] (split_on d s) = s"
proof (induction s)
  case Nil
  then show ?case by simp
next
  case (Cons c s)
  obtain p ps where sp: "split_on d s = p # ps"
    by (meson list.exhaust split_on_nonempty)
  with Cons show ?case by (cases ps) auto
qed

lemma split_on_no_sep: "d \<notin> set s \<Longrightarrow> split_on d s = [s]"
  by (induction s) auto

lemma split_on_append_sep: "d \<notin> set a \<Longrightarrow> split_on d (a @ d # s) = a # split_on d s"
  by (induction a) auto

lemma split_on_join:
  "xs \<noteq> [] \<Longrightarrow> \<forall>x \<in> set xs. d \<notin> set x \<Longrightarrow> split_on d (join [d] xs) = xs"
  by (induction "[d]" xs rule: join.induct) (auto simp: split_on_no_sep split_on_append_sep)

section \<open>Decimal integers\<close>

definition digit_char :: "nat \<Rightarrow> char" where
  "digit_char n = char_of (48 + n)"

fun nat_string :: "nat \<Rightarrow> string" where
  "nat_string n = (if n < 10 then [digit_char n] else nat_string (n div 10) @ [digit_char (n mod 10)])"

declare nat_string.simps [simp del]

text \<open>\<open>strconv.FormatInt(n, 10)\<close> and \<open>strconv.Itoa\<close>.\<close>

definition format_int :: "int \<Rightarrow> string" where
  "format_int n = (if n < 0 then CHR ''-'' # nat_string (nat (- n)) else nat_string (nat n))"

fun parse_digits :: "nat \<Rightarrow> string \<Rightarrow> nat option" where
  "parse_digits acc [] = Some acc"
| "parse_digits acc (c # s) =
     (if 48 \<le> byte c \<and> byte c \<le> 57 then parse_digits (acc * 10 + (byte c - 48)) s else None)"

text \<open>\<open>strconv.ParseInt(s, 10, 64)\<close> and \<open>strconv.Atoi\<close>: \<open>None\<close> is a syntax or range error.\<close>

definition parse_int :: "string \<Rightarrow> int option" where
  "parse_int s =
     (let (neg, body) = (case s of c # t \<Rightarrow>
            if c = CHR ''-'' then (True, t) else if c = CHR ''+'' then (False, t) else (False, s)
          | [] \<Rightarrow> (False, [])) in
      if body = [] then None
      else case parse_digits 0 body of
        None \<Rightarrow> None
      | Some n \<Rightarrow> (let v = (if neg then - int n else int n) in if in_int64 v then Some v else None))"

lemma parse_digits_append:
  "parse_digits acc (s @ t) = (case parse_digits acc s of None \<Rightarrow> None | Some a \<Rightarrow> parse_digits a t)"
  by (induction s arbitrary: acc) auto

lemma byte_digit_char [simp]: "n < 10 \<Longrightarrow> byte (digit_char n) = 48 + n"
  by (simp add: digit_char_def)

lemma parse_digits_nat_string: "parse_digits 0 (nat_string n) = Some n"
proof (induction n rule: nat_string.induct)
  case (1 n)
  show ?case
  proof (cases "n < 10")
    case True
    then show ?thesis by (simp add: nat_string.simps)
  next
    case False
    with 1 show ?thesis
      by (subst nat_string.simps) (simp add: parse_digits_append)
  qed
qed

lemma nat_string_nonempty [simp]: "nat_string n \<noteq> []"
  by (subst nat_string.simps) simp

lemma nat_string_digits: "c \<in> set (nat_string n) \<Longrightarrow> 48 \<le> byte c \<and> byte c \<le> 57"
proof (induction n rule: nat_string.induct)
  case (1 n)
  then show ?case
    by (cases "n < 10") (auto simp: nat_string.simps [of n])
qed

lemma parse_int_format_int:
  assumes "in_int64 n"
  shows "parse_int (format_int n) = Some n"
proof (cases "n < 0")
  case True
  then show ?thesis
    using assms by (simp add: parse_int_def format_int_def parse_digits_nat_string)
next
  case False
  obtain c t where ct: "nat_string (nat n) = c # t"
    by (meson list.exhaust nat_string_nonempty)
  then have "48 \<le> byte c" using nat_string_digits [of c "nat n"] by simp
  then have "c \<noteq> CHR ''-''" "c \<noteq> CHR ''+''" by auto
  then show ?thesis
    using assms False ct parse_digits_nat_string [of "nat n"]
    by (simp add: parse_int_def format_int_def)
qed

lemma parse_int_range: "parse_int s = Some n \<Longrightarrow> in_int64 n"
  by (auto simp: parse_int_def Let_def split: if_splits option.splits list.splits prod.splits)

end
