(* ===== verification/HttpHeader.thy ===== *)
theory HttpHeader
  imports GoStrings
begin

text \<open>
  HTTP tokens (\<open>sdk/go/gateway/http_token.go\<close>) and \<open>net/http\<close>'s \<open>Header\<close>: a map from
  canonical field names to their values, with \<open>Get\<close>, \<open>Values\<close>, \<open>Set\<close>, \<open>Add\<close> and \<open>Del\<close>,
  which canonicalise the name first. Headers are stated through a locale of field stores and the
  model of \<open>http.Header\<close> interprets it.
\<close>

section \<open>Tokens\<close>

definition token_byte :: "char \<Rightarrow> bool" where
  "token_byte c \<longleftrightarrow>
     97 \<le> byte c \<and> byte c \<le> 122 \<or> 65 \<le> byte c \<and> byte c \<le> 90 \<or> 48 \<le> byte c \<and> byte c \<le> 57
     \<or> c \<in> {CHR ''!'', CHR ''#'', CHR ''$'', CHR ''%'', CHR ''&'', CHR 0x27, CHR ''*'', CHR ''+'',
            CHR ''-'', CHR ''.'', CHR ''^'', CHR ''_'', CHR 0x60, CHR ''|'', CHR ''~''}"

text \<open>\<open>isHTTPToken\<close>: a loop over the bytes that stops at the first byte outside the set.\<close>

fun token_bytes :: "string \<Rightarrow> bool" where
  "token_bytes [] = True"
| "token_bytes (c # s) = (if token_byte c then token_bytes s else False)"

definition isHTTPToken :: "string \<Rightarrow> bool" where
  "isHTTPToken value = (if value = [] then False else token_bytes value)"

lemma token_bytes_iff: "token_bytes s \<longleftrightarrow> (\<forall>c \<in> set s. token_byte c)"
  by (induction s) auto

lemma isHTTPToken_iff: "isHTTPToken s \<longleftrightarrow> s \<noteq> [] \<and> (\<forall>c \<in> set s. token_byte c)"
  by (simp add: isHTTPToken_def token_bytes_iff)

lemma token_byte_visible: "token_byte c \<Longrightarrow> 33 \<le> byte c \<and> byte c \<le> 126"
  by (auto simp: token_byte_def)

lemma isHTTPToken_visible: "isHTTPToken s \<Longrightarrow> \<forall>c \<in> set s. 33 \<le> byte c \<and> byte c \<le> 126"
  by (auto simp: isHTTPToken_iff dest: token_byte_visible)

lemma isHTTPToken_ascii: "isHTTPToken s \<Longrightarrow> is_ascii s"
  by (auto simp: isHTTPToken_iff is_ascii_def dest!: token_byte_visible)

lemma isHTTPToken_trim: "isHTTPToken s \<Longrightarrow> trim_space s = s"
  by (rule trim_space_visible) (rule isHTTPToken_visible)

section \<open>Canonical field names\<close>

text \<open>\<open>textproto.CanonicalMIMEHeaderKey\<close>: a name with a byte that no token has is left as it is.\<close>

fun canonical_from :: "bool \<Rightarrow> string \<Rightarrow> string" where
  "canonical_from up [] = []"
| "canonical_from up (c # s) =
     (let c' = (if up then ascii_upper c else ascii_lower c) in c' # canonical_from (c' = CHR ''-'') s)"

definition canonical_key :: "string \<Rightarrow> string" where
  "canonical_key s = (if token_bytes s then canonical_from True s else s)"

lemma ascii_upper_upper [simp]: "ascii_upper (ascii_upper c) = ascii_upper c"
  by (auto simp: ascii_upper_def)

lemma ascii_lower_lower [simp]: "ascii_lower (ascii_lower c) = ascii_lower c"
  by (auto simp: ascii_lower_def)

lemma canonical_from_idem: "canonical_from b (canonical_from b s) = canonical_from b s"
  by (induction b s rule: canonical_from.induct) (auto simp: Let_def)

lemma token_byte_upper: "token_byte c \<Longrightarrow> token_byte (ascii_upper c)"
  using byte_ascii_upper [of c] by (auto simp: token_byte_def ascii_upper_def)

lemma token_byte_lower: "token_byte c \<Longrightarrow> token_byte (ascii_lower c)"
  using byte_ascii_lower [of c] by (auto simp: token_byte_def ascii_lower_def)

lemma token_bytes_canonical: "token_bytes s \<Longrightarrow> token_bytes (canonical_from b s)"
  by (induction b s rule: canonical_from.induct)
    (auto simp: Let_def token_byte_upper token_byte_lower split: if_splits)

lemma canonical_key_idem [simp]: "canonical_key (canonical_key s) = canonical_key s"
  by (simp add: canonical_key_def canonical_from_idem token_bytes_canonical)

section \<open>Headers\<close>

text \<open>
  What a client of a field store relies on: writing a field is seen under every spelling of its
  name and under no other name, and a deleted field has no value.
\<close>

locale field_store =
  fixes canon :: "string \<Rightarrow> string"
    and values_of :: "'h \<Rightarrow> string \<Rightarrow> string list"
    and put :: "'h \<Rightarrow> string \<Rightarrow> string \<Rightarrow> 'h"
    and del :: "'h \<Rightarrow> string \<Rightarrow> 'h"
  assumes values_put_same: "canon k = canon k' \<Longrightarrow> values_of (put h k v) k' = [v]"
    and values_put_other: "canon k \<noteq> canon k' \<Longrightarrow> values_of (put h k v) k' = values_of h k'"
    and values_del_same: "canon k = canon k' \<Longrightarrow> values_of (del h k) k' = []"
    and values_del_other: "canon k \<noteq> canon k' \<Longrightarrow> values_of (del h k) k' = values_of h k'"
begin

lemma put_after_del: "values_of (put (del h k) k v) k' = values_of (put h k v) k'"
  by (cases "canon k = canon k'") (simp_all add: values_put_same values_put_other values_del_other)

lemma del_put_independent:
  "canon a \<noteq> canon b \<Longrightarrow> values_of (put (del h a) b v) a = []"
  by (simp add: values_put_other values_del_same)

end

type_synonym header = "string \<rightharpoonup> string list"

definition header_values :: "header \<Rightarrow> string \<Rightarrow> string list" where
  "header_values h k = (case h (canonical_key k) of None \<Rightarrow> [] | Some vs \<Rightarrow> vs)"

definition header_get :: "header \<Rightarrow> string \<Rightarrow> string" where
  "header_get h k = (case header_values h k of [] \<Rightarrow> [] | v # vs \<Rightarrow> v)"

definition header_set :: "header \<Rightarrow> string \<Rightarrow> string \<Rightarrow> header" where
  "header_set h k v = h(canonical_key k \<mapsto> [v])"

definition header_add :: "header \<Rightarrow> string \<Rightarrow> string \<Rightarrow> header" where
  "header_add h k v = h(canonical_key k \<mapsto> header_values h k @ [v])"

definition header_del :: "header \<Rightarrow> string \<Rightarrow> header" where
  "header_del h k = h(canonical_key k := None)"

interpretation http_header: field_store canonical_key header_values header_set header_del
  by unfold_locales (auto simp: header_values_def header_set_def header_del_def)

lemmas header_simps =
  http_header.values_put_same http_header.values_put_other
  http_header.values_del_same http_header.values_del_other

lemma header_get_set [simp]: "header_get (header_set h k v) k = v"
  by (simp add: header_get_def header_simps)

lemma header_get_set_other:
  "canonical_key k \<noteq> canonical_key k' \<Longrightarrow> header_get (header_set h k v) k' = header_get h k'"
  by (simp add: header_get_def header_simps)

lemma header_values_add_same:
  "canonical_key k = canonical_key k' \<Longrightarrow> header_values (header_add h k v) k' = header_values h k @ [v]"
  by (simp add: header_add_def header_values_def)

lemma header_values_add_other:
  "canonical_key k \<noteq> canonical_key k' \<Longrightarrow> header_values (header_add h k v) k' = header_values h k'"
  by (simp add: header_add_def header_values_def)

lemma header_get_Nil: "header_values h k = [] \<Longrightarrow> header_get h k = []"
  by (simp add: header_get_def)

end
