(* ===== verification/RequestId.thy ===== *)
theory RequestId
  imports HttpHeader
begin

text \<open>
  Request identifiers, \<open>sdk/go/gateway/request_id.go\<close>: \<open>RequestIDConfig\<close>,
  \<open>normalizeRequestIDConfig\<close>, \<open>isSafeRequestID\<close>, \<open>generateRequestID\<close> and the two sources of
  \<open>resolveRequestID\<close>. A generator is project code: it may fail or panic, and reads and changes a
  state \<open>'w\<close> of its own. \<open>None\<close> stands for a nil \<open>Generate\<close>.
\<close>

type_synonym 'w generator = "'w \<Rightarrow> string result ext \<times> 'w"

record 'w request_id_config =
  rid_header :: string
  rid_max_length :: int
  rid_generate :: "'w generator option"
  rid_trust_incoming :: bool

definition headerXRequestID :: string where
  "headerXRequestID = ''X-Request-ID''"

definition defaultRequestIDMaxLength :: int where
  "defaultRequestIDMaxLength = 128"

text \<open>\<open>hex.EncodeToString\<close> over the bytes read from \<open>crypto/rand\<close>, which are an argument.\<close>

definition hex_digit :: "nat \<Rightarrow> char" where
  "hex_digit n = (if n < 10 then char_of (48 + n) else char_of (87 + n))"

definition hex_encode :: "string \<Rightarrow> string" where
  "hex_encode bs = concat (map (\<lambda>b. [hex_digit (byte b div 16), hex_digit (byte b mod 16)]) bs)"

definition generateRequestID :: "('w \<Rightarrow> string result \<times> 'w) \<Rightarrow> 'w generator" where
  "generateRequestID rand w =
     (case rand w of
        (Inl e, w') \<Rightarrow> (Ret (Inl e), w')
      | (Inr random, w') \<Rightarrow> (Ret (Inr (hex_encode random)), w'))"

definition normalizeRequestIDConfig ::
  "('w \<Rightarrow> string result \<times> 'w) \<Rightarrow> 'w request_id_config \<Rightarrow> 'w request_id_config result" where
  "normalizeRequestIDConfig rand config =
     (let h = trim_space (rid_header config);
          h = (if h = [] then headerXRequestID else h);
          n = (if rid_max_length config = 0 then defaultRequestIDMaxLength else rid_max_length config) in
      if \<not> isHTTPToken h then Inl (Plain ''gateway request ID header is invalid'')
      else if n < 16 \<or> n > 1024 then
        Inl (Plain ''gateway request ID max length must be between 16 and 1024'')
      else Inr (config\<lparr>rid_header := h, rid_max_length := n,
        rid_generate := (case rid_generate config of
            None \<Rightarrow> Some (generateRequestID rand) | Some g \<Rightarrow> Some g)\<rparr>))"

definition isSafeRequestID :: "string \<Rightarrow> int \<Rightarrow> bool" where
  "isSafeRequestID value maxLength =
     (if value = [] \<or> int (length value) > maxLength then False
      else list_all (\<lambda>(character, w). \<not> (character < 33 \<or> character > 126)) (runes value))"

text \<open>
  The two sources of \<open>resolveRequestID\<close>, after the incoming values were read and the header
  deleted: a single safe incoming value when the configuration trusts it, else the generator's
  value, checked.
\<close>

definition adoptedRequestID :: "'w request_id_config \<Rightarrow> string list \<Rightarrow> string option" where
  "adoptedRequestID config values =
     (if rid_trust_incoming config \<and> length values = 1 then
        let v = trim_space (values ! 0) in
        if isSafeRequestID v (rid_max_length config) then Some v else None
      else None)"

definition generatedRequestID :: "'w request_id_config \<Rightarrow> 'w generator" where
  "generatedRequestID config w =
     (case rid_generate config of
        None \<Rightarrow> (Panics (OtherPanic ''nil function call''), w)
      | Some g \<Rightarrow>
          (case g w of
             (Ret (Inr v), w') \<Rightarrow>
               (if \<not> isSafeRequestID v (rid_max_length config)
                then (Ret (Inl (Plain ''request ID generator returned an invalid value'')), w')
                else (Ret (Inr v), w'))
           | failed \<Rightarrow> failed))"

text \<open>A safe identifier is visible ASCII: no white space, no control byte, no UTF-8 sequence.\<close>

lemma isSafeRequestID_bytes:
  "isSafeRequestID value n \<longleftrightarrow>
     value \<noteq> [] \<and> int (length value) \<le> n \<and> (\<forall>c \<in> set value. 33 \<le> byte c \<and> byte c \<le> 126)"
proof
  assume safe: "isSafeRequestID value n"
  then have "\<forall>(r, w) \<in> set (runes value). 33 \<le> r \<and> r \<le> 126"
    by (auto simp: isSafeRequestID_def list_all_iff not_less split: if_splits)
  then have "\<forall>c \<in> set value. 33 \<le> byte c \<and> byte c \<le> 126"
    by (rule runes_all_small) simp
  with safe show "value \<noteq> [] \<and> int (length value) \<le> n \<and> (\<forall>c \<in> set value. 33 \<le> byte c \<and> byte c \<le> 126)"
    by (auto simp: isSafeRequestID_def split: if_splits)
next
  assume r: "value \<noteq> [] \<and> int (length value) \<le> n \<and> (\<forall>c \<in> set value. 33 \<le> byte c \<and> byte c \<le> 126)"
  then have "is_ascii value" by (force simp: is_ascii_def)
  with r show "isSafeRequestID value n"
    by (auto simp: isSafeRequestID_def list_all_iff runes_ascii)
qed

lemma isSafeRequestID_trim: "isSafeRequestID value n \<Longrightarrow> trim_space value = value"
  by (rule trim_space_visible) (simp add: isSafeRequestID_bytes)

lemma generatedRequestID_safe:
  "generatedRequestID config w = (Ret (Inr v), w') \<Longrightarrow> isSafeRequestID v (rid_max_length config)"
  by (auto simp: generatedRequestID_def split: option.splits prod.splits ext.splits sum.splits if_splits)

text \<open>An incoming value is only ever used when the configuration trusts it and it is the only one.\<close>

lemma adoptedRequestID_Some:
  "adoptedRequestID config vs = Some v \<longleftrightarrow>
     rid_trust_incoming config \<and> (\<exists>x. vs = [x] \<and> v = trim_space x)
     \<and> isSafeRequestID v (rid_max_length config)"
  by (cases vs) (auto simp: adoptedRequestID_def Let_def)

lemma normalizeRequestIDConfig_ok:
  assumes "normalizeRequestIDConfig rand config = Inr config'"
  shows "isHTTPToken (rid_header config')" "16 \<le> rid_max_length config'" "rid_max_length config' \<le> 1024"
    "rid_generate config' \<noteq> None" "rid_trust_incoming config' = rid_trust_incoming config"
  using assms by (auto simp: normalizeRequestIDConfig_def Let_def split: if_splits option.splits)

text \<open>The built-in generator's output is safe at every configurable length bound from 32 up.\<close>

lemma hex_digit_visible: "n < 16 \<Longrightarrow> 33 \<le> byte (hex_digit n) \<and> byte (hex_digit n) \<le> 126"
  by (auto simp: hex_digit_def)

lemma length_hex_encode: "length (hex_encode bs) = 2 * length bs"
  by (induction bs) (auto simp: hex_encode_def)

lemma hex_encode_visible: "c \<in> set (hex_encode bs) \<Longrightarrow> 33 \<le> byte c \<and> byte c \<le> 126"
proof -
  assume "c \<in> set (hex_encode bs)"
  then obtain b where "c = hex_digit (byte b div 16) \<or> c = hex_digit (byte b mod 16)"
    by (auto simp: hex_encode_def)
  moreover have "byte b div 16 < 16" using byte_less_256 [of b] by linarith
  ultimately show ?thesis using hex_digit_visible by auto
qed

lemma hex_encode_safe:
  "length bs = 16 \<Longrightarrow> 32 \<le> n \<Longrightarrow> isSafeRequestID (hex_encode bs) n"
  by (auto simp: isSafeRequestID_bytes length_hex_encode hex_encode_visible
      simp flip: length_greater_0_conv dest: hex_encode_visible)

text \<open>
  With a configured bound below 32, which \<open>New\<close> accepts from 16 on, the built-in generator never
  succeeds: its 32 digits are refused, and every request that has no adopted ID fails.
\<close>

theorem generated_id_short_bound:
  assumes "rid_generate config = Some (generateRequestID rand)" "rid_max_length config < 32"
    "\<forall>bs w'. rand w = (Inr bs, w') \<longrightarrow> length bs = 16"
  shows "\<exists>e w'. generatedRequestID config w = (Ret (Inl e), w')"
proof (cases "rand w")
  case (Pair res w')
  then show ?thesis
    using assms
    by (cases res)
      (auto simp: generatedRequestID_def generateRequestID_def isSafeRequestID_bytes length_hex_encode)
qed

end
