(* ===== verification/Route.thy ===== *)
theory Route
  imports HttpHeader "HOL-Library.Word"
begin

text \<open>
  The static route table, \<open>sdk/go/gateway/route.go\<close>: \<open>Route\<close>, \<open>compileRoute\<close>,
  \<open>newStaticRouteResolver\<close>, \<open>Resolve\<close>, \<open>accepts\<close>, \<open>routeMatchKey\<close> and
  \<open>normalizeResolvedRoute\<close>. A Go map used as a set of methods is a set; \<open>sortedKeys\<close> is the
  sorted list of its elements.
\<close>

type_synonym access_mode = "8 word"

definition accessProtected :: access_mode where "accessProtected = 0"
definition accessPublic :: access_mode where "accessPublic = 1"

record route_match =
  match_methods :: "string list"
  match_exact :: string
  match_prefix :: string

record route =
  route_name :: string
  route_match :: route_match
  route_upstream :: string
  route_access :: access_mode
  route_max_body :: int

record compiled_route =
  cr_route :: route
  cr_methods :: "string set"

record route_resolver =
  rr_exact :: "compiled_route list"
  rr_prefixes :: "compiled_route list"

definition sortedKeys :: "string set \<Rightarrow> string list" where
  "sortedKeys values = sorted_list_of_set values"

section \<open>Compiling a route\<close>

text \<open>The loop over the declared methods: trim, upper-case, check, insert.\<close>

fun compile_methods :: "unicode_tables \<Rightarrow> string set \<Rightarrow> string list \<Rightarrow> string set result" where
  "compile_methods U methods [] = Inr methods"
| "compile_methods U methods (m # ms) =
     (let method = to_upper U (trim_space m) in
      if \<not> isHTTPToken method then Inl (Plain ''route method is invalid'')
      else compile_methods U (insert method methods) ms)"

definition compileRoute :: "unicode_tables \<Rightarrow> route \<Rightarrow> compiled_route result" where
  "compileRoute U r =
     (let name = trim_space (route_name r);
          upstream = trim_space (route_upstream r);
          exact = trim_space (match_exact (route_match r));
          prefix = trim_space (match_prefix (route_match r));
          path = (if exact = [] then prefix else exact) in
      if name = [] then Inl (Plain ''route name is required'')
      else if upstream = [] then Inl (Plain ''route upstream is required'')
      else if (exact = []) = (prefix = []) then
        Inl (Plain ''exact path or path prefix must be set exclusively'')
      else if \<not> has_prefix path ''/'' then Inl (Plain ''route path must start with slash'')
      else if route_access r \<noteq> accessProtected \<and> route_access r \<noteq> accessPublic then
        Inl (Plain ''route access mode is invalid'')
      else if route_max_body r < 0 then
        Inl (Plain ''maximum request body bytes cannot be negative'')
      else and_then (compile_methods U {} (match_methods (route_match r))) (\<lambda>methods.
        Inr \<lparr>cr_route = r\<lparr>route_name := name, route_upstream := upstream,
               route_match := \<lparr>match_methods = sortedKeys methods, match_exact = exact,
                               match_prefix = prefix\<rparr>\<rparr>,
             cr_methods = methods\<rparr>))"

definition normalizeResolvedRoute :: "route \<Rightarrow> route result" where
  "normalizeResolvedRoute r =
     (let name = trim_space (route_name r); upstream = trim_space (route_upstream r) in
      if name = [] \<or> upstream = [] then Inl (Plain ''resolved route name and upstream are required'')
      else if route_access r \<noteq> accessProtected \<and> route_access r \<noteq> accessPublic then
        Inl (Plain ''resolved route access mode is invalid'')
      else if route_max_body r < 0 then
        Inl (Plain ''resolved route maximum request body bytes cannot be negative'')
      else Inr (r\<lparr>route_name := name, route_upstream := upstream\<rparr>))"

section \<open>The table\<close>

definition routeMatchKey :: "compiled_route \<Rightarrow> string" where
  "routeMatchKey c =
     (let m = route_match (cr_route c) in
      match_exact m @ [CHR 0x00] @ match_prefix m @ [CHR 0x00] @ join '','' (match_methods m))"

definition is_exact :: "compiled_route \<Rightarrow> bool" where
  "is_exact c \<longleftrightarrow> match_exact (route_match (cr_route c)) \<noteq> []"

abbreviation prefix_of :: "compiled_route \<Rightarrow> string" where
  "prefix_of c \<equiv> match_prefix (route_match (cr_route c))"

abbreviation exact_of :: "compiled_route \<Rightarrow> string" where
  "exact_of c \<equiv> match_exact (route_match (cr_route c))"

fun add_routes ::
  "unicode_tables \<Rightarrow> nat \<Rightarrow> string set \<Rightarrow> route_resolver \<Rightarrow> route list \<Rightarrow> route_resolver result"
where
  "add_routes U index seen rr [] = Inr rr"
| "add_routes U index seen rr (r # rs) =
     (case compileRoute U r of
        Inl e \<Rightarrow> Inl (Plain (''invalid gateway route at index '' @ format_int (int index) @ '': '' @ error_text e))
      | Inr c \<Rightarrow>
          let key = routeMatchKey c in
          if key \<in> seen then Inl (Plain (''duplicate gateway route match: '' @ route_name r))
          else add_routes U (Suc index) (insert key seen)
            (if is_exact c then rr\<lparr>rr_exact := rr_exact rr @ [c]\<rparr>
             else rr\<lparr>rr_prefixes := rr_prefixes rr @ [c]\<rparr>) rs)"

text \<open>\<open>sort.SliceStable\<close> by descending prefix length.\<close>

definition sort_prefixes :: "compiled_route list \<Rightarrow> compiled_route list" where
  "sort_prefixes cs = sort_key (\<lambda>c. - int (length (prefix_of c))) cs"

definition newStaticRouteResolver :: "unicode_tables \<Rightarrow> route list \<Rightarrow> route_resolver result" where
  "newStaticRouteResolver U routes =
     (if routes = [] then Inl (Plain ''gateway routes are required'')
      else and_then (add_routes U 0 {} \<lparr>rr_exact = [], rr_prefixes = []\<rparr> routes) (\<lambda>rr.
        Inr (rr\<lparr>rr_prefixes := sort_prefixes (rr_prefixes rr)\<rparr>)))"

definition accepts :: "unicode_tables \<Rightarrow> compiled_route \<Rightarrow> string \<Rightarrow> bool" where
  "accepts U c method = (if cr_methods c = {} then True else to_upper U method \<in> cr_methods c)"

fun first_match :: "(compiled_route \<Rightarrow> bool) \<Rightarrow> compiled_route list \<Rightarrow> route option" where
  "first_match p [] = None"
| "first_match p (c # cs) = (if p c then Some (cr_route c) else first_match p cs)"

definition resolve :: "unicode_tables \<Rightarrow> route_resolver \<Rightarrow> string \<Rightarrow> string \<Rightarrow> route option" where
  "resolve U rr path method =
     (case first_match (\<lambda>c. exact_of c = path \<and> accepts U c method) (rr_exact rr) of
        Some r \<Rightarrow> Some r
      | None \<Rightarrow> first_match (\<lambda>c. has_prefix path (prefix_of c) \<and> accepts U c method) (rr_prefixes rr))"

definition containsProtectedRoute :: "route list \<Rightarrow> bool" where
  "containsProtectedRoute routes = list_ex (\<lambda>r. route_access r = accessProtected) routes"

section \<open>What compiling guarantees\<close>

definition well_formed_route :: "compiled_route \<Rightarrow> bool" where
  "well_formed_route c \<longleftrightarrow>
     route_name (cr_route c) \<noteq> [] \<and> route_upstream (cr_route c) \<noteq> []
     \<and> (exact_of c = []) \<noteq> (prefix_of c = [])
     \<and> has_prefix (if exact_of c = [] then prefix_of c else exact_of c) ''/''
     \<and> route_access (cr_route c) \<in> {accessProtected, accessPublic}
     \<and> 0 \<le> route_max_body (cr_route c)
     \<and> finite (cr_methods c) \<and> (\<forall>m \<in> cr_methods c. isHTTPToken m)
     \<and> match_methods (route_match (cr_route c)) = sortedKeys (cr_methods c)"

lemma compile_methods_ok:
  "compile_methods U ms xs = Inr ms' \<Longrightarrow> finite ms \<Longrightarrow> \<forall>m \<in> ms. isHTTPToken m \<Longrightarrow>
   finite ms' \<and> (\<forall>m \<in> ms'. isHTTPToken m) \<and> ms' = ms \<union> (\<lambda>m. to_upper U (trim_space m)) ` set xs"
proof (induction xs arbitrary: ms)
  case Nil
  then show ?case by simp
next
  case (Cons x xs)
  let ?x = "to_upper U (trim_space x)"
  have tok: "isHTTPToken ?x" and rec: "compile_methods U (insert ?x ms) xs = Inr ms'"
    using Cons.prems(1) by (simp_all add: Let_def split: if_splits)
  have "finite ms' \<and> (\<forall>m \<in> ms'. isHTTPToken m)
      \<and> ms' = insert ?x ms \<union> (\<lambda>m. to_upper U (trim_space m)) ` set xs"
    by (rule Cons.IH [OF rec]) (use tok Cons.prems in simp_all)
  then show ?case by (elim conjE, intro conjI) (assumption, assumption, auto)
qed

lemma compileRoute_Inr:
  assumes "compileRoute U r = Inr c"
  obtains methods where
    "trim_space (route_name r) \<noteq> []" "trim_space (route_upstream r) \<noteq> []"
    "(trim_space (match_exact (route_match r)) = []) \<noteq> (trim_space (match_prefix (route_match r)) = [])"
    "has_prefix (if trim_space (match_exact (route_match r)) = []
       then trim_space (match_prefix (route_match r)) else trim_space (match_exact (route_match r))) ''/''"
    "route_access r = accessProtected \<or> route_access r = accessPublic" "0 \<le> route_max_body r"
    "compile_methods U {} (match_methods (route_match r)) = Inr methods"
    "c = \<lparr>cr_route = r\<lparr>route_name := trim_space (route_name r),
               route_upstream := trim_space (route_upstream r),
               route_match := \<lparr>match_methods = sortedKeys methods,
                               match_exact = trim_space (match_exact (route_match r)),
                               match_prefix = trim_space (match_prefix (route_match r))\<rparr>\<rparr>,
          cr_methods = methods\<rparr>"
  using assms unfolding compileRoute_def Let_def if_Inl_eq_Inr and_then_eq_Inr
  by (auto simp del: has_prefix.simps)

lemma compileRoute_well_formed: "compileRoute U r = Inr c \<Longrightarrow> well_formed_route c"
proof (erule compileRoute_Inr, goal_cases)
  case (1 methods)
  from compile_methods_ok [OF 1(7)] have "finite methods \<and> (\<forall>m \<in> methods. isHTTPToken m)"
    by simp
  with 1 show ?case by (auto simp: well_formed_route_def simp del: has_prefix.simps)
qed

lemma compileRoute_fields:
  assumes "compileRoute U r = Inr c"
  shows "route_name (cr_route c) = trim_space (route_name r)"
    "route_upstream (cr_route c) = trim_space (route_upstream r)"
    "exact_of c = trim_space (match_exact (route_match r))"
    "prefix_of c = trim_space (match_prefix (route_match r))"
    "route_access (cr_route c) = route_access r"
    "route_max_body (cr_route c) = route_max_body r"
  using assms by (auto elim!: compileRoute_Inr simp del: has_prefix.simps)

section \<open>The match key tells matches apart\<close>

lemma last_nul_unique:
  "a @ x # m = b @ x # n \<Longrightarrow> x \<notin> set m \<Longrightarrow> x \<notin> set n \<Longrightarrow> a = b \<and> m = n"
proof (induction a arbitrary: b)
  case Nil
  then show ?case by (cases b) auto
next
  case (Cons y a)
  then show ?case by (cases b) auto
qed

lemma token_no_separator:
  assumes "isHTTPToken m" shows "CHR 0x00 \<notin> set m" "CHR '','' \<notin> set m"
  using assms by (auto simp: isHTTPToken_iff token_byte_def)

lemma set_join: "set (join sep xs) \<subseteq> set sep \<union> \<Union> (set ` set xs)"
  by (induction sep xs rule: join.induct) auto

lemma join_tokens_inject:
  assumes "join '','' xs = join '','' ys" "\<forall>x \<in> set xs. isHTTPToken x" "\<forall>y \<in> set ys. isHTTPToken y"
  shows "xs = ys"
proof -
  have ne: "join '','' zs = [] \<longleftrightarrow> zs = []" if "\<forall>z \<in> set zs. isHTTPToken z" for zs
    using that by (cases "('','', zs)" rule: join.cases) (auto simp: isHTTPToken_iff)
  show ?thesis
  proof (cases "xs = [] \<or> ys = []")
    case True
    then show ?thesis using ne assms by metis
  next
    case False
    then show ?thesis
      using assms split_on_join [of xs "CHR '',''"] split_on_join [of ys "CHR '',''"]
        token_no_separator(2) by metis
  qed
qed

text \<open>Exactly one of the two paths of a compiled route is set, and it starts with a slash.\<close>

definition match_shape_ok :: "string \<Rightarrow> string \<Rightarrow> bool" where
  "match_shape_ok e p \<longleftrightarrow> e = [] \<and> (\<exists>t. p = CHR ''/'' # t) \<or> p = [] \<and> (\<exists>t. e = CHR ''/'' # t)"

lemma match_shape: "well_formed_route c \<Longrightarrow> match_shape_ok (exact_of c) (prefix_of c)"
  unfolding well_formed_route_def match_shape_ok_def has_prefix_iff by (auto split: if_splits)

lemma match_shape_inject:
  "match_shape_ok e p \<Longrightarrow> match_shape_ok e' p' \<Longrightarrow>
   e @ [CHR 0x00] @ p = e' @ [CHR 0x00] @ p' \<Longrightarrow> e = e' \<and> p = p'"
  by (auto simp: match_shape_ok_def)

lemma routeMatchKey_inject:
  assumes "well_formed_route c" "well_formed_route d" "routeMatchKey c = routeMatchKey d"
  shows "exact_of c = exact_of d" "prefix_of c = prefix_of d" "cr_methods c = cr_methods d"
proof -
  let ?m = "\<lambda>c. match_methods (route_match (cr_route c))"
  have tok: "\<forall>m \<in> set (?m x). isHTTPToken m" and fin: "finite (cr_methods x)"
    and ms: "?m x = sortedKeys (cr_methods x)" if "well_formed_route x" for x
    using that by (auto simp: well_formed_route_def sortedKeys_def)
  have nonul: "CHR 0x00 \<notin> set (join '','' (?m x))" if "well_formed_route x" for x
  proof
    assume "CHR 0x00 \<in> set (join '','' (?m x))"
    then obtain m where "m \<in> set (?m x)" "CHR 0x00 \<in> set m"
      using set_join [of "'',''" "?m x"] by auto
    then show False using tok [OF that] token_no_separator(1) by blast
  qed
  have "(exact_of c @ [CHR 0x00] @ prefix_of c) @ CHR 0x00 # join '','' (?m c)
      = (exact_of d @ [CHR 0x00] @ prefix_of d) @ CHR 0x00 # join '','' (?m d)"
    using assms(3) by (simp add: routeMatchKey_def Let_def)
  then have e: "exact_of c @ [CHR 0x00] @ prefix_of c = exact_of d @ [CHR 0x00] @ prefix_of d"
    and j: "join '','' (?m c) = join '','' (?m d)"
    using last_nul_unique [OF _ nonul [OF assms(1)] nonul [OF assms(2)]] by blast+
  have "exact_of c = exact_of d \<and> prefix_of c = prefix_of d"
    by (rule match_shape_inject [OF match_shape [OF assms(1)] match_shape [OF assms(2)] e])
  then show "exact_of c = exact_of d" "prefix_of c = prefix_of d" by simp_all
  have "?m c = ?m d"
    by (rule join_tokens_inject [OF j tok [OF assms(1)] tok [OF assms(2)]])
  then have "set (sortedKeys (cr_methods c)) = set (sortedKeys (cr_methods d))"
    using ms assms(1,2) by simp
  then show "cr_methods c = cr_methods d"
    using fin assms(1,2) by (simp add: sortedKeys_def)
qed

section \<open>What the table holds\<close>

text \<open>The table holds the compiled routes, no two of which have the same match.\<close>

lemma add_routes_ok:
  "add_routes U i seen rr rs = Inr rr' \<Longrightarrow>
   \<exists>cs. map_result (compileRoute U) rs = Inr cs \<and> distinct (map routeMatchKey cs)
      \<and> routeMatchKey ` set cs \<inter> seen = {}
      \<and> rr' = rr\<lparr>rr_exact := rr_exact rr @ filter is_exact cs,
                rr_prefixes := rr_prefixes rr @ filter (\<lambda>c. \<not> is_exact c) cs\<rparr>"
proof (induction rs arbitrary: i seen rr)
  case Nil
  then show ?case by auto
next
  case (Cons r rs)
  then obtain c where c: "compileRoute U r = Inr c" and new: "routeMatchKey c \<notin> seen"
    and rec: "add_routes U (Suc i) (insert (routeMatchKey c) seen)
            (if is_exact c then rr\<lparr>rr_exact := rr_exact rr @ [c]\<rparr>
             else rr\<lparr>rr_prefixes := rr_prefixes rr @ [c]\<rparr>) rs = Inr rr'"
    by (auto simp: Let_def split: sum.splits if_splits)
  from Cons.IH [OF rec] obtain cs where cs: "map_result (compileRoute U) rs = Inr cs"
    "distinct (map routeMatchKey cs)" "routeMatchKey ` set cs \<inter> insert (routeMatchKey c) seen = {}"
    "rr' = (if is_exact c then rr\<lparr>rr_exact := rr_exact rr @ [c]\<rparr>
             else rr\<lparr>rr_prefixes := rr_prefixes rr @ [c]\<rparr>)
        \<lparr>rr_exact := rr_exact (if is_exact c then rr\<lparr>rr_exact := rr_exact rr @ [c]\<rparr>
             else rr\<lparr>rr_prefixes := rr_prefixes rr @ [c]\<rparr>) @ filter is_exact cs,
         rr_prefixes := rr_prefixes (if is_exact c then rr\<lparr>rr_exact := rr_exact rr @ [c]\<rparr>
             else rr\<lparr>rr_prefixes := rr_prefixes rr @ [c]\<rparr>) @ filter (\<lambda>c. \<not> is_exact c) cs\<rparr>"
    by blast
  show ?case
    by (rule exI [of _ "c # cs"]) (use c new cs in auto)
qed

text \<open>The compiled routes of a table, in the order of declaration.\<close>

definition compiled_table :: "unicode_tables \<Rightarrow> route list \<Rightarrow> compiled_route list" where
  "compiled_table U routes = (case map_result (compileRoute U) routes of Inr cs \<Rightarrow> cs | Inl e \<Rightarrow> [])"

lemma newStaticRouteResolver_ok:
  assumes "newStaticRouteResolver U routes = Inr rr"
  shows "map_result (compileRoute U) routes = Inr (compiled_table U routes)"
    "distinct (map routeMatchKey (compiled_table U routes))"
    "rr_exact rr = filter is_exact (compiled_table U routes)"
    "rr_prefixes rr = sort_prefixes (filter (\<lambda>c. \<not> is_exact c) (compiled_table U routes))"
  using assms
  by (auto simp: newStaticRouteResolver_def and_then_eq_Inr compiled_table_def
      dest!: add_routes_ok split: if_splits)

lemma compiled_table_well_formed:
  assumes "newStaticRouteResolver U routes = Inr rr" "c \<in> set (compiled_table U routes)"
  shows "well_formed_route c"
proof -
  have "list_all2 (\<lambda>x y. compileRoute U x = Inr y) routes (compiled_table U routes)"
    using newStaticRouteResolver_ok(1) [OF assms(1)] by (simp add: map_result_eq_Inr)
  then obtain r where "compileRoute U r = Inr c"
    using assms(2) by (auto dest: list_all2_right_mem)
  then show ?thesis by (rule compileRoute_well_formed)
qed

section \<open>Resolving\<close>

lemma first_match_Some:
  "first_match p cs = Some r \<longleftrightarrow>
     (\<exists>pre c post. cs = pre @ c # post \<and> p c \<and> r = cr_route c \<and> (\<forall>d \<in> set pre. \<not> p d))"
proof (induction cs)
  case Nil
  then show ?case by simp
next
  case (Cons x cs)
  show ?case
  proof (cases "p x")
    case True
    then show ?thesis
      by (auto simp: Cons_eq_append_conv intro: exI [of _ "[]"])
  next
    case False
    with Cons show ?thesis
      by (auto simp: Cons_eq_append_conv) (metis list.set_intros append_Cons set_ConsD)+
  qed
qed

lemma first_match_None: "first_match p cs = None \<longleftrightarrow> (\<forall>c \<in> set cs. \<not> p c)"
  by (induction cs) auto

text \<open>When a compiled route matches a request: its methods accept it and its path covers it.\<close>

definition covers :: "unicode_tables \<Rightarrow> compiled_route \<Rightarrow> string \<Rightarrow> string \<Rightarrow> bool" where
  "covers U c path method \<longleftrightarrow>
     accepts U c method \<and> (if is_exact c then exact_of c = path else has_prefix path (prefix_of c))"

text \<open>The order in which a match is preferred: exact paths, then longer prefixes.\<close>

definition preferred :: "compiled_route \<Rightarrow> compiled_route \<Rightarrow> bool" where
  "preferred c d \<longleftrightarrow>
     is_exact c \<or> \<not> is_exact d \<and> length (prefix_of d) \<le> length (prefix_of c)"

lemma set_sort_prefixes [simp]: "set (sort_prefixes cs) = set cs"
  by (simp add: sort_prefixes_def)

lemma sorted_prefixes_before:
  assumes "sort_prefixes cs = pre @ c # post" "d \<in> set post"
  shows "length (prefix_of d) \<le> length (prefix_of c)"
proof -
  have "sorted (map (\<lambda>c. - int (length (prefix_of c))) (sort_prefixes cs))"
    by (simp add: sort_prefixes_def)
  then have "- int (length (prefix_of c)) \<le> - int (length (prefix_of d))"
    using assms by (auto simp: sorted_append)
  then show ?thesis by simp
qed

lemma resolve_best:
  assumes "newStaticRouteResolver U routes = Inr rr" "resolve U rr path method = Some r"
  shows "\<exists>c \<in> set (compiled_table U routes). r = cr_route c \<and> covers U c path method
           \<and> (\<forall>d \<in> set (compiled_table U routes). covers U d path method \<longrightarrow> preferred c d)"
proof -
  note ok = newStaticRouteResolver_ok [OF assms(1)]
  let ?e = "\<lambda>c. exact_of c = path \<and> accepts U c method"
  let ?p = "\<lambda>c. has_prefix path (prefix_of c) \<and> accepts U c method"
  show ?thesis
  proof (cases "first_match ?e (rr_exact rr)")
    case (Some r')
    with assms(2) have "r' = r" by (simp add: resolve_def)
    with Some obtain pre c post where "rr_exact rr = pre @ c # post" "?e c" "r = cr_route c"
      by (auto simp: first_match_Some)
    moreover from this have "c \<in> set (rr_exact rr)" by simp
    then have "c \<in> set (compiled_table U routes)" "is_exact c"
      using ok(3) by simp_all
    ultimately show ?thesis
      by (auto simp: covers_def preferred_def)
  next
    case None
    with assms(2) obtain pre c post where c: "rr_prefixes rr = pre @ c # post" "?p c" "r = cr_route c"
      "\<forall>d \<in> set pre. \<not> ?p d"
      by (auto simp: resolve_def first_match_Some)
    then have "c \<in> set (rr_prefixes rr)" by simp
    then have mem: "c \<in> set (compiled_table U routes)" "\<not> is_exact c"
      using ok(4) by simp_all
    have best: "preferred c d" if d: "d \<in> set (compiled_table U routes)" "covers U d path method" for d
    proof (cases "is_exact d")
      case True
      then show ?thesis using None d ok(3) by (auto simp: first_match_None covers_def)
    next
      case False
      then have "d \<in> set (rr_prefixes rr)" using d(1) ok(4) by simp
      moreover have "d \<notin> set pre" using d(2) False c(4) by (auto simp: covers_def)
      ultimately have "d = c \<or> d \<in> set post" using c(1) by auto
      then show ?thesis
        using sorted_prefixes_before c(1) ok(4) False by (metis le_refl preferred_def)
    qed
    show ?thesis using c mem best by (auto simp: covers_def)
  qed
qed

lemma resolve_none:
  assumes "newStaticRouteResolver U routes = Inr rr"
  shows "resolve U rr path method = None \<longleftrightarrow>
           (\<forall>c \<in> set (compiled_table U routes). \<not> covers U c path method)"
proof -
  note ok = newStaticRouteResolver_ok [OF assms]
  have "resolve U rr path method = None \<longleftrightarrow>
      first_match (\<lambda>c. exact_of c = path \<and> accepts U c method) (rr_exact rr) = None
      \<and> first_match (\<lambda>c. has_prefix path (prefix_of c) \<and> accepts U c method) (rr_prefixes rr) = None"
    by (auto simp: resolve_def split: option.splits)
  then show ?thesis
    by (auto simp: first_match_None ok(3,4) covers_def)
qed

text \<open>Two preferred matches have the same path; they can only differ in their methods.\<close>

lemma preferred_same_path:
  assumes "well_formed_route c" "well_formed_route d" "covers U c path method" "covers U d path method"
    "preferred c d" "preferred d c"
  shows "exact_of c = exact_of d" "prefix_of c = prefix_of d"
  using assms
  by (auto simp: preferred_def covers_def well_formed_route_def is_exact_def
      intro: has_prefix_same_length split: if_splits)

section \<open>Properties of the table\<close>

text \<open>
  C10 Routing is a best match: for a table that compiles, a request gets a route exactly when some
  declared route covers its path and method, and then one that no other covering route is preferred to
  (an exact path wins over prefixes, a longer prefix over a shorter one).
\<close>

theorem route_resolution:
  assumes "newStaticRouteResolver U routes = Inr rr"
  shows "case resolve U rr path method of
       None \<Rightarrow> \<forall>c \<in> set (compiled_table U routes). \<not> covers U c path method
     | Some r \<Rightarrow> \<exists>c \<in> set (compiled_table U routes). r = cr_route c \<and> covers U c path method
         \<and> (\<forall>d \<in> set (compiled_table U routes). covers U d path method \<longrightarrow> preferred c d)"
  using resolve_none [OF assms] resolve_best [OF assms] by (auto split: option.split)

text \<open>
  A table that compiles has no two routes with the same match: no two declarations have the same
  exact path or the same prefix together with the same set of methods.
\<close>

theorem route_table_unambiguous:
  assumes "newStaticRouteResolver U routes = Inr rr" "i < length routes" "j < length routes" "i \<noteq> j"
  shows "(let t = compiled_table U routes in
     (exact_of (t ! i), prefix_of (t ! i), cr_methods (t ! i))
       \<noteq> (exact_of (t ! j), prefix_of (t ! j), cr_methods (t ! j)))"
proof -
  note ok = newStaticRouteResolver_ok [OF assms(1)]
  let ?t = "compiled_table U routes"
  have len: "length ?t = length routes" using map_result_length [OF ok(1)] .
  have key: "routeMatchKey (?t ! i) \<noteq> routeMatchKey (?t ! j)"
    using ok(2) assms(2-4) len by (auto simp: distinct_conv_nth)
  have "match_methods (route_match (cr_route c)) = sortedKeys (cr_methods c)" if "c \<in> set ?t" for c
    using compiled_table_well_formed [OF assms(1) that] by (simp add: well_formed_route_def)
  then have "match_methods (route_match (cr_route (?t ! i))) = sortedKeys (cr_methods (?t ! i))"
    "match_methods (route_match (cr_route (?t ! j))) = sortedKeys (cr_methods (?t ! j))"
    using assms(2,3) len by simp_all
  with key show ?thesis by (auto simp: routeMatchKey_def Let_def)
qed

end
