(* ===== verification/Credential.thy ===== *)
theory Credential
  imports HttpHeader
begin

text \<open>
  Credential extraction, \<open>sdk/go/gateway/credential.go\<close>: \<open>BearerCredential\<close> and
  \<open>CookieCredential\<close>, as functions of the request's header. The empty string is "no credential";
  the error is the sentinel \<open>ErrInvalidCredential\<close>. \<open>http.ParseCookie\<close> is modelled here because
  the extractor's decision rests on which lines it refuses.
\<close>

definition errInvalidCredential :: go_error where
  "errInvalidCredential = Sentinel ''invalid credential''"

section \<open>Bearer\<close>

text \<open>Token bytes of \<open>token68\<close> (RFC 7235), padding apart.\<close>

definition bearer_rune :: "nat \<Rightarrow> bool" where
  "bearer_rune c \<longleftrightarrow> 97 \<le> c \<and> c \<le> 122 \<or> 65 \<le> c \<and> c \<le> 90 \<or> 48 \<le> c \<and> c \<le> 57
     \<or> c \<in> byte ` set ''-._~+/''"

text \<open>The loop over the runes, with its \<open>padding\<close> flag.\<close>

fun bearer_scan :: "bool \<Rightarrow> nat list \<Rightarrow> bool" where
  "bearer_scan padding [] = True"
| "bearer_scan padding (c # cs) =
     (if c = byte (CHR ''='') then bearer_scan True cs
      else if padding \<or> \<not> bearer_rune c then False
      else bearer_scan padding cs)"

definition trim_left_char :: "char \<Rightarrow> string \<Rightarrow> string" where
  "trim_left_char d s = dropWhile (\<lambda>c. c = d) s"

definition BearerCredential :: "header \<Rightarrow> string result" where
  "BearerCredential h =
     (let values = header_values h ''Authorization'' in
      if length values = 0 then Inr []
      else if length values \<noteq> 1 then Inl errInvalidCredential
      else let value = trim_space (values ! 0); (scheme, token, ok) = cut_at (CHR '' '') value in
        if \<not> ok \<or> \<not> equal_fold_ascii scheme ''Bearer'' then Inl errInvalidCredential
        else let token = trim_left_char (CHR '' '') token in
          if token = [] then Inl errInvalidCredential
          else if \<not> bearer_scan False (map fst (runes token)) then Inl errInvalidCredential
          else if token ! 0 = CHR ''='' then Inl errInvalidCredential
          else Inr token)"

text \<open>The grammar the loop recognises: one or more token bytes, then any number of \<open>=\<close>.\<close>

definition token68 :: "string \<Rightarrow> bool" where
  "token68 t \<longleftrightarrow> (\<exists>body n. t = body @ replicate n (CHR ''='') \<and> body \<noteq> []
                     \<and> (\<forall>c \<in> set body. bearer_rune (byte c)))"

lemma bearer_rune_ascii: "bearer_rune c \<Longrightarrow> 33 \<le> c \<and> c < 127"
  by (auto simp: bearer_rune_def)

lemma bearer_scan_small: "bearer_scan p cs \<Longrightarrow> \<forall>c \<in> set cs. 33 \<le> c \<and> c < 127"
  by (induction p cs rule: bearer_scan.induct) (auto dest: bearer_rune_ascii split: if_splits)

lemma bearer_scan_padding: "bearer_scan True (map byte t) \<longleftrightarrow> (\<exists>n. t = replicate n (CHR ''=''))"
proof (induction t)
  case Nil
  then show ?case by simp
next
  case (Cons c t)
  have "byte c = 61 \<longleftrightarrow> c = CHR ''=''"
    using byte_inject [of c "CHR ''=''"] by simp
  moreover have "(\<exists>n. c # t = replicate n (CHR ''='')) \<longleftrightarrow> c = CHR ''='' \<and> (\<exists>n. t = replicate n (CHR ''=''))"
  proof
    assume "\<exists>n. c # t = replicate n (CHR ''='')"
    then obtain n where n: "c # t = replicate n (CHR ''='')" ..
    then show "c = CHR ''='' \<and> (\<exists>n. t = replicate n (CHR ''=''))" by (cases n) auto
  next
    assume "c = CHR ''='' \<and> (\<exists>n. t = replicate n (CHR ''=''))"
    then obtain n where "c # t = replicate (Suc n) (CHR ''='')" by auto
    then show "\<exists>n. c # t = replicate n (CHR ''='')" ..
  qed
  ultimately show ?case using Cons by simp
qed

lemma bearer_scan_body:
  "bearer_scan False (map byte t) \<longleftrightarrow>
     (\<exists>body n. t = body @ replicate n (CHR ''='') \<and> (\<forall>c \<in> set body. bearer_rune (byte c)))"
proof (induction t)
  case Nil
  then show ?case by simp
next
  case (Cons c t)
  have eq: "byte c = 61 \<longleftrightarrow> c = CHR ''=''"
    using byte_inject [of c "CHR ''=''"] by simp
  have noteq: "\<not> bearer_rune 61" by (simp add: bearer_rune_def)
  show ?case
  proof (cases "c = CHR ''=''")
    case True
    have "bearer_scan False (map byte (c # t)) \<longleftrightarrow> (\<exists>n. t = replicate n (CHR ''=''))"
      using True by (simp add: bearer_scan_padding)
    also have "\<dots> \<longleftrightarrow> (\<exists>body n. c # t = body @ replicate n (CHR ''='') \<and> (\<forall>c \<in> set body. bearer_rune (byte c)))"
    proof
      assume "\<exists>n. t = replicate n (CHR ''='')"
      then obtain n where "c # t = [] @ replicate (Suc n) (CHR ''='')" using True by auto
      then show "\<exists>body n. c # t = body @ replicate n (CHR ''='') \<and> (\<forall>c \<in> set body. bearer_rune (byte c))"
        by fastforce
    next
      assume "\<exists>body n. c # t = body @ replicate n (CHR ''='') \<and> (\<forall>c \<in> set body. bearer_rune (byte c))"
      then obtain body n where b: "c # t = body @ replicate n (CHR ''='')" "\<forall>c \<in> set body. bearer_rune (byte c)"
        by blast
      then have "body = []" using True noteq by (cases body) auto
      with b show "\<exists>n. t = replicate n (CHR ''='')" by (cases n) auto
    qed
    finally show ?thesis .
  next
    case False
    have "bearer_scan False (map byte (c # t)) \<longleftrightarrow> bearer_rune (byte c) \<and> bearer_scan False (map byte t)"
      using False eq by auto
    also have "\<dots> \<longleftrightarrow> (\<exists>body n. c # t = body @ replicate n (CHR ''='') \<and> (\<forall>c \<in> set body. bearer_rune (byte c)))"
    proof
      assume "bearer_rune (byte c) \<and> bearer_scan False (map byte t)"
      then obtain body n where "c # t = (c # body) @ replicate n (CHR ''='')"
        "\<forall>c \<in> set (c # body). bearer_rune (byte c)" using Cons by auto
      then show "\<exists>body n. c # t = body @ replicate n (CHR ''='') \<and> (\<forall>c \<in> set body. bearer_rune (byte c))"
        by blast
    next
      assume "\<exists>body n. c # t = body @ replicate n (CHR ''='') \<and> (\<forall>c \<in> set body. bearer_rune (byte c))"
      then obtain body n where b: "c # t = body @ replicate n (CHR ''='')" "\<forall>c \<in> set body. bearer_rune (byte c)"
        by blast
      then obtain body' where "body = c # body'"
        using False by (cases body; cases n) auto
      with b Cons show "bearer_rune (byte c) \<and> bearer_scan False (map byte t)" by auto
    qed
    finally show ?thesis .
  qed
qed

lemma bearer_scan_runes: "bearer_scan False (map fst (runes t)) \<longleftrightarrow> bearer_scan False (map byte t)"
proof
  assume "bearer_scan False (map fst (runes t))"
  then have "\<forall>(r, w) \<in> set (runes t). 33 \<le> r \<and> r < 127"
    using bearer_scan_small by fastforce
  then have "\<forall>c \<in> set t. 33 \<le> byte c \<and> byte c < 127"
    by (rule runes_all_small) simp
  then have "is_ascii t" by (force simp: is_ascii_def)
  with \<open>bearer_scan False (map fst (runes t))\<close> show "bearer_scan False (map byte t)"
    by (simp add: runes_ascii comp_def)
next
  assume b: "bearer_scan False (map byte t)"
  then have "is_ascii t" by (force dest: bearer_scan_small simp: is_ascii_def)
  with b show "bearer_scan False (map fst (runes t))"
    by (simp add: runes_ascii comp_def)
qed

lemma bearer_checks_iff:
  "t \<noteq> [] \<and> bearer_scan False (map fst (runes t)) \<and> t ! 0 \<noteq> CHR ''='' \<longleftrightarrow> token68 t"
proof
  assume a: "t \<noteq> [] \<and> bearer_scan False (map fst (runes t)) \<and> t ! 0 \<noteq> CHR ''=''"
  then obtain body n where b: "t = body @ replicate n (CHR ''='')" "\<forall>c \<in> set body. bearer_rune (byte c)"
    by (auto simp: bearer_scan_runes bearer_scan_body)
  with a have "body \<noteq> []" by (cases n) auto
  with b show "token68 t" by (auto simp: token68_def)
next
  assume "token68 t"
  then obtain body n where b: "t = body @ replicate n (CHR ''='')" "body \<noteq> []" "\<forall>c \<in> set body. bearer_rune (byte c)"
    by (auto simp: token68_def)
  moreover have "\<not> bearer_rune (byte (CHR ''=''))" by (simp add: bearer_rune_def)
  ultimately have "t ! 0 \<noteq> CHR ''=''" by (cases body) auto
  moreover have "bearer_scan False (map byte t)"
    unfolding bearer_scan_body using b by blast
  ultimately show "t \<noteq> [] \<and> bearer_scan False (map fst (runes t)) \<and> t ! 0 \<noteq> CHR ''=''"
    using b by (simp add: bearer_scan_runes)
qed

lemma token68_visible: "token68 t \<Longrightarrow> c \<in> set t \<Longrightarrow> 33 \<le> byte c \<and> byte c < 127"
  by (auto simp: token68_def dest!: bearer_rune_ascii)

text \<open>Every result of the extractor: nothing, a \<open>token68\<close>, or \<open>ErrInvalidCredential\<close>.\<close>

lemma BearerCredential_cases:
  obtains (absent) "BearerCredential h = Inr []" "header_values h ''Authorization'' = []"
  | (token) v scheme rest t where "BearerCredential h = Inr t" "token68 t"
      "header_values h ''Authorization'' = [v]" "cut_at (CHR '' '') (trim_space v) = (scheme, rest, True)"
      "equal_fold_ascii scheme ''Bearer''" "t = trim_left_char (CHR '' '') rest"
  | (invalid) "BearerCredential h = Inl errInvalidCredential" "header_values h ''Authorization'' \<noteq> []"
proof -
  show ?thesis
  proof (cases "header_values h ''Authorization''")
    case Nil
    then show ?thesis by (intro absent) (simp_all add: BearerCredential_def)
  next
    case (Cons v vs)
    obtain scheme rest ok where cut: "cut_at (CHR '' '') (trim_space v) = (scheme, rest, ok)"
      by (cases "cut_at (CHR '' '') (trim_space v)") auto
    let ?t = "trim_left_char (CHR '' '') rest"
    show ?thesis
    proof (cases "vs = [] \<and> ok \<and> equal_fold_ascii scheme ''Bearer'' \<and> token68 ?t")
      case True
      then have "BearerCredential h = Inr ?t"
        using Cons cut bearer_checks_iff [of ?t] by (auto simp: BearerCredential_def Let_def)
      then show ?thesis using True Cons cut by (intro token) auto
    next
      case False
      then have "BearerCredential h = Inl errInvalidCredential"
        using Cons cut bearer_checks_iff [of ?t] by (auto simp: BearerCredential_def Let_def)
      then show ?thesis using Cons by (intro invalid) simp_all
    qed
  qed
qed

lemma equal_fold_bearer_visible:
  assumes "equal_fold_ascii scheme ''Bearer''"
  shows "scheme \<noteq> [] \<and> (\<forall>c \<in> set scheme. 33 \<le> byte c \<and> byte c \<le> 126)"
proof -
  have m: "map ascii_lower scheme = map ascii_lower ''Bearer''"
    using assms by (simp add: equal_fold_ascii_def)
  have "33 \<le> byte c \<and> byte c \<le> 126" if "c \<in> set scheme" for c
  proof -
    have "byte (ascii_lower c) \<in> byte ` set (map ascii_lower ''Bearer'')"
      unfolding m [symmetric] using that by simp
    also have "byte ` set (map ascii_lower ''Bearer'') = {97, 98, 101, 114}"
      by (auto simp: byte_ascii_lower)
    finally show ?thesis
      by (auto simp: byte_ascii_lower split: if_splits)
  qed
  moreover have "scheme \<noteq> []" using m by auto
  ultimately show ?thesis by blast
qed

lemma BearerCredential_accepts:
  assumes "token68 t" "header_values h ''Authorization'' = [scheme @ '' '' @ t]"
    "equal_fold_ascii scheme ''Bearer''"
  shows "BearerCredential h = Inr t"
proof -
  note sch = equal_fold_bearer_visible [OF assms(3)]
  have t: "t \<noteq> []" "\<forall>c \<in> set t. 33 \<le> byte c \<and> byte c < 127"
    using assms(1) token68_visible by (auto simp: token68_def)
  have nsp: "\<not> is_space (byte c)" if "33 \<le> byte c \<and> byte c < 127" for c
    using that by (auto simp: is_space_def)
  have "is_ascii (scheme @ '' '' @ t)"
    using sch t by (force simp: is_ascii_def)
  moreover have "hd (scheme @ '' '' @ t) = hd scheme" "last (scheme @ '' '' @ t) = last t"
    using sch t by simp_all
  moreover have "hd scheme \<in> set scheme" "last t \<in> set t" using sch t by simp_all
  then have "33 \<le> byte (hd scheme) \<and> byte (hd scheme) < 127" "33 \<le> byte (last t) \<and> byte (last t) < 127"
    using sch t by fastforce+
  then have "\<not> is_space (byte (hd scheme))" "\<not> is_space (byte (last t))"
    using nsp by blast+
  ultimately have tr: "trim_space (scheme @ '' '' @ t) = scheme @ '' '' @ t"
    by (intro trim_space_framed) simp_all
  have "CHR '' '' \<notin> set scheme" using sch by fastforce
  then have cut: "cut_at (CHR '' '') (scheme @ '' '' @ t) = (scheme, t, True)"
    using cut_at_sep [of "CHR '' ''" scheme t] by simp
  have "hd t \<in> set t" using t(1) by simp
  then have "hd t \<noteq> CHR '' ''" using t(2) by fastforce
  then have tl: "trim_left_char (CHR '' '') t = t"
    by (simp add: trim_left_char_def dropWhile_eq_self_iff)
  show ?thesis
    unfolding BearerCredential_def assms(2)
    using tr cut tl assms(3) bearer_checks_iff [of t] assms(1) by (simp add: Let_def)
qed

section \<open>Cookie\<close>

text \<open>\<open>textproto.TrimString\<close>.\<close>

definition ascii_blank :: "char \<Rightarrow> bool" where
  "ascii_blank c \<longleftrightarrow> byte c \<in> {32, 9, 10, 13}"

definition trim_string :: "string \<Rightarrow> string" where
  "trim_string s = rev (dropWhile ascii_blank (rev (dropWhile ascii_blank s)))"

definition cookie_value_byte :: "char \<Rightarrow> bool" where
  "cookie_value_byte c \<longleftrightarrow> 32 \<le> byte c \<and> byte c < 127 \<and> byte c \<notin> {34, 59, 92}"

text \<open>\<open>parseCookieValue\<close> with double quotes allowed.\<close>

definition parse_cookie_value :: "string \<Rightarrow> string option" where
  "parse_cookie_value raw =
     (let v = (if length raw > 1 \<and> byte (hd raw) = 34 \<and> byte (last raw) = 34
               then butlast (tl raw) else raw) in
      if list_all cookie_value_byte v then Some v else None)"

definition parse_cookie_pair :: "string \<Rightarrow> (string \<times> string) option" where
  "parse_cookie_pair part =
     (let (name, value, found) = cut_at (CHR ''='') (trim_string part) in
      if \<not> found then None
      else if \<not> isHTTPToken name then None
      else map_option (Pair name) (parse_cookie_value value))"

fun all_pairs :: "string list \<Rightarrow> (string \<times> string) list option" where
  "all_pairs [] = Some []"
| "all_pairs (p # ps) =
     (case parse_cookie_pair p of
        None \<Rightarrow> None
      | Some c \<Rightarrow> (case all_pairs ps of None \<Rightarrow> None | Some cs \<Rightarrow> Some (c # cs)))"

text \<open>\<open>http.ParseCookie\<close>: every part of the line must be a well-formed pair.\<close>

definition parse_cookie :: "string \<Rightarrow> (string \<times> string) list option" where
  "parse_cookie line =
     (let parts = split_on (CHR '';'') (trim_string line) in
      if parts = [[]] then None else all_pairs parts)"

text \<open>The two loops: over the \<open>Cookie\<close> lines and over the cookies of a line.\<close>

fun cookies_of_line :: "string \<Rightarrow> string \<times> bool \<Rightarrow> (string \<times> string) list \<Rightarrow> (string \<times> bool) result" where
  "cookies_of_line name (value, found) [] = Inr (value, found)"
| "cookies_of_line name (value, found) ((n, v) # cs) =
     (if n \<noteq> name then cookies_of_line name (value, found) cs
      else if found then Inl errInvalidCredential
      else cookies_of_line name (v, True) cs)"

fun cookies_of_lines :: "string \<Rightarrow> string \<times> bool \<Rightarrow> string list \<Rightarrow> string result" where
  "cookies_of_lines name (value, found) [] = Inr value"
| "cookies_of_lines name (value, found) (line # lines) =
     (case parse_cookie line of
        None \<Rightarrow> Inl errInvalidCredential
      | Some cs \<Rightarrow> and_then (cookies_of_line name (value, found) cs) (\<lambda>st. cookies_of_lines name st lines))"

definition cookie_credential :: "string \<Rightarrow> header \<Rightarrow> string result" where
  "cookie_credential name h = cookies_of_lines name ([], False) (header_values h ''Cookie'')"

definition CookieCredential :: "string \<Rightarrow> (header \<Rightarrow> string result) result" where
  "CookieCredential name =
     (if \<not> isHTTPToken name then Inl (Plain ''credential cookie name is invalid'')
      else Inr (cookie_credential name))"

text \<open>The values a list of cookies gives to a name.\<close>

definition named :: "string \<Rightarrow> (string \<times> string) list \<Rightarrow> string list" where
  "named name cs = map snd (filter (\<lambda>c. fst c = name) cs)"

lemma named_simps [simp]:
  "named name [] = []"
  "named name ((n, v) # cs) = (if n = name then v # named name cs else named name cs)"
  "named name (cs @ ds) = named name cs @ named name ds"
  by (simp_all add: named_def)

lemma cookies_of_line_spec:
  "cookies_of_line name (val0, found) cs =
     (case named name cs of
        [] \<Rightarrow> Inr (val0, found)
      | [v] \<Rightarrow> if found then Inl errInvalidCredential else Inr (v, True)
      | v # w # vs \<Rightarrow> Inl errInvalidCredential)"
  by (induction name "(val0, found)" cs arbitrary: val0 found rule: cookies_of_line.induct)
    (auto split: list.splits)

text \<open>All cookies of a request, if every line parses.\<close>

fun all_cookies :: "string list \<Rightarrow> (string \<times> string) list option" where
  "all_cookies [] = Some []"
| "all_cookies (l # ls) =
     (case parse_cookie l of
        None \<Rightarrow> None
      | Some cs \<Rightarrow> (case all_cookies ls of None \<Rightarrow> None | Some ds \<Rightarrow> Some (cs @ ds)))"

lemma cookies_of_lines_spec:
  "cookies_of_lines name (val0, found) ls =
     (case all_cookies ls of
        None \<Rightarrow> Inl errInvalidCredential
      | Some cs \<Rightarrow>
          (case named name cs of
             [] \<Rightarrow> Inr val0
           | [v] \<Rightarrow> if found then Inl errInvalidCredential else Inr v
           | v # w # vs \<Rightarrow> Inl errInvalidCredential))"
proof (induction ls arbitrary: val0 found)
  case Nil
  then show ?case by simp
next
  case (Cons l ls)
  show ?case
  proof (cases "parse_cookie l")
    case None
    then show ?thesis by simp
  next
    case (Some cs)
    then show ?thesis
      by (auto simp: cookies_of_line_spec Cons.IH split: option.splits list.splits)
  qed
qed

section \<open>Properties of the extractors\<close>

text \<open>
  The bearer extractor accepts exactly one \<open>Authorization\<close> field of the form scheme, blanks, token,
  with the scheme \<open>Bearer\<close> in any case and the token a \<open>token68\<close>; no field means no credential; a
  field of any other form, or a second field, is refused with \<open>ErrInvalidCredential\<close>.
\<close>

theorem bearer_credential_exact:
  "BearerCredential h =
     (if header_values h ''Authorization'' = [] then Inr []
      else if (\<exists>v scheme rest. header_values h ''Authorization'' = [v]
          \<and> cut_at (CHR '' '') (trim_space v) = (scheme, rest, True) \<and> equal_fold_ascii scheme ''Bearer''
          \<and> token68 (trim_left_char (CHR '' '') rest))
      then Inr (trim_left_char (CHR '' '') (fst (snd (cut_at (CHR '' '') (trim_space (hd (header_values h ''Authorization'')))))))
      else Inl errInvalidCredential)"
proof (cases "header_values h ''Authorization''")
  case Nil
  then show ?thesis by (simp add: BearerCredential_def)
next
  case (Cons v vs)
  obtain scheme rest ok where cut: "cut_at (CHR '' '') (trim_space v) = (scheme, rest, ok)"
    by (cases "cut_at (CHR '' '') (trim_space v)") auto
  show ?thesis
    using Cons cut bearer_checks_iff [of "trim_left_char (CHR '' '') rest"]
    by (auto simp: BearerCredential_def Let_def)
qed

text \<open>
  The cookie extractor never chooses between two values: it returns one only when every \<open>Cookie\<close>
  line of the request is well formed and exactly one cookie over all lines has the configured name.
\<close>

theorem cookie_credential_unambiguous:
  "cookie_credential name h =
     (case all_cookies (header_values h ''Cookie'') of
        None \<Rightarrow> Inl errInvalidCredential
      | Some cs \<Rightarrow>
          (case named name cs of
             [] \<Rightarrow> Inr []
           | [v] \<Rightarrow> Inr v
           | v # w # vs \<Rightarrow> Inl errInvalidCredential))"
  by (auto simp: cookie_credential_def cookies_of_lines_spec split: option.splits list.splits)

end
