(* ===== verification/GatewayState.thy ===== *)
theory GatewayState
  imports RequestId Route Credential "HOL-Library.AList_Mapping"
begin

text \<open>
  The data the gateway's handlers share: \<open>Identity\<close> and \<open>AuthenticationDecision\<close>
  (\<open>authentication.go\<close>), \<open>GatewayError\<close> (\<open>response.go\<close>), \<open>AccessLog\<close> and \<open>accessLogState\<close>
  (\<open>access_log.go\<close>), \<open>Observation\<close> (\<open>observer.go\<close>), the rate-limit and policy records, the
  response recorder (\<open>response_recorder.go\<close>) and the \<open>Gateway\<close> struct (\<open>gateway.go\<close>).

  A component that the project supplies is a function of what the gateway passes it and of a world
  \<open>'w\<close>, the state of everything outside the gateway; it returns the new world, and it may panic.
  Components read the request; they do not change it. A component that writes a response returns
  the writes it makes, in order, and the panic that ended it, if one did. \<open>st_calls\<close> is a history
  variable: the calls made to components so far, latest first. No definition reads it.
\<close>

section \<open>Requests and identities\<close>

typedecl go_any

record identity =
  id_user :: string
  id_roles :: "string list"
  id_attributes :: "(string \<rightharpoonup> go_any) option"

text \<open>
  A request: the fields of \<open>http.Request\<close> the gateway reads or sets, and the values the gateway
  keeps in the request's context under its \<open>contextKey\<close>s.
\<close>

record http_request =
  req_method :: string
  req_path :: string
  req_raw_path :: string
  req_raw_query :: string
  req_header :: header
  req_host :: string
  req_tls :: bool
  req_remote :: string
  req_content_length :: int
  req_has_body :: bool
  req_body_limit :: "int option"
  ctx_request_id :: "string option"
  ctx_route :: "route option"
  ctx_identity :: "identity option"
  ctx_client_ip :: "string option"

definition headerXUserID :: string where "headerXUserID = ''X-User-ID''"
definition headerXUserRoles :: string where "headerXUserRoles = ''X-User-Roles''"

record auth_decision =
  ad_authenticated :: bool
  ad_identity :: identity
  ad_reason :: string

record request_context =
  rc_request_id :: string
  rc_client_ip :: string
  rc_route :: route
  rc_identity :: "identity option"

record policy_decision =
  pd_allowed :: bool
  pd_reason :: string

record rate_limit_request =
  rl_scope :: string
  rl_key :: string
  rl_route :: string
  rl_upstream :: string

record rate_limit_decision =
  rd_allowed :: bool
  rd_remaining :: int
  rd_retry_after :: int
  rd_reason :: string

definition scopeClientIP :: string where "scopeClientIP = ''client_ip''"
definition scopeUserID :: string where "scopeUserID = ''user_id''"
definition scopeUpstream :: string where "scopeUpstream = ''upstream''"

record gateway_error =
  ge_status :: int
  ge_code :: string
  ge_message :: string
  ge_retry_after :: int
  ge_cause :: "go_error option"

definition gateway_failure :: "int \<Rightarrow> string \<Rightarrow> string \<Rightarrow> gateway_error" where
  "gateway_failure status code message =
     \<lparr>ge_status = status, ge_code = code, ge_message = message, ge_retry_after = 0, ge_cause = None\<rparr>"

definition unavailableError :: "string \<Rightarrow> go_error \<Rightarrow> gateway_error" where
  "unavailableError code cause =
     \<lparr>ge_status = 503, ge_code = code, ge_message = ''service unavailable'', ge_retry_after = 0,
      ge_cause = Some cause\<rparr>"

section \<open>Access log and observations\<close>

record access_log =
  al_timestamp :: int
  al_request_id :: string
  al_method :: string
  al_path :: string
  al_route :: string
  al_client_ip :: string
  al_auth_result :: string
  al_user_id :: string
  al_roles :: "string list"
  al_upstream :: string
  al_status :: int
  al_elapsed :: int
  al_error_code :: string
  al_rate_limit :: "string \<rightharpoonup> string"

text \<open>Go embeds \<open>AccessLog\<close> in \<open>accessLogState\<close>; the record is extended.\<close>

record access_log_state = access_log +
  as_started :: int
  as_failure :: string
  as_skip_successful :: bool

datatype observation_kind = RequestCompleted | ComponentFailure | AccessLogFailure

record observation =
  ob_kind :: observation_kind
  ob_component :: string
  ob_route :: string
  ob_upstream :: string
  ob_status :: int
  ob_elapsed :: int

section \<open>Responses\<close>

text \<open>
  What reaches the writer the recorder wraps: a header write, with the header as it is at that
  moment, a piece of the body, or a flush. A handler that unwraps the recorder can flush the response
  (\<open>Flush\<close>), which the recorder does not see, and take the connection over (\<open>Hijack\<close>) and write a status and
  the header of the moment to it: the recorder does not see that either, \<open>rec_hijacked\<close> keeps it.
\<close>

datatype wire = WireHeader int header | WireBody string | WireFlush

record recorder =
  rec_header :: header
  rec_status :: int
  rec_wrote :: bool
  rec_wire :: "wire list"
  rec_hijacked :: "(int \<times> header) option"

datatype write_op =
    SetHeader string string
  | AddHeader string string
  | DelHeader string
  | ClearHeader
  | WriteHeader int
  | WriteBody string
  | Flush
  | Hijack int

type_synonym writes = "write_op list \<times> panic option"

section \<open>Components\<close>

type_synonym 'w route_resolver_fn = "http_request \<Rightarrow> 'w \<Rightarrow> route option result ext \<times> 'w"
type_synonym 'w authenticator_fn = "string \<Rightarrow> 'w \<Rightarrow> auth_decision result ext \<times> 'w"
type_synonym 'w extractor_fn = "http_request \<Rightarrow> 'w \<Rightarrow> string result ext \<times> 'w"
type_synonym 'w policy_fn = "http_request \<Rightarrow> request_context \<Rightarrow> 'w \<Rightarrow> policy_decision result ext \<times> 'w"
type_synonym 'w ip_resolver_fn = "http_request \<Rightarrow> 'w \<Rightarrow> string result ext \<times> 'w"
type_synonym 'w limiter_fn = "rate_limit_request \<Rightarrow> 'w \<Rightarrow> rate_limit_decision result ext \<times> 'w"
type_synonym 'w responder_fn = "recorder \<Rightarrow> http_request \<Rightarrow> gateway_error \<Rightarrow> 'w \<Rightarrow> writes \<times> 'w"
type_synonym 'w logger_fn = "access_log \<Rightarrow> 'w \<Rightarrow> unit result ext \<times> 'w"
type_synonym 'w observer_fn = "observation \<Rightarrow> 'w \<Rightarrow> unit ext \<times> 'w"

text \<open>
  An upstream handler writes to the response like any handler; the gateway's reverse proxy also
  reports its transport errors through the gateway's error path (\<open>UpstreamFails\<close>, with the request
  the responder is given, the outgoing one).
\<close>

datatype upstream_op = UpstreamWrites write_op | UpstreamFails http_request gateway_error

type_synonym 'w upstream_fn = "recorder \<Rightarrow> http_request \<Rightarrow> 'w \<Rightarrow> (upstream_op list \<times> panic option) \<times> 'w"

text \<open>\<open>ResolveUpstream\<close> gives a handler, a nil handler (\<open>None\<close>) or an error.\<close>

type_synonym 'w upstream_resolver_fn = "route \<Rightarrow> 'w \<Rightarrow> 'w upstream_fn option result ext \<times> 'w"

datatype health_kind = HealthLive | HealthReady

record health_result =
  hr_kind :: health_kind
  hr_service :: string

record cors_policy =
  cp_origins :: "string set"
  cp_wildcard :: bool
  cp_methods :: "string set"
  cp_headers :: "(string, string) mapping"
  cp_allow_origin :: string
  cp_methods_value :: string
  cp_headers_value :: string
  cp_credentials :: bool
  cp_max_age :: int

record 'w health_policy =
  hp_service :: string
  hp_live :: string
  hp_ready :: string
  hp_timeout :: int
  hp_readiness :: "(int \<Rightarrow> 'w \<Rightarrow> unit result ext \<times> 'w) option"
  hp_log_successful :: bool
  hp_responder :: "recorder \<Rightarrow> http_request \<Rightarrow> health_result \<Rightarrow> 'w \<Rightarrow> writes \<times> 'w"

record 'w gateway =
  gw_routes :: "'w route_resolver_fn"
  gw_upstreams :: "'w upstream_resolver_fn"
  gw_authenticator :: "'w authenticator_fn option"
  gw_extractor :: "'w extractor_fn"
  gw_authorizer :: "'w policy_fn option"
  gw_before_proxy :: "'w policy_fn option"
  gw_client_ip :: "'w ip_resolver_fn"
  gw_client_ip_limiter :: "'w limiter_fn option"
  gw_user_limiter :: "'w limiter_fn option"
  gw_upstream_limiter :: "'w limiter_fn option"
  gw_responder :: "'w responder_fn"
  gw_request_id :: "'w request_id_config"
  gw_cors :: "cors_policy option"
  gw_access_logger :: "'w logger_fn option"
  gw_observer :: "'w observer_fn option"
  gw_health :: "'w health_policy option"

section \<open>The state of one request\<close>

datatype call =
    CallGenerateID
  | CallReadiness
  | CallHealthResponder health_result
  | CallRoutes
  | CallUpstreams route
  | CallClientIP
  | CallLimiter rate_limit_request
  | CallExtractor
  | CallAuthenticator string
  | CallAuthorizer request_context
  | CallBeforeProxy request_context
  | CallUpstream http_request
  | CallErrorResponder gateway_error
  | CallAccessLogger access_log
  | CallObserver observation

record 'w st =
  st_req :: http_request
  st_rec :: recorder
  st_log :: access_log_state
  st_world :: 'w
  st_calls :: "call list"

text \<open>
  A stage of the handler goes on with a value, returns from \<open>ServeHTTP\<close>, or panics; in each case
  with the state it has reached.
\<close>

datatype ('s, 'a) flow =
    Continue 's 'a
  | Return 's
  | Panicking 's panic

fun flow_bind :: "('s, 'a) flow \<Rightarrow> ('s \<Rightarrow> 'a \<Rightarrow> ('s, 'b) flow) \<Rightarrow> ('s, 'b) flow" where
  "flow_bind (Continue s a) f = f s a"
| "flow_bind (Return s) f = Return s"
| "flow_bind (Panicking s p) f = Panicking s p"

fun flow_state :: "('s, 'a) flow \<Rightarrow> 's" where
  "flow_state (Continue s a) = s"
| "flow_state (Return s) = s"
| "flow_state (Panicking s p) = s"

text \<open>A call to a component: noted in the history, run on the world, its panic passed on.\<close>

definition invoke :: "call \<Rightarrow> ('w \<Rightarrow> 'a ext \<times> 'w) \<Rightarrow> 'w st \<Rightarrow> ('w st, 'a) flow" where
  "invoke c f st =
     (let (out, w') = f (st_world st); st' = st\<lparr>st_world := w', st_calls := c # st_calls st\<rparr> in
      case out of Ret a \<Rightarrow> Continue st' a | Panics p \<Rightarrow> Panicking st' p)"

lemma flow_bind_eq_Continue:
  "flow_bind m f = Continue s b \<longleftrightarrow> (\<exists>s' a. m = Continue s' a \<and> f s' a = Continue s b)"
  by (cases m) auto

lemma invoke_cases:
  obtains (ret) a w' where "f (st_world st) = (Ret a, w')"
      "invoke c f st = Continue (st\<lparr>st_world := w', st_calls := c # st_calls st\<rparr>) a"
  | (panics) p w' where "f (st_world st) = (Panics p, w')"
      "invoke c f st = Panicking (st\<lparr>st_world := w', st_calls := c # st_calls st\<rparr>) p"
proof -
  obtain out w' where "f (st_world st) = (out, w')" by fastforce
  then show ?thesis by (cases out) (auto simp: invoke_def intro: ret panics)
qed

end
