(* ===== verification/Response.thy ===== *)
theory Response
  imports GatewayState
begin

text \<open>
  Writing responses: the recorder's methods (\<open>sdk/go/gateway/response_recorder.go\<close>), the default
  responder, the responder the gateway wraps around the project's one, and \<open>fail\<close>
  (\<open>sdk/go/gateway/response.go\<close>), with \<open>recordGatewayError\<close> (\<open>access_log.go\<close>).
\<close>

section \<open>The recorder\<close>

definition newResponseRecorder :: recorder where
  "newResponseRecorder = \<lparr>rec_header = Map.empty, rec_status = 200, rec_wrote = False, rec_wire = [],
     rec_hijacked = None\<rparr>"

text \<open>
  The status that reaches the client comes from the wrapped \<open>net/http\<close> writer: informational header writes
  (1xx other than 101) are sent at once and do not count; a body or a flush without a header makes it 200;
  and a status that does not have three digits is refused with a panic, unless the response has already
  begun or the connection was taken over, when the write is ignored.
\<close>

definition informational :: "int \<Rightarrow> bool" where
  "informational n \<longleftrightarrow> 100 \<le> n \<and> n \<le> 199 \<and> n \<noteq> 101"

definition valid_status :: "int \<Rightarrow> bool" where
  "valid_status n \<longleftrightarrow> 100 \<le> n \<and> n \<le> 999"

fun client_status :: "wire list \<Rightarrow> int" where
  "client_status [] = 200"
| "client_status (WireHeader n h # ws) = (if informational n then client_status ws else n)"
| "client_status (WireBody b # ws) = 200"
| "client_status (WireFlush # ws) = 200"

fun response_begun :: "wire list \<Rightarrow> bool" where
  "response_begun [] = False"
| "response_begun (WireHeader n h # ws) = (if informational n then response_begun ws else True)"
| "response_begun (WireBody b # ws) = True"
| "response_begun (WireFlush # ws) = True"

definition client_receives :: "recorder \<Rightarrow> int" where
  "client_receives rc = (case rec_hijacked rc of Some (n, h) \<Rightarrow> n | None \<Rightarrow> client_status (rec_wire rc))"

text \<open>The recorder notes the status before it passes the write on, also one that \<open>net/http\<close> refuses.\<close>

definition rec_write_header :: "int \<Rightarrow> recorder \<Rightarrow> recorder" where
  "rec_write_header status rc =
     (if rec_wrote rc then rc
      else rc\<lparr>rec_status := status, rec_wrote := True,
              rec_wire := rec_wire rc @ (if valid_status status then [WireHeader status (rec_header rc)] else [])\<rparr>)"

definition header_panics :: "int \<Rightarrow> recorder \<Rightarrow> bool" where
  "header_panics status rc \<longleftrightarrow>
     \<not> rec_wrote rc \<and> \<not> valid_status status \<and> rec_hijacked rc = None \<and> \<not> response_begun (rec_wire rc)"

definition rec_write :: "string \<Rightarrow> recorder \<Rightarrow> recorder" where
  "rec_write body rc =
     (let rc' = (if \<not> rec_wrote rc then rec_write_header 200 rc else rc) in
      rc'\<lparr>rec_wire := rec_wire rc' @ [WireBody body]\<rparr>)"

fun apply_op :: "write_op \<Rightarrow> recorder \<Rightarrow> recorder" where
  "apply_op (SetHeader k v) rc = rc\<lparr>rec_header := header_set (rec_header rc) k v\<rparr>"
| "apply_op (AddHeader k v) rc = rc\<lparr>rec_header := header_add (rec_header rc) k v\<rparr>"
| "apply_op (DelHeader k) rc = rc\<lparr>rec_header := header_del (rec_header rc) k\<rparr>"
| "apply_op ClearHeader rc = rc\<lparr>rec_header := Map.empty\<rparr>"
| "apply_op (WriteHeader n) rc = rec_write_header n rc"
| "apply_op (WriteBody b) rc = rec_write b rc"
| "apply_op Flush rc = rc\<lparr>rec_wire := rec_wire rc @ [WireFlush]\<rparr>"
| "apply_op (Hijack n) rc = rc\<lparr>rec_hijacked := Some (n, rec_header rc)\<rparr>"

fun op_panics :: "write_op \<Rightarrow> recorder \<Rightarrow> bool" where
  "op_panics (WriteHeader n) rc = header_panics n rc"
| "op_panics x rc = False"

text \<open>The writes of a component, up to the one that panics, and how the component ends.\<close>

fun apply_ops :: "write_op list \<Rightarrow> recorder \<Rightarrow> recorder" where
  "apply_ops [] rc = rc"
| "apply_ops (x # xs) rc = (if op_panics x rc then apply_op x rc else apply_ops xs (apply_op x rc))"

definition invalidWriteHeader :: panic where
  "invalidWriteHeader = OtherPanic ''invalid WriteHeader code''"

fun ended_by :: "write_op list \<Rightarrow> panic option \<Rightarrow> recorder \<Rightarrow> panic option" where
  "ended_by [] ended rc = ended"
| "ended_by (x # xs) ended rc = (if op_panics x rc then Some invalidWriteHeader else ended_by xs ended (apply_op x rc))"

text \<open>
  The invariant of a recorder. Before a status was written only flushes were forwarded; the status that
  was written is forwarded after them if it is a valid one, and no other header write is.
\<close>

fun is_header_write :: "wire \<Rightarrow> bool" where
  "is_header_write (WireHeader n h) = True"
| "is_header_write other = False"

definition recorder_ok :: "recorder \<Rightarrow> bool" where
  "recorder_ok rc \<longleftrightarrow> (\<exists>k ws. (\<forall>w \<in> set ws. \<not> is_header_write w) \<and>
     (if \<not> rec_wrote rc then rec_wire rc = replicate k WireFlush \<and> rec_status rc = 200
      else if valid_status (rec_status rc)
      then \<exists>h. rec_wire rc = replicate k WireFlush @ WireHeader (rec_status rc) h # ws
      else rec_wire rc = replicate k WireFlush @ ws))"

lemma recorder_ok_new: "recorder_ok newResponseRecorder"
  by (auto simp: recorder_ok_def newResponseRecorder_def intro: exI [of _ 0] exI [of _ "[]"])

lemma recorder_ok_header [simp]:
  "recorder_ok (rc\<lparr>rec_header := h\<rparr>) = recorder_ok rc" "recorder_ok (rc\<lparr>rec_hijacked := j\<rparr>) = recorder_ok rc"
  by (simp_all add: recorder_ok_def)

lemma recorder_ok_unstarted:
  "\<not> rec_wrote rc \<Longrightarrow> recorder_ok rc \<longleftrightarrow> (\<exists>k. rec_wire rc = replicate k WireFlush) \<and> rec_status rc = 200"
proof -
  have nil: "\<exists>ws. \<forall>w \<in> set (ws :: wire list). \<not> is_header_write w" by (rule exI [of _ "[]"]) simp
  assume "\<not> rec_wrote rc"
  then show ?thesis using nil by (auto simp: recorder_ok_def)
qed

lemma recorder_ok_append:
  assumes "recorder_ok rc" "\<not> is_header_write w" "rec_wrote rc \<or> w = WireFlush"
  shows "recorder_ok (rc\<lparr>rec_wire := rec_wire rc @ [w]\<rparr>)"
proof (cases "rec_wrote rc")
  case True
  from assms(1) obtain k ws where ws: "\<forall>w \<in> set ws. \<not> is_header_write w"
    "if valid_status (rec_status rc) then \<exists>h. rec_wire rc = replicate k WireFlush @ WireHeader (rec_status rc) h # ws
      else rec_wire rc = replicate k WireFlush @ ws"
    by (auto simp: recorder_ok_def True)
  then show ?thesis
    using assms(2) True by (auto simp: recorder_ok_def intro!: exI [of _ k] exI [of _ "ws @ [w]"])
next
  case False
  with assms(3) have "w = WireFlush" by simp
  with assms(1) False show ?thesis
    by (auto simp: recorder_ok_unstarted intro: exI [of _ "Suc k" for k] simp flip: replicate_append_same)
qed

lemma recorder_ok_write_header: "recorder_ok rc \<Longrightarrow> recorder_ok (rec_write_header n rc)"
proof (cases "rec_wrote rc")
  case False
  assume "recorder_ok rc"
  with False obtain k where "rec_wire rc = replicate k WireFlush" by (auto simp: recorder_ok_unstarted)
  then show ?thesis
    by (auto simp: recorder_ok_def rec_write_header_def False intro!: exI [of _ k] exI [of _ "[]"])
qed (simp add: rec_write_header_def)

lemma rec_wrote_write_header [simp]: "rec_wrote (rec_write_header n rc)"
  by (simp add: rec_write_header_def)

lemma recorder_ok_write: "recorder_ok rc \<Longrightarrow> recorder_ok (rec_write b rc)"
  using recorder_ok_write_header [of rc 200] by (auto simp: rec_write_def Let_def intro!: recorder_ok_append)

lemma recorder_ok_op: "recorder_ok rc \<Longrightarrow> recorder_ok (apply_op x rc)"
  by (cases x) (auto simp: recorder_ok_write recorder_ok_write_header recorder_ok_append)

lemma recorder_ok_ops: "recorder_ok rc \<Longrightarrow> recorder_ok (apply_ops xs rc)"
  by (induction xs arbitrary: rc) (auto simp: recorder_ok_op)

text \<open>Once the status is written, no later write changes it, withdraws what was forwarded or panics.\<close>

lemma apply_op_started:
  "rec_wrote rc \<Longrightarrow> rec_wrote (apply_op x rc) \<and> rec_status (apply_op x rc) = rec_status rc
     \<and> (\<exists>ws. rec_wire (apply_op x rc) = rec_wire rc @ ws)"
  by (cases x) (auto simp: rec_write_def rec_write_header_def)

lemma op_panics_started [simp]: "rec_wrote rc \<Longrightarrow> \<not> op_panics x rc"
  by (cases x) (simp_all add: header_panics_def)

lemma op_panics_writes: "op_panics x rc \<Longrightarrow> rec_wrote (apply_op x rc)"
  by (cases x) simp_all

lemma apply_ops_started:
  "rec_wrote rc \<Longrightarrow> rec_wrote (apply_ops xs rc) \<and> rec_status (apply_ops xs rc) = rec_status rc
     \<and> (\<exists>ws. rec_wire (apply_ops xs rc) = rec_wire rc @ ws)"
proof (induction xs arbitrary: rc)
  case Nil
  then show ?case by simp
next
  case (Cons x xs)
  from apply_op_started [OF Cons.prems, of x] Cons.IH [of "apply_op x rc"] Cons.prems show ?case by fastforce
qed

text \<open>A component that panics in a write has written a status.\<close>

lemma ended_by_writes: "ended_by xs None rc = Some p \<Longrightarrow> rec_wrote (apply_ops xs rc)"
  by (induction xs arbitrary: rc) (auto simp: op_panics_writes split: if_splits)

lemma ended_by_panicked [simp]: "ended_by xs (Some p) rc \<noteq> None"
  by (induction xs arbitrary: rc) auto

lemma apply_ops_append: "ended_by xs None rc = None \<Longrightarrow> apply_ops (xs @ ys) rc = apply_ops ys (apply_ops xs rc)"
  by (induction xs arbitrary: rc) auto

lemma client_status_no_header: "\<forall>w \<in> set ws. \<not> is_header_write w \<Longrightarrow> client_status ws = 200"
proof (cases ws)
  case (Cons w ws')
  assume "\<forall>w \<in> set ws. \<not> is_header_write w"
  with Cons show ?thesis by (cases w) auto
qed simp

text \<open>
  What the client receives, from what the recorder has: its status, except that an informational status, one
  that is not valid and one that comes after a flush leave the client with 200.
\<close>

definition flushed_first :: "recorder \<Rightarrow> bool" where
  "flushed_first rc = (case rec_wire rc of WireFlush # ws \<Rightarrow> True | other \<Rightarrow> False)"

lemma client_status_recorded:
  assumes "recorder_ok rc"
  shows "client_status (rec_wire rc) =
    (if flushed_first rc \<or> informational (rec_status rc) \<or> \<not> valid_status (rec_status rc) then 200 else rec_status rc)"
proof (cases "flushed_first rc")
  case True
  then show ?thesis by (auto simp: flushed_first_def split: list.splits wire.splits)
next
  case False
  have flush: "k = 0" if "rec_wire rc = replicate k WireFlush @ ws" for k ws
    using False that by (cases k) (auto simp: flushed_first_def)
  show ?thesis
  proof (cases "rec_wrote rc")
    case True
    with assms obtain k ws where ws: "\<forall>w \<in> set ws. \<not> is_header_write w"
      "if valid_status (rec_status rc) then \<exists>h. rec_wire rc = replicate k WireFlush @ WireHeader (rec_status rc) h # ws
        else rec_wire rc = replicate k WireFlush @ ws"
      by (auto simp: recorder_ok_def)
    show ?thesis
    proof (cases "valid_status (rec_status rc)")
      case valid: True
      with ws(2) obtain h where h: "rec_wire rc = replicate k WireFlush @ WireHeader (rec_status rc) h # ws" by auto
      with flush [OF h] False valid client_status_no_header [OF ws(1)] show ?thesis by auto
    next
      case invalid: False
      with ws(2) have "rec_wire rc = replicate k WireFlush @ ws" by simp
      with flush [OF this] invalid client_status_no_header [OF ws(1)] show ?thesis by simp
    qed
  next
    case not_written: False
    then obtain k where "rec_wire rc = replicate k WireFlush @ []" "rec_status rc = 200"
      using assms recorder_ok_unstarted [of rc] by auto
    with flush [of k "[]"] show ?thesis by simp
  qed
qed

text \<open>
  A status that \<open>net/http\<close> refuses, one of an upstream for instance, is recorded all the same: no later
  write replaces it, and the client gets 200.
\<close>

theorem refused_status_recorded:
  assumes "rec_wire rc = []" "\<not> rec_wrote rc" "rec_hijacked rc = None" "\<not> valid_status n"
  shows "op_panics (WriteHeader n) rc \<and> rec_status (apply_op (WriteHeader n) rc) = n
    \<and> rec_wrote (apply_op (WriteHeader n) rc) \<and> client_receives (apply_op (WriteHeader n) rc) = 200"
  using assms by (simp add: header_panics_def rec_write_header_def client_receives_def)

section \<open>Recording an error\<close>

definition recordGatewayError :: "gateway_error \<Rightarrow> 'w st \<Rightarrow> 'w st" where
  "recordGatewayError e st =
     (let l = (st_log st)\<lparr>al_error_code := ge_code e\<rparr> in
      st\<lparr>st_log := (if ge_cause e \<noteq> None then l\<lparr>as_failure := ge_code e\<rparr> else l)\<rparr>)"

section \<open>Responders\<close>

definition writePlainText :: "int \<Rightarrow> string \<Rightarrow> write_op list" where
  "writePlainText status message =
     [SetHeader ''Content-Type'' ''text/plain; charset=utf-8'',
      SetHeader ''X-Content-Type-Options'' ''nosniff'',
      WriteHeader status, WriteBody (message @ [CHR 0x0A])]"

definition defaultErrorResponder :: "'w responder_fn" where
  "defaultErrorResponder rc r e w = ((writePlainText (ge_status e) (ge_message e), None), w)"

text \<open>Whole seconds, rounded up, for \<open>Retry-After\<close>.\<close>

definition retry_seconds :: "int \<Rightarrow> int" where
  "retry_seconds d = (let s = d div second in if d mod second \<noteq> 0 then s + 1 else s)"

definition panicError :: gateway_error where
  "panicError = gateway_failure 500 ''gateway_panic'' ''internal server error''"

text \<open>
  \<open>protocolErrorResponder.Respond\<close>: the project's responder runs after \<open>Retry-After\<close> is set; if it
  panics before a status was written, a plain 500 is written instead. No panic leaves this function.
\<close>

definition protocol_respond :: "'w responder_fn \<Rightarrow> http_request \<Rightarrow> gateway_error \<Rightarrow> 'w st \<Rightarrow> 'w st" where
  "protocol_respond next r e st =
     (let rc1 = (if ge_retry_after e > 0
                 then apply_op (SetHeader ''Retry-After'' (format_int (retry_seconds (ge_retry_after e)))) (st_rec st)
                 else st_rec st);
          ((ops, ended), w') = next rc1 r e (st_world st);
          rc2 = apply_ops ops rc1;
          st2 = st\<lparr>st_rec := rc2, st_world := w', st_calls := CallErrorResponder e # st_calls st\<rparr> in
      case ended_by ops ended rc1 of
        None \<Rightarrow> st2
      | Some p \<Rightarrow>
          if rec_wrote rc2 then st2
          else (recordGatewayError panicError st2)
            \<lparr>st_rec := apply_ops (writePlainText (ge_status panicError) (ge_message panicError)) rc2\<rparr>)"

definition fail :: "'w gateway \<Rightarrow> http_request \<Rightarrow> gateway_error \<Rightarrow> 'w st \<Rightarrow> 'w st" where
  "fail gw r e st = protocol_respond (gw_responder gw) r e (recordGatewayError e st)"

text \<open>\<open>gateway.fail(...); return\<close>\<close>

definition refuse :: "'w gateway \<Rightarrow> gateway_error \<Rightarrow> 'w st \<Rightarrow> ('w st, 'a) flow" where
  "refuse gw e st = Return (fail gw (st_req st) e st)"

text \<open>A component's result: go on with its value, or refuse with 503 and the code given.\<close>

definition or_unavailable :: "'w gateway \<Rightarrow> string \<Rightarrow> 'w st \<Rightarrow> 'a result \<Rightarrow> ('w st, 'a) flow" where
  "or_unavailable gw code st res =
     (case res of Inl e \<Rightarrow> refuse gw (unavailableError code e) st | Inr a \<Rightarrow> Continue st a)"

section \<open>What failing leaves alone\<close>

lemma recordGatewayError_simps [simp]:
  "st_req (recordGatewayError e st) = st_req st" "st_rec (recordGatewayError e st) = st_rec st"
  "st_world (recordGatewayError e st) = st_world st" "st_calls (recordGatewayError e st) = st_calls st"
  by (simp_all add: recordGatewayError_def Let_def)

lemma recordGatewayError_log:
  "al_error_code (st_log (recordGatewayError e st)) = ge_code e"
  "as_failure (st_log (recordGatewayError e st)) =
     (if ge_cause e \<noteq> None then ge_code e else as_failure (st_log st))"
  by (simp_all add: recordGatewayError_def Let_def)

lemma fail_calls [simp]: "st_calls (fail gw r e st) = CallErrorResponder e # st_calls st"
  by (simp add: fail_def protocol_respond_def Let_def split: option.splits prod.splits)

lemma fail_req [simp]: "st_req (fail gw r e st) = st_req st"
  by (simp add: fail_def protocol_respond_def Let_def split: option.splits prod.splits)

lemma fail_recorder_ok: "recorder_ok (st_rec st) \<Longrightarrow> recorder_ok (st_rec (fail gw r e st))"
  by (auto simp: fail_def protocol_respond_def Let_def recorder_ok_ops simp del: apply_ops.simps
      split: option.splits prod.splits)

lemma apply_ops_plain_text:
  "\<not> rec_wrote rc \<Longrightarrow> rec_status (apply_ops (writePlainText n m) rc) = n
     \<and> rec_wrote (apply_ops (writePlainText n m) rc)"
  by (simp add: writePlainText_def rec_write_header_def rec_write_def)

lemma valid_status_end [simp]: "valid_status n \<Longrightarrow> ended_by (writePlainText n m) None rc = None"
  by (simp add: writePlainText_def header_panics_def)

text \<open>With the default responder a refusal on an unstarted response is exactly the error's status.\<close>

lemma fail_default_status:
  assumes "gw_responder gw = defaultErrorResponder" "\<not> rec_wrote (st_rec st)"
  shows "rec_status (st_rec (fail gw r e st)) = ge_status e" "rec_wrote (st_rec (fail gw r e st))"
proof -
  have "\<not> rec_wrote (st_rec st\<lparr>rec_header := h\<rparr>)" for h
    using assms(2) by simp
  note plain = apply_ops_plain_text [OF this] apply_ops_plain_text [OF assms(2)]
  show "rec_status (st_rec (fail gw r e st)) = ge_status e" "rec_wrote (st_rec (fail gw r e st))"
    using assms(1) plain
    by (auto simp: fail_def protocol_respond_def defaultErrorResponder_def Let_def simp del: apply_ops.simps
        split: option.split)
qed

text \<open>Whatever the responder does, a panic of it never leaves the response unstarted.\<close>

lemma fail_panicking_responder:
  assumes "gw_responder gw rc1 r e (st_world st) = ((ops, Some p), w')"
    "rc1 = (if ge_retry_after e > 0
       then apply_op (SetHeader ''Retry-After'' (format_int (retry_seconds (ge_retry_after e)))) (st_rec st)
       else st_rec st)"
  shows "rec_wrote (st_rec (fail gw r e st))"
  using assms apply_ops_plain_text [of "apply_ops ops rc1"]
  by (auto simp: fail_def protocol_respond_def Let_def simp del: apply_ops.simps split: option.split)

lemma retry_seconds_bounds:
  assumes "0 < d"
  shows "0 < retry_seconds d" "d \<le> retry_seconds d * second" "(retry_seconds d - 1) * second < d"
proof -
  define q m where "q = d div second" and "m = d mod second"
  have dm: "d = q * second + m" by (simp add: q_def m_def)
  have m: "0 \<le> m" "m < second" by (simp_all add: m_def second_def)
  have q: "0 \<le> q" using assms by (simp add: q_def second_def pos_imp_zdiv_nonneg_iff)
  have r: "retry_seconds d = (if m \<noteq> 0 then q + 1 else q)"
    by (simp add: retry_seconds_def q_def m_def Let_def)
  show "0 < retry_seconds d" "d \<le> retry_seconds d * second" "(retry_seconds d - 1) * second < d"
    unfolding r using assms dm m q by (auto simp: distrib_right left_diff_distrib second_def)
qed

end
