(* ===== verification/RateLimit.thy ===== *)
theory RateLimit
  imports Response
begin

text \<open>
  The contract every stage of the gateway's handler keeps before a request is forwarded, as a
  locale, and the stages of \<open>sdk/go/gateway/rate_limit.go\<close> and \<open>policy.go\<close>:
  \<open>applyRateLimit\<close>, \<open>applyAuthorizer\<close> and \<open>applyBeforeProxy\<close>. A stage that refuses answers
  through the gateway's error path and ends the request.
\<close>

section \<open>The contract of a stage\<close>

text \<open>The calls a stage does not make: forwarding, and what \<open>finishRequest\<close> does.\<close>

fun outer_call :: "call \<Rightarrow> bool" where
  "outer_call (CallUpstream r) = True"
| "outer_call (CallAccessLogger l) = True"
| "outer_call (CallObserver ob) = True"
| "outer_call c = False"

text \<open>
  A guarded stage forwards nothing and logs nothing itself, only adds to the history and keeps the
  recorder consistent.
\<close>

locale guarded_stage =
  fixes stage :: "'w st \<Rightarrow> ('w st, 'a) flow"
  assumes calls_grow:
      "\<exists>cs. st_calls (flow_state (stage st)) = cs @ st_calls st \<and> (\<forall>c \<in> set cs. \<not> outer_call c)"
    and keeps_recorder: "recorder_ok (st_rec st) \<Longrightarrow> recorder_ok (st_rec (flow_state (stage st)))"
begin

lemma no_outer_call:
  "outer_call c \<Longrightarrow> c \<notin> set (st_calls st) \<Longrightarrow> c \<notin> set (st_calls (flow_state (stage st)))"
  using calls_grow [of st] by fastforce

lemma calls_kept: "set (st_calls st) \<subseteq> set (st_calls (flow_state (stage st)))"
  using calls_grow [of st] by auto

end

lemma guarded_stage_return: "guarded_stage (\<lambda>st. Continue st (a st))"
  by unfold_locales auto

lemma guarded_stage_bind:
  assumes f: "guarded_stage f" and g: "\<And>a. guarded_stage (\<lambda>st. g st a)"
  shows "guarded_stage (\<lambda>st. flow_bind (f st) g)"
proof
  fix st
  obtain cs where cs: "st_calls (flow_state (f st)) = cs @ st_calls st" "\<forall>c \<in> set cs. \<not> outer_call c"
    using guarded_stage.calls_grow [OF f] by blast
  show "\<exists>cs. st_calls (flow_state (flow_bind (f st) g)) = cs @ st_calls st \<and> (\<forall>c \<in> set cs. \<not> outer_call c)"
  proof (cases "f st")
    case (Continue s a)
    obtain ds where "st_calls (flow_state (g s a)) = ds @ st_calls s" "\<forall>c \<in> set ds. \<not> outer_call c"
      using guarded_stage.calls_grow [OF g, of s a] by blast
    with cs Continue show ?thesis by (intro exI [of _ "ds @ cs"]) auto
  qed (use cs in auto)
  assume "recorder_ok (st_rec st)"
  then have "recorder_ok (st_rec (flow_state (f st)))" by (rule guarded_stage.keeps_recorder [OF f])
  then show "recorder_ok (st_rec (flow_state (flow_bind (f st) g)))"
    using guarded_stage.keeps_recorder [OF g] by (cases "f st") auto
qed

lemma guarded_stage_update:
  assumes "\<And>st. st_calls (u st) = st_calls st" "\<And>st. recorder_ok (st_rec st) \<Longrightarrow> recorder_ok (st_rec (u st))"
    "guarded_stage f"
  shows "guarded_stage (\<lambda>st. f (u st))"
  using assms guarded_stage.calls_grow [OF assms(3)] guarded_stage.keeps_recorder [OF assms(3)]
  by unfold_locales (metis assms(1), blast)

lemma guarded_stage_if:
  "guarded_stage f \<Longrightarrow> guarded_stage g \<Longrightarrow> guarded_stage (\<lambda>st. if b st then f st else g st)"
  unfolding guarded_stage_def by auto

lemma guarded_stage_invoke:
  "\<not> outer_call c \<Longrightarrow> guarded_stage (\<lambda>st. invoke c f st)"
proof
  fix st assume c: "\<not> outer_call c"
  show "\<exists>cs. st_calls (flow_state (invoke c f st)) = cs @ st_calls st \<and> (\<forall>c \<in> set cs. \<not> outer_call c)"
    by (rule exI [of _ "[c]"], cases rule: invoke_cases [of f st c]) (simp_all add: c)
  show "recorder_ok (st_rec (flow_state (invoke c f st)))" if "recorder_ok (st_rec st)"
    using that by (cases rule: invoke_cases [of f st c]) auto
qed

lemma guarded_stage_refuse: "guarded_stage (\<lambda>st. refuse gw e st)"
  by unfold_locales (auto simp: refuse_def fail_recorder_ok intro: exI [of _ "[CallErrorResponder e]"])

lemma guarded_stage_or_unavailable: "guarded_stage (\<lambda>st. or_unavailable gw code st res)"
  by (cases res) (simp_all add: or_unavailable_def guarded_stage_refuse guarded_stage_return)

lemmas guarded_intros =
  guarded_stage_bind guarded_stage_refuse guarded_stage_or_unavailable guarded_stage_return guarded_stage_if

section \<open>Rate limits\<close>

definition setRateLimitResult :: "string \<Rightarrow> string \<Rightarrow> 'w st \<Rightarrow> 'w st" where
  "setRateLimitResult scope result st =
     st\<lparr>st_log := (st_log st)\<lparr>al_rate_limit := (al_rate_limit (st_log st))(scope \<mapsto> result)\<rparr>\<rparr>"

lemma setRateLimitResult_simps [simp]:
  "st_req (setRateLimitResult s x st) = st_req st" "st_rec (setRateLimitResult s x st) = st_rec st"
  "st_world (setRateLimitResult s x st) = st_world st" "st_calls (setRateLimitResult s x st) = st_calls st"
  by (simp_all add: setRateLimitResult_def)

definition rateLimitExceeded :: "int \<Rightarrow> gateway_error" where
  "rateLimitExceeded retry_after =
     (gateway_failure 429 ''rate_limit_exceeded'' ''rate limit exceeded'')\<lparr>ge_retry_after := retry_after\<rparr>"

definition applyRateLimit ::
  "'w gateway \<Rightarrow> 'w limiter_fn option \<Rightarrow> rate_limit_request \<Rightarrow> 'w st \<Rightarrow> ('w st, unit) flow" where
  "applyRateLimit gw limiter request st =
     (case limiter of
        None \<Rightarrow> Continue (setRateLimitResult (rl_scope request) ''disabled'' st) ()
      | Some allow \<Rightarrow>
          flow_bind (invoke (CallLimiter request) (allow request) st) (\<lambda>st res.
            case res of
              Inl err \<Rightarrow> refuse gw (unavailableError ''rate_limiter_unavailable'' err)
                           (setRateLimitResult (rl_scope request) ''error'' st)
            | Inr decision \<Rightarrow>
                if rd_allowed decision
                then Continue (setRateLimitResult (rl_scope request) ''allowed'' st) ()
                else refuse gw (rateLimitExceeded (rd_retry_after decision))
                       (setRateLimitResult (rl_scope request) ''rejected'' st)))"

lemma guarded_rate_limit_allowed: "guarded_stage (\<lambda>st. Continue (setRateLimitResult s x st) ())"
  by (rule guarded_stage_update [OF _ _ guarded_stage_return [where a = "\<lambda>_. ()"]]) simp_all

lemma guarded_applyRateLimit: "guarded_stage (applyRateLimit gw limiter request)"
proof (cases limiter)
  case None
  then show ?thesis by (simp add: applyRateLimit_def [abs_def] guarded_rate_limit_allowed)
next
  case (Some allow)
  have refused: "guarded_stage (\<lambda>st. refuse gw e (setRateLimitResult s x st))" for e s x
    by (rule guarded_stage_update [OF _ _ guarded_stage_refuse]) simp_all
  have decided: "guarded_stage (\<lambda>st. case res of
              Inl err \<Rightarrow> refuse gw (unavailableError ''rate_limiter_unavailable'' err)
                           (setRateLimitResult (rl_scope request) ''error'' st)
            | Inr decision \<Rightarrow>
                if rd_allowed decision
                then Continue (setRateLimitResult (rl_scope request) ''allowed'' st) ()
                else refuse gw (rateLimitExceeded (rd_retry_after decision))
                       (setRateLimitResult (rl_scope request) ''rejected'' st))" for res
  proof (cases res)
    case (Inr d)
    then show ?thesis by (cases "rd_allowed d") (simp_all add: refused guarded_rate_limit_allowed)
  qed (simp add: refused)
  show ?thesis
    unfolding applyRateLimit_def [abs_def] Some option.case
    by (rule guarded_stage_bind [OF guarded_stage_invoke decided]) simp
qed

interpretation rate_limit: guarded_stage "applyRateLimit gw limiter request" for gw limiter request
  by (rule guarded_applyRateLimit)

text \<open>A request passes a configured limiter only with its explicit permission.\<close>

lemma applyRateLimit_Continue:
  "applyRateLimit gw limiter request st = Continue st' u \<longleftrightarrow>
     (case limiter of
        None \<Rightarrow> st' = setRateLimitResult (rl_scope request) ''disabled'' st
      | Some allow \<Rightarrow> \<exists>d w'. allow request (st_world st) = (Ret (Inr d), w') \<and> rd_allowed d
          \<and> st' = setRateLimitResult (rl_scope request) ''allowed''
                (st\<lparr>st_world := w', st_calls := CallLimiter request # st_calls st\<rparr>))"
proof (cases limiter)
  case None
  then show ?thesis by (auto simp: applyRateLimit_def)
next
  case (Some allow)
  then show ?thesis
    by (cases rule: invoke_cases [of "allow request" st "CallLimiter request"])
      (auto simp: applyRateLimit_def refuse_def split: sum.splits)
qed

section \<open>Policies\<close>

text \<open>\<open>applyAuthorizer\<close> and \<open>applyBeforeProxy\<close> have the same body but for their codes.\<close>

definition forbidden :: "string \<Rightarrow> gateway_error" where
  "forbidden code = gateway_failure 403 code ''forbidden''"

definition applyAuthorizer :: "'w gateway \<Rightarrow> request_context \<Rightarrow> 'w st \<Rightarrow> ('w st, unit) flow" where
  "applyAuthorizer gw request st =
     (case gw_authorizer gw of
        None \<Rightarrow> Continue st ()
      | Some authorize \<Rightarrow>
          flow_bind (invoke (CallAuthorizer request) (authorize (st_req st) request) st) (\<lambda>st res.
            case res of
              Inl err \<Rightarrow> refuse gw (unavailableError ''authorization_failed'' err) st
            | Inr decision \<Rightarrow>
                if pd_allowed decision then Continue st () else refuse gw (forbidden ''forbidden'') st))"

definition applyBeforeProxy :: "'w gateway \<Rightarrow> request_context \<Rightarrow> 'w st \<Rightarrow> ('w st, unit) flow" where
  "applyBeforeProxy gw request st =
     (case gw_before_proxy gw of
        None \<Rightarrow> Continue st ()
      | Some evaluate \<Rightarrow>
          flow_bind (invoke (CallBeforeProxy request) (evaluate (st_req st) request) st) (\<lambda>st res.
            case res of
              Inl err \<Rightarrow> refuse gw (unavailableError ''before_proxy_policy_failed'' err) st
            | Inr decision \<Rightarrow>
                if pd_allowed decision then Continue st ()
                else refuse gw (forbidden ''proxy_policy_rejected'') st))"

lemma guarded_stage_invoke_req:
  "\<not> outer_call c \<Longrightarrow> guarded_stage (\<lambda>st. invoke c (f (st_req st)) st)"
  using guarded_stage_invoke [of c "f r" for r]
  unfolding guarded_stage_def by blast

lemma guarded_policy_decision:
  "guarded_stage (\<lambda>st. case res of
              Inl err \<Rightarrow> refuse gw (unavailableError a err) st
            | Inr decision \<Rightarrow>
                if pd_allowed decision then Continue st () else refuse gw e st)"
  by (cases res) (auto intro!: guarded_stage_if guarded_stage_refuse guarded_stage_return)

lemma guarded_applyAuthorizer: "guarded_stage (applyAuthorizer gw request)"
proof (cases "gw_authorizer gw")
  case None
  then show ?thesis by (simp add: applyAuthorizer_def [abs_def] guarded_stage_return)
next
  case (Some f)
  show ?thesis
    unfolding applyAuthorizer_def [abs_def] Some option.case
    by (rule guarded_stage_bind
        [OF guarded_stage_invoke_req [where f = "\<lambda>r. f r request"] guarded_policy_decision]) simp
qed

interpretation authorizer: guarded_stage "applyAuthorizer gw request" for gw request
  by (rule guarded_applyAuthorizer)

lemma guarded_applyBeforeProxy: "guarded_stage (applyBeforeProxy gw request)"
proof (cases "gw_before_proxy gw")
  case None
  then show ?thesis by (simp add: applyBeforeProxy_def [abs_def] guarded_stage_return)
next
  case (Some f)
  show ?thesis
    unfolding applyBeforeProxy_def [abs_def] Some option.case
    by (rule guarded_stage_bind
        [OF guarded_stage_invoke_req [where f = "\<lambda>r. f r request"] guarded_policy_decision]) simp
qed

interpretation before_proxy: guarded_stage "applyBeforeProxy gw request" for gw request
  by (rule guarded_applyBeforeProxy)

lemma applyAuthorizer_Continue:
  "applyAuthorizer gw request st = Continue st' u \<longleftrightarrow>
     (case gw_authorizer gw of
        None \<Rightarrow> st' = st
      | Some authorize \<Rightarrow> \<exists>d w'. authorize (st_req st) request (st_world st) = (Ret (Inr d), w')
          \<and> pd_allowed d \<and> st' = st\<lparr>st_world := w', st_calls := CallAuthorizer request # st_calls st\<rparr>)"
proof (cases "gw_authorizer gw")
  case None
  then show ?thesis by (auto simp: applyAuthorizer_def)
next
  case (Some authorize)
  then show ?thesis
    by (cases rule: invoke_cases [of "authorize (st_req st) request" st "CallAuthorizer request"])
      (auto simp: applyAuthorizer_def refuse_def split: sum.splits)
qed

lemma applyBeforeProxy_Continue:
  "applyBeforeProxy gw request st = Continue st' u \<longleftrightarrow>
     (case gw_before_proxy gw of
        None \<Rightarrow> st' = st
      | Some evaluate \<Rightarrow> \<exists>d w'. evaluate (st_req st) request (st_world st) = (Ret (Inr d), w')
          \<and> pd_allowed d \<and> st' = st\<lparr>st_world := w', st_calls := CallBeforeProxy request # st_calls st\<rparr>)"
proof (cases "gw_before_proxy gw")
  case None
  then show ?thesis by (auto simp: applyBeforeProxy_def)
next
  case (Some evaluate)
  then show ?thesis
    by (cases rule: invoke_cases [of "evaluate (st_req st) request" st "CallBeforeProxy request"])
      (auto simp: applyBeforeProxy_def refuse_def split: sum.splits)
qed

end
