(* ===== verification/Authentication.thy ===== *)
theory Authentication
  imports RateLimit
begin

text \<open>
  \<open>sdk/go/gateway/authentication.go\<close>: the authentication stage and the identity headers the
  gateway sends upstream. Identities are values here; \<open>GatewayContext\<close> has the copies that \<open>cloneIdentity\<close> makes.
\<close>

section \<open>The authentication stage\<close>

definition setAuthResult :: "string \<Rightarrow> identity option \<Rightarrow> 'w st \<Rightarrow> 'w st" where
  "setAuthResult result identity st =
     (let l = (st_log st)\<lparr>al_auth_result := result\<rparr> in
      st\<lparr>st_log := (case identity of None \<Rightarrow> l
                    | Some i \<Rightarrow> l\<lparr>al_user_id := id_user i, al_roles := id_roles i\<rparr>)\<rparr>)"

lemma setAuthResult_simps [simp]:
  "st_req (setAuthResult x i st) = st_req st" "st_rec (setAuthResult x i st) = st_rec st"
  "st_world (setAuthResult x i st) = st_world st" "st_calls (setAuthResult x i st) = st_calls st"
  by (simp_all add: setAuthResult_def Let_def)

definition unauthorized :: "string \<Rightarrow> gateway_error" where
  "unauthorized code = gateway_failure 401 code ''unauthorized''"

definition errNoAuthenticator :: go_error where
  "errNoAuthenticator = Plain ''gateway authenticator is not configured''"

text \<open>The last part of \<open>authenticate\<close>: what is made of the authenticator's answer.\<close>

definition acceptDecision ::
  "'w gateway \<Rightarrow> 'w st \<Rightarrow> auth_decision result \<Rightarrow> ('w st, identity option) flow" where
  "acceptDecision gw st decided =
     (case decided of
        Inl err \<Rightarrow> refuse gw (unavailableError ''authentication_failed'' err) (setAuthResult ''error'' None st)
      | Inr decision \<Rightarrow>
          if \<not> ad_authenticated decision \<or> trim_space (id_user (ad_identity decision)) = ''''
          then refuse gw (unauthorized ''invalid_credential'') (setAuthResult ''invalid_credential'' None st)
          else Continue (setAuthResult ''success'' (Some (ad_identity decision)) st)
                 (Some (ad_identity decision)))"

text \<open>Its middle part: what is made of the extractor's answer.\<close>

definition checkCredential ::
  "'w gateway \<Rightarrow> 'w authenticator_fn \<Rightarrow> 'w st \<Rightarrow> string result \<Rightarrow> ('w st, identity option) flow" where
  "checkCredential gw authenticator st extracted =
     (case extracted of
        Inl err \<Rightarrow>
          if errors_is err (error_text errInvalidCredential)
          then refuse gw (unauthorized ''invalid_credential'') (setAuthResult ''invalid_credential'' None st)
          else refuse gw (unavailableError ''credential_extraction_failed'' err) (setAuthResult ''error'' None st)
      | Inr credential \<Rightarrow>
          if credential = ''''
          then refuse gw (unauthorized ''missing_credential'') (setAuthResult ''missing_credential'' None st)
          else flow_bind (invoke (CallAuthenticator credential) (authenticator credential) st)
                 (acceptDecision gw))"

definition authenticate :: "'w gateway \<Rightarrow> route \<Rightarrow> 'w st \<Rightarrow> ('w st, identity option) flow" where
  "authenticate gw route st =
     (if route_access route = accessPublic then Continue (setAuthResult ''public'' None st) None
      else case gw_authenticator gw of
        None \<Rightarrow> refuse gw (unavailableError ''authenticator_unavailable'' errNoAuthenticator)
                  (setAuthResult ''error'' None st)
      | Some authenticator \<Rightarrow>
          flow_bind (invoke CallExtractor (gw_extractor gw (st_req st)) st)
            (checkCredential gw authenticator))"

section \<open>The stage keeps the contract\<close>

lemma guarded_auth_refused: "guarded_stage (\<lambda>st. refuse gw e (setAuthResult x i st))"
  by (rule guarded_stage_update [OF _ _ guarded_stage_refuse]) simp_all

lemma guarded_auth_passed: "guarded_stage (\<lambda>st. Continue (setAuthResult x i st) a)"
  by (rule guarded_stage_update [OF _ _ guarded_stage_return [where a = "\<lambda>_. a"]]) simp_all

lemma guarded_acceptDecision: "guarded_stage (\<lambda>st. acceptDecision gw st decided)"
  by (cases decided)
    (simp_all add: acceptDecision_def guarded_auth_refused guarded_auth_passed guarded_stage_if)

lemma guarded_checkCredential: "guarded_stage (\<lambda>st. checkCredential gw authenticator st extracted)"
proof (cases extracted)
  case (Inr credential)
  have "guarded_stage (\<lambda>st. flow_bind
      (invoke (CallAuthenticator credential) (authenticator credential) st) (acceptDecision gw))"
    by (rule guarded_stage_bind [OF guarded_stage_invoke guarded_acceptDecision]) simp
  with Inr show ?thesis by (cases "credential = ''''") (simp_all add: checkCredential_def guarded_auth_refused)
qed (simp add: checkCredential_def guarded_auth_refused guarded_stage_if)

lemma guarded_authenticate: "guarded_stage (authenticate gw route)"
proof (cases "route_access route = accessPublic \<or> gw_authenticator gw = None")
  case True
  then show ?thesis by (cases "route_access route = accessPublic")
      (auto simp: authenticate_def [abs_def] guarded_auth_passed guarded_auth_refused)
next
  case False
  then obtain authenticator where a: "route_access route \<noteq> accessPublic" "gw_authenticator gw = Some authenticator"
    by auto
  show ?thesis
    unfolding authenticate_def [abs_def] a(2) option.case if_not_P [OF a(1)]
    by (rule guarded_stage_bind
        [OF guarded_stage_invoke_req [where f = "gw_extractor gw"] guarded_checkCredential]) simp
qed

interpretation authentication: guarded_stage "authenticate gw route" for gw route
  by (rule guarded_authenticate)

section \<open>When a request gets past it\<close>

lemma acceptDecision_Continue:
  "acceptDecision gw st decided = Continue st' i \<longleftrightarrow>
     (\<exists>d. decided = Inr d \<and> ad_authenticated d \<and> trim_space (id_user (ad_identity d)) \<noteq> ''''
        \<and> i = Some (ad_identity d) \<and> st' = setAuthResult ''success'' i st)"
  by (cases decided) (auto simp: acceptDecision_def refuse_def)

lemma checkCredential_Continue:
  "checkCredential gw authenticator st extracted = Continue st' i \<longleftrightarrow>
     (\<exists>c d w'. extracted = Inr c \<and> c \<noteq> '''' \<and> authenticator c (st_world st) = (Ret (Inr d), w')
        \<and> ad_authenticated d \<and> trim_space (id_user (ad_identity d)) \<noteq> '''' \<and> i = Some (ad_identity d)
        \<and> st' = setAuthResult ''success'' i
              (st\<lparr>st_world := w', st_calls := CallAuthenticator c # st_calls st\<rparr>))"
proof (cases extracted)
  case (Inr c)
  then show ?thesis
    by (cases rule: invoke_cases [of "authenticator c" st "CallAuthenticator c"])
      (auto simp: checkCredential_def refuse_def acceptDecision_Continue)
qed (simp add: checkCredential_def refuse_def)

text \<open>
  A request passes anonymously only on a public route; on any other it passes only as the identity
  that the authenticator returned for the extracted credential, whose user ID is not blank.
\<close>

lemma authenticate_Continue_protected:
  assumes "route_access route \<noteq> accessPublic" "authenticate gw route st = Continue st' i"
  obtains a c d w1 w2 where "gw_authenticator gw = Some a"
    "gw_extractor gw (st_req st) (st_world st) = (Ret (Inr c), w1)" "c \<noteq> ''''"
    "a c w1 = (Ret (Inr d), w2)" "ad_authenticated d" "trim_space (id_user (ad_identity d)) \<noteq> ''''"
    "i = Some (ad_identity d)"
    "st' = setAuthResult ''success'' i
       (st\<lparr>st_world := w2, st_calls := CallAuthenticator c # CallExtractor # st_calls st\<rparr>)"
proof -
  obtain a where a: "gw_authenticator gw = Some a"
    using assms by (auto simp: authenticate_def refuse_def split: option.splits)
  show ?thesis
    using assms a that
    by (cases rule: invoke_cases [of "gw_extractor gw (st_req st)" st CallExtractor])
      (auto simp: authenticate_def checkCredential_Continue)
qed

lemma authenticate_public:
  "route_access route = accessPublic \<Longrightarrow>
     authenticate gw route st = Continue (setAuthResult ''public'' None st) None"
  by (simp add: authenticate_def)

lemma authenticate_identity:
  assumes "authenticate gw route st = Continue st' i"
  shows "i = None \<longleftrightarrow> route_access route = accessPublic"
    and "\<And>u. i = Some u \<Longrightarrow> trim_space (id_user u) \<noteq> ''''" and "st_req st' = st_req st"
    and "st_rec st' = st_rec st"
proof -
  have "(i = None \<longleftrightarrow> route_access route = accessPublic) \<and> (\<forall>u. i = Some u \<longrightarrow> trim_space (id_user u) \<noteq> '''')
      \<and> st_req st' = st_req st \<and> st_rec st' = st_rec st"
  proof (cases "route_access route = accessPublic")
    case True
    with assms show ?thesis by (auto simp: authenticate_public)
  next
    case False
    show ?thesis by (rule authenticate_Continue_protected [OF False assms]) (simp add: False)
  qed
  then show "i = None \<longleftrightarrow> route_access route = accessPublic"
    "\<And>u. i = Some u \<Longrightarrow> trim_space (id_user u) \<noteq> ''''" "st_req st' = st_req st" "st_rec st' = st_rec st"
    by auto
qed

section \<open>The identity headers\<close>

definition stripAndInjectIdentity :: "header \<Rightarrow> identity option \<Rightarrow> header" where
  "stripAndInjectIdentity h identity =
     (let stripped = header_del (header_del h headerXUserID) headerXUserRoles in
      case identity of
        None \<Rightarrow> stripped
      | Some i \<Rightarrow>
          let named = header_set stripped headerXUserID (id_user i) in
          if id_roles i \<noteq> [] then header_set named headerXUserRoles (join '','' (id_roles i)) else named)"

lemma identity_keys [simp]:
  "canonical_key headerXUserID = ''X-User-Id''" "canonical_key headerXUserRoles = ''X-User-Roles''"
  by code_simp+

text \<open>
  Whatever the client sent, upstream sees the authenticated user and roles and nothing else under
  these names, in any spelling; the other fields pass.
\<close>

lemma injected_user:
  "canonical_key k = ''X-User-Id'' \<Longrightarrow> header_values (stripAndInjectIdentity h identity) k =
     (case identity of None \<Rightarrow> [] | Some i \<Rightarrow> [id_user i])"
  by (auto simp: stripAndInjectIdentity_def Let_def header_simps split: option.splits)

lemma injected_roles:
  "canonical_key k = ''X-User-Roles'' \<Longrightarrow> header_values (stripAndInjectIdentity h identity) k =
     (case identity of None \<Rightarrow> [] | Some i \<Rightarrow> if id_roles i = [] then [] else [join '','' (id_roles i)])"
  by (auto simp: stripAndInjectIdentity_def Let_def header_simps split: option.splits)

lemma injected_other:
  "canonical_key k \<noteq> ''X-User-Id'' \<Longrightarrow> canonical_key k \<noteq> ''X-User-Roles'' \<Longrightarrow>
     header_values (stripAndInjectIdentity h identity) k = header_values h k"
  by (auto simp: stripAndInjectIdentity_def Let_def header_simps split: option.splits)

end
