(* ===== verification/AccessLog.thy ===== *)
theory AccessLog
  imports Authentication
begin

text \<open>
  \<open>sdk/go/gateway/access_log.go\<close> and \<open>observer.go\<close>: the state of a request's access record, and
  the record and observations emitted when the request is finished. Values are
  taken here; \<open>GatewayContext\<close> has the copy that \<open>cloneAccessLog\<close> makes for the logger. Instants are nanoseconds; the two clock readings of a
  request are arguments.
\<close>

section \<open>The state of the record\<close>

definition newAccessLogState :: "int \<Rightarrow> http_request \<Rightarrow> access_log_state" where
  "newAccessLogState now r =
     \<lparr>al_timestamp = now, al_request_id = '''', al_method = req_method r, al_path = req_path r,
      al_route = '''', al_client_ip = '''', al_auth_result = ''skipped'', al_user_id = '''',
      al_roles = [], al_upstream = '''', al_status = 0, al_elapsed = 0, al_error_code = '''',
      al_rate_limit = Map.empty, as_started = now, as_failure = '''', as_skip_successful = False\<rparr>"

definition defaultErrorCode :: "int \<Rightarrow> string" where
  "defaultErrorCode status =
     (if status = 413 then ''request_body_too_large''
      else if status = 502 then ''upstream_unavailable''
      else if status = 504 then ''upstream_timeout''
      else if status \<ge> 500 then ''upstream_error''
      else '''')"

section \<open>Observers and loggers\<close>

text \<open>The deferred \<open>recover\<close> swallows an observer's panic.\<close>

definition safeObserve :: "'w gateway \<Rightarrow> observation \<Rightarrow> 'w st \<Rightarrow> 'w st" where
  "safeObserve gw ob st =
     (case gw_observer gw of
        None \<Rightarrow> st
      | Some observe \<Rightarrow>
          (let (out, w') = observe ob (st_world st) in
           st\<lparr>st_world := w', st_calls := CallObserver ob # st_calls st\<rparr>))"

definition callAccessLogger :: "'w logger_fn \<Rightarrow> access_log \<Rightarrow> 'w st \<Rightarrow> 'w st \<times> unit result" where
  "callAccessLogger logger entry st =
     (let (out, w') = logger entry (st_world st);
          st' = st\<lparr>st_world := w', st_calls := CallAccessLogger entry # st_calls st\<rparr> in
      (st', case out of Ret res \<Rightarrow> res | Panics p \<Rightarrow> Inl (Plain ''gateway access logger panicked'')))"

definition observation_of ::
  "observation_kind \<Rightarrow> string \<Rightarrow> access_log_state \<Rightarrow> observation" where
  "observation_of kind component l =
     \<lparr>ob_kind = kind, ob_component = component, ob_route = al_route l, ob_upstream = al_upstream l,
      ob_status = al_status l, ob_elapsed = al_elapsed l\<rparr>"

text \<open>The branch of \<open>finishRequest\<close> that logs, and reports a logger's failure to the observer.\<close>

definition emitAccessLog :: "'w gateway \<Rightarrow> 'w logger_fn \<Rightarrow> access_log_state \<Rightarrow> 'w st \<Rightarrow> 'w st" where
  "emitAccessLog gw logger l st =
     (case callAccessLogger logger (access_log.truncate l) st of
        (st', Inr u) \<Rightarrow> st'
      | (st', Inl err) \<Rightarrow> safeObserve gw (observation_of AccessLogFailure ''access_logger'' l) st')"

definition finishRequest :: "'w gateway \<Rightarrow> int \<Rightarrow> 'w st \<Rightarrow> 'w st" where
  "finishRequest gw now st =
     (let status = rec_status (st_rec st);
          l1 = (st_log st)\<lparr>al_status := status, al_elapsed := now - as_started (st_log st)\<rparr>;
          l = (if al_error_code l1 = '''' then l1\<lparr>al_error_code := defaultErrorCode status\<rparr> else l1);
          st1 = st\<lparr>st_log := l\<rparr>;
          st2 = (if as_failure l \<noteq> ''''
                 then safeObserve gw (observation_of ComponentFailure (as_failure l) l) st1 else st1);
          st3 = (case gw_access_logger gw of
                   None \<Rightarrow> st2
                 | Some logger \<Rightarrow>
                     if as_skip_successful l \<and> al_status l < 400 then st2
                     else emitAccessLog gw logger l st2) in
      safeObserve gw (observation_of RequestCompleted '''' l) st3)"

section \<open>What is emitted\<close>

text \<open>The record as it stands when the request is finished.\<close>

definition finished_log :: "int \<Rightarrow> 'w st \<Rightarrow> access_log_state" where
  "finished_log now st =
     (let l = (st_log st)\<lparr>al_status := rec_status (st_rec st), al_elapsed := now - as_started (st_log st)\<rparr> in
      if al_error_code l = '''' then l\<lparr>al_error_code := defaultErrorCode (rec_status (st_rec st))\<rparr> else l)"

lemma finished_log_simps [simp]:
  "al_status (finished_log now st) = rec_status (st_rec st)"
  "as_failure (finished_log now st) = as_failure (st_log st)"
  "as_skip_successful (finished_log now st) = as_skip_successful (st_log st)"
  "al_rate_limit (finished_log now st) = al_rate_limit (st_log st)"
  by (simp_all add: finished_log_def Let_def)

text \<open>The access records among the calls, and the observations, oldest first.\<close>

definition logged :: "call list \<Rightarrow> access_log list" where
  "logged cs = concat (map (\<lambda>c. case c of CallAccessLogger e \<Rightarrow> [e] | _ \<Rightarrow> []) (rev cs))"

definition observed :: "call list \<Rightarrow> observation list" where
  "observed cs = concat (map (\<lambda>c. case c of CallObserver ob \<Rightarrow> [ob] | _ \<Rightarrow> []) (rev cs))"

lemma logged_Cons [simp]:
  "logged (c # cs) = logged cs @ (case c of CallAccessLogger e \<Rightarrow> [e] | _ \<Rightarrow> [])"
  by (simp add: logged_def)

lemma observed_Cons [simp]:
  "observed (c # cs) = observed cs @ (case c of CallObserver ob \<Rightarrow> [ob] | _ \<Rightarrow> [])"
  by (simp add: observed_def)

lemma safeObserve_simps [simp]:
  "st_req (safeObserve gw ob st) = st_req st" "st_rec (safeObserve gw ob st) = st_rec st"
  "st_log (safeObserve gw ob st) = st_log st"
  "st_calls (safeObserve gw ob st) =
     (if gw_observer gw = None then st_calls st else CallObserver ob # st_calls st)"
  by (auto simp: safeObserve_def split: option.splits prod.splits)

lemma emitAccessLog_simps [simp]:
  "st_req (emitAccessLog gw lg l st) = st_req st" "st_rec (emitAccessLog gw lg l st) = st_rec st"
  by (simp_all add: emitAccessLog_def callAccessLogger_def Let_def split: prod.splits ext.splits sum.splits)

lemma emitAccessLog_calls:
  "\<exists>failed. st_calls (emitAccessLog gw lg l st) =
     (if failed \<and> gw_observer gw \<noteq> None
      then [CallObserver (observation_of AccessLogFailure ''access_logger'' l)] else [])
     @ CallAccessLogger (access_log.truncate l) # st_calls st"
proof -
  obtain st' res where out: "callAccessLogger lg (access_log.truncate l) st = (st', res)" by fastforce
  then have "st_calls st' = CallAccessLogger (access_log.truncate l) # st_calls st"
    by (auto simp: callAccessLogger_def Let_def split: prod.splits)
  with out show ?thesis
    by (cases res) (auto simp: emitAccessLog_def intro: exI [of _ True] exI [of _ False])
qed

lemma finishRequest_unfold:
  "finishRequest gw now st =
     (let l = finished_log now st; st1 = st\<lparr>st_log := l\<rparr>;
          st2 = (if as_failure l \<noteq> ''''
                 then safeObserve gw (observation_of ComponentFailure (as_failure l) l) st1 else st1);
          st3 = (case gw_access_logger gw of
                   None \<Rightarrow> st2
                 | Some logger \<Rightarrow>
                     if as_skip_successful l \<and> al_status l < 400 then st2
                     else emitAccessLog gw logger l st2) in
      safeObserve gw (observation_of RequestCompleted '''' l) st3)"
  unfolding finishRequest_def finished_log_def Let_def by (rule refl)

text \<open>Finishing changes neither the request nor the response.\<close>

lemma finishRequest_frame [simp]:
  "st_req (finishRequest gw now st) = st_req st" "st_rec (finishRequest gw now st) = st_rec st"
  by (simp_all add: finishRequest_unfold Let_def split: option.splits)

text \<open>
  The calls of \<open>finishRequest\<close>, oldest first: the failed component is observed, the request is logged
  unless it is a successful, silenced health check, a failed log is observed, and the request's
  completion is observed last.
\<close>

lemma finishRequest_calls:
  "\<exists>failed. rev (st_calls (finishRequest gw now st)) = rev (st_calls st) @
     (let l = finished_log now st; note = (\<lambda>k c. if gw_observer gw = None then [] else [CallObserver (observation_of k c l)]);
          log = gw_access_logger gw \<noteq> None \<and> \<not> (as_skip_successful l \<and> al_status l < 400) in
      (if as_failure l \<noteq> '''' then note ComponentFailure (as_failure l) else [])
      @ (if log then [CallAccessLogger (access_log.truncate l)] else [])
      @ (if log \<and> failed then note AccessLogFailure ''access_logger'' else [])
      @ note RequestCompleted '''')"
proof (cases "gw_access_logger gw")
  case None
  then show ?thesis by (auto simp: finishRequest_unfold Let_def)
next
  case (Some lg)
  define l where "l = finished_log now st"
  define s where "s = (if as_failure l \<noteq> ''''
    then safeObserve gw (observation_of ComponentFailure (as_failure l) l) (st\<lparr>st_log := l\<rparr>) else st\<lparr>st_log := l\<rparr>)"
  obtain failed where f: "st_calls (emitAccessLog gw lg l s) =
     (if failed \<and> gw_observer gw \<noteq> None
      then [CallObserver (observation_of AccessLogFailure ''access_logger'' l)] else [])
     @ CallAccessLogger (access_log.truncate l) # st_calls s"
    using emitAccessLog_calls [of gw lg l s] by blast
  have calls: "st_calls s = (if as_failure l \<noteq> [] \<and> gw_observer gw \<noteq> None
      then [CallObserver (observation_of ComponentFailure (as_failure l) l)] else []) @ st_calls st"
    by (simp add: s_def)
  have "finishRequest gw now st = safeObserve gw (observation_of RequestCompleted '''' l)
     (if as_skip_successful l \<and> al_status l < 400 then s else emitAccessLog gw lg l s)"
    using Some by (simp add: finishRequest_unfold Let_def l_def s_def)
  then show ?thesis
    unfolding Let_def l_def [symmetric]
    by (intro exI [of _ failed]) (simp add: f Some calls)
qed

lemma finished_log_code:
  "500 \<le> rec_status (st_rec st) \<Longrightarrow> al_error_code (finished_log now st) \<noteq> ''''"
  by (simp add: finished_log_def Let_def defaultErrorCode_def)

end
