(* ===== verification/GoUrl.thy ===== *)
theory GoUrl
  imports GoStrings
begin

text \<open>
  The parts of \<open>net/url\<close> and \<open>net/http/httputil\<close> that decide what URL a reverse proxy asks for: percent
  encoding of paths and query components, \<open>url.ParseQuery\<close> and \<open>Values.Encode\<close>, \<open>URL.EscapedPath\<close>, and
  the joining of a target with a request (\<open>ProxyRequest.SetURL\<close>, \<open>cleanQueryParams\<close>). \<open>url.Parse\<close> is not
  here; it is an argument where the program calls it.
\<close>

section \<open>Percent encoding\<close>

record url =
  url_scheme :: string
  url_has_user :: bool
  url_host :: string
  url_path :: string
  url_raw_path :: string
  url_raw_query :: string
  url_fragment :: string

datatype encoding = EncodePath | EncodeQuery

definition url_unreserved :: "char \<Rightarrow> bool" where
  "url_unreserved c \<longleftrightarrow> (let b = byte c in
     97 \<le> b \<and> b \<le> 122 \<or> 65 \<le> b \<and> b \<le> 90 \<or> 48 \<le> b \<and> b \<le> 57 \<or> c \<in> set ''-_.~'')"

definition should_escape :: "encoding \<Rightarrow> char \<Rightarrow> bool" where
  "should_escape mode c =
     (if url_unreserved c then False
      else if c \<in> set ''$&+,/:;=?@'' then (case mode of EncodePath \<Rightarrow> c = CHR ''?'' | EncodeQuery \<Rightarrow> True)
      else True)"

definition percent_digit :: "nat \<Rightarrow> char" where
  "percent_digit n = (if n < 10 then char_of (48 + n) else char_of (55 + n))"

definition is_hex :: "char \<Rightarrow> bool" where
  "is_hex c \<longleftrightarrow> (let b = byte c in 48 \<le> b \<and> b \<le> 57 \<or> 97 \<le> b \<and> b \<le> 102 \<or> 65 \<le> b \<and> b \<le> 70)"

definition unhex :: "char \<Rightarrow> nat" where
  "unhex c = (let b = byte c in if 48 \<le> b \<and> b \<le> 57 then b - 48 else if 97 \<le> b \<and> b \<le> 102 then b - 87 else b - 55)"

definition escape_byte :: "encoding \<Rightarrow> char \<Rightarrow> string" where
  "escape_byte mode c =
     (if \<not> should_escape mode c then [c]
      else if c = CHR '' '' \<and> mode = EncodeQuery then ''+''
      else [CHR 0x25, percent_digit (byte c div 16), percent_digit (byte c mod 16)])"

definition url_escape :: "encoding \<Rightarrow> string \<Rightarrow> string" where
  "url_escape mode s = concat (map (escape_byte mode) s)"

fun url_unescape :: "encoding \<Rightarrow> string \<Rightarrow> string option" where
  "url_unescape mode [] = Some []"
| "url_unescape mode (c # s) =
     (if c = CHR 0x25 then
        (case s of
           a # b # t \<Rightarrow>
             if is_hex a \<and> is_hex b
             then map_option (Cons (char_of (16 * unhex a + unhex b))) (url_unescape mode t) else None
         | short \<Rightarrow> None)
      else map_option (Cons (if c = CHR ''+'' \<and> mode = EncodeQuery then CHR '' '' else c)) (url_unescape mode s))"

lemma hex_percent_digit [simp]: "n < 16 \<Longrightarrow> is_hex (percent_digit n)" "n < 16 \<Longrightarrow> unhex (percent_digit n) = n"
  by (auto simp: is_hex_def unhex_def percent_digit_def Let_def)

lemma byte_percent_digit: "n < 16 \<Longrightarrow> byte (percent_digit n) = (if n < 10 then 48 + n else 55 + n)"
  by (simp add: percent_digit_def)

lemma url_unreserved_percent_digit: "n < 16 \<Longrightarrow> url_unreserved (percent_digit n)"
  by (auto simp: url_unreserved_def byte_percent_digit Let_def)

lemma char_of_halves: "char_of (16 * (byte c div 16) + byte c mod 16) = c"
proof -
  have "16 * (byte c div 16) + byte c mod 16 = byte c" by simp
  then show ?thesis by (simp only: char_of_char)
qed

lemma unescape_escape_byte: "url_unescape mode (escape_byte mode c @ s) = map_option (Cons c) (url_unescape mode s)"
proof (cases "should_escape mode c")
  case True
  have "byte c div 16 < 16" "byte c mod 16 < 16" using byte_less_256 [of c] by linarith+
  with True show ?thesis by (auto simp: escape_byte_def char_of_halves)
next
  case False
  then have "c \<noteq> CHR 0x25" "\<not> (c = CHR ''+'' \<and> mode = EncodeQuery)"
    by (auto simp: should_escape_def url_unreserved_def)
  with False show ?thesis by (auto simp: escape_byte_def)
qed

lemma url_unescape_escape: "url_unescape mode (url_escape mode s @ t) = map_option (\<lambda>r. s @ r) (url_unescape mode t)"
  by (induction s) (auto simp: url_escape_def unescape_escape_byte option.map_comp comp_def option.map_ident)

lemma unescape_escape_id [simp]: "url_unescape mode (url_escape mode s) = Some s"
  using url_unescape_escape [of mode s "[]"] by simp

section \<open>Queries\<close>

text \<open>One pair of \<open>url.ParseQuery\<close>: nothing when the part is empty, has a semicolon or does not decode.\<close>

definition query_pair :: "string \<Rightarrow> (string \<times> string) list" where
  "query_pair part =
     (if part = '''' \<or> CHR '';'' \<in> set part then []
      else let (key, val, found) = cut_at (CHR ''='') part in
        case (url_unescape EncodeQuery key, url_unescape EncodeQuery val) of
          (Some k, Some v) \<Rightarrow> [(k, v)]
        | failed \<Rightarrow> [])"

definition parse_query :: "string \<Rightarrow> (string \<times> string) list" where
  "parse_query q = concat (map query_pair (split_on (CHR ''&'') q))"

text \<open>\<open>Values.Encode\<close>: the keys in ascending order, the values of a key in theirs.\<close>

definition encode_pair :: "string \<times> string \<Rightarrow> string" where
  "encode_pair p = url_escape EncodeQuery (fst p) @ ''='' @ url_escape EncodeQuery (snd p)"

definition encode_query :: "(string \<times> string) list \<Rightarrow> string" where
  "encode_query ps = join ''&'' (map encode_pair (sort_key fst ps))"

definition values_named :: "string \<Rightarrow> (string \<times> string) list \<Rightarrow> string list" where
  "values_named k ps = map snd (filter (\<lambda>p. fst p = k) ps)"

text \<open>\<open>cleanQueryParams\<close> of the reverse proxy, which keeps a query that every parser reads alike.\<close>

fun query_plain :: "string \<Rightarrow> bool" where
  "query_plain [] = True"
| "query_plain (c # s) =
     (if c = CHR '';'' then False
      else if c = CHR 0x25 then
        (case s of a # b # t \<Rightarrow> is_hex a \<and> is_hex b \<and> query_plain t | short \<Rightarrow> False)
      else query_plain s)"

definition cleanQueryParams :: "string \<Rightarrow> string" where
  "cleanQueryParams q = (if query_plain q then q else encode_query (parse_query q))"

text \<open>What escaping a query component leaves: no separator, and every percent sign starts an encoding.\<close>

lemma escape_byte_query:
  "c' \<in> set (escape_byte EncodeQuery c) \<Longrightarrow> c' \<notin> set ''&;='' \<and> (url_unreserved c' \<or> c' = CHR 0x25 \<or> c' = CHR ''+'')"
proof -
  assume c': "c' \<in> set (escape_byte EncodeQuery c)"
  note hex = url_unreserved_percent_digit
  have "byte c div 16 < 16" "byte c mod 16 < 16" using byte_less_256 [of c] by linarith+
  with hex c' have "url_unreserved c' \<or> c' = CHR 0x25 \<or> c' = CHR ''+''"
    by (auto simp: escape_byte_def should_escape_def split: if_split_asm)
  then show ?thesis by (auto simp: url_unreserved_def)
qed

lemma escape_query_clean: "c \<in> set (url_escape EncodeQuery s) \<Longrightarrow> c \<notin> set ''&;=''"
  unfolding url_escape_def using escape_byte_query by fastforce

lemma query_plain_append: "query_plain s \<Longrightarrow> query_plain (s @ t) = query_plain t"
  by (induction s rule: query_plain.induct) (auto split: if_split_asm list.split_asm)

lemma query_plain_escape [simp]: "query_plain (url_escape EncodeQuery s)"
proof (induction s)
  case (Cons c s)
  have "byte c div 16 < 16" "byte c mod 16 < 16" using byte_less_256 [of c] by linarith+
  then have "query_plain (escape_byte EncodeQuery c)"
    by (auto simp: escape_byte_def should_escape_def url_unreserved_def split: if_split_asm)
  with Cons show ?case by (simp add: url_escape_def query_plain_append)
qed (simp add: url_escape_def)

lemma query_plain_encode_pair [simp]: "query_plain (encode_pair p)"
  by (simp add: encode_pair_def query_plain_append)

lemma query_plain_join: "\<forall>x \<in> set xs. query_plain x \<Longrightarrow> query_plain (join ''&'' xs)"
  by (induction "''&''" xs rule: join.induct) (simp_all add: query_plain_append)

lemma query_pair_encode [simp]: "query_pair (encode_pair p) = [p]"
proof -
  obtain k v where p: "p = (k, v)" by (cases p)
  have k: "CHR ''='' \<notin> set (url_escape EncodeQuery k)" using escape_query_clean [of "CHR ''=''" k] by auto
  have "cut_at (CHR ''='') (url_escape EncodeQuery k @ ''='' @ url_escape EncodeQuery v) = (url_escape EncodeQuery k, url_escape EncodeQuery v, True)"
    using cut_at_sep [OF k] by simp
  moreover have "CHR '';'' \<notin> set (encode_pair p)"
    using escape_query_clean [of "CHR '';''"] by (auto simp: encode_pair_def)
  ultimately show ?thesis by (simp add: query_pair_def encode_pair_def p)
qed

text \<open>Encoding and reading again gives the pairs in the order of their keys.\<close>

lemma parse_encode_query: "parse_query (encode_query ps) = sort_key fst ps"
proof (cases "ps = []")
  case False
  have "CHR ''&'' \<notin> set (encode_pair p)" for p
    using escape_query_clean [of "CHR ''&''"] by (auto simp: encode_pair_def)
  then have parts: "\<forall>x \<in> set (map encode_pair (sort_key fst ps)). CHR ''&'' \<notin> set x" by simp
  have "length (map encode_pair (sort_key fst ps)) \<noteq> 0" using False by simp
  then have "split_on (CHR ''&'') (encode_query ps) = map encode_pair (sort_key fst ps)"
    unfolding encode_query_def by (intro split_on_join [OF _ parts]) force
  then show ?thesis by (simp add: parse_query_def comp_def)
qed (simp add: parse_query_def encode_query_def query_pair_def)

lemma values_named_sort [simp]: "values_named k (sort_key fst ps) = values_named k ps"
  by (simp add: values_named_def sort_key_stable)

text \<open>
  Cleaning a query keeps the values of every key in their order, leaves a query in which every percent
  sign starts an encoding and no semicolon stands, and does nothing the second time.
\<close>

lemma cleanQueryParams_facts:
  "query_plain (cleanQueryParams q)" "cleanQueryParams (cleanQueryParams q) = cleanQueryParams q"
  "values_named k (parse_query (cleanQueryParams q)) = values_named k (parse_query q)"
proof -
  show plain: "query_plain (cleanQueryParams q)" by (auto simp: cleanQueryParams_def encode_query_def intro!: query_plain_join)
  then show "cleanQueryParams (cleanQueryParams q) = cleanQueryParams q" by (subst (1) cleanQueryParams_def) simp
  show "values_named k (parse_query (cleanQueryParams q)) = values_named k (parse_query q)"
    by (simp add: cleanQueryParams_def parse_encode_query)
qed

section \<open>Paths\<close>

definition path_byte :: "char \<Rightarrow> bool" where
  "path_byte c \<longleftrightarrow> c \<in> set ''!$&()*+,;=:@[]%'' \<or> byte c = 39 \<or> \<not> should_escape EncodePath c"

definition valid_encoded :: "string \<Rightarrow> bool" where
  "valid_encoded s = list_all path_byte s"

definition escaped_path :: "url \<Rightarrow> string" where
  "escaped_path u =
     (if url_raw_path u \<noteq> '''' \<and> valid_encoded (url_raw_path u)
         \<and> url_unescape EncodePath (url_raw_path u) = Some (url_path u) then url_raw_path u
      else if url_path u = ''*'' then ''*'' else url_escape EncodePath (url_path u))"

text \<open>\<open>URL.RequestURI\<close>: what stands in the request line of the outgoing request.\<close>

definition request_uri :: "url \<Rightarrow> string" where
  "request_uri u = (if escaped_path u = '''' then ''/'' else escaped_path u)
     @ (if url_raw_query u = '''' then '''' else ''?'' @ url_raw_query u)"

definition singleJoiningSlash :: "string \<Rightarrow> string \<Rightarrow> string" where
  "singleJoiningSlash a b =
     (if has_suffix a ''/'' \<and> has_prefix b ''/'' then a @ drop 1 b
      else if \<not> has_suffix a ''/'' \<and> \<not> has_prefix b ''/'' then a @ ''/'' @ b
      else a @ b)"

definition joinURLPath :: "url \<Rightarrow> url \<Rightarrow> string \<times> string" where
  "joinURLPath a b =
     (if url_raw_path a = '''' \<and> url_raw_path b = ''''
      then (singleJoiningSlash (url_path a) (url_path b), '''')
      else let apath = escaped_path a; bpath = escaped_path b;
               aslash = has_suffix apath ''/''; bslash = has_prefix bpath ''/'' in
        if aslash \<and> bslash then (url_path a @ drop 1 (url_path b), apath @ drop 1 bpath)
        else if \<not> aslash \<and> \<not> bslash then (url_path a @ ''/'' @ url_path b, apath @ ''/'' @ bpath)
        else (url_path a @ url_path b, apath @ bpath))"

definition rewriteRequestURL :: "url \<Rightarrow> url \<Rightarrow> url" where
  "rewriteRequestURL target u =
     u\<lparr>url_scheme := url_scheme target, url_host := url_host target,
       url_path := fst (joinURLPath target u), url_raw_path := snd (joinURLPath target u),
       url_raw_query :=
         (if url_raw_query target = '''' \<or> url_raw_query u = '''' then url_raw_query target @ url_raw_query u
          else url_raw_query target @ ''&'' @ url_raw_query u)\<rparr>"

text \<open>The path on the wire decodes to the path, and no question mark stands in it.\<close>

lemma escaped_path_decodes [simp]: "url_unescape EncodePath (escaped_path u) = Some (url_path u)"
  by (auto simp: escaped_path_def)

lemma path_byte_simps [simp]: "path_byte (CHR 0x25)" "path_byte (CHR ''*'')" "\<not> path_byte (CHR ''?'')"
  by (simp_all add: path_byte_def should_escape_def url_unreserved_def)

lemma path_byte_percent_digit [simp]: "n < 16 \<Longrightarrow> path_byte (percent_digit n)"
  by (simp add: path_byte_def should_escape_def url_unreserved_percent_digit)

lemma escape_byte_path: "list_all path_byte (escape_byte EncodePath c)"
proof -
  have "byte c div 16 < 16" "byte c mod 16 < 16" using byte_less_256 [of c] by linarith+
  then have "list_all path_byte [CHR 0x25, percent_digit (byte c div 16), percent_digit (byte c mod 16)]" by simp
  moreover have "list_all path_byte [c]" if "\<not> should_escape EncodePath c" using that by (simp add: path_byte_def)
  ultimately show ?thesis by (simp add: escape_byte_def)
qed

lemma valid_encoded_escaped_path: "valid_encoded (escaped_path u)"
proof -
  have "valid_encoded (url_escape EncodePath s)" for s
    using escape_byte_path by (induction s) (simp_all add: valid_encoded_def url_escape_def)
  moreover have "valid_encoded ''*''" by (simp add: valid_encoded_def)
  ultimately show ?thesis by (simp add: escaped_path_def)
qed

lemma valid_encoded_no_question: "valid_encoded s \<Longrightarrow> CHR ''?'' \<notin> set s"
  by (auto simp: valid_encoded_def list_all_iff)

lemma cut_at_no_sep: "d \<notin> set p \<Longrightarrow> cut_at d p = (p, [], False)"
  by (induction p) auto

lemma cut_at_request_uri:
  "fst (cut_at (CHR ''?'') (request_uri u)) = (if escaped_path u = '''' then ''/'' else escaped_path u)"
  "fst (snd (cut_at (CHR ''?'') (request_uri u))) = url_raw_query u"
proof -
  have none: "CHR ''?'' \<notin> set (if escaped_path u = '''' then ''/'' else escaped_path u)" (is "_ \<notin> set ?p")
    using valid_encoded_no_question [OF valid_encoded_escaped_path] by simp
  show "fst (cut_at (CHR ''?'') (request_uri u)) = ?p" "fst (snd (cut_at (CHR ''?'') (request_uri u))) = url_raw_query u"
    using cut_at_sep [OF none] cut_at_no_sep [OF none] by (auto simp: request_uri_def)
qed

text \<open>A leading slash of the path on the wire is one of the path, and the other way round unless the
  raw path encodes it.\<close>

lemma has_prefix_slash: "has_prefix s ''/'' \<longleftrightarrow> s \<noteq> [] \<and> hd s = CHR ''/''"
  by (cases s) auto

lemma has_suffix_slash: "has_suffix s ''/'' \<longleftrightarrow> s \<noteq> [] \<and> last s = CHR ''/''"
  by (cases s rule: rev_cases) (auto simp: has_suffix_def)

lemma escape_byte_ends:
  "escape_byte EncodePath c \<noteq> []" "hd (escape_byte EncodePath c) = CHR ''/'' \<longleftrightarrow> c = CHR ''/''"
  "last (escape_byte EncodePath c) = CHR ''/'' \<longleftrightarrow> c = CHR ''/''"
proof -
  have "byte (percent_digit (byte c mod 16)) \<noteq> 47" by (simp add: byte_percent_digit)
  then have "percent_digit (byte c mod 16) \<noteq> CHR ''/''" by auto
  then show "escape_byte EncodePath c \<noteq> []" "hd (escape_byte EncodePath c) = CHR ''/'' \<longleftrightarrow> c = CHR ''/''"
    "last (escape_byte EncodePath c) = CHR ''/'' \<longleftrightarrow> c = CHR ''/''"
    by (auto simp: escape_byte_def should_escape_def url_unreserved_def)
qed

lemma escape_path_slash [simp]:
  "has_prefix (url_escape EncodePath s) ''/'' = has_prefix s ''/''"
  "has_suffix (url_escape EncodePath s) ''/'' = has_suffix s ''/''"
proof -
  show "has_prefix (url_escape EncodePath s) ''/'' = has_prefix s ''/''"
    by (cases s) (auto simp: has_prefix_slash url_escape_def escape_byte_ends)
  show "has_suffix (url_escape EncodePath s) ''/'' = has_suffix s ''/''"
    by (cases s rule: rev_cases) (auto simp: has_suffix_slash url_escape_def escape_byte_ends)
qed

text \<open>
  What is sent for a path: its raw form where that is a valid encoding of the path, and else the standard
  encoding. The path of the joined URL is sent as the target's and the request's, one slash between them,
  every character encoded as it was in its own URL.
\<close>

definition sent_path :: "string \<Rightarrow> string \<Rightarrow> string" where
  "sent_path path raw =
     (if raw \<noteq> '''' \<and> valid_encoded raw \<and> url_unescape EncodePath raw = Some path then raw
      else url_escape EncodePath path)"

lemma sent_path_decodes [simp]: "url_unescape EncodePath (sent_path path raw) = Some path"
  by (simp add: sent_path_def)

lemma valid_encoded_escape: "valid_encoded (url_escape EncodePath s)"
  using escape_byte_path by (induction s) (auto simp: valid_encoded_def url_escape_def list_all_iff)

lemma sent_path_valid: "valid_encoded (sent_path path raw)"
  by (simp add: sent_path_def valid_encoded_escape)

lemma escaped_path_sent: "url_path u \<noteq> ''*'' \<Longrightarrow> escaped_path u = sent_path (url_path u) (url_raw_path u)"
  by (simp add: escaped_path_def sent_path_def)

lemma append_Cons_fun: "(@) (a # z) = (\<lambda>x. a # z @ x)"
  by (rule ext) simp

lemma url_unescape_append:
  "url_unescape mode s = Some x \<Longrightarrow> url_unescape mode (s @ t) = map_option (append x) (url_unescape mode t)"
proof (induction mode s arbitrary: x rule: url_unescape.induct)
  case (1 mode)
  then show ?case by (simp add: option.map_ident)
next
  case (2 mode c s)
  show ?case
  proof (cases "c = CHR 0x25")
    case True
    with 2(3) obtain a b s' where s: "s = a # b # s'" "is_hex a" "is_hex b"
      by (auto split: list.splits if_split_asm)
    with True 2(3) obtain y where "url_unescape mode s' = Some y" "x = char_of (16 * unhex a + unhex b) # y" by auto
    with 2(1) True s show ?thesis by (simp add: option.map_comp comp_def append_Cons_fun)
  next
    case False
    with 2 show ?thesis by (auto simp: option.map_comp comp_def append_Cons_fun)
  qed
qed

lemma joined_decodes:
  assumes "url_unescape EncodePath a = Some x" "url_unescape EncodePath b = Some y"
  shows "url_unescape EncodePath (singleJoiningSlash a b) =
    Some (if has_suffix a ''/'' \<and> has_prefix b ''/'' then x @ drop 1 y
      else if \<not> has_suffix a ''/'' \<and> \<not> has_prefix b ''/'' then x @ ''/'' @ y else x @ y)"
proof -
  have tail: "url_unescape EncodePath (drop 1 b) = Some (drop 1 y)" if "has_prefix b ''/''"
    using that assms(2) by (cases b) (auto simp: has_prefix_slash)
  show ?thesis
    using tail url_unescape_append [OF assms(1)] assms(2) by (simp add: singleJoiningSlash_def)
qed

lemma joined_valid: "valid_encoded a \<Longrightarrow> valid_encoded b \<Longrightarrow> valid_encoded (singleJoiningSlash a b)"
proof -
  have slash: "path_byte (CHR ''/'')" by (simp add: path_byte_def should_escape_def)
  assume "valid_encoded a" "valid_encoded b"
  then show ?thesis
    using slash by (auto simp: valid_encoded_def singleJoiningSlash_def list_all_iff dest: in_set_dropD)
qed

lemma escape_joined:
  "url_escape EncodePath (singleJoiningSlash a b) = singleJoiningSlash (url_escape EncodePath a) (url_escape EncodePath b)"
proof -
  have slash: "escape_byte EncodePath (CHR ''/'') = ''/''" by (simp add: escape_byte_def should_escape_def)
  have "url_escape EncodePath (drop 1 b) = drop 1 (url_escape EncodePath b)" if "has_prefix b ''/''"
    using that slash by (cases b) (auto simp: url_escape_def has_prefix_slash)
  then show ?thesis
    using slash by (simp add: singleJoiningSlash_def) (simp add: url_escape_def)
qed

lemma singleJoiningSlash_nonempty [simp]: "singleJoiningSlash a b \<noteq> []"
  by (cases b) (auto simp: singleJoiningSlash_def has_suffix_slash has_prefix_slash)

text \<open>The joined path is the target's, one slash, and the request's.\<close>

lemma singleJoiningSlash_shape:
  "singleJoiningSlash a b =
     (if has_suffix a ''/'' then butlast a else a) @ ''/'' @ (if has_prefix b ''/'' then tl b else b)"
  by (cases a rule: rev_cases; cases b) (auto simp: singleJoiningSlash_def has_suffix_slash has_prefix_slash)

lemma joined_not_star: "singleJoiningSlash a b \<noteq> ''*''"
proof
  assume "singleJoiningSlash a b = ''*''"
  moreover have "CHR ''/'' \<in> set (singleJoiningSlash a b)" by (simp add: singleJoiningSlash_shape)
  ultimately show False by simp
qed

theorem joined_escaped_path:
  assumes "url_path target \<noteq> ''*''" "url_path u \<noteq> ''*''"
  shows "escaped_path (rewriteRequestURL target u) =
    singleJoiningSlash (sent_path (url_path target) (url_raw_path target)) (sent_path (url_path u) (url_raw_path u))"
proof (cases "url_raw_path target = '''' \<and> url_raw_path u = ''''")
  case True
  then show ?thesis
    using joined_not_star by (simp add: rewriteRequestURL_def joinURLPath_def escaped_path_def sent_path_def escape_joined)
next
  case False
  let ?a = "sent_path (url_path target) (url_raw_path target)" and ?b = "sent_path (url_path u) (url_raw_path u)"
  let ?out = "rewriteRequestURL target u"
  have out: "url_raw_path ?out = singleJoiningSlash ?a ?b"
    "url_path ?out = (if has_suffix ?a ''/'' \<and> has_prefix ?b ''/'' then url_path target @ drop 1 (url_path u)
      else if \<not> has_suffix ?a ''/'' \<and> \<not> has_prefix ?b ''/'' then url_path target @ ''/'' @ url_path u
      else url_path target @ url_path u)"
    by (simp_all add: rewriteRequestURL_def joinURLPath_def if_not_P [OF False] singleJoiningSlash_def Let_def
        escaped_path_sent assms del: not_gr_zero)
  have "valid_encoded (singleJoiningSlash ?a ?b)" by (simp add: joined_valid sent_path_valid)
  moreover have "url_unescape EncodePath (singleJoiningSlash ?a ?b) = Some (url_path ?out)"
    by (simp add: joined_decodes out(2))
  ultimately show ?thesis by (simp add: escaped_path_def out(1))
qed

section \<open>The query of the joined URL\<close>

lemma split_on_append: "split_on d (s @ d # t) = split_on d s @ split_on d t"
  by (induction s) (auto split: list.split)

lemma parse_query_append: "parse_query (s @ CHR ''&'' # t) = parse_query s @ parse_query t"
  by (simp add: parse_query_def split_on_append)

lemma parse_query_Nil [simp]: "parse_query [] = []"
  by (simp add: parse_query_def query_pair_def)

lemma query_plain_separator: "query_plain (s @ CHR ''&'' # t) \<longleftrightarrow> query_plain s \<and> query_plain t"
proof (induction s rule: query_plain.induct)
  case (2 c s)
  have hex: "\<not> is_hex (CHR ''&'')" by (simp add: is_hex_def)
  show ?case
  proof (cases s)
    case Nil
    with 2 hex show ?thesis by (cases t) auto
  next
    case (Cons a s')
    with 2 hex show ?thesis by (cases s') auto
  qed
qed simp

theorem joined_query:
  "parse_query (url_raw_query (rewriteRequestURL target u)) = parse_query (url_raw_query target) @ parse_query (url_raw_query u)"
  "query_plain (url_raw_query (rewriteRequestURL target u)) \<longleftrightarrow> query_plain (url_raw_query target) \<and> query_plain (url_raw_query u)"
  using parse_query_append by (auto simp: rewriteRequestURL_def query_plain_separator)

lemma values_named_append [simp]: "values_named k (ps @ qs) = values_named k ps @ values_named k qs"
  by (simp add: values_named_def)

end
