(* ===== verification/Cors.thy ===== *)
theory Cors
  imports AccessLog GoUrl
begin

text \<open>
  \<open>sdk/go/gateway/cors.go\<close>: \<open>newCORSPolicy\<close>, \<open>corsPolicy.handle\<close> and their helpers. What
  \<open>net/url.Parse\<close> makes of an origin is an argument (\<open>None\<close> is its error).
\<close>

record cors_config =
  cc_origins :: "string list"
  cc_methods :: "string list"
  cc_headers :: "string list"
  cc_credentials :: bool
  cc_max_age :: int

definition defaultCORSMethods :: "string list" where
  "defaultCORSMethods = [''DELETE'', ''GET'', ''HEAD'', ''OPTIONS'', ''PATCH'', ''POST'', ''PUT'']"

definition defaultCORSHeaders :: "string list" where
  "defaultCORSHeaders = [''Authorization'', ''Content-Type'', ''X-Request-ID'']"

section \<open>Compiling the policy\<close>

definition validCORSOrigin :: "(string \<Rightarrow> url option) \<Rightarrow> string \<Rightarrow> bool" where
  "validCORSOrigin url_parse origin =
     (case url_parse origin of
        None \<Rightarrow> False
      | Some u \<Rightarrow> (url_scheme u = ''http'' \<or> url_scheme u = ''https'') \<and> url_host u \<noteq> ''''
          \<and> \<not> url_has_user u \<and> url_path u = '''' \<and> url_raw_query u = '''' \<and> url_fragment u = '''')"

text \<open>The three loops of \<open>newCORSPolicy\<close>.\<close>

fun cors_origins ::
  "(string \<Rightarrow> url option) \<Rightarrow> string set \<Rightarrow> bool \<Rightarrow> string list \<Rightarrow> (string set \<times> bool) result" where
  "cors_origins url_parse origins wildcard [] = Inr (origins, wildcard)"
| "cors_origins url_parse origins wildcard (x # xs) =
     (let origin = trim_space x in
      if origin = '''' then Inl (Plain ''gateway CORS origin cannot be empty'')
      else if origin = ''*'' then cors_origins url_parse (insert origin origins) True xs
      else if \<not> validCORSOrigin url_parse origin
      then Inl (Plain (''gateway CORS origin is invalid: '' @ origin))
      else cors_origins url_parse (insert origin origins) wildcard xs)"

fun cors_methods :: "unicode_tables \<Rightarrow> string set \<Rightarrow> string list \<Rightarrow> string set result" where
  "cors_methods U methods [] = Inr methods"
| "cors_methods U methods (x # xs) =
     (let method = to_upper U (trim_space x) in
      if \<not> isHTTPToken method then Inl (Plain ''gateway CORS method is invalid'')
      else cors_methods U (insert method methods) xs)"

fun cors_headers ::
  "unicode_tables \<Rightarrow> (string, string) mapping \<Rightarrow> string list \<Rightarrow> (string, string) mapping result" where
  "cors_headers U headers [] = Inr headers"
| "cors_headers U headers (x # xs) =
     (let header = canonical_key (trim_space x) in
      if \<not> isHTTPToken header then Inl (Plain ''gateway CORS header is invalid'')
      else cors_headers U (Mapping.update (to_lower U header) header headers) xs)"

definition sortedMapKeys :: "string set \<Rightarrow> string list" where
  "sortedMapKeys values = sorted_list_of_set values"

definition sortedMapValues :: "(string, string) mapping \<Rightarrow> string list" where
  "sortedMapValues values = sort (map (\<lambda>k. the (Mapping.lookup values k)) (Mapping.ordered_keys values))"

definition newCORSPolicy ::
  "(string \<Rightarrow> url option) \<Rightarrow> unicode_tables \<Rightarrow> cors_config option \<Rightarrow> cors_policy option result" where
  "newCORSPolicy url_parse U config =
     (case config of
        None \<Rightarrow> Inr None
      | Some c \<Rightarrow>
          if cc_origins c = [] then Inl (Plain ''gateway CORS allowed origins are required'')
          else and_then (cors_origins url_parse {} False (cc_origins c)) (\<lambda>(origins, wildcard).
            if wildcard \<and> (card origins \<noteq> 1 \<or> cc_credentials c)
            then Inl (Plain ''gateway CORS wildcard origin cannot be combined with credentials or explicit origins'')
            else and_then (cors_methods U {} (if cc_methods c = [] then defaultCORSMethods else cc_methods c))
              (\<lambda>methods.
               and_then (cors_headers U Mapping.empty (if cc_headers c = [] then defaultCORSHeaders else cc_headers c))
              (\<lambda>headers.
                if cc_max_age c < 0 then Inl (Plain ''gateway CORS max age cannot be negative'')
                else Inr (Some
                  \<lparr>cp_origins = origins, cp_wildcard = wildcard, cp_methods = methods, cp_headers = headers,
                   cp_allow_origin = (if wildcard then ''*'' else ''''),
                   cp_methods_value = join '','' (sortedMapKeys methods),
                   cp_headers_value = join '','' (sortedMapValues headers),
                   cp_credentials = cc_credentials c, cp_max_age = cc_max_age c\<rparr>)))))"

section \<open>Handling a request\<close>

definition acceptsRequestedHeaders :: "unicode_tables \<Rightarrow> cors_policy \<Rightarrow> string \<Rightarrow> bool" where
  "acceptsRequestedHeaders U p raw =
     (if trim_space raw = '''' then True
      else list_all (\<lambda>h. Mapping.lookup (cp_headers p) (to_lower U (trim_space h)) \<noteq> None) (split_on (CHR '','') raw))"

text \<open>The header fields of an accepted request, in the order they are written.\<close>

definition cors_response :: "cors_policy \<Rightarrow> string \<Rightarrow> bool \<Rightarrow> write_op list" where
  "cors_response p origin preflight =
     AddHeader ''Vary'' ''Origin''
     # (if preflight then [AddHeader ''Vary'' ''Access-Control-Request-Method'',
                           AddHeader ''Vary'' ''Access-Control-Request-Headers''] else [])
     @ [SetHeader ''Access-Control-Allow-Origin'' (if cp_allow_origin p \<noteq> '''' then cp_allow_origin p else origin),
        SetHeader ''Access-Control-Allow-Methods'' (cp_methods_value p),
        SetHeader ''Access-Control-Allow-Headers'' (cp_headers_value p)]
     @ (if cp_credentials p then [SetHeader ''Access-Control-Allow-Credentials'' ''true''] else [])
     @ (if cp_max_age p > 0
        then [SetHeader ''Access-Control-Max-Age'' (format_int (cp_max_age p div second))] else [])
     @ (if preflight then [WriteHeader 204] else [])"

definition cors_rejected :: "string \<Rightarrow> gateway_error" where
  "cors_rejected code = gateway_failure 403 code ''forbidden''"

text \<open>\<open>handle\<close>: \<open>Return\<close> where the code returns true, \<open>Continue\<close> where it returns false.\<close>

definition cors_handle :: "unicode_tables \<Rightarrow> cors_policy \<Rightarrow> 'w gateway \<Rightarrow> 'w st \<Rightarrow> ('w st, unit) flow" where
  "cors_handle U p gw st =
     (let r = st_req st; origin = trim_space (header_get (req_header r) ''Origin'') in
      if origin = '''' then Continue st ()
      else if \<not> cp_wildcard p \<and> origin \<notin> cp_origins p then refuse gw (cors_rejected ''cors_origin_rejected'') st
      else
        let asked = trim_space (header_get (req_header r) ''Access-Control-Request-Method'');
            preflight = (req_method r = ''OPTIONS'' \<and> asked \<noteq> '''');
            requested_method = (if preflight then to_upper U asked else req_method r) in
        if requested_method \<notin> cp_methods p then refuse gw (cors_rejected ''cors_method_rejected'') st
        else if preflight \<and>
          \<not> acceptsRequestedHeaders U p (header_get (req_header r) ''Access-Control-Request-Headers'')
        then refuse gw (cors_rejected ''cors_headers_rejected'') st
        else
          let st' = st\<lparr>st_rec := apply_ops (cors_response p origin preflight) (st_rec st)\<rparr> in
          if preflight then Return st' else Continue st' ())"

definition apply_cors :: "unicode_tables \<Rightarrow> 'w gateway \<Rightarrow> 'w st \<Rightarrow> ('w st, unit) flow" where
  "apply_cors U gw st =
     (case gw_cors gw of None \<Rightarrow> Continue st () | Some p \<Rightarrow> cors_handle U p gw st)"

section \<open>The stage keeps the contract\<close>

interpretation cors: guarded_stage "apply_cors U gw" for U gw
  by unfold_locales
    (auto simp: apply_cors_def cors_handle_def Let_def refuse_def fail_recorder_ok recorder_ok_ops
      simp del: apply_ops.simps split: option.splits)

section \<open>What the policy guarantees\<close>

lemma cors_origins_ok:
  "cors_origins url_parse os wild xs = Inr (origins, wildcard) \<Longrightarrow>
     origins = os \<union> trim_space ` set xs \<and> (wildcard \<longleftrightarrow> wild \<or> ''*'' \<in> trim_space ` set xs)
     \<and> (\<forall>x \<in> trim_space ` set xs. x \<noteq> '''' \<and> (x = ''*'' \<or> validCORSOrigin url_parse x))"
proof (induction xs arbitrary: os wild)
  case (Cons x xs)
  from Cons.prems Cons.IH [of "insert (trim_space x) os" True] Cons.IH [of "insert (trim_space x) os" wild]
  show ?case by (cases "trim_space x = ''*''") (auto simp: Let_def split: if_splits)
qed simp

lemma cors_methods_ok:
  "cors_methods U ms xs = Inr methods \<Longrightarrow>
     methods = ms \<union> (\<lambda>x. to_upper U (trim_space x)) ` set xs
     \<and> (\<forall>m \<in> (\<lambda>x. to_upper U (trim_space x)) ` set xs. isHTTPToken m)"
proof (induction xs arbitrary: ms)
  case (Cons x xs)
  from Cons.prems Cons.IH [of "insert (to_upper U (trim_space x)) ms"]
  show ?case by (auto simp: Let_def split: if_splits)
qed simp

text \<open>
  A compiled policy never pairs the wildcard with credentials or with another origin, and every other
  origin is an HTTP origin without user, path, query or fragment.
\<close>

definition cors_policy_ok :: "(string \<Rightarrow> url option) \<Rightarrow> cors_policy \<Rightarrow> bool" where
  "cors_policy_ok url_parse p \<longleftrightarrow>
     cp_origins p \<noteq> {} \<and> 0 \<le> cp_max_age p \<and> (\<forall>m \<in> cp_methods p. isHTTPToken m)
     \<and> (if cp_wildcard p then cp_origins p = {''*''} \<and> \<not> cp_credentials p \<and> cp_allow_origin p = ''*''
        else cp_allow_origin p = '''' \<and> (\<forall>x \<in> cp_origins p. x \<noteq> '''' \<and> validCORSOrigin url_parse x))"

lemma newCORSPolicy_ok:
  assumes "newCORSPolicy url_parse U config = Inr (Some p)"
  shows "cors_policy_ok url_parse p"
proof -
  obtain c where c: "config = Some c" "cc_origins c \<noteq> []"
    using assms by (auto simp: newCORSPolicy_def split: option.splits if_splits)
  obtain origins wildcard where o: "cors_origins url_parse {} False (cc_origins c) = Inr (origins, wildcard)"
    using assms c by (auto simp: newCORSPolicy_def and_then_eq_Inr)
  obtain methods where m:
    "cors_methods U {} (if cc_methods c = [] then defaultCORSMethods else cc_methods c) = Inr methods"
    using assms c o by (auto simp: newCORSPolicy_def and_then_eq_Inr split: if_splits)
  note os = cors_origins_ok [OF o, simplified] and ms = cors_methods_ok [OF m, simplified]
  have nonempty: "origins \<noteq> {}" using os c(2) by auto
  have "origins = {''*''}" if "wildcard" "card origins = 1"
  proof -
    from that(1) os have "''*'' \<in> origins" by auto
    with that(2) show ?thesis by (auto simp: card_1_singleton_iff)
  qed
  moreover have "\<forall>x \<in> origins. x \<noteq> '''' \<and> validCORSOrigin url_parse x" if "\<not> wildcard"
    using that cors_origins_ok [OF o] by (metis Un_empty_left)
  moreover have "\<forall>x \<in> methods. isHTTPToken x" using ms by auto
  ultimately show ?thesis
    using assms c(1) o m nonempty
    by (auto simp: newCORSPolicy_def cors_policy_ok_def and_then_eq_Inr split: if_splits)
qed

text \<open>
  A request that names an origin gets past the policy only with an allowed origin and method, and the
  response names that origin, or \<open>*\<close> without credentials.
\<close>

lemma cors_handle_Continue:
  "cors_handle U p gw st = Continue st' u \<longleftrightarrow>
     (let r = st_req st; origin = trim_space (header_get (req_header r) ''Origin'');
          preflight = (req_method r = ''OPTIONS''
            \<and> trim_space (header_get (req_header r) ''Access-Control-Request-Method'') \<noteq> '''') in
      if origin = '''' then st' = st
      else (cp_wildcard p \<or> origin \<in> cp_origins p) \<and> \<not> preflight \<and> req_method r \<in> cp_methods p
        \<and> st' = st\<lparr>st_rec := apply_ops (cors_response p origin False) (st_rec st)\<rparr>)"
  by (auto simp: cors_handle_def Let_def refuse_def simp del: apply_ops.simps)

lemma cors_response_origin:
  assumes "\<not> preflight"
  shows "header_values (rec_header (apply_ops (cors_response p origin preflight) rc)) ''Access-Control-Allow-Origin''
       = [if cp_allow_origin p \<noteq> '''' then cp_allow_origin p else origin]"
    and "rec_wrote (apply_ops (cors_response p origin preflight) rc) = rec_wrote rc"
proof -
  have keys: "canonical_key ''Access-Control-Allow-Origin'' = ''Access-Control-Allow-Origin''"
    "canonical_key ''Access-Control-Allow-Methods'' = ''Access-Control-Allow-Methods''"
    "canonical_key ''Access-Control-Allow-Headers'' = ''Access-Control-Allow-Headers''"
    "canonical_key ''Access-Control-Allow-Credentials'' = ''Access-Control-Allow-Credentials''"
    "canonical_key ''Access-Control-Max-Age'' = ''Access-Control-Max-Age''"
    "canonical_key ''Vary'' = ''Vary''"
    by code_simp+
  show "header_values (rec_header (apply_ops (cors_response p origin preflight) rc)) ''Access-Control-Allow-Origin''
       = [if cp_allow_origin p \<noteq> '''' then cp_allow_origin p else origin]"
    using assms by (simp add: cors_response_def header_simps keys)
  show "rec_wrote (apply_ops (cors_response p origin preflight) rc) = rec_wrote rc"
    using assms by (simp add: cors_response_def)
qed

section \<open>Properties of the policy\<close>

text \<open>
  C11 Cross-origin access is never opened wider than declared: under a policy that \<open>newCORSPolicy\<close>
  builds, a request naming an origin gets past the stage only if its method is allowed and its origin
  is declared (or the policy is the wildcard), and the response then names that origin exactly, or
  \<open>*\<close> under a policy without credentials.
\<close>

theorem cors_origin_respected:
  assumes "newCORSPolicy url_parse U config = Inr (Some p)" "cors_handle U p gw st = Continue st' u"
    "trim_space (header_get (req_header (st_req st)) ''Origin'') \<noteq> ''''"
  shows "req_method (st_req st) \<in> cp_methods p
    \<and> (if cp_wildcard p
       then \<not> cp_credentials p \<and> header_values (rec_header (st_rec st')) ''Access-Control-Allow-Origin'' = [''*'']
       else trim_space (header_get (req_header (st_req st)) ''Origin'') \<in> cp_origins p
         \<and> header_values (rec_header (st_rec st')) ''Access-Control-Allow-Origin''
             = [trim_space (header_get (req_header (st_req st)) ''Origin'')])"
proof -
  from newCORSPolicy_ok [OF assms(1)] have policy:
    "if cp_wildcard p then \<not> cp_credentials p \<and> cp_allow_origin p = ''*'' else cp_allow_origin p = ''''"
    by (auto simp: cors_policy_ok_def split: if_splits)
  have no_preflight: "\<not> False" by simp
  show ?thesis
    using assms(2,3) policy cors_response_origin(1) [OF no_preflight]
    by (auto simp: cors_handle_Continue Let_def simp del: apply_ops.simps)
qed

end
