(* ===== verification/Health.thy ===== *)
theory Health
  imports Cors
begin

text \<open>
  \<open>sdk/go/gateway/health.go\<close>: the gateway's own liveness and readiness endpoints. A Go interface
  value is an optional optional value: \<open>None\<close> is nil, \<open>Some None\<close> holds a nil pointer or function,
  which \<open>isNilInterface\<close> also reports.
\<close>

type_synonym 'a interface = "'a option option"

definition isNilInterface :: "'a interface \<Rightarrow> bool" where
  "isNilInterface i = (case i of Some (Some x) \<Rightarrow> False | _ \<Rightarrow> True)"

definition interface_value :: "'a interface \<Rightarrow> 'a option" where
  "interface_value i = (case i of Some (Some x) \<Rightarrow> Some x | _ \<Rightarrow> None)"

type_synonym 'w readiness_fn = "int \<Rightarrow> 'w \<Rightarrow> unit result ext \<times> 'w"
type_synonym 'w health_responder_fn = "recorder \<Rightarrow> http_request \<Rightarrow> health_result \<Rightarrow> 'w \<Rightarrow> writes \<times> 'w"

record 'w health_config =
  hc_service :: string
  hc_live :: string
  hc_ready :: string
  hc_timeout :: int
  hc_readiness :: "'w readiness_fn interface"
  hc_log_successful :: bool
  hc_responder :: "'w health_responder_fn interface"

definition defaultReadinessTimeout :: int where "defaultReadinessTimeout = 2 * second"

definition defaultHealthResponder :: "'w health_responder_fn" where
  "defaultHealthResponder rc r result w = ((writePlainText 200 ''ok'', None), w)"

definition default_to :: "string \<Rightarrow> string \<Rightarrow> string" where
  "default_to d s = (let t = trim_space s in if t = '''' then d else t)"

definition newHealthPolicy :: "'w health_config option \<Rightarrow> 'w health_policy option result" where
  "newHealthPolicy config =
     (case config of
        None \<Rightarrow> Inr None
      | Some c \<Rightarrow>
          let service = default_to ''gateway'' (hc_service c);
              live = default_to ''/health/live'' (hc_live c);
              ready = default_to ''/health/ready'' (hc_ready c) in
          if \<not> has_prefix live ''/'' \<or> \<not> has_prefix ready ''/'' \<or> live = ready
          then Inl (Plain ''gateway health paths must be distinct absolute paths'')
          else
            let timeout = (if hc_timeout c = 0 then defaultReadinessTimeout else hc_timeout c) in
            if timeout < 0 then Inl (Plain ''gateway readiness timeout cannot be negative'')
            else if hc_responder c \<noteq> None \<and> isNilInterface (hc_responder c)
            then Inl (Plain ''gateway health responder is nil'')
            else Inr (Some
              \<lparr>hp_service = service, hp_live = live, hp_ready = ready, hp_timeout = timeout,
               hp_readiness = interface_value (hc_readiness c), hp_log_successful = hc_log_successful c,
               hp_responder = (case interface_value (hc_responder c) of
                                 None \<Rightarrow> defaultHealthResponder | Some f \<Rightarrow> f)\<rparr>))"

definition health_log :: "string \<Rightarrow> 'w st \<Rightarrow> 'w st" where
  "health_log route st =
     st\<lparr>st_log := (st_log st)\<lparr>al_auth_result := ''public'', al_upstream := '''', al_route := route\<rparr>\<rparr>"

text \<open>The readiness check, where one is declared and the request is for readiness.\<close>

definition check_readiness :: "'w health_policy \<Rightarrow> 'w gateway \<Rightarrow> 'w st \<Rightarrow> ('w st, unit) flow" where
  "check_readiness p gw st =
     (case hp_readiness p of
        None \<Rightarrow> Continue st ()
      | Some check \<Rightarrow>
          if req_path (st_req st) = hp_ready p
          then flow_bind (invoke CallReadiness (check (hp_timeout p)) st) (or_unavailable gw ''readiness_failed'')
          else Continue st ())"

definition respond_health :: "'w health_policy \<Rightarrow> 'w st \<Rightarrow> ('w st, unit) flow" where
  "respond_health p st =
     (let result = \<lparr>hr_kind = (if req_path (st_req st) = hp_ready p then HealthReady else HealthLive),
                    hr_service = hp_service p\<rparr>;
          ((ops, ended), w') = hp_responder p (st_rec st) (st_req st) result (st_world st);
          st' = st\<lparr>st_rec := apply_ops ops (st_rec st), st_world := w',
                   st_calls := CallHealthResponder result # st_calls st\<rparr> in
      case ended_by ops ended (st_rec st) of None \<Rightarrow> Return st' | Some q \<Rightarrow> Panicking st' q)"

definition skip_successful :: "bool \<Rightarrow> 'w st \<Rightarrow> 'w st" where
  "skip_successful b st = st\<lparr>st_log := (st_log st)\<lparr>as_skip_successful := b\<rparr>\<rparr>"

definition health_handle :: "'w health_policy \<Rightarrow> 'w gateway \<Rightarrow> 'w st \<Rightarrow> ('w st, unit) flow" where
  "health_handle p gw st =
     (let path = req_path (st_req st) in
      if path \<noteq> hp_live p \<and> path \<noteq> hp_ready p then Continue st ()
      else
        let st1 = health_log (if path = hp_live p then ''health_live'' else ''health_ready'') st in
        if req_method (st_req st) \<noteq> ''GET''
        then refuse gw (gateway_failure 405 ''health_method_not_allowed'' ''method not allowed'') st1
        else flow_bind (check_readiness p gw st1)
               (\<lambda>st2 u. respond_health p (skip_successful (\<not> hp_log_successful p) st2)))"

definition apply_health :: "'w gateway \<Rightarrow> 'w st \<Rightarrow> ('w st, unit) flow" where
  "apply_health gw st =
     (case gw_health gw of None \<Rightarrow> Continue st () | Some p \<Rightarrow> health_handle p gw st)"

section \<open>The stage keeps the contract\<close>

lemma health_log_simps [simp]:
  "st_req (health_log x st) = st_req st" "st_rec (health_log x st) = st_rec st"
  "st_world (health_log x st) = st_world st" "st_calls (health_log x st) = st_calls st"
  by (simp_all add: health_log_def)

lemma skip_successful_simps [simp]:
  "st_req (skip_successful x st) = st_req st" "st_rec (skip_successful x st) = st_rec st"
  "st_world (skip_successful x st) = st_world st" "st_calls (skip_successful x st) = st_calls st"
  by (simp_all add: skip_successful_def)

lemma guarded_check_readiness: "guarded_stage (check_readiness p gw)"
proof (cases "hp_readiness p")
  case None
  then show ?thesis by (simp add: check_readiness_def [abs_def] guarded_stage_return)
next
  case (Some check)
  have "guarded_stage (\<lambda>st. flow_bind (invoke CallReadiness (check (hp_timeout p)) st)
      (or_unavailable gw ''readiness_failed''))"
    by (rule guarded_stage_bind [OF guarded_stage_invoke guarded_stage_or_unavailable]) simp
  with Some show ?thesis
    by (simp add: check_readiness_def [abs_def] guarded_stage_if guarded_stage_return)
qed

lemma guarded_respond_health: "guarded_stage (respond_health p)"
  by unfold_locales
    (auto simp: respond_health_def Let_def recorder_ok_ops simp del: apply_ops.simps
      split: prod.splits option.splits)

lemma guarded_health_handle: "guarded_stage (health_handle p gw)"
proof -
  have respond: "guarded_stage (\<lambda>st. respond_health p (skip_successful b st))" for b
    by (rule guarded_stage_update [OF _ _ guarded_respond_health]) simp_all
  have answer: "guarded_stage (\<lambda>st. flow_bind (check_readiness p gw (health_log x st))
      (\<lambda>st2 u. respond_health p (skip_successful b st2)))" for x b
    by (rule guarded_stage_bind [OF guarded_stage_update [OF _ _ guarded_check_readiness] respond]) simp_all
  have refused: "guarded_stage (\<lambda>st. refuse gw e (health_log x st))" for e x
    by (rule guarded_stage_update [OF _ _ guarded_stage_refuse]) simp_all
  show ?thesis
    by (rule guarded_stage.intro)
      (simp_all add: health_handle_def Let_def guarded_stage.calls_grow [OF answer]
        guarded_stage.keeps_recorder [OF answer] guarded_stage.calls_grow [OF refused]
        guarded_stage.keeps_recorder [OF refused])
qed

lemma guarded_apply_health: "guarded_stage (apply_health gw)"
  by (cases "gw_health gw")
    (simp_all add: apply_health_def [abs_def] guarded_stage_return guarded_health_handle)

interpretation health: guarded_stage "apply_health gw" for gw
  by (rule guarded_apply_health)

section \<open>What the endpoints answer\<close>

lemma newHealthPolicy_ok:
  assumes "newHealthPolicy config = Inr (Some p)"
  shows "hp_live p \<noteq> hp_ready p" "has_prefix (hp_live p) ''/''" "has_prefix (hp_ready p) ''/''"
    "0 < hp_timeout p" "hp_service p \<noteq> ''''"
  using assms
  by (auto simp: newHealthPolicy_def Let_def default_to_def defaultReadinessTimeout_def second_def
      split: option.splits if_splits)

text \<open>A request for another path passes untouched; one for these paths never goes past the stage.\<close>

lemma health_handle_Continue:
  "health_handle p gw st = Continue st' u \<longleftrightarrow>
     req_path (st_req st) \<noteq> hp_live p \<and> req_path (st_req st) \<noteq> hp_ready p \<and> st' = st"
proof -
  have "respond_health p s \<noteq> Continue st' u" for s
    by (simp add: respond_health_def Let_def split: prod.split option.split)
  then have "flow_bind m (\<lambda>s u. respond_health p (skip_successful b s)) \<noteq> Continue st' u" for m b
    by (auto simp: flow_bind_eq_Continue)
  then show ?thesis by (auto simp: health_handle_def Let_def refuse_def)
qed

text \<open>
  Readiness is reported only when the declared check, given the policy's timeout, succeeds; a check
  that fails is answered through the error path with 503 \<open>readiness_failed\<close>.
\<close>

lemma readiness_reported:
  assumes "req_path (st_req st) = hp_ready p" "hp_readiness p = Some check"
    "check_readiness p gw st = Continue st' u"
  shows "\<exists>w'. check (hp_timeout p) (st_world st) = (Ret (Inr ()), w')"
  using assms
  by (cases rule: invoke_cases [of "check (hp_timeout p)" st CallReadiness])
    (auto simp: check_readiness_def or_unavailable_def refuse_def split: sum.splits)

lemma readiness_failure:
  assumes "req_path (st_req st) = hp_ready p" "hp_readiness p = Some check"
    "check (hp_timeout p) (st_world st) = (Ret (Inl e), w')"
  shows "check_readiness p gw st = refuse gw (unavailableError ''readiness_failed'' e)
     (st\<lparr>st_world := w', st_calls := CallReadiness # st_calls st\<rparr>)"
  using assms by (simp add: check_readiness_def invoke_def or_unavailable_def)

end
