(* ===== verification/ClientIp.thy ===== *)
theory ClientIp
  imports GatewayState
begin

text \<open>
  \<open>sdk/go/gateway/client_ip.go\<close>: the default resolver, which trusts only the peer's address, and the
  trusted-proxy resolver. \<open>net/netip\<close> values are modelled (addresses, \<open>Unmap\<close>, \<open>Prefix.Masked\<close>,
  \<open>Prefix.Contains\<close>), and so is \<open>net.SplitHostPort\<close>; the textual parsers and \<open>Addr.String\<close> are
  arguments.
\<close>

section \<open>Addresses and prefixes\<close>

datatype addr = Addr4 "32 word" | Addr6 "128 word" string

record prefix =
  prefix_addr :: addr
  prefix_bits :: nat

record netip =
  parse_addr :: "string \<Rightarrow> addr option"
  parse_prefix :: "string \<Rightarrow> prefix option"
  addr_string :: "addr \<Rightarrow> string"
  parse_ip :: "string \<Rightarrow> bool"

text \<open>IPv4 addresses mapped into IPv6 become IPv4; a zone is dropped with the mapping.\<close>

definition unmap :: "addr \<Rightarrow> addr" where
  "unmap a = (case a of Addr4 w \<Rightarrow> Addr4 w
     | Addr6 w z \<Rightarrow> if drop_bit 32 w = 0xFFFF then Addr4 (ucast w) else Addr6 w z)"

definition keep_high :: "nat \<Rightarrow> nat \<Rightarrow> 'a::len word \<Rightarrow> 'a word" where
  "keep_high len bits w = push_bit (len - bits) (drop_bit (len - bits) w)"

definition masked :: "prefix \<Rightarrow> prefix" where
  "masked p = p\<lparr>prefix_addr := (case prefix_addr p of
       Addr4 w \<Rightarrow> Addr4 (keep_high 32 (prefix_bits p) w)
     | Addr6 w z \<Rightarrow> Addr6 (keep_high 128 (prefix_bits p) w) '''')\<rparr>"

fun prefix_contains :: "prefix \<Rightarrow> addr \<Rightarrow> bool" where
  "prefix_contains p (Addr4 w) =
     (case prefix_addr p of
        Addr4 v \<Rightarrow> drop_bit (32 - prefix_bits p) w = drop_bit (32 - prefix_bits p) v
      | Addr6 v z \<Rightarrow> False)"
| "prefix_contains p (Addr6 w zone) =
     (zone = '''' \<and> (case prefix_addr p of
        Addr4 v \<Rightarrow> False
      | Addr6 v z \<Rightarrow> drop_bit (128 - prefix_bits p) w = drop_bit (128 - prefix_bits p) v))"

lemma drop_keep_high: "drop_bit n (push_bit n (drop_bit n w)) = drop_bit n (w :: 'a::len word)"
  by (rule bit_eqI) (auto simp: bit_simps dest: bit_imp_le_length)

text \<open>Masking does not change what a prefix contains.\<close>

lemma prefix_contains_masked [simp]: "prefix_contains (masked p) a = prefix_contains p a"
  by (cases a; cases "prefix_addr p") (simp_all add: masked_def keep_high_def drop_keep_high)

section \<open>Hosts and ports\<close>

fun index_of :: "char \<Rightarrow> string \<Rightarrow> nat option" where
  "index_of c [] = None"
| "index_of c (x # xs) = (if x = c then Some 0 else map_option Suc (index_of c xs))"

definition last_index_of :: "char \<Rightarrow> string \<Rightarrow> nat option" where
  "last_index_of c s = map_option (\<lambda>i. length s - 1 - i) (index_of c (rev s))"

text \<open>\<open>net.SplitHostPort\<close>, its errors as \<open>None\<close>.\<close>

definition split_host_port :: "string \<Rightarrow> (string \<times> string) option" where
  "split_host_port s =
     (case last_index_of (CHR '':'') s of
        None \<Rightarrow> None
      | Some i \<Rightarrow>
          if s ! 0 = CHR ''['' then
            (case index_of (CHR '']'') s of
               None \<Rightarrow> None
             | Some e \<Rightarrow>
                 if e + 1 = length s \<or> e + 1 \<noteq> i then None
                 else if CHR ''['' \<in> set (drop 1 s) \<or> CHR '']'' \<in> set (drop (e + 1) s) then None
                 else Some (take (e - 1) (drop 1 s), drop (i + 1) s))
          else
            let host = take i s in
            if CHR '':'' \<in> set host then None
            else if CHR ''['' \<in> set s \<or> CHR '']'' \<in> set s then None
            else Some (host, drop (i + 1) s))"

section \<open>The resolvers\<close>

definition resolveRemoteAddr :: "netip \<Rightarrow> http_request \<Rightarrow> string result" where
  "resolveRemoteAddr N r =
     (case split_host_port (trim_space (req_remote r)) of
        Some (host, port) \<Rightarrow> Inr host
      | None \<Rightarrow>
          if parse_ip N (trim_space (req_remote r)) then Inr (trim_space (req_remote r))
          else Inl (Plain ''invalid remote address''))"

definition parseRemoteAddr :: "netip \<Rightarrow> string \<Rightarrow> addr result" where
  "parseRemoteAddr N remote =
     (let host = (case split_host_port (trim_space remote) of
                    Some (host, port) \<Rightarrow> host | None \<Rightarrow> trim_space remote) in
      case parse_addr N host of
        None \<Rightarrow> Inl (Plain ''invalid remote address'')
      | Some a \<Rightarrow> Inr (unmap a))"

definition trusted :: "prefix list \<Rightarrow> addr \<Rightarrow> bool" where
  "trusted prefixes a = list_ex (\<lambda>p. prefix_contains p a) prefixes"

text \<open>The loop over the forwarded chain, and the loop back through it (on the reversed chain).\<close>

definition parse_chain :: "netip \<Rightarrow> string list \<Rightarrow> addr list result" where
  "parse_chain N parts = map_result (\<lambda>part.
     case parse_addr N (trim_space part) of
       None \<Rightarrow> Inl (Plain ''invalid X-Forwarded-For from trusted proxy'')
     | Some a \<Rightarrow> Inr (unmap a)) parts"

fun last_untrusted :: "prefix list \<Rightarrow> addr list \<Rightarrow> addr option" where
  "last_untrusted prefixes [] = None"
| "last_untrusted prefixes (a # as) =
     (if \<not> trusted prefixes a then Some a else last_untrusted prefixes as)"

definition trustedProxyResolve :: "netip \<Rightarrow> prefix list \<Rightarrow> http_request \<Rightarrow> string result" where
  "trustedProxyResolve N prefixes r =
     and_then (parseRemoteAddr N (req_remote r)) (\<lambda>remote.
       if \<not> trusted prefixes remote then Inr (addr_string N remote)
       else
         let forwarded = trim_space (header_get (req_header r) ''X-Forwarded-For'') in
         if forwarded = '''' then
           let real = trim_space (header_get (req_header r) ''X-Real-IP'') in
           if real = '''' then Inr (addr_string N remote)
           else (case parse_addr N real of
                   None \<Rightarrow> Inl (Plain ''invalid X-Real-IP from trusted proxy'')
                 | Some a \<Rightarrow> Inr (addr_string N (unmap a)))
         else
           and_then (parse_chain N (split_on (CHR '','') forwarded)) (\<lambda>chain.
             case last_untrusted prefixes (rev chain) of
               Some a \<Rightarrow> Inr (addr_string N a)
             | None \<Rightarrow> Inr (addr_string N (chain ! 0))))"

text \<open>The configuration step of \<open>WithTrustedProxies\<close>.\<close>

definition compile_trusted_proxies :: "netip \<Rightarrow> string list \<Rightarrow> prefix list result" where
  "compile_trusted_proxies N cidrs =
     (if cidrs = [] then Inl (Plain ''gateway trusted proxy CIDRs are required'')
      else map_result (\<lambda>cidr.
        case parse_prefix N (trim_space cidr) of
          None \<Rightarrow> Inl (Plain (''invalid gateway trusted proxy CIDR: '' @ cidr))
        | Some p \<Rightarrow> Inr (masked p)) cidrs)"

section \<open>What an outsider can influence\<close>

text \<open>From a peer that is not a trusted proxy, no header counts.\<close>

lemma untrusted_peer:
  assumes "parseRemoteAddr N (req_remote r) = Inr remote" "\<not> trusted prefixes remote"
  shows "trustedProxyResolve N prefixes (r\<lparr>req_header := h\<rparr>) = Inr (addr_string N remote)"
  using assms by (simp add: trustedProxyResolve_def)

lemma last_untrusted_append:
  "\<forall>a \<in> set as. trusted prefixes a \<Longrightarrow> last_untrusted prefixes (as @ bs) = last_untrusted prefixes bs"
  by (induction "as") auto

text \<open>
  In a chain that names an untrusted address, that address's own claims, all that stands before it,
  do not matter as long as they parse; if they do not, the request is refused.
\<close>

lemma last_untrusted_rev:
  assumes "\<not> trusted prefixes a" "\<forall>t \<in> set trusted_part. trusted prefixes t"
  shows "last_untrusted prefixes (rev (claims @ a # trusted_part)) = Some a"
  using assms last_untrusted_append [of "rev trusted_part" prefixes "a # rev claims"] by simp

lemma forwarded_chain:
  assumes peer: "parseRemoteAddr N (req_remote r) = Inr remote" "trusted prefixes remote"
    and chain: "trim_space (header_get (req_header r) ''X-Forwarded-For'') \<noteq> ''''"
      "parse_chain N (split_on (CHR '','') (trim_space (header_get (req_header r) ''X-Forwarded-For'')))
         = Inr (claims @ a # trusted_part)"
    and a: "\<not> trusted prefixes a" "\<forall>t \<in> set trusted_part. trusted prefixes t"
  shows "trustedProxyResolve N prefixes r = Inr (addr_string N a)"
  using peer chain last_untrusted_rev [OF a, of claims] by (simp add: trustedProxyResolve_def Let_def)

text \<open>
  Only the first \<open>X-Forwarded-For\<close> line is read: whatever a trusted proxy appends as a further line of
  that name has no effect, so a client's own first line is taken for the whole chain.
\<close>

theorem forwarded_first_line_only:
  assumes "header_values (req_header r) ''X-Forwarded-For'' = v # vs"
    "header_values h ''X-Forwarded-For'' = v # ws"
    "header_get h ''X-Real-IP'' = header_get (req_header r) ''X-Real-IP''"
  shows "trustedProxyResolve N prefixes (r\<lparr>req_header := h\<rparr>) = trustedProxyResolve N prefixes r"
proof -
  have "header_get h ''X-Forwarded-For'' = header_get (req_header r) ''X-Forwarded-For''"
    using assms by (simp add: header_get_def)
  then show ?thesis by (simp add: trustedProxyResolve_def assms(3) cong: if_cong)
qed

text \<open>What comes back names an address: the peer, or one the peer's headers claim.\<close>

lemma trustedProxyResolve_cases:
  assumes "trustedProxyResolve N prefixes r = Inr s"
  obtains a where "s = addr_string N a"
  using assms
  by (auto simp: trustedProxyResolve_def and_then_eq_Inr Let_def split: if_splits option.splits)

lemma split_host_port_plain:
  assumes "CHR '':'' \<notin> set host" "CHR '':'' \<notin> set port" "host \<noteq> []"
    "CHR ''['' \<notin> set host" "CHR '']'' \<notin> set host" "CHR ''['' \<notin> set port" "CHR '']'' \<notin> set port"
  shows "split_host_port (host @ CHR '':'' # port) = Some (host, port)"
proof -
  have index: "index_of c (xs @ c # ys) = Some (length xs)" if "c \<notin> set xs" for c xs ys
    using that by (induction xs) auto
  have "last_index_of (CHR '':'') (host @ CHR '':'' # port) = Some (length host)"
    using index [of "CHR '':''" "rev port" "rev host"] assms by (simp add: last_index_of_def)
  with assms show ?thesis
    by (cases host) (auto simp: split_host_port_def Let_def)
qed

section \<open>Properties of the trusted-proxy resolver\<close>

text \<open>The first line of a field, the only one the resolver reads, and the addresses of a chain's entries.\<close>

definition first_line :: "header \<Rightarrow> string \<Rightarrow> string" where
  "first_line h k = (case header_values h k of [] \<Rightarrow> '''' | v # vs \<Rightarrow> trim_space v)"

definition entry_address :: "netip \<Rightarrow> string \<Rightarrow> addr option" where
  "entry_address N entry = map_option unmap (parse_addr N (trim_space entry))"

lemma first_line: "trim_space (header_get h k) = first_line h k"
  by (simp add: first_line_def header_get_def split: list.split)

lemma parse_chain_addresses: "parse_chain N parts = Inr chain \<longleftrightarrow> map (entry_address N) parts = map Some chain"
proof -
  have "(case parse_addr N (trim_space part) of
       None \<Rightarrow> Inl (Plain ''invalid X-Forwarded-For from trusted proxy'') | Some a \<Rightarrow> Inr (unmap a)) = Inr b
     \<longleftrightarrow> entry_address N part = Some b" for part b
    by (auto simp: entry_address_def split: option.split)
  then show ?thesis
    by (simp add: parse_chain_def map_result_eq_Inr list_all2_map1 list_all2_map2 list.rel_eq [symmetric] del: list.rel_eq)
qed

lemma last_untrusted_find: "last_untrusted prefixes as = find (\<lambda>a. \<not> trusted prefixes a) as"
  by (induction "as") auto

lemma last_untrusted_split:
  "last_untrusted prefixes as = Some b \<Longrightarrow>
     \<exists>xs ys. as = xs @ b # ys \<and> list_all (trusted prefixes) xs \<and> \<not> trusted prefixes b"
proof (induction "as")
  case (Cons a as)
  show ?case
  proof (cases "trusted prefixes a")
    case True
    with Cons obtain xs ys where "as = xs @ b # ys" "list_all (trusted prefixes) xs" "\<not> trusted prefixes b" by auto
    with True have "a # as = (a # xs) @ b # ys" "list_all (trusted prefixes) (a # xs)" "\<not> trusted prefixes b" by simp_all
    then show ?thesis by blast
  next
    case False
    with Cons.prems have "a # as = [] @ b # as" "list_all (trusted prefixes) []" "\<not> trusted prefixes b" by simp_all
    then show ?thesis by blast
  qed
qed simp

text \<open>The address taken from a chain: followed by trusted ones only, and untrusted itself or the first.\<close>

lemma chain_address:
  assumes "chain \<noteq> []"
  shows "(case last_untrusted prefixes (rev chain) of Some a \<Rightarrow> a | None \<Rightarrow> chain ! 0) = a \<longleftrightarrow>
    (\<exists>claims proxies. chain = claims @ a # proxies \<and> list_all (trusted prefixes) proxies
       \<and> (trusted prefixes a \<longrightarrow> claims = []))" (is "?taken = a \<longleftrightarrow> ?split a")
proof
  have unique: "a = b" if "?split a" "?split b" for a b
    using that by (fastforce simp: append_eq_append_conv2 Cons_eq_append_conv append_eq_Cons_conv)
  have "?split ?taken"
  proof (cases "last_untrusted prefixes (rev chain)")
    case None
    then have "\<forall>x \<in> set chain. trusted prefixes x" by (auto simp: last_untrusted_find find_None_iff)
    with assms None show ?thesis by (cases chain) (auto simp: list_all_iff simp del: rev.simps)
  next
    case (Some b)
    from last_untrusted_split [OF this] obtain xs ys where
      xs: "rev chain = xs @ b # ys" "list_all (trusted prefixes) xs" "\<not> trusted prefixes b" by blast
    then have "chain = rev ys @ b # rev xs" by (simp add: rev_swap)
    with xs Some show ?thesis
      by (intro exI [of _ "rev ys"] exI [of _ "rev xs"]) (simp add: list_all_iff)
  qed
  then show "?taken = a \<Longrightarrow> ?split a" and "?split a \<Longrightarrow> ?taken = a" using unique by blast+
qed

text \<open>
  C12 When the resolver gives an address, and which one. From a peer that is not a trusted proxy it gives
  the peer's, whatever the headers are. From a trusted peer it reads the first \<open>X-Forwarded-For\<close> line (and
  no other): if there is none, the first \<open>X-Real-IP\<close> line, and without that one the peer; else every entry
  of the line must be an address, and the one taken is the last that is not a trusted proxy, or the first
  entry if all are. In every other case the request is refused with an error.
\<close>

theorem client_ip_resolution:
  "trustedProxyResolve N prefixes r = Inr s \<longleftrightarrow>
     (\<exists>peer a. parseRemoteAddr N (req_remote r) = Inr peer \<and> s = addr_string N a \<and>
       (let chain = first_line (req_header r) ''X-Forwarded-For''; real = first_line (req_header r) ''X-Real-IP'' in
        if \<not> trusted prefixes peer \<or> chain = '''' \<and> real = '''' then a = peer
        else if chain = '''' then map_option unmap (parse_addr N real) = Some a
        else \<exists>claims proxies.
          map (entry_address N) (split_on (CHR '','') chain) = map Some (claims @ a # proxies)
          \<and> list_all (trusted prefixes) proxies \<and> (trusted prefixes a \<longrightarrow> claims = [])))"
proof (cases "parseRemoteAddr N (req_remote r)")
  case (Inr peer)
  let ?chain = "first_line (req_header r) ''X-Forwarded-For''" and ?real = "first_line (req_header r) ''X-Real-IP''"
  have parts: "split_on (CHR '','') ?chain \<noteq> []" by simp
  show ?thesis
  proof (cases "\<not> trusted prefixes peer \<or> ?chain = ''''")
    case True
    then show ?thesis
      using Inr by (auto simp: trustedProxyResolve_def first_line Let_def split: option.split)
  next
    case False
    then have resolve: "trustedProxyResolve N prefixes r = and_then (parse_chain N (split_on (CHR '','') ?chain)) (\<lambda>chain.
        Inr (addr_string N (case last_untrusted prefixes (rev chain) of Some a \<Rightarrow> a | None \<Rightarrow> chain ! 0)))"
      using Inr by (simp add: trustedProxyResolve_def first_line Let_def option.case_distrib [of "\<lambda>a. Inr (addr_string N a)"]
          cong: option.case_cong)
    show ?thesis
    proof (cases "parse_chain N (split_on (CHR '','') ?chain)")
      case (Inl e)
      then have "map (entry_address N) (split_on (CHR '','') ?chain) \<noteq> map Some chain" for chain
        by (simp flip: parse_chain_addresses)
      with False Inr Inl show ?thesis by (simp add: resolve Let_def del: map_append list.map)
    next
      case chain: (Inr chain)
      then have addresses: "map (entry_address N) (split_on (CHR '','') ?chain) = map Some chain"
        by (simp add: parse_chain_addresses)
      with parts have nonempty: "chain \<noteq> []" by (metis map_is_Nil_conv)
      have "map Some chain = map Some xs \<longleftrightarrow> chain = xs" for xs by (simp add: inj_map_eq_map)
      with False Inr chain show ?thesis
        by (simp add: resolve addresses Let_def chain_address [OF nonempty, symmetric] del: map_append list.map) blast
    qed
  qed
qed (simp add: trustedProxyResolve_def)

end
