(* ===== verification/Proxy.thy ===== *)
theory Proxy
  imports Cors ClientIp
begin

text \<open>
  \<open>sdk/go/gateway/proxy.go\<close>: the resolver of fixed upstreams and the reverse proxy it builds for each,
  which is \<open>net/http/httputil.ReverseProxy\<close> with the gateway's \<open>Rewrite\<close>, \<open>ModifyResponse\<close> and
  \<open>ErrorHandler\<close>. Of \<open>ReverseProxy\<close> the model has the URL and the headers of the outgoing request, the
  order of the hooks, informational responses and the switch to another protocol; the transport is an
  argument. Trailers and the bytes that pass over a switched connection are left out.
\<close>

section \<open>Hop-by-hop headers\<close>

definition hopHeaders :: "string list" where
  "hopHeaders = [''Connection'', ''Proxy-Connection'', ''Keep-Alive'', ''Proxy-Authenticate'',
     ''Proxy-Authorization'', ''Te'', ''Trailer'', ''Transfer-Encoding'', ''Upgrade'']"

definition trim_ascii_space :: "string \<Rightarrow> string" where
  "trim_ascii_space s =
     (let blank = (\<lambda>c. c = CHR '' '' \<or> byte c = 9 \<or> byte c = 10 \<or> byte c = 13) in
      rev (dropWhile blank (rev (dropWhile blank s))))"

fun del_all :: "string list \<Rightarrow> header \<Rightarrow> header" where
  "del_all [] h = h"
| "del_all (k # ks) h = del_all ks (header_del h k)"

text \<open>The fields a \<open>Connection\<close> header names.\<close>

definition connection_tokens :: "header \<Rightarrow> string list" where
  "connection_tokens h =
     filter (\<lambda>t. t \<noteq> '''')
       (map trim_ascii_space (concat (map (split_on (CHR '','')) (header_values h ''Connection''))))"

definition removeHopByHopHeaders :: "header \<Rightarrow> header" where
  "removeHopByHopHeaders h = del_all hopHeaders (del_all (connection_tokens h) h)"

lemma del_all_values:
  "header_values (del_all ks h) k =
     (if canonical_key k \<in> canonical_key ` set ks then [] else header_values h k)"
proof (induction ks arbitrary: h)
  case (Cons a ks)
  then show ?case by (cases "canonical_key a = canonical_key k") (auto simp: header_simps)
qed simp

section \<open>Protocol upgrades\<close>

text \<open>\<open>httpguts.HeaderValuesContainsToken\<close>: an element of a comma-separated field, up to ASCII case.\<close>

definition trim_ows :: "string \<Rightarrow> string" where
  "trim_ows s =
     (let blank = (\<lambda>c. c = CHR '' '' \<or> byte c = 9) in rev (dropWhile blank (rev (dropWhile blank s))))"

definition contains_token :: "string list \<Rightarrow> string \<Rightarrow> bool" where
  "contains_token vs token =
     list_ex (\<lambda>v. list_ex (\<lambda>t. equal_fold_ascii (trim_ows t) token) (split_on (CHR '','') v)) vs"

definition upgrade_type :: "header \<Rightarrow> string" where
  "upgrade_type h =
     (if contains_token (header_values h ''Connection'') ''Upgrade'' then header_get h ''Upgrade'' else '''')"

definition ascii_printable :: "string \<Rightarrow> bool" where
  "ascii_printable s = list_all (\<lambda>c. 32 \<le> byte c \<and> byte c \<le> 126) s"

section \<open>The outgoing request\<close>

record out_request =
  out_request :: http_request
  out_url :: url

text \<open>The URL of a request that names a path, as every request a route can match does.\<close>

definition request_url :: "http_request \<Rightarrow> url" where
  "request_url r =
     \<lparr>url_scheme = '''', url_has_user = False, url_host = '''', url_path = req_path r,
      url_raw_path = req_raw_path r, url_raw_query = req_raw_query r, url_fragment = ''''\<rparr>"

text \<open>\<open>SetXForwarded\<close>; the earlier \<open>X-Forwarded-For\<close> was stripped before \<open>Rewrite\<close>.\<close>

definition setXForwarded :: "http_request \<Rightarrow> header \<Rightarrow> header" where
  "setXForwarded r h =
     (let for = (case split_host_port (req_remote r) of
                   Some (host, port) \<Rightarrow> header_set h ''X-Forwarded-For'' host
                 | None \<Rightarrow> header_del h ''X-Forwarded-For'') in
      header_set (header_set for ''X-Forwarded-Host'' (req_host r))
        ''X-Forwarded-Proto'' (if req_tls r then ''https'' else ''http''))"

text \<open>The gateway's \<open>Rewrite\<close>, on the header of the outgoing request.\<close>

definition rewrite_header :: "string \<Rightarrow> http_request \<Rightarrow> header \<Rightarrow> header" where
  "rewrite_header id_header r h =
     (let h1 = setXForwarded r h;
          h2 = (case ctx_client_ip r of Some ip \<Rightarrow> header_set h1 ''X-Forwarded-For'' ip | None \<Rightarrow> h1) in
      case ctx_request_id r of Some i \<Rightarrow> header_set h2 id_header i | None \<Rightarrow> h2)"

definition forwarding_fields :: "string list" where
  "forwarding_fields = [''Forwarded'', ''X-Forwarded-For'', ''X-Forwarded-Host'', ''X-Forwarded-Proto'']"

text \<open>
  What \<open>ReverseProxy.ServeHTTP\<close> sends: hop-by-hop fields are removed, but the support of trailers and an
  upgrade the client asks for are put back, forwarding fields are removed, the query is cleaned, then
  \<open>Rewrite\<close> runs.
\<close>

definition kept_hop_headers :: "header \<Rightarrow> header \<Rightarrow> header" where
  "kept_hop_headers incoming h =
     (let h1 = (if contains_token (header_values incoming ''Te'') ''trailers'' then header_set h ''Te'' ''trailers'' else h);
          up = upgrade_type incoming in
      if up = '''' then h1 else header_set (header_set h1 ''Connection'' ''Upgrade'') ''Upgrade'' up)"

definition proxy_request :: "url \<Rightarrow> string \<Rightarrow> http_request \<Rightarrow> out_request" where
  "proxy_request target id_header r =
     (let h = del_all forwarding_fields (kept_hop_headers (req_header r) (removeHopByHopHeaders (req_header r)));
          u = request_url r; out = rewrite_header id_header r h in
      \<lparr>out_request = r\<lparr>req_host := url_host target,
          req_header := (if header_values out ''User-Agent'' = [] then header_set out ''User-Agent'' '''' else out)\<rparr>,
       out_url = rewriteRequestURL target (u\<lparr>url_raw_query := cleanQueryParams (url_raw_query u)\<rparr>)\<rparr>)"

section \<open>The answer\<close>

text \<open>
  What the transport reports: an error, with what the error handler asks of it, a response whose
  body ends or breaks off, or a response with status 101, with what comes of taking the client's connection
  over and writing that response to it. Informational (1xx) responses may come before either; \<open>ReverseProxy\<close>
  copies each to the client as it arrives and then clears the header map.
\<close>

record transport_error =
  te_error :: go_error
  te_max_bytes :: bool
  te_deadline :: bool
  te_timeout :: bool

datatype takeover = BodyNotWritable | HijackFails go_error | HijackSucceeds "go_error option"

datatype round_trip =
    TransportError transport_error
  | TransportResponse int "(string \<times> string list) list" "string list" bool
  | TransportSwitches "(string \<times> string list) list" takeover

type_synonym interim = "(int \<times> (string \<times> string list) list) list"
type_synonym 'w transport_fn = "out_request \<Rightarrow> 'w \<Rightarrow> (interim \<times> round_trip) \<times> 'w"

text \<open>The settings of an \<open>http.Transport\<close>; the round trips it makes with them are an argument.\<close>

record transport_settings =
  ts_proxy_from_environment :: bool
  ts_dial_timeout :: int
  ts_dial_keep_alive :: int
  ts_force_http2 :: bool
  ts_max_idle_conns :: int
  ts_idle_conn_timeout :: int
  ts_tls_handshake_timeout :: int
  ts_response_header_timeout :: int
  ts_expect_continue_timeout :: int

definition defaultProxyTransport :: transport_settings where
  "defaultProxyTransport =
     \<lparr>ts_proxy_from_environment = True, ts_dial_timeout = 5 * second, ts_dial_keep_alive = 30 * second,
      ts_force_http2 = True, ts_max_idle_conns = 100, ts_idle_conn_timeout = 90 * second,
      ts_tls_handshake_timeout = 10 * second, ts_response_header_timeout = 30 * second,
      ts_expect_continue_timeout = second\<rparr>"

definition proxy_error :: "transport_error \<Rightarrow> gateway_error" where
  "proxy_error e =
     (if te_max_bytes e
      then (gateway_failure 413 ''request_body_too_large'' ''request body too large'')\<lparr>ge_cause := Some (te_error e)\<rparr>
      else if te_deadline e \<or> te_timeout e
      then (gateway_failure 504 ''upstream_timeout'' ''upstream timeout'')\<lparr>ge_cause := Some (te_error e)\<rparr>
      else (gateway_failure 502 ''upstream_unavailable'' ''upstream unavailable'')\<lparr>ge_cause := Some (te_error e)\<rparr>)"

text \<open>The response's fields less the hop-by-hop ones, and less the request ID (\<open>ModifyResponse\<close>).\<close>

definition response_fields :: "string \<Rightarrow> (string \<times> string list) list \<Rightarrow> (string \<times> string list) list" where
  "response_fields id_header hs =
     (let connection = concat (map snd (filter (\<lambda>f. fst f = ''Connection'') hs));
          named = filter (\<lambda>t. t \<noteq> '''') (map trim_ascii_space (concat (map (split_on (CHR '','')) connection)));
          gone = canonical_key ` set (id_header # named @ hopHeaders) in
      filter (\<lambda>f. fst f \<notin> gone) hs)"

definition copy_header :: "(string \<times> string list) list \<Rightarrow> write_op list" where
  "copy_header hs = concat (map (\<lambda>(k, vs). map (AddHeader k) vs) hs)"

definition interim_writes :: "interim \<Rightarrow> write_op list" where
  "interim_writes rs =
     concat (map (\<lambda>(code, hs). copy_header hs @ [WriteHeader code, ClearHeader]) rs)"

text \<open>
  \<open>handleUpgradeResponse\<close>, after \<open>ModifyResponse\<close> has removed the request ID. The texts of the errors leave
  out the protocol names they quote.
\<close>

definition plain_failure :: "go_error \<Rightarrow> gateway_error" where
  "plain_failure e = proxy_error \<lparr>te_error = e, te_max_bytes = False, te_deadline = False, te_timeout = False\<rparr>"

definition handleUpgradeResponse ::
  "string \<Rightarrow> http_request \<Rightarrow> (string \<times> string list) list \<Rightarrow> takeover \<Rightarrow> upstream_op list" where
  "handleUpgradeResponse id_header out hs taken =
     (let kept = filter (\<lambda>f. fst f \<noteq> canonical_key id_header) hs;
          asked = upgrade_type (req_header out); offered = upgrade_type (map_of kept);
          fails = (\<lambda>e. UpstreamFails out (plain_failure e)) in
      if \<not> ascii_printable offered then [fails (Plain ''backend tried to switch to invalid protocol'')]
      else if \<not> equal_fold_ascii asked offered then [fails (Plain ''backend tried to switch protocol'')]
      else case taken of
        BodyNotWritable \<Rightarrow> [fails (Plain ''internal error: 101 switching protocols response with non-writable body'')]
      | HijackFails e \<Rightarrow> [fails e]
      | HijackSucceeds broken \<Rightarrow> map UpstreamWrites (copy_header kept @ [Hijack 101])
          @ (case broken of None \<Rightarrow> [] | Some e \<Rightarrow> [fails e]))"

definition newReverseProxy :: "url \<Rightarrow> 'w transport_fn \<Rightarrow> string \<Rightarrow> 'w upstream_fn" where
  "newReverseProxy target transport id_header rc r w =
     (if \<not> ascii_printable (upgrade_type (req_header r))
      then (([UpstreamFails r (plain_failure (Plain ''client tried to switch to invalid protocol''))], None), w)
      else let out = proxy_request target id_header r; ((early, answer), w') = transport out w;
          interim = map UpstreamWrites (interim_writes early) in
      case answer of
        TransportError e \<Rightarrow> ((interim @ [UpstreamFails (out_request out) (proxy_error e)], None), w')
      | TransportResponse status hs body complete \<Rightarrow>
          ((interim @ map UpstreamWrites (copy_header (response_fields id_header hs) @ [WriteHeader status]
              @ map WriteBody body),
            if complete then None else Some AbortHandler), w')
      | TransportSwitches hs taken \<Rightarrow>
          ((interim @ handleUpgradeResponse id_header (out_request out) hs taken, None), w'))"

section \<open>The resolver of fixed upstreams\<close>

record upstream_spec =
  us_name :: string
  us_url :: string

fun add_upstreams ::
  "(string \<Rightarrow> url option) \<Rightarrow> nat \<Rightarrow> (string \<rightharpoonup> url) \<Rightarrow> upstream_spec list \<Rightarrow> (string \<rightharpoonup> url) result" where
  "add_upstreams url_parse index proxies [] = Inr proxies"
| "add_upstreams url_parse index proxies (u # us) =
     (let name = trim_space (us_name u) in
      if name = ''''
      then Inl (Plain (''gateway upstream name is required at index '' @ nat_string index))
      else if proxies name \<noteq> None then Inl (Plain (''duplicate gateway upstream: '' @ name))
      else (case url_parse (trim_space (us_url u)) of
              None \<Rightarrow> Inl (Plain (''invalid gateway upstream URL: '' @ name))
            | Some target \<Rightarrow>
                if url_scheme target \<noteq> ''http'' \<and> url_scheme target \<noteq> ''https'' \<or> url_host target = ''''
                then Inl (Plain (''invalid gateway upstream URL: '' @ name))
                else add_upstreams url_parse (index + 1) (proxies(name \<mapsto> target)) us))"

definition newReverseProxyResolver ::
  "(string \<Rightarrow> url option) \<Rightarrow> upstream_spec list \<Rightarrow> (string \<rightharpoonup> url) result" where
  "newReverseProxyResolver url_parse us =
     (if us = [] then Inl (Plain ''gateway upstreams are required'')
      else add_upstreams url_parse 0 Map.empty us)"

definition resolveUpstream ::
  "(string \<rightharpoonup> url) \<Rightarrow> 'w transport_fn \<Rightarrow> string \<Rightarrow> 'w upstream_resolver_fn" where
  "resolveUpstream proxies transport id_header route w =
     (case proxies (route_upstream route) of
        None \<Rightarrow> (Ret (Inl (Plain (''gateway upstream is not configured: '' @ route_upstream route))), w)
      | Some target \<Rightarrow> (Ret (Inr (Some (newReverseProxy target transport id_header))), w))"

text \<open>\<open>validateStaticUpstreams\<close> compiles each route again and tries to resolve its upstream.\<close>

fun validateStaticUpstreams ::
  "unicode_tables \<Rightarrow> route list \<Rightarrow> 'w upstream_resolver_fn \<Rightarrow> 'w \<Rightarrow> unit result ext \<times> 'w" where
  "validateStaticUpstreams U [] resolver w = (Ret (Inr ()), w)"
| "validateStaticUpstreams U (r # rs) resolver w =
     (case compileRoute U r of
        Inl e \<Rightarrow> (Ret (Inl e), w)
      | Inr compiled \<Rightarrow>
          (case resolver (cr_route compiled) w of
             (Panics p, w') \<Rightarrow> (Panics p, w')
           | (Ret (Inl e), w') \<Rightarrow>
               (Ret (Inl (Plain (''invalid upstream for route '' @ route_name r @ '': '' @ error_text e))), w')
           | (Ret (Inr handler), w') \<Rightarrow> validateStaticUpstreams U rs resolver w'))"

section \<open>Properties\<close>

text \<open>The table holds the declared upstreams, by trimmed name, and every target is an HTTP host.\<close>

definition http_target :: "url \<Rightarrow> bool" where
  "http_target u \<longleftrightarrow> (url_scheme u = ''http'' \<or> url_scheme u = ''https'') \<and> url_host u \<noteq> ''''"

lemma add_upstreams_ok:
  "add_upstreams url_parse i m us = Inr m' \<Longrightarrow>
     distinct (map (\<lambda>u. trim_space (us_name u)) us)
     \<and> (\<forall>u \<in> set us. m (trim_space (us_name u)) = None \<and> trim_space (us_name u) \<noteq> ''''
          \<and> (\<exists>t. url_parse (trim_space (us_url u)) = Some t \<and> http_target t
               \<and> m' (trim_space (us_name u)) = Some t))
     \<and> (\<forall>n. n \<notin> (\<lambda>u. trim_space (us_name u)) ` set us \<longrightarrow> m' n = m n)"
proof (induction us arbitrary: i m)
  case (Cons u us)
  then obtain t where t: "trim_space (us_name u) \<noteq> ''''" "m (trim_space (us_name u)) = None"
    "url_parse (trim_space (us_url u)) = Some t" "http_target t"
    "add_upstreams url_parse (i + 1) (m(trim_space (us_name u) \<mapsto> t)) us = Inr m'"
    by (auto simp: Let_def http_target_def split: if_splits option.splits)
  note IH = Cons.IH [OF t(5)]
  have fresh: "trim_space (us_name u) \<notin> (\<lambda>u. trim_space (us_name u)) ` set us"
  proof
    assume "trim_space (us_name u) \<in> (\<lambda>u. trim_space (us_name u)) ` set us"
    then obtain v where "v \<in> set us" "trim_space (us_name u) = trim_space (us_name v)" by auto
    with IH show False by (metis fun_upd_same option.distinct(1))
  qed
  have others: "m (trim_space (us_name v)) = None" if "v \<in> set us" for v
    using IH that fresh by (metis fun_upd_other image_eqI)
  show ?case
    using t fresh others IH by auto
qed simp

lemma proxy_keys [simp]:
  "canonical_key ''User-Agent'' = ''User-Agent''" "canonical_key ''Forwarded'' = ''Forwarded''"
  "canonical_key ''X-Forwarded-For'' = ''X-Forwarded-For''"
  "canonical_key ''X-Forwarded-Host'' = ''X-Forwarded-Host''"
  "canonical_key ''X-Forwarded-Proto'' = ''X-Forwarded-Proto''"
  by code_simp+

text \<open>
  The proxy sends the request ID and the client address the gateway resolved, whatever the client put
  into the headers or named in \<open>Connection\<close>.
\<close>

lemma proxy_request_id:
  assumes "ctx_request_id r = Some i" "canonical_key id_header \<noteq> ''User-Agent''"
  shows "header_values (req_header (out_request (proxy_request target id_header r))) id_header = [i]"
  using assms by (simp add: proxy_request_def rewrite_header_def Let_def header_simps)

lemma proxy_client_ip:
  assumes "ctx_client_ip r = Some ip" "canonical_key id_header \<noteq> ''X-Forwarded-For''"
  shows "header_values (req_header (out_request (proxy_request target id_header r))) ''X-Forwarded-For'' = [ip]"
  using assms
  by (cases "ctx_request_id r") (simp_all add: proxy_request_def rewrite_header_def Let_def header_simps)

text \<open>
  The fields the proxy sets itself, apart from the request ID.
\<close>

definition rewritten_fields :: "string list" where
  "rewritten_fields = [''User-Agent'', ''Te'', ''Connection'', ''Upgrade''] @ forwarding_fields"

text \<open>
  A field that the proxy does not set is sent as the gateway has it, unless the client's \<open>Connection\<close>
  header names it: then it is removed, also where the gateway itself had set it, as it does the
  identity headers.
\<close>

theorem proxy_request_field:
  assumes "canonical_key k \<notin> canonical_key ` set (id_header # rewritten_fields)"
  shows "header_values (req_header (out_request (proxy_request target id_header r))) k =
     (if canonical_key k \<in> canonical_key ` (set (connection_tokens (req_header r)) \<union> set hopHeaders) then []
      else header_values (req_header r) k)"
proof -
  have base: "header_values (del_all forwarding_fields (kept_hop_headers h (removeHopByHopHeaders h))) k =
     (if canonical_key k \<in> canonical_key ` (set (connection_tokens h) \<union> set hopHeaders) then []
      else header_values h k)" for h
    using assms
    by (auto simp: del_all_values removeHopByHopHeaders_def rewritten_fields_def kept_hop_headers_def Let_def header_simps)
  have "header_values (rewrite_header id_header r h) k = header_values h k" for h
    using assms
    by (auto simp: rewrite_header_def setXForwarded_def Let_def rewritten_fields_def forwarding_fields_def
        header_simps split: option.split)
  then have "header_values (req_header (out_request (proxy_request target id_header r))) k =
     header_values (del_all forwarding_fields (kept_hop_headers (req_header r) (removeHopByHopHeaders (req_header r)))) k"
    using assms by (auto simp: proxy_request_def Let_def rewritten_fields_def header_simps)
  then show ?thesis by (simp add: base)
qed

text \<open>No answer of the upstream replaces or repeats the request ID.\<close>

lemma response_fields_no_id:
  "canonical_key id_header \<notin> fst ` set (response_fields id_header hs)"
  by (auto simp: response_fields_def Let_def)

lemma proxy_error_status:
  "ge_status (proxy_error e) \<in> {413, 502, 504}" "ge_cause (proxy_error e) = Some (te_error e)"
  by (simp_all add: proxy_error_def gateway_failure_def)

text \<open>Every upstream that validation has passed resolves to a handler or to a declared nil.\<close>

lemma validateStaticUpstreams_fixed:
  assumes "validateStaticUpstreams U rs (resolveUpstream proxies transport id_header) w = (Ret (Inr ()), w')"
    "r \<in> set rs"
  shows "\<exists>c t. compileRoute U r = Inr c \<and> proxies (route_upstream (cr_route c)) = Some t"
  using assms
  by (induction rs) (auto simp: resolveUpstream_def split: sum.splits option.splits)

section \<open>Properties of the proxy\<close>

text \<open>
  What the reverse proxy sends upstream carries the gateway's own request ID and resolved client
  address, each exactly once, whatever the client sent under those names or listed in \<open>Connection\<close>.
\<close>

theorem proxy_forwards_resolved:
  assumes "ctx_request_id r = Some i" "ctx_client_ip r = Some ip"
    "canonical_key id_header \<notin> {''User-Agent'', ''X-Forwarded-For''}"
  shows "header_values (req_header (out_request (proxy_request target id_header r))) id_header = [i]
    \<and> header_values (req_header (out_request (proxy_request target id_header r))) ''X-Forwarded-For'' = [ip]"
  using proxy_request_id [OF assms(1)] proxy_client_ip [OF assms(2)] assms(3) by simp

lemma add_headers_frame:
  "rec_wrote (apply_ops (map (AddHeader k) vs) rc) = rec_wrote rc"
  "rec_wire (apply_ops (map (AddHeader k) vs) rc) = rec_wire rc"
  by (induction vs arbitrary: rc) simp_all

lemma add_headers_end [simp]: "ended_by (map (AddHeader k) vs @ xs) None rc = ended_by xs None (apply_ops (map (AddHeader k) vs) rc)"
  by (induction vs arbitrary: rc) simp_all

lemma add_headers_then [simp]:
  "apply_ops (map (AddHeader k) vs @ xs) rc = apply_ops xs (apply_ops (map (AddHeader k) vs) rc)"
  by (induction vs arbitrary: rc) simp_all

lemma copy_header_Cons: "copy_header ((k, vs) # hs) = map (AddHeader k) vs @ copy_header hs"
  by (simp add: copy_header_def)

lemma copy_header_frame:
  "rec_wrote (apply_ops (copy_header hs) rc) = rec_wrote rc
   \<and> rec_wire (apply_ops (copy_header hs) rc) = rec_wire rc"
proof (induction hs arbitrary: rc)
  case Nil
  then show ?case by (simp add: copy_header_def)
next
  case (Cons h hs)
  then show ?case
    by (cases h) (simp add: copy_header_Cons add_headers_frame)
qed

lemma copy_header_end [simp]: "ended_by (copy_header hs) None rc = None"
proof (induction hs arbitrary: rc)
  case (Cons h hs)
  then show ?case by (cases h) (simp add: copy_header_Cons)
qed (simp add: copy_header_def)

lemma copy_header_then: "apply_ops (copy_header hs @ xs) rc = apply_ops xs (apply_ops (copy_header hs) rc)"
  by (simp add: apply_ops_append)

lemma body_writes:
  "rec_wrote rc \<Longrightarrow> rec_status (apply_ops (map WriteBody bs) rc) = rec_status rc
     \<and> rec_wire (apply_ops (map WriteBody bs) rc) = rec_wire rc @ map WireBody bs"
  by (induction bs arbitrary: rc) (auto simp: rec_write_def)

lemma client_status_bodies: "client_status (map WireBody bs) = 200"
  by (cases bs) simp_all

text \<open>
  An informational response of the upstream (103 Early Hints, say) is recorded as the final status:
  the status that follows is dropped, the client gets 200, and the access log has the 1xx code.
\<close>

theorem interim_status_recorded:
  assumes "informational code" "\<not> rec_wrote rc" "rec_wire rc = []"
  shows "let rc' = apply_ops (interim_writes [(code, early)] @ copy_header hs @ [WriteHeader status]
           @ map WriteBody body) rc in
     rec_status rc' = code \<and> client_status (rec_wire rc') = 200"
proof -
  define r1 where "r1 = apply_ops (copy_header early) rc"
  define r2 where "r2 = apply_ops [WriteHeader code, ClearHeader] r1"
  define r3 where "r3 = apply_ops (copy_header hs) r2"
  define r4 where "r4 = apply_op (WriteHeader status) r3"
  have r1: "\<not> rec_wrote r1" "rec_wire r1 = []" using assms by (simp_all add: r1_def copy_header_frame)
  then have r2: "rec_wrote r2" "rec_status r2 = code" "rec_wire r2 = [WireHeader code (rec_header r1)]"
    using assms(1) by (simp_all add: r2_def rec_write_header_def header_panics_def valid_status_def informational_def)
  have valid: "valid_status code" using assms(1) by (simp add: valid_status_def informational_def)
  have r3: "rec_wrote r3" "rec_status r3 = code" "rec_wire r3 = [WireHeader code (rec_header r1)]"
    using r2 apply_ops_started [OF r2(1), of "copy_header hs"] by (simp_all add: r3_def copy_header_frame)
  then have r4: "rec_wrote r4" "rec_status r4 = code" "rec_wire r4 = [WireHeader code (rec_header r1)]"
    by (simp_all add: r4_def rec_write_header_def)
  have "apply_ops (interim_writes [(code, early)] @ copy_header hs @ [WriteHeader status] @ map WriteBody body) rc
      = apply_ops (map WriteBody body) r4"
    using r2(1) r3(1) valid
    by (simp add: interim_writes_def copy_header_then header_panics_def r1_def r2_def r3_def r4_def)
  then show ?thesis
    using body_writes [OF r4(1), of body] r4 assms(1) by (simp add: client_status_bodies)
qed

section \<open>The URL and the protocol of the outgoing request\<close>

text \<open>
  C13 The outgoing request goes to the target whatever URL and host the client named. What an upstream finds
  before the question mark of the request line is the target's path and the request's joined by one slash,
  each sent as it was encoded: in its raw form where that validly encodes the path, else escaped, so that it
  decodes to the path. Of every query key the upstream sees the target's values first, then the client's; and
  the client's part adds no semicolon and no percent sign that does not start an encoding. The asterisk, which
  is sent as it is, is excepted.
\<close>

theorem proxy_url_exact:
  assumes "url_path target \<noteq> ''*''" "req_path r \<noteq> ''*''"
  shows "let out = proxy_request target id_header r; u = out_url out; wire = cut_at (CHR ''?'') (request_uri u);
      base = sent_path (url_path target) (url_raw_path target); own = sent_path (req_path r) (req_raw_path r) in
    url_scheme u = url_scheme target \<and> url_host u = url_host target
    \<and> req_host (out_request out) = url_host target
    \<and> fst wire = singleJoiningSlash base own
    \<and> url_unescape EncodePath base = Some (url_path target) \<and> url_unescape EncodePath own = Some (req_path r)
    \<and> fst (snd wire) = url_raw_query u
    \<and> values_named k (parse_query (url_raw_query u)) =
        values_named k (parse_query (url_raw_query target)) @ values_named k (parse_query (req_raw_query r))
    \<and> query_plain (url_raw_query u) = query_plain (url_raw_query target)"
proof -
  define v where "v = (request_url r)\<lparr>url_raw_query := cleanQueryParams (req_raw_query r)\<rparr>"
  define u where "u = rewriteRequestURL target v"
  have out: "out_url (proxy_request target id_header r) = u"
    by (simp add: proxy_request_def Let_def u_def v_def request_url_def)
  have path: "escaped_path u =
      singleJoiningSlash (sent_path (url_path target) (url_raw_path target)) (sent_path (req_path r) (req_raw_path r))"
    using joined_escaped_path [OF assms(1), of v] assms(2) by (simp add: u_def v_def request_url_def)
  then have wire: "fst (cut_at (CHR ''?'') (request_uri u)) = escaped_path u" by (simp add: cut_at_request_uri)
  have query: "fst (snd (cut_at (CHR ''?'') (request_uri u))) = url_raw_query u" by (simp add: cut_at_request_uri)
  have "values_named k (parse_query (url_raw_query u)) =
      values_named k (parse_query (url_raw_query target)) @ values_named k (parse_query (req_raw_query r))"
    using joined_query(1) [of target v] by (simp add: u_def v_def cleanQueryParams_facts)
  moreover have "query_plain (url_raw_query u) = query_plain (url_raw_query target)"
    using joined_query(2) [of target v] by (simp add: u_def v_def cleanQueryParams_facts)
  moreover have "url_scheme u = url_scheme target" "url_host u = url_host target" by (simp_all add: u_def rewriteRequestURL_def)
  moreover have "req_host (out_request (proxy_request target id_header r)) = url_host target"
    by (simp add: proxy_request_def Let_def)
  ultimately show ?thesis using wire path query by (simp add: out Let_def)
qed

text \<open>The outgoing request asks for the upgrade the client asked for, and for no other.\<close>

lemma upgrade_keys [simp]:
  "canonical_key ''Connection'' = ''Connection''" "canonical_key ''Upgrade'' = ''Upgrade''" "canonical_key ''Te'' = ''Te''"
  by code_simp+

lemma upgrade_type_cong:
  "header_values h ''Connection'' = header_values h' ''Connection'' \<Longrightarrow>
   header_values h ''Upgrade'' = header_values h' ''Upgrade'' \<Longrightarrow> upgrade_type h = upgrade_type h'"
  by (simp add: upgrade_type_def header_get_def)

lemma outgoing_upgrade:
  assumes "canonical_key id_header \<notin> {''Connection'', ''Upgrade''}"
  shows "upgrade_type (req_header (out_request (proxy_request target id_header r))) = upgrade_type (req_header r)"
proof -
  let ?h = "kept_hop_headers (req_header r) (removeHopByHopHeaders (req_header r))"
  have kept: "header_values (req_header (out_request (proxy_request target id_header r))) k = header_values ?h k"
    if "k \<in> {''Connection'', ''Upgrade''}" for k
    using that assms
    by (auto simp: proxy_request_def rewrite_header_def setXForwarded_def forwarding_fields_def Let_def del_all_values
        header_simps split: option.split)
  have "upgrade_type ?h = upgrade_type (req_header r)"
  proof (cases "upgrade_type (req_header r) = ''''")
    case True
    moreover have "''Connection'' \<in> canonical_key ` set hopHeaders" by (simp add: hopHeaders_def)
    ultimately have "header_values ?h ''Connection'' = []"
      by (simp add: kept_hop_headers_def removeHopByHopHeaders_def del_all_values header_simps)
    then have "upgrade_type ?h = ''''" by (simp add: upgrade_type_def contains_token_def)
    with True show ?thesis by simp
  next
    case False
    have "contains_token [''Upgrade''] ''Upgrade''" by code_simp
    moreover have "header_values ?h ''Connection'' = [''Upgrade'']" "header_values ?h ''Upgrade'' = [upgrade_type (req_header r)]"
      using False by (simp_all add: kept_hop_headers_def Let_def header_simps)
    ultimately show ?thesis by (simp add: upgrade_type_def [of ?h] header_get_def)
  qed
  then show ?thesis using upgrade_type_cong [OF kept kept] by simp
qed

text \<open>
  The client's connection is given to an upstream only when the upstream answered 101 with the protocol
  the client asked for.
\<close>

theorem protocol_switch_agreed:
  assumes "newReverseProxy target transport id_header rc r w = ((ops, ended), w')" "UpstreamWrites (Hijack n) \<in> set ops"
    "canonical_key id_header \<notin> {''Connection'', ''Upgrade''}"
  shows "\<exists>early hs broken. transport (proxy_request target id_header r) w = ((early, TransportSwitches hs (HijackSucceeds broken)), w')
     \<and> n = 101 \<and> ascii_printable (upgrade_type (req_header r))
     \<and> equal_fold_ascii (upgrade_type (req_header r)) (upgrade_type (map_of (filter (\<lambda>f. fst f \<noteq> canonical_key id_header) hs)))"
proof -
  have copies: "Hijack n \<notin> set (copy_header fs)" for fs by (auto simp: copy_header_def)
  have interim: "Hijack n \<notin> set (interim_writes early)" for early
    using copies by (auto simp: interim_writes_def)
  obtain early answer v where t: "transport (proxy_request target id_header r) w = ((early, answer), v)"
    by (metis surj_pair)
  show ?thesis
  proof (cases answer)
    case (TransportSwitches hs taken)
    with assms(1) t have ops: "ascii_printable (upgrade_type (req_header r))" "v = w'"
      "ops = map UpstreamWrites (interim_writes early) @ handleUpgradeResponse id_header (out_request (proxy_request target id_header r)) hs taken"
      using assms(2) by (auto simp: newReverseProxy_def Let_def split: if_split_asm)
    with assms(2) have "UpstreamWrites (Hijack n) \<in> set (handleUpgradeResponse id_header (out_request (proxy_request target id_header r)) hs taken)"
      using interim by auto
    then obtain broken where "taken = HijackSucceeds broken" "n = 101"
      "equal_fold_ascii (upgrade_type (req_header r)) (upgrade_type (map_of (filter (\<lambda>f. fst f \<noteq> canonical_key id_header) hs)))"
      using copies
      by (auto simp: handleUpgradeResponse_def Let_def outgoing_upgrade [OF assms(3)] split: if_split_asm takeover.splits option.splits)
    with ops TransportSwitches t show ?thesis by blast
  next
    case (TransportError e)
    with assms t show ?thesis using interim by (auto simp: newReverseProxy_def Let_def split: if_split_asm)
  next
    case (TransportResponse status hs body complete)
    with assms t show ?thesis using interim copies by (auto simp: newReverseProxy_def Let_def split: if_split_asm)
  qed
qed

text \<open>
  The recorder does not see a switched connection: the client receives 101, and the status the access log
  and the observer get stays the one of a response that was never written, 200.
\<close>

theorem switch_recorded_as_ok:
  assumes "\<not> rec_wrote rc" "recorder_ok rc"
  shows "let rc' = apply_ops (copy_header hs @ [Hijack 101]) rc in rec_status rc' = 200 \<and> client_receives rc' = 101"
proof -
  define r1 where "r1 = apply_ops (copy_header hs) rc"
  have "rec_status r1 = 200"
    using recorder_ok_ops [OF assms(2), of "copy_header hs"] copy_header_frame [of hs rc] assms(1)
    by (simp add: r1_def recorder_ok_def)
  then show ?thesis by (simp add: copy_header_then client_receives_def flip: r1_def)
qed

end
