(* ===== verification/Pipeline.thy ===== *)
theory Pipeline
  imports Health Proxy
begin

text \<open>
  \<open>Gateway.ServeHTTP\<close> of \<open>sdk/go/gateway/gateway.go\<close>: its stages in the order of the code
  (\<open>admit\<close>), the forwarding to the upstream handler (\<open>forward\<close>), \<open>recoverPanic\<close>, and the whole
  handler with its deferred calls (\<open>serveHTTP\<close>).
\<close>

section \<open>The stages\<close>

definition set_header :: "(header \<Rightarrow> header) \<Rightarrow> 'w st \<Rightarrow> 'w st" where
  "set_header f st = st\<lparr>st_req := (st_req st)\<lparr>req_header := f (req_header (st_req st))\<rparr>\<rparr>"

text \<open>\<open>resolveRequestID\<close>: the incoming values are removed first, whatever follows.\<close>

definition resolveRequestID :: "'w gateway \<Rightarrow> 'w st \<Rightarrow> ('w st, string) flow" where
  "resolveRequestID gw st =
     (let config = gw_request_id gw;
          values = header_values (req_header (st_req st)) (rid_header config);
          st1 = set_header (\<lambda>h. header_del h (rid_header config)) st in
      case adoptedRequestID config values of
        Some v \<Rightarrow> Continue st1 v
      | None \<Rightarrow> flow_bind (invoke CallGenerateID (generatedRequestID config) st1)
                  (or_unavailable gw ''request_id_unavailable''))"

definition assignRequestID :: "'w gateway \<Rightarrow> string \<Rightarrow> 'w st \<Rightarrow> 'w st" where
  "assignRequestID gw i st =
     (let name = rid_header (gw_request_id gw); st1 = set_header (\<lambda>h. header_set h name i) st in
      st1\<lparr>st_req := (st_req st1)\<lparr>ctx_request_id := Some i\<rparr>,
          st_rec := apply_op (SetHeader name i) (st_rec st1),
          st_log := (st_log st1)\<lparr>al_request_id := i\<rparr>\<rparr>)"

definition route_not_found :: gateway_error where
  "route_not_found = gateway_failure 404 ''route_not_found'' ''route not found''"

definition checkRoute :: "'w gateway \<Rightarrow> 'w st \<Rightarrow> route option result \<Rightarrow> ('w st, route) flow" where
  "checkRoute gw st resolved =
     (case resolved of
        Inl err \<Rightarrow> refuse gw (unavailableError ''route_resolution_failed'' err) st
      | Inr None \<Rightarrow> refuse gw route_not_found st
      | Inr (Some route) \<Rightarrow>
          (case normalizeResolvedRoute route of
             Inl err \<Rightarrow> refuse gw (unavailableError ''invalid_resolved_route'' err) st
           | Inr route \<Rightarrow>
               Continue (st\<lparr>st_log := (st_log st)\<lparr>al_route := route_name route,
                                                    al_upstream := route_upstream route\<rparr>,
                             st_req := (st_req st)\<lparr>ctx_route := Some route\<rparr>\<rparr>) route))"

definition resolveRoute :: "'w gateway \<Rightarrow> 'w st \<Rightarrow> ('w st, route) flow" where
  "resolveRoute gw st =
     flow_bind (invoke CallRoutes (gw_routes gw (st_req st)) st) (checkRoute gw)"

definition errNilHandler :: go_error where
  "errNilHandler = Plain ''gateway upstream handler is nil''"

definition checkUpstream ::
  "'w gateway \<Rightarrow> 'w st \<Rightarrow> 'w upstream_fn option result \<Rightarrow> ('w st, 'w upstream_fn) flow" where
  "checkUpstream gw st resolved =
     (case resolved of
        Inl err \<Rightarrow> refuse gw (unavailableError ''upstream_resolution_failed'' err) st
      | Inr None \<Rightarrow> refuse gw (unavailableError ''upstream_resolution_failed'' errNilHandler) st
      | Inr (Some handler) \<Rightarrow> Continue st handler)"

definition findUpstream :: "'w gateway \<Rightarrow> route \<Rightarrow> 'w st \<Rightarrow> ('w st, 'w upstream_fn) flow" where
  "findUpstream gw route st =
     flow_bind (invoke (CallUpstreams route) (gw_upstreams gw route) st) (checkUpstream gw)"

definition errEmptyClientIP :: go_error where
  "errEmptyClientIP = Plain ''gateway client IP is empty''"

definition checkClientIP :: "'w gateway \<Rightarrow> 'w st \<Rightarrow> string result \<Rightarrow> ('w st, string) flow" where
  "checkClientIP gw st resolved =
     (case resolved of
        Inl err \<Rightarrow> refuse gw (unavailableError ''client_ip_resolution_failed'' err) st
      | Inr ip \<Rightarrow>
          if trim_space ip = ''''
          then refuse gw (unavailableError ''client_ip_resolution_failed'' errEmptyClientIP) st
          else Continue (st\<lparr>st_req := (st_req st)\<lparr>ctx_client_ip := Some ip\<rparr>,
                             st_log := (st_log st)\<lparr>al_client_ip := ip\<rparr>\<rparr>) ip)"

definition resolveClientIP :: "'w gateway \<Rightarrow> 'w st \<Rightarrow> ('w st, string) flow" where
  "resolveClientIP gw st =
     flow_bind (invoke CallClientIP (gw_client_ip gw (st_req st)) st) (checkClientIP gw)"

text \<open>The limiter of the authenticated user: passed over when the request is anonymous.\<close>

definition limitUser :: "'w gateway \<Rightarrow> route \<Rightarrow> identity option \<Rightarrow> 'w st \<Rightarrow> ('w st, unit) flow" where
  "limitUser gw route identity st =
     (case identity of
        None \<Rightarrow> Continue st ()
      | Some i \<Rightarrow>
          applyRateLimit gw (gw_user_limiter gw)
            \<lparr>rl_scope = scopeUserID, rl_key = id_user i, rl_route = route_name route,
             rl_upstream = route_upstream route\<rparr>
            (st\<lparr>st_req := (st_req st)\<lparr>ctx_identity := Some i\<rparr>\<rparr>))"

text \<open>The stages after the client address is known, up to the decision to forward.\<close>

definition authorize ::
  "'w gateway \<Rightarrow> string \<Rightarrow> string \<Rightarrow> route \<Rightarrow> 'w st \<Rightarrow> ('w st, identity option) flow" where
  "authorize gw request_id ip route st =
     flow_bind (applyRateLimit gw (gw_client_ip_limiter gw)
         \<lparr>rl_scope = scopeClientIP, rl_key = ip, rl_route = route_name route,
          rl_upstream = route_upstream route\<rparr> st) (\<lambda>st u.
     flow_bind (authenticate gw route st) (\<lambda>st identity.
     let context = \<lparr>rc_request_id = request_id, rc_client_ip = ip, rc_route = route, rc_identity = identity\<rparr> in
     flow_bind (limitUser gw route identity st) (\<lambda>st u.
     flow_bind (applyAuthorizer gw context st) (\<lambda>st u.
     flow_bind (applyBeforeProxy gw context st) (\<lambda>st u.
     flow_bind (applyRateLimit gw (gw_upstream_limiter gw)
         \<lparr>rl_scope = scopeUpstream, rl_key = route_upstream route, rl_route = route_name route,
          rl_upstream = route_upstream route\<rparr> st) (\<lambda>st u.
     Continue st identity))))))"

type_synonym 'w admission = "route \<times> 'w upstream_fn \<times> identity option"

definition admit :: "unicode_tables \<Rightarrow> 'w gateway \<Rightarrow> 'w st \<Rightarrow> ('w st, 'w admission) flow" where
  "admit U gw st =
     flow_bind (resolveRequestID gw st) (\<lambda>st request_id.
     flow_bind (apply_cors U gw (assignRequestID gw request_id st)) (\<lambda>st u.
     flow_bind (apply_health gw st) (\<lambda>st u.
     flow_bind (resolveRoute gw st) (\<lambda>st route.
     flow_bind (findUpstream gw route st) (\<lambda>st upstream.
     flow_bind (resolveClientIP gw st) (\<lambda>st ip.
     flow_bind (authorize gw request_id ip route st) (\<lambda>st identity.
     Continue st (route, upstream, identity))))))))"

section \<open>Forwarding\<close>

text \<open>The operations of the upstream up to one that panics, and how it ends.\<close>

fun upstream_writes :: "'w gateway \<Rightarrow> upstream_op list \<Rightarrow> panic option \<Rightarrow> 'w st \<Rightarrow> 'w st \<times> panic option" where
  "upstream_writes gw [] ended st = (st, ended)"
| "upstream_writes gw (UpstreamWrites x # xs) ended st =
     (let st' = st\<lparr>st_rec := apply_op x (st_rec st)\<rparr> in
      if op_panics x (st_rec st) then (st', Some invalidWriteHeader) else upstream_writes gw xs ended st')"
| "upstream_writes gw (UpstreamFails r e # xs) ended st = upstream_writes gw xs ended (fail gw r e st)"

definition callUpstream :: "'w gateway \<Rightarrow> 'w upstream_fn \<Rightarrow> 'w st \<Rightarrow> ('w st, unit) flow" where
  "callUpstream gw upstream st =
     (let ((ops, ended), w') = upstream (st_rec st) (st_req st) (st_world st);
          (st', outcome) = upstream_writes gw ops ended
            (st\<lparr>st_world := w', st_calls := CallUpstream (st_req st) # st_calls st\<rparr>) in
      case outcome of None \<Rightarrow> Return st' | Some p \<Rightarrow> Panicking st' p)"

definition request_too_large :: gateway_error where
  "request_too_large = gateway_failure 413 ''request_body_too_large'' ''request body too large''"

definition forward :: "'w gateway \<Rightarrow> 'w st \<Rightarrow> 'w admission \<Rightarrow> ('w st, unit) flow" where
  "forward gw st admission =
     (let (route, upstream, identity) = admission;
          st1 = set_header (\<lambda>h. stripAndInjectIdentity h identity) st; r = st_req st1 in
      if route_max_body route > 0 \<and> req_has_body r then
        if req_content_length r > route_max_body route then refuse gw request_too_large st1
        else callUpstream gw upstream (st1\<lparr>st_req := r\<lparr>req_body_limit := Some (route_max_body route)\<rparr>\<rparr>)
      else callUpstream gw upstream st1)"

section \<open>The handler\<close>

text \<open>
  \<open>recoverPanic\<close> was deferred with the request as it was on entry: its context holds none of the
  gateway's values, but its header map is the one the stages changed.
\<close>

definition deferred_request :: "http_request \<Rightarrow> 'w st \<Rightarrow> http_request" where
  "deferred_request r st = r\<lparr>req_header := req_header (st_req st)\<rparr>"

definition gatewayPanic :: gateway_error where
  "gatewayPanic = (gateway_failure 500 ''gateway_panic'' ''internal server error'')
     \<lparr>ge_cause := Some (Plain ''gateway component panic'')\<rparr>"

definition log_failure :: "string \<Rightarrow> 'w st \<Rightarrow> 'w st" where
  "log_failure code st = st\<lparr>st_log := (st_log st)\<lparr>al_error_code := code, as_failure := code\<rparr>\<rparr>"

definition recoverPanic :: "'w gateway \<Rightarrow> http_request \<Rightarrow> panic \<Rightarrow> 'w st \<Rightarrow> 'w st" where
  "recoverPanic gw r p st =
     (case p of
        AbortHandler \<Rightarrow> log_failure ''upstream_stream_aborted'' st
      | OtherPanic m \<Rightarrow>
          (let st1 = log_failure ''gateway_panic'' st in
           if \<not> rec_wrote (st_rec st1) then fail gw (deferred_request r st1) gatewayPanic st1 else st1))"

definition run :: "unicode_tables \<Rightarrow> 'w gateway \<Rightarrow> 'w st \<Rightarrow> ('w st, unit) flow" where
  "run U gw st = flow_bind (admit U gw st) (forward gw)"

definition recovered :: "'w gateway \<Rightarrow> http_request \<Rightarrow> ('w st, 'a) flow \<Rightarrow> 'w st" where
  "recovered gw r out =
     (case out of Continue st a \<Rightarrow> st | Return st \<Rightarrow> st | Panicking st p \<Rightarrow> recoverPanic gw r p st)"

definition entry :: "int \<Rightarrow> http_request \<Rightarrow> 'w \<Rightarrow> 'w st" where
  "entry now r w = \<lparr>st_req = r, st_rec = newResponseRecorder, st_log = newAccessLogState now r,
                    st_world = w, st_calls = []\<rparr>"

definition handled :: "unicode_tables \<Rightarrow> 'w gateway \<Rightarrow> int \<Rightarrow> http_request \<Rightarrow> 'w \<Rightarrow> 'w st" where
  "handled U gw started r w = recovered gw r (run U gw (entry started r w))"

definition serveHTTP ::
  "unicode_tables \<Rightarrow> 'w gateway \<Rightarrow> int \<Rightarrow> int \<Rightarrow> http_request \<Rightarrow> 'w \<Rightarrow> 'w st" where
  "serveHTTP U gw started finished r w = finishRequest gw finished (handled U gw started r w)"

end
