(* ===== verification/PipelineSafety.thy ===== *)
theory PipelineSafety
  imports Pipeline
begin

text \<open>
  What the stages of \<open>ServeHTTP\<close> keep and guarantee: every stage meets the contract of
  \<open>guarded_stage\<close>, the stages decompose, and each one's state on success is known.
\<close>

section \<open>Every stage is guarded\<close>

lemma set_header_simps [simp]:
  "st_req (set_header f st) = (st_req st)\<lparr>req_header := f (req_header (st_req st))\<rparr>"
  "st_rec (set_header f st) = st_rec st" "st_log (set_header f st) = st_log st"
  "st_world (set_header f st) = st_world st" "st_calls (set_header f st) = st_calls st"
  by (simp_all add: set_header_def)

lemma assignRequestID_simps [simp]:
  "st_req (assignRequestID gw i st) = (st_req st)
     \<lparr>req_header := header_set (req_header (st_req st)) (rid_header (gw_request_id gw)) i,
      ctx_request_id := Some i\<rparr>"
  "st_world (assignRequestID gw i st) = st_world st" "st_calls (assignRequestID gw i st) = st_calls st"
  "rec_wrote (st_rec (assignRequestID gw i st)) = rec_wrote (st_rec st)"
  "recorder_ok (st_rec (assignRequestID gw i st)) = recorder_ok (st_rec st)"
  by (simp_all add: assignRequestID_def Let_def)

lemma guarded_generated:
  "guarded_stage (\<lambda>st. flow_bind (invoke CallGenerateID (generatedRequestID config) (set_header f st))
     (or_unavailable gw code))"
  by (rule guarded_stage_update [OF _ _
      guarded_stage_bind [OF guarded_stage_invoke guarded_stage_or_unavailable]]) simp_all

lemma guarded_resolveRequestID: "guarded_stage (resolveRequestID gw)"
proof (rule guarded_stage.intro)
  fix st :: "'a st"
  show "\<exists>cs. st_calls (flow_state (resolveRequestID gw st)) = cs @ st_calls st
      \<and> (\<forall>c \<in> set cs. \<not> outer_call c)"
    using guarded_stage.calls_grow [OF guarded_generated, of "gw_request_id gw"
        "\<lambda>h. header_del h (rid_header (gw_request_id gw))" st gw]
    by (simp add: resolveRequestID_def Let_def split: option.split)
  show "recorder_ok (st_rec (flow_state (resolveRequestID gw st)))" if "recorder_ok (st_rec st)"
    using that guarded_stage.keeps_recorder [OF guarded_generated, of st "gw_request_id gw"
        "\<lambda>h. header_del h (rid_header (gw_request_id gw))" gw]
    by (simp add: resolveRequestID_def Let_def split: option.split)
qed

lemma guarded_checkRoute: "guarded_stage (\<lambda>st. checkRoute gw st resolved)"
proof -
  have found: "guarded_stage (\<lambda>st. case normalizeResolvedRoute route of
        Inl err \<Rightarrow> refuse gw (unavailableError ''invalid_resolved_route'' err) st
      | Inr route \<Rightarrow> Continue (st\<lparr>st_log := (st_log st)\<lparr>al_route := route_name route,
            al_upstream := route_upstream route\<rparr>,
          st_req := (st_req st)\<lparr>ctx_route := Some route\<rparr>\<rparr>) route)" for route
  proof (cases "normalizeResolvedRoute route")
    case (Inr x)
    show ?thesis
      unfolding Inr sum.case
      by (rule guarded_stage_update [OF _ _ guarded_stage_return [where a = "\<lambda>_. x"]]) simp_all
  qed (simp add: guarded_stage_refuse)
  show ?thesis
    by (cases resolved; cases "projr resolved")
      (simp_all add: checkRoute_def guarded_stage_refuse found)
qed

lemma guarded_resolveRoute: "guarded_stage (resolveRoute gw)"
  unfolding resolveRoute_def [abs_def]
  by (rule guarded_stage_bind [OF guarded_stage_invoke_req [where f = "gw_routes gw"] guarded_checkRoute]) simp

lemma guarded_checkUpstream: "guarded_stage (\<lambda>st. checkUpstream gw st resolved)"
  by (cases resolved; cases "projr resolved")
    (simp_all add: checkUpstream_def guarded_stage_refuse guarded_stage_return)

lemma guarded_findUpstream: "guarded_stage (findUpstream gw route)"
  unfolding findUpstream_def [abs_def]
  by (rule guarded_stage_bind [OF guarded_stage_invoke guarded_checkUpstream]) simp

lemma guarded_checkClientIP: "guarded_stage (\<lambda>st. checkClientIP gw st resolved)"
proof (cases resolved)
  case (Inr ip)
  have "guarded_stage (\<lambda>st. Continue (st\<lparr>st_req := (st_req st)\<lparr>ctx_client_ip := Some ip\<rparr>,
      st_log := (st_log st)\<lparr>al_client_ip := ip\<rparr>\<rparr>) ip)"
    by (rule guarded_stage_update [OF _ _ guarded_stage_return [where a = "\<lambda>_. ip"]]) simp_all
  with Inr show ?thesis
    by (cases "trim_space ip = ''''") (simp_all add: checkClientIP_def guarded_stage_refuse)
qed (simp add: checkClientIP_def guarded_stage_refuse)

lemma guarded_resolveClientIP: "guarded_stage (resolveClientIP gw)"
  unfolding resolveClientIP_def [abs_def]
  by (rule guarded_stage_bind [OF guarded_stage_invoke_req [where f = "gw_client_ip gw"] guarded_checkClientIP])
    simp

lemma guarded_limitUser: "guarded_stage (limitUser gw route identity)"
proof (cases identity)
  case None
  then show ?thesis by (simp add: limitUser_def [abs_def] guarded_stage_return)
next
  case (Some i)
  have "guarded_stage (\<lambda>st. applyRateLimit gw l q (st\<lparr>st_req := (st_req st)\<lparr>ctx_identity := Some i\<rparr>\<rparr>))" for l q
    by (rule guarded_stage_update [OF _ _ guarded_applyRateLimit]) simp_all
  with Some show ?thesis by (simp add: limitUser_def [abs_def])
qed

lemma guarded_authorize: "guarded_stage (authorize gw request_id ip route)"
  unfolding authorize_def [abs_def] Let_def
  by (rule guarded_stage_bind guarded_applyRateLimit guarded_authenticate guarded_limitUser
      guarded_applyAuthorizer guarded_applyBeforeProxy guarded_stage_return)+

lemma guarded_admit: "guarded_stage (admit U gw)"
proof -
  have assigned: "guarded_stage (\<lambda>st. apply_cors U gw (assignRequestID gw i st))" for i
    by (rule guarded_stage_update [OF _ _ cors.guarded_stage_axioms]) simp_all
  show ?thesis
    unfolding admit_def [abs_def]
    by (rule guarded_stage_bind guarded_resolveRequestID assigned guarded_apply_health guarded_resolveRoute
        guarded_findUpstream guarded_resolveClientIP guarded_authorize guarded_stage_return)+
qed

interpretation admission: guarded_stage "admit U gw" for U gw
  by (rule guarded_admit)

section \<open>The stages decompose\<close>

lemma authorize_Continue:
  assumes "authorize gw request_id ip route st = Continue st' identity"
  obtains s1 s2 s3 s4 s5 where
    "applyRateLimit gw (gw_client_ip_limiter gw) \<lparr>rl_scope = scopeClientIP, rl_key = ip,
       rl_route = route_name route, rl_upstream = route_upstream route\<rparr> st = Continue s1 ()"
    "authenticate gw route s1 = Continue s2 identity"
    "limitUser gw route identity s2 = Continue s3 ()"
    "applyAuthorizer gw \<lparr>rc_request_id = request_id, rc_client_ip = ip, rc_route = route,
       rc_identity = identity\<rparr> s3 = Continue s4 ()"
    "applyBeforeProxy gw \<lparr>rc_request_id = request_id, rc_client_ip = ip, rc_route = route,
       rc_identity = identity\<rparr> s4 = Continue s5 ()"
    "applyRateLimit gw (gw_upstream_limiter gw) \<lparr>rl_scope = scopeUpstream, rl_key = route_upstream route,
       rl_route = route_name route, rl_upstream = route_upstream route\<rparr> s5 = Continue st' ()"
  using assms by (auto simp: authorize_def Let_def flow_bind_eq_Continue)

lemma admit_Continue:
  assumes "admit U gw st = Continue st' (route, upstream, identity)"
  obtains s0 request_id s1 s2 s3 s4 ip s5 where
    "resolveRequestID gw st = Continue s0 request_id"
    "apply_cors U gw (assignRequestID gw request_id s0) = Continue s1 ()"
    "apply_health gw s1 = Continue s2 ()"
    "resolveRoute gw s2 = Continue s3 route"
    "findUpstream gw route s3 = Continue s4 upstream"
    "resolveClientIP gw s4 = Continue s5 ip"
    "authorize gw request_id ip route s5 = Continue st' identity"
  using assms by (auto simp: admit_def flow_bind_eq_Continue)

section \<open>Each stage on success\<close>

lemma resolveRequestID_Continue:
  assumes "resolveRequestID gw st = Continue st' i"
  shows "isSafeRequestID i (rid_max_length (gw_request_id gw))"
    "st_req st' = (st_req st)\<lparr>req_header := header_del (req_header (st_req st)) (rid_header (gw_request_id gw))\<rparr>"
    "st_rec st' = st_rec st"
    "st_calls st' = st_calls st \<or> st_calls st' = CallGenerateID # st_calls st"
proof -
  let ?st1 = "set_header (\<lambda>h. header_del h (rid_header (gw_request_id gw))) st"
  let ?vs = "header_values (req_header (st_req st)) (rid_header (gw_request_id gw))"
  have "isSafeRequestID i (rid_max_length (gw_request_id gw)) \<and> st_req st' = st_req ?st1
      \<and> st_rec st' = st_rec st \<and> (st_calls st' = st_calls st \<or> st_calls st' = CallGenerateID # st_calls st)"
  proof (cases "adoptedRequestID (gw_request_id gw) ?vs")
    case None
    with assms show ?thesis
      by (cases rule: invoke_cases [of "generatedRequestID (gw_request_id gw)" ?st1 CallGenerateID])
        (auto simp: resolveRequestID_def Let_def or_unavailable_def refuse_def
          split: sum.splits dest: generatedRequestID_safe)
  next
    case (Some v)
    with assms show ?thesis
      by (auto simp: resolveRequestID_def Let_def adoptedRequestID_def split: if_splits)
  qed
  then show "isSafeRequestID i (rid_max_length (gw_request_id gw))"
    "st_req st' = (st_req st)\<lparr>req_header := header_del (req_header (st_req st)) (rid_header (gw_request_id gw))\<rparr>"
    "st_rec st' = st_rec st"
    "st_calls st' = st_calls st \<or> st_calls st' = CallGenerateID # st_calls st"
    by auto
qed

lemma apply_cors_Continue:
  assumes "apply_cors U gw st = Continue st' u"
  shows "st_req st' = st_req st" "st_calls st' = st_calls st"
  using assms by (auto simp: apply_cors_def cors_handle_Continue Let_def split: option.splits if_splits)

lemma apply_health_Continue: "apply_health gw st = Continue st' u \<Longrightarrow> st' = st"
  by (auto simp: apply_health_def health_handle_Continue split: option.splits)

lemma resolveRoute_Continue:
  assumes "resolveRoute gw st = Continue st' route"
  shows "\<exists>found w'. gw_routes gw (st_req st) (st_world st) = (Ret (Inr (Some found)), w')
       \<and> normalizeResolvedRoute found = Inr route"
    "st_req st' = (st_req st)\<lparr>ctx_route := Some route\<rparr>" "st_calls st' = CallRoutes # st_calls st"
proof -
  have "(\<exists>found w'. gw_routes gw (st_req st) (st_world st) = (Ret (Inr (Some found)), w')
       \<and> normalizeResolvedRoute found = Inr route)
    \<and> st_req st' = (st_req st)\<lparr>ctx_route := Some route\<rparr> \<and> st_calls st' = CallRoutes # st_calls st"
    using assms
    by (cases rule: invoke_cases [of "gw_routes gw (st_req st)" st CallRoutes])
      (auto simp: resolveRoute_def checkRoute_def refuse_def split: sum.splits option.splits)
  then show "\<exists>found w'. gw_routes gw (st_req st) (st_world st) = (Ret (Inr (Some found)), w')
       \<and> normalizeResolvedRoute found = Inr route"
    "st_req st' = (st_req st)\<lparr>ctx_route := Some route\<rparr>" "st_calls st' = CallRoutes # st_calls st"
    by blast+
qed

lemma findUpstream_Continue:
  assumes "findUpstream gw route st = Continue st' upstream"
  shows "st_req st' = st_req st" "st_calls st' = CallUpstreams route # st_calls st"
  using assms
  by (cases rule: invoke_cases [of "gw_upstreams gw route" st "CallUpstreams route"];
      auto simp: findUpstream_def checkUpstream_def refuse_def split: sum.splits option.splits)+

lemma resolveClientIP_Continue:
  assumes "resolveClientIP gw st = Continue st' ip"
  shows "trim_space ip \<noteq> ''''" "st_req st' = (st_req st)\<lparr>ctx_client_ip := Some ip\<rparr>"
    "st_calls st' = CallClientIP # st_calls st"
  using assms
  by (cases rule: invoke_cases [of "gw_client_ip gw (st_req st)" st CallClientIP];
      auto simp: resolveClientIP_def checkClientIP_def refuse_def split: sum.splits if_splits)+

end
