(* ===== verification/PipelineTheorems.thy ===== *)
theory PipelineTheorems
  imports PipelineSafety
begin

text \<open>
  The security properties of the handler: the order in which components are consulted before a request
  is forwarded, that each of them agreed, what identity upstream is told, and what is answered and
  logged otherwise.
\<close>

section \<open>The calls of an admitted request\<close>

definition limiter_calls :: "'w limiter_fn option \<Rightarrow> rate_limit_request \<Rightarrow> call list" where
  "limiter_calls limiter q = (if limiter = None then [] else [CallLimiter q])"

definition limit_request :: "string \<Rightarrow> string \<Rightarrow> route \<Rightarrow> rate_limit_request" where
  "limit_request scope key route =
     \<lparr>rl_scope = scope, rl_key = key, rl_route = route_name route, rl_upstream = route_upstream route\<rparr>"

text \<open>
  The calls of the authorization stages, oldest first. \<open>cred\<close> is what the extractor returned; it is
  only asked on a route that is not public.
\<close>

definition authorize_calls ::
  "'w gateway \<Rightarrow> string \<Rightarrow> string \<Rightarrow> route \<Rightarrow> string \<Rightarrow> identity option \<Rightarrow> call list" where
  "authorize_calls gw rid ip route cred identity =
     limiter_calls (gw_client_ip_limiter gw) (limit_request scopeClientIP ip route)
     @ (if route_access route = accessPublic then [] else [CallExtractor, CallAuthenticator cred])
     @ (case identity of None \<Rightarrow> []
        | Some i \<Rightarrow> limiter_calls (gw_user_limiter gw) (limit_request scopeUserID (id_user i) route))
     @ (let context = \<lparr>rc_request_id = rid, rc_client_ip = ip, rc_route = route, rc_identity = identity\<rparr> in
        (if gw_authorizer gw = None then [] else [CallAuthorizer context])
        @ (if gw_before_proxy gw = None then [] else [CallBeforeProxy context]))
     @ limiter_calls (gw_upstream_limiter gw) (limit_request scopeUpstream (route_upstream route) route)"

lemma applyRateLimit_calls:
  assumes "applyRateLimit gw limiter q st = Continue st' u"
  shows "rev (st_calls st') = rev (st_calls st) @ limiter_calls limiter q" "st_req st' = st_req st"
  using assms by (auto simp: applyRateLimit_Continue limiter_calls_def split: option.splits)

lemma applyAuthorizer_calls:
  assumes "applyAuthorizer gw c st = Continue st' u"
  shows "rev (st_calls st') = rev (st_calls st) @ (if gw_authorizer gw = None then [] else [CallAuthorizer c])"
    "st_req st' = st_req st"
  using assms by (auto simp: applyAuthorizer_Continue split: option.splits)

lemma applyBeforeProxy_calls:
  assumes "applyBeforeProxy gw c st = Continue st' u"
  shows "rev (st_calls st') = rev (st_calls st) @ (if gw_before_proxy gw = None then [] else [CallBeforeProxy c])"
    "st_req st' = st_req st"
  using assms by (auto simp: applyBeforeProxy_Continue split: option.splits)

lemma limitUser_calls:
  assumes "limitUser gw route identity st = Continue st' u"
  shows "rev (st_calls st') = rev (st_calls st) @ (case identity of None \<Rightarrow> []
      | Some i \<Rightarrow> limiter_calls (gw_user_limiter gw) (limit_request scopeUserID (id_user i) route))"
    "req_header (st_req st') = req_header (st_req st)"
  using assms
  by (auto simp: limitUser_def limit_request_def dest: applyRateLimit_calls split: option.splits)

lemma authenticate_calls:
  assumes "authenticate gw route st = Continue st' identity"
  shows "\<exists>cred. rev (st_calls st') = rev (st_calls st) @
    (if route_access route = accessPublic then [] else [CallExtractor, CallAuthenticator cred])"
proof (cases "route_access route = accessPublic")
  case True
  with assms show ?thesis by (auto simp: authenticate_public)
next
  case False
  show ?thesis by (rule authenticate_Continue_protected [OF False assms]) (auto simp: False)
qed

lemma authorize_history:
  assumes "authorize gw rid ip route st = Continue st' identity"
  shows "\<exists>cred. rev (st_calls st') = rev (st_calls st) @ authorize_calls gw rid ip route cred identity"
    "req_header (st_req st') = req_header (st_req st)"
    "identity = None \<longleftrightarrow> route_access route = accessPublic"
    "\<And>i. identity = Some i \<Longrightarrow> trim_space (id_user i) \<noteq> ''''"
proof -
  have "(\<exists>cred. rev (st_calls st') = rev (st_calls st) @ authorize_calls gw rid ip route cred identity)
      \<and> req_header (st_req st') = req_header (st_req st) \<and> (identity = None \<longleftrightarrow> route_access route = accessPublic)
      \<and> (\<forall>i. identity = Some i \<longrightarrow> trim_space (id_user i) \<noteq> '''')"
  proof (rule authorize_Continue [OF assms], goal_cases)
    case (1 s1 s2 s3 s4 s5)
    obtain cred where cred: "rev (st_calls s2) = rev (st_calls s1) @
        (if route_access route = accessPublic then [] else [CallExtractor, CallAuthenticator cred])"
      using authenticate_calls [OF 1(2)] by blast
    note calls = applyRateLimit_calls [OF 1(1)] cred limitUser_calls [OF 1(3)] applyAuthorizer_calls [OF 1(4)]
      applyBeforeProxy_calls [OF 1(5)] applyRateLimit_calls [OF 1(6)]
    have "rev (st_calls st') = rev (st_calls st) @ authorize_calls gw rid ip route cred identity"
      unfolding authorize_calls_def Let_def limit_request_def [of scopeClientIP]
        limit_request_def [of scopeUpstream]
      by (simp add: calls)
    moreover have "req_header (st_req st') = req_header (st_req st)"
      using calls authenticate_identity(3) [OF 1(2)] by simp
    ultimately show ?case
      using authenticate_identity(1,2) [OF 1(2)] by auto
  qed
  then show "\<exists>cred. rev (st_calls st') = rev (st_calls st) @ authorize_calls gw rid ip route cred identity"
    "req_header (st_req st') = req_header (st_req st)" "identity = None \<longleftrightarrow> route_access route = accessPublic"
    "\<And>i. identity = Some i \<Longrightarrow> trim_space (id_user i) \<noteq> ''''"
    by blast+
qed

definition admission_calls ::
  "'w gateway \<Rightarrow> call list \<Rightarrow> string \<Rightarrow> string \<Rightarrow> route \<Rightarrow> string \<Rightarrow> identity option \<Rightarrow> call list" where
  "admission_calls gw gen rid ip route cred identity =
     gen @ [CallRoutes, CallUpstreams route, CallClientIP] @ authorize_calls gw rid ip route cred identity"

lemma admit_history:
  assumes "admit U gw st = Continue st' (route, upstream, identity)"
  obtains gen rid ip cred where
    "rev (st_calls st') = rev (st_calls st) @ admission_calls gw gen rid ip route cred identity"
    "gen = [] \<or> gen = [CallGenerateID]" "isSafeRequestID rid (rid_max_length (gw_request_id gw))"
    "trim_space ip \<noteq> ''''"
    "identity = None \<longleftrightarrow> route_access route = accessPublic"
    "\<And>i. identity = Some i \<Longrightarrow> trim_space (id_user i) \<noteq> ''''"
    "req_header (st_req st') = header_set (header_del (req_header (st_req st)) (rid_header (gw_request_id gw)))
       (rid_header (gw_request_id gw)) rid"
proof -
  show thesis
  proof (rule admit_Continue [OF assms], goal_cases)
  case (1 s0 rid s1 s2 s3 s4 ip s5)
  obtain gen where gen: "rev (st_calls s0) = rev (st_calls st) @ gen" "gen = [] \<or> gen = [CallGenerateID]"
    using resolveRequestID_Continue(4) [OF 1(1)] by auto
  obtain cred where cred: "rev (st_calls st') = rev (st_calls s5) @ authorize_calls gw rid ip route cred identity"
    using authorize_history(1) [OF 1(7)] by blast
  have "rev (st_calls st') = rev (st_calls st) @ admission_calls gw gen rid ip route cred identity"
    using gen(1) apply_cors_Continue(2) [OF 1(2)] resolveRoute_Continue(3) [OF 1(4)]
      findUpstream_Continue(2) [OF 1(5)] resolveClientIP_Continue(3) [OF 1(6)] cred
    by (simp add: apply_health_Continue [OF 1(3)] admission_calls_def)
  moreover have "req_header (st_req st') = header_set
       (header_del (req_header (st_req st)) (rid_header (gw_request_id gw))) (rid_header (gw_request_id gw)) rid"
    using authorize_history(2) [OF 1(7)] resolveRequestID_Continue(2) [OF 1(1)] apply_cors_Continue(1) [OF 1(2)]
      resolveRoute_Continue(2) [OF 1(4)] findUpstream_Continue(1) [OF 1(5)] resolveClientIP_Continue(2) [OF 1(6)]
    by (simp add: apply_health_Continue [OF 1(3)])
  ultimately show ?thesis
    using that gen(2) resolveRequestID_Continue(1) [OF 1(1)] resolveClientIP_Continue(1) [OF 1(6)]
      authorize_history(3,4) [OF 1(7)] by blast
  qed
qed

section \<open>After admission\<close>

text \<open>The calls that may follow the decision to forward or to refuse.\<close>

fun epilogue_call :: "call \<Rightarrow> bool" where
  "epilogue_call (CallErrorResponder e) = True"
| "epilogue_call (CallAccessLogger l) = True"
| "epilogue_call (CallObserver ob) = True"
| "epilogue_call c = False"

fun response_call :: "call \<Rightarrow> bool" where
  "response_call (CallErrorResponder e) = True"
| "response_call c = False"

text \<open>\<open>followed p before after\<close>: the second history adds to the first only calls with \<open>p\<close>.\<close>

definition followed :: "(call \<Rightarrow> bool) \<Rightarrow> call list \<Rightarrow> call list \<Rightarrow> bool" where
  "followed p before after \<longleftrightarrow> (\<exists>tail. rev after = rev before @ tail \<and> list_all p tail)"

lemma followed_refl [simp]: "followed p cs cs"
  by (simp add: followed_def)

lemma followed_trans: "followed p a b \<Longrightarrow> followed p b c \<Longrightarrow> followed p a c"
  by (auto simp: followed_def)

lemma followed_Cons: "followed p cs ds \<Longrightarrow> p c \<Longrightarrow> followed p cs (c # ds)"
  by (auto simp: followed_def)

lemma followed_response: "followed response_call a b \<Longrightarrow> followed epilogue_call a b"
proof -
  have "response_call c \<Longrightarrow> epilogue_call c" for c by (cases c) simp_all
  then show "followed response_call a b \<Longrightarrow> followed epilogue_call a b"
    by (auto simp: followed_def elim!: list.pred_mono_strong)
qed

lemma followed_fail: "followed response_call (st_calls st) (st_calls (fail gw r e st))"
  by (simp add: followed_Cons)

lemma followed_upstream_writes: "followed response_call (st_calls st) (st_calls (fst (upstream_writes gw ops ended st)))"
proof (induction ops arbitrary: st)
  case (Cons op ops)
  show ?case
  proof (cases op)
    case (UpstreamWrites x)
    with Cons.IH [of "st\<lparr>st_rec := apply_op x (st_rec st)\<rparr>"] show ?thesis by (simp add: Let_def followed_refl)
  next
    case (UpstreamFails r e)
    with followed_trans [OF followed_fail Cons.IH] show ?thesis by simp
  qed
qed simp

lemma followed_recovered: "followed response_call (st_calls (flow_state out)) (st_calls (recovered gw r out))"
proof (cases out)
  case (Panicking st p)
  then show ?thesis
    by (cases p) (simp_all add: recovered_def recoverPanic_def log_failure_def Let_def followed_Cons)
qed (simp_all add: recovered_def)

lemma followed_finish: "followed epilogue_call (st_calls st) (st_calls (finishRequest gw now st))"
proof -
  obtain failed where "rev (st_calls (finishRequest gw now st)) = rev (st_calls st) @
     (let l = finished_log now st; note = (\<lambda>k c. if gw_observer gw = None then [] else [CallObserver (observation_of k c l)]);
          log = gw_access_logger gw \<noteq> None \<and> \<not> (as_skip_successful l \<and> al_status l < 400) in
      (if as_failure l \<noteq> '''' then note ComponentFailure (as_failure l) else [])
      @ (if log then [CallAccessLogger (access_log.truncate l)] else [])
      @ (if log \<and> failed then note AccessLogFailure ''access_logger'' else [])
      @ note RequestCompleted '''')"
    using finishRequest_calls by blast
  then show ?thesis by (simp add: followed_def Let_def)
qed

text \<open>Whether, and with what, the handler's run ends at the upstream.\<close>

definition body_too_large :: "route \<Rightarrow> http_request \<Rightarrow> bool" where
  "body_too_large route r \<longleftrightarrow>
     route_max_body route > 0 \<and> req_has_body r \<and> req_content_length r > route_max_body route"

definition upstream_request :: "route \<Rightarrow> identity option \<Rightarrow> http_request \<Rightarrow> http_request" where
  "upstream_request route identity r =
     (let r1 = r\<lparr>req_header := stripAndInjectIdentity (req_header r) identity\<rparr> in
      if route_max_body route > 0 \<and> req_has_body r then r1\<lparr>req_body_limit := Some (route_max_body route)\<rparr>
      else r1)"

lemma callUpstream_followed:
  "followed response_call (CallUpstream (st_req st) # st_calls st) (st_calls (flow_state (callUpstream gw upstream st)))"
proof -
  obtain ops ended w' where call: "upstream (st_rec st) (st_req st) (st_world st) = ((ops, ended), w')"
    by (metis surj_pair)
  have "st_calls (flow_state (callUpstream gw upstream st)) =
      st_calls (fst (upstream_writes gw ops ended (st\<lparr>st_world := w', st_calls := CallUpstream (st_req st) # st_calls st\<rparr>)))"
    by (simp add: callUpstream_def call split: prod.split option.split)
  with followed_upstream_writes
    [of "st\<lparr>st_world := w', st_calls := CallUpstream (st_req st) # st_calls st\<rparr>" gw ops ended]
  show ?thesis by simp
qed

lemma forward_followed:
  "followed response_call
     (if body_too_large route (st_req st) then st_calls st
      else CallUpstream (upstream_request route identity (st_req st)) # st_calls st)
     (st_calls (flow_state (forward gw st (route, upstream, identity))))"
proof -
  let ?st1 = "set_header (\<lambda>h. stripAndInjectIdentity h identity) st"
  show ?thesis
    using callUpstream_followed [of ?st1 gw upstream]
      callUpstream_followed [of "?st1\<lparr>st_req := (st_req ?st1)\<lparr>req_body_limit := Some (route_max_body route)\<rparr>\<rparr>" gw upstream]
    by (auto simp: forward_def Let_def body_too_large_def upstream_request_def refuse_def followed_Cons)
qed

lemma run_admitted:
  "admit U gw (entry t0 r w) = Continue st (route, upstream, identity) \<Longrightarrow>
     run U gw (entry t0 r w) = forward gw st (route, upstream, identity)"
  by (simp add: run_def)

lemma handled_admitted:
  assumes "admit U gw (entry t0 r w) = Continue st (route, upstream, identity)"
  shows "followed response_call
     (if body_too_large route (st_req st) then st_calls st
      else CallUpstream (upstream_request route identity (st_req st)) # st_calls st)
     (st_calls (handled U gw t0 r w))"
  using followed_trans [OF forward_followed followed_recovered]
  by (simp add: handled_def run_admitted [OF assms] split del: if_split)

lemma handled_refused:
  assumes "\<And>st a. admit U gw (entry t0 r w) \<noteq> Continue st a"
  shows "followed response_call (st_calls (flow_state (admit U gw (entry t0 r w)))) (st_calls (handled U gw t0 r w))"
proof -
  have "flow_state (run U gw (entry t0 r w)) = flow_state (admit U gw (entry t0 r w))"
    using assms by (cases "admit U gw (entry t0 r w)") (auto simp: run_def)
  then show ?thesis using followed_recovered [of "run U gw (entry t0 r w)"] by (simp add: handled_def)
qed

lemma followed_not_outer:
  assumes "followed response_call a b" "outer_call c" "c \<notin> set a"
  shows "c \<notin> set b"
proof -
  obtain tail where tail: "rev b = rev a @ tail" "list_all response_call tail"
    using assms(1) by (auto simp: followed_def)
  have "c \<notin> set tail" using tail(2) assms(2) by (cases c) (auto simp: list_all_iff)
  with assms(3) have "c \<notin> set (rev b)" unfolding tail(1) by simp
  then show ?thesis by simp
qed

lemma admit_no_outer: "outer_call c \<Longrightarrow> c \<notin> set (st_calls (flow_state (admit U gw (entry t0 r w))))"
  by (rule admission.no_outer_call) (simp_all add: entry_def)

lemma refused_no_outer:
  assumes "\<And>st a. admit U gw (entry t0 r w) \<noteq> Continue st a" "outer_call c"
  shows "c \<notin> set (st_calls (handled U gw t0 r w))"
  by (rule followed_not_outer [OF handled_refused [OF assms(1)] assms(2) admit_no_outer [OF assms(2)]])

text \<open>A request that reached the upstream was admitted and fits; it reached it once.\<close>

lemma forwarded_admitted:
  assumes "CallUpstream q \<in> set (st_calls (serveHTTP U gw t0 t1 r w))"
  obtains st route upstream identity where
    "admit U gw (entry t0 r w) = Continue st (route, upstream, identity)"
    "\<not> body_too_large route (st_req st)" "q = upstream_request route identity (st_req st)"
    "followed epilogue_call (CallUpstream q # st_calls st) (st_calls (serveHTTP U gw t0 t1 r w))"
proof -
  have epilogue: "CallUpstream q \<in> set a" if q: "CallUpstream q \<in> set b" and f: "followed epilogue_call a b" for a b q
  proof -
    obtain tail where tail: "rev b = rev a @ tail" "list_all epilogue_call tail"
      using f by (auto simp: followed_def)
    have "CallUpstream q \<in> set (rev b)" using q by simp
    with tail show ?thesis unfolding tail(1) by (auto simp: list_all_iff)
  qed
  have q: "CallUpstream q \<in> set (st_calls (handled U gw t0 r w))"
    by (rule epilogue [OF assms [unfolded serveHTTP_def] followed_finish])
  show thesis
  proof (cases "admit U gw (entry t0 r w)")
    case (Continue st a)
    obtain route upstream identity where a: "a = (route, upstream, identity)" by (cases a)
    note admitted = Continue [unfolded a]
    have none: "CallUpstream q \<notin> set (st_calls st)"
      using admit_no_outer [of "CallUpstream q" U gw t0 r w] by (simp add: Continue)
    have fits: "\<not> body_too_large route (st_req st)"
    proof
      assume "body_too_large route (st_req st)"
      with handled_admitted [OF admitted]
      have "followed response_call (st_calls st) (st_calls (handled U gw t0 r w))" by simp
      from followed_not_outer [OF this _ none] q show False by simp
    qed
    from handled_admitted [OF admitted] fits
    have fol: "followed response_call (CallUpstream (upstream_request route identity (st_req st)) # st_calls st)
        (st_calls (handled U gw t0 r w))" by simp
    have "q = upstream_request route identity (st_req st)"
      using epilogue [OF q followed_response [OF fol]] none by simp
    with fol admitted fits show thesis
      using that followed_trans [OF followed_response [OF fol] followed_finish] by (simp add: serveHTTP_def)
  next
    case (Return st)
    then have "CallUpstream q \<notin> set (st_calls (handled U gw t0 r w))"
      by (intro refused_no_outer) simp_all
    with q show thesis by contradiction
  next
    case (Panicking st p)
    then have "CallUpstream q \<notin> set (st_calls (handled U gw t0 r w))"
      by (intro refused_no_outer) simp_all
    with q show thesis by contradiction
  qed
qed


lemma refused_not_forwarded:
  assumes "\<And>st a. admit U gw (entry t0 r w) \<noteq> Continue st a"
  shows "CallUpstream q \<notin> set (st_calls (serveHTTP U gw t0 t1 r w))"
proof
  assume "CallUpstream q \<in> set (st_calls (serveHTTP U gw t0 t1 r w))"
  then show False by (rule forwarded_admitted) (use assms in blast)
qed

section \<open>Order, identity, permission\<close>

text \<open>
  C1 A request reaches an upstream handler only after every configured component was consulted, in the
  fixed order of the pipeline: request ID, route, upstream, client address, client-address limiter,
  credential and authenticator (on a route that is not public), user limiter, authorizer, before-proxy
  policy, upstream limiter. It reaches it once, and only error responses, the access log and
  observations follow.
\<close>

theorem forwarding_order:
  assumes "CallUpstream q \<in> set (st_calls (serveHTTP U gw t0 t1 r w))"
  shows "\<exists>gen rid ip route cred identity tail.
     rev (st_calls (serveHTTP U gw t0 t1 r w)) =
       admission_calls gw gen rid ip route cred identity @ CallUpstream q # tail
     \<and> list_all epilogue_call tail \<and> (gen = [] \<or> gen = [CallGenerateID])
     \<and> isSafeRequestID rid (rid_max_length (gw_request_id gw)) \<and> trim_space ip \<noteq> ''''
     \<and> (identity = None \<longleftrightarrow> route_access route = accessPublic)"
proof (rule forwarded_admitted [OF assms], goal_cases)
  case (1 st route upstream identity)
  obtain tail where tail: "rev (st_calls (serveHTTP U gw t0 t1 r w)) = rev (CallUpstream q # st_calls st) @ tail"
      "list_all epilogue_call tail"
    using 1(4) by (auto simp: followed_def)
  show ?case
  proof (rule admit_history [OF 1(1)], goal_cases)
    case history: (1 gen rid ip cred)
    have "rev (st_calls st) = admission_calls gw gen rid ip route cred identity"
      using history(1) by (simp add: entry_def)
    with tail history show ?case by (intro exI [of _ gen] exI [of _ rid] exI) auto
  qed
qed

lemma upstream_request_values:
  "header_values (req_header (upstream_request route identity r)) k =
     header_values (stripAndInjectIdentity (req_header r) identity) k"
  by (simp add: upstream_request_def Let_def)

lemma access_normalized:
  "normalizeResolvedRoute found = Inr route \<Longrightarrow> route_access route \<in> {accessProtected, accessPublic}"
  by (auto simp: normalizeResolvedRoute_def Let_def split: if_splits)

text \<open>
  C2 Upstream is told an identity only by the gateway: on a public route the forwarded request has no
  identity header, whatever the client sent; on a protected one the authenticator accepted the
  extracted credential with a user ID that is not blank, and the headers are that identity's.
\<close>

theorem forwarded_identity:
  assumes "CallUpstream q \<in> set (st_calls (serveHTTP U gw t0 t1 r w))"
  shows "\<exists>route. CallUpstreams route \<in> set (st_calls (serveHTTP U gw t0 t1 r w)) \<and>
    (if route_access route = accessPublic
     then header_values (req_header q) headerXUserID = [] \<and> header_values (req_header q) headerXUserRoles = []
     else \<exists>authenticator req c d s0 s1 s2. gw_authenticator gw = Some authenticator
       \<and> gw_extractor gw req s0 = (Ret (Inr c), s1) \<and> c \<noteq> ''''
       \<and> authenticator c s1 = (Ret (Inr d), s2) \<and> ad_authenticated d
       \<and> trim_space (id_user (ad_identity d)) \<noteq> ''''
       \<and> header_values (req_header q) headerXUserID = [id_user (ad_identity d)]
       \<and> header_values (req_header q) headerXUserRoles =
           (if id_roles (ad_identity d) = [] then [] else [join '','' (id_roles (ad_identity d))]))"
proof (rule forwarded_admitted [OF assms], goal_cases)
  case (1 st route upstream identity)
  obtain tail where tail: "rev (st_calls (serveHTTP U gw t0 t1 r w)) = rev (CallUpstream q # st_calls st) @ tail"
    using 1(4) by (auto simp: followed_def)
  have "CallUpstreams route \<in> set (rev (st_calls st))"
    by (rule admit_history [OF 1(1)]) (simp add: admission_calls_def)
  then have "CallUpstreams route \<in> set (rev (st_calls (serveHTTP U gw t0 t1 r w)))"
    unfolding tail by simp
  then have routed: "CallUpstreams route \<in> set (st_calls (serveHTTP U gw t0 t1 r w))" by simp
  show ?case
  proof (rule admit_Continue [OF 1(1)], rule authorize_Continue, assumption, goal_cases)
    case stages: (1 s0 rid s1 s2 s3 s4 ip s5 a1 a2 a3 a4 a5)
    show ?case
    proof (cases "route_access route = accessPublic")
      case True
      with authenticate_identity(1) [OF stages(9)] have "identity = None" by simp
      with True routed show ?thesis
        by (intro exI [of _ route]) (simp add: 1(3) upstream_request_values injected_user injected_roles)
    next
      case False
      show ?thesis
      proof (rule authenticate_Continue_protected [OF False stages(9)], goal_cases)
        case (1 a c d w1 w2)
        then show ?case
          using False routed \<open>q = _\<close>
          by (intro exI [of _ route])
            (auto simp: upstream_request_values injected_user injected_roles intro!: exI)
      qed
    qed
  qed
qed

definition limiter_allows :: "'w limiter_fn option \<Rightarrow> rate_limit_request \<Rightarrow> bool" where
  "limiter_allows limiter q \<longleftrightarrow> (case limiter of None \<Rightarrow> True
     | Some allow \<Rightarrow> \<exists>s d s'. allow q s = (Ret (Inr d), s') \<and> rd_allowed d)"

definition policy_allows :: "'w policy_fn option \<Rightarrow> http_request \<Rightarrow> request_context \<Rightarrow> bool" where
  "policy_allows policy r c \<longleftrightarrow> (case policy of None \<Rightarrow> True
     | Some decide \<Rightarrow> \<exists>s d s'. decide r c s = (Ret (Inr d), s') \<and> pd_allowed d)"

lemma applyRateLimit_allows: "applyRateLimit gw limiter q st = Continue st' u \<Longrightarrow> limiter_allows limiter q"
  by (auto simp: applyRateLimit_Continue limiter_allows_def split: option.splits)

lemma applyAuthorizer_allows:
  "applyAuthorizer gw c st = Continue st' u \<Longrightarrow> policy_allows (gw_authorizer gw) (st_req st) c"
  by (auto simp: applyAuthorizer_Continue policy_allows_def split: option.splits)

lemma applyBeforeProxy_allows:
  "applyBeforeProxy gw c st = Continue st' u \<Longrightarrow> policy_allows (gw_before_proxy gw) (st_req st) c"
  by (auto simp: applyBeforeProxy_Continue policy_allows_def split: option.splits)

lemma authorize_allows:
  assumes "authorize gw rid ip route st = Continue st' identity"
  shows "limiter_allows (gw_client_ip_limiter gw) (limit_request scopeClientIP ip route)"
    "\<And>i. identity = Some i \<Longrightarrow> limiter_allows (gw_user_limiter gw) (limit_request scopeUserID (id_user i) route)"
    "limiter_allows (gw_upstream_limiter gw) (limit_request scopeUpstream (route_upstream route) route)"
    "\<exists>r. policy_allows (gw_authorizer gw) r
       \<lparr>rc_request_id = rid, rc_client_ip = ip, rc_route = route, rc_identity = identity\<rparr>"
    "\<exists>r. policy_allows (gw_before_proxy gw) r
       \<lparr>rc_request_id = rid, rc_client_ip = ip, rc_route = route, rc_identity = identity\<rparr>"
proof -
  note stage = authorize_Continue [OF assms]
  show "limiter_allows (gw_client_ip_limiter gw) (limit_request scopeClientIP ip route)"
    by (rule stage) (auto simp: limit_request_def dest: applyRateLimit_allows)
  show "limiter_allows (gw_user_limiter gw) (limit_request scopeUserID (id_user i) route)"
    if "identity = Some i" for i
    by (rule stage) (auto simp: limit_request_def limitUser_def that dest: applyRateLimit_allows)
  show "limiter_allows (gw_upstream_limiter gw) (limit_request scopeUpstream (route_upstream route) route)"
    by (rule stage) (auto simp: limit_request_def dest: applyRateLimit_allows)
  show "\<exists>r. policy_allows (gw_authorizer gw) r
       \<lparr>rc_request_id = rid, rc_client_ip = ip, rc_route = route, rc_identity = identity\<rparr>"
    by (rule stage) (blast dest: applyAuthorizer_allows)
  show "\<exists>r. policy_allows (gw_before_proxy gw) r
       \<lparr>rc_request_id = rid, rc_client_ip = ip, rc_route = route, rc_identity = identity\<rparr>"
    by (rule stage) (blast dest: applyBeforeProxy_allows)
qed

text \<open>
  C3 No request is forwarded against a component's decision: for every configured limiter, the
  authorizer and the before-proxy policy there is the call the gateway made, with the key of that
  limiter's scope, to which the component answered, without an error, that it allows the request.
\<close>

theorem forwarded_permitted:
  assumes "CallUpstream q \<in> set (st_calls (serveHTTP U gw t0 t1 r w))"
  shows "\<exists>route ip rid identity req1 req2. CallUpstreams route \<in> set (st_calls (serveHTTP U gw t0 t1 r w))
    \<and> (identity = None \<longleftrightarrow> route_access route = accessPublic)
    \<and> limiter_allows (gw_client_ip_limiter gw) (limit_request scopeClientIP ip route)
    \<and> (case identity of None \<Rightarrow> True
       | Some i \<Rightarrow> limiter_allows (gw_user_limiter gw) (limit_request scopeUserID (id_user i) route))
    \<and> limiter_allows (gw_upstream_limiter gw) (limit_request scopeUpstream (route_upstream route) route)
    \<and> policy_allows (gw_authorizer gw) req1
        \<lparr>rc_request_id = rid, rc_client_ip = ip, rc_route = route, rc_identity = identity\<rparr>
    \<and> policy_allows (gw_before_proxy gw) req2
        \<lparr>rc_request_id = rid, rc_client_ip = ip, rc_route = route, rc_identity = identity\<rparr>"
proof (rule forwarded_admitted [OF assms], goal_cases)
  case (1 st route upstream identity)
  obtain tail where tail: "rev (st_calls (serveHTTP U gw t0 t1 r w)) = rev (CallUpstream q # st_calls st) @ tail"
    using 1(4) by (auto simp: followed_def)
  have "CallUpstreams route \<in> set (rev (st_calls st))"
    by (rule admit_history [OF 1(1)]) (simp add: admission_calls_def)
  then have "CallUpstreams route \<in> set (rev (st_calls (serveHTTP U gw t0 t1 r w)))"
    unfolding tail by simp
  then have routed: "CallUpstreams route \<in> set (st_calls (serveHTTP U gw t0 t1 r w))" by simp
  show ?case
  proof (rule admit_Continue [OF 1(1)], goal_cases)
    case stages: (1 s0 rid s1 s2 s3 s4 ip s5)
    note allows = authorize_allows [OF stages(7)]
    from allows(4,5) obtain r1 r2 where policies:
      "policy_allows (gw_authorizer gw) r1
         \<lparr>rc_request_id = rid, rc_client_ip = ip, rc_route = route, rc_identity = identity\<rparr>"
      "policy_allows (gw_before_proxy gw) r2
         \<lparr>rc_request_id = rid, rc_client_ip = ip, rc_route = route, rc_identity = identity\<rparr>"
      by blast
    have user: "case identity of None \<Rightarrow> True
       | Some i \<Rightarrow> limiter_allows (gw_user_limiter gw) (limit_request scopeUserID (id_user i) route)"
      using allows(2) by (cases identity) auto
    from routed authorize_history(3) [OF stages(7)] allows(1) user allows(3) policies
    show ?case by blast
  qed
qed

text \<open>
  The request ID upstream sees is the one the gateway chose: exactly one value, safe, and on the
  response and the forwarded request alike, provided its header is not one of the identity headers.
\<close>

theorem forwarded_request_id:
  assumes "CallUpstream q \<in> set (st_calls (serveHTTP U gw t0 t1 r w))"
    "canonical_key (rid_header (gw_request_id gw)) \<notin> {''X-User-Id'', ''X-User-Roles''}"
  shows "\<exists>rid. header_values (req_header q) (rid_header (gw_request_id gw)) = [rid]
     \<and> isSafeRequestID rid (rid_max_length (gw_request_id gw))"
proof (rule forwarded_admitted [OF assms(1)], goal_cases)
  case (1 st route upstream identity)
  show ?case
  proof (rule admit_history [OF 1(1)], goal_cases)
    case history: (1 gen rid ip cred)
    have "header_values (req_header q) (rid_header (gw_request_id gw)) = [rid]"
      using assms(2) history(7) by (simp add: 1(3) upstream_request_values injected_other header_simps)
    with history(3) show ?case by blast
  qed
qed

section \<open>The response and the log\<close>

lemma upstream_writes_ok: "recorder_ok (st_rec st) \<Longrightarrow> recorder_ok (st_rec (fst (upstream_writes gw ops ended st)))"
  by (induction gw ops ended st rule: upstream_writes.induct)
    (auto simp: Let_def recorder_ok_op fail_recorder_ok simp del: apply_op.simps)

lemma callUpstream_recorder: "recorder_ok (st_rec st) \<Longrightarrow> recorder_ok (st_rec (flow_state (callUpstream gw upstream st)))"
proof -
  assume ok: "recorder_ok (st_rec st)"
  obtain ops ended w' where call: "upstream (st_rec st) (st_req st) (st_world st) = ((ops, ended), w')"
    by (metis surj_pair)
  have "st_rec (flow_state (callUpstream gw upstream st)) =
      st_rec (fst (upstream_writes gw ops ended (st\<lparr>st_world := w', st_calls := CallUpstream (st_req st) # st_calls st\<rparr>)))"
    by (simp add: callUpstream_def call split: prod.split option.split)
  with upstream_writes_ok [of "st\<lparr>st_world := w', st_calls := CallUpstream (st_req st) # st_calls st\<rparr>" gw ops ended] ok
  show ?thesis by simp
qed

lemma forward_recorder: "recorder_ok (st_rec st) \<Longrightarrow> recorder_ok (st_rec (flow_state (forward gw st a)))"
  by (auto simp: forward_def Let_def refuse_def fail_recorder_ok callUpstream_recorder split: prod.split)

lemma recovered_recorder: "recorder_ok (st_rec (flow_state out)) \<Longrightarrow> recorder_ok (st_rec (recovered gw r out))"
proof (cases out)
  case (Panicking st p)
  assume "recorder_ok (st_rec (flow_state out))"
  with Panicking show ?thesis
    by (cases p) (simp_all add: recovered_def recoverPanic_def log_failure_def Let_def fail_recorder_ok)
qed (simp_all add: recovered_def)

lemma handled_recorder: "recorder_ok (st_rec (handled U gw t0 r w))"
proof -
  have "recorder_ok (st_rec (flow_state (admit U gw (entry t0 r w))))"
    by (rule admission.keeps_recorder) (simp add: entry_def recorder_ok_new)
  then have "recorder_ok (st_rec (flow_state (run U gw (entry t0 r w))))"
    by (cases "admit U gw (entry t0 r w)") (simp_all add: run_def forward_recorder)
  then show ?thesis by (simp add: handled_def recovered_recorder)
qed

text \<open>
  C7 Whatever components, responders and upstreams write, and however the request ends, at most one
  header is written through the recorder, with the status the gateway records, and nothing but flushes
  before it. The client receives exactly that status, with these exceptions: a handler that took the
  connection over decides itself, and the client receives 200 when the recorded status is informational
  or one that \<open>net/http\<close> refuses, or when the response was flushed before a status was written.
\<close>

theorem response_consistent:
  "recorder_ok (st_rec (serveHTTP U gw t0 t1 r w))
   \<and> client_receives (st_rec (serveHTTP U gw t0 t1 r w)) =
       (let rc = st_rec (serveHTTP U gw t0 t1 r w) in
        case rec_hijacked rc of
          Some (n, h) \<Rightarrow> n
        | None \<Rightarrow>
            if valid_status (rec_status rc) \<and> \<not> informational (rec_status rc) \<and> \<not> flushed_first rc then rec_status rc
            else 200)"
  using handled_recorder [of U gw t0 r w] client_status_recorded [OF handled_recorder, of U gw t0 r w]
  by (simp add: serveHTTP_def client_receives_def Let_def split: option.split)




end
