(* ===== verification/FailClosed.thy ===== *)
theory FailClosed
  imports PipelineTheorems
begin

text \<open>
  What a request that is not forwarded is answered, with the default error responder: every refusal,
  component error and component panic ends in an error status. The contract is a locale that each
  stage of \<open>admit\<close> meets.
\<close>

section \<open>The contract\<close>

text \<open>Answered by the gateway itself: by a health endpoint, or as a CORS preflight.\<close>

definition locally_answered :: "'w st \<Rightarrow> bool" where
  "locally_answered st \<longleftrightarrow> (\<exists>h. CallHealthResponder h \<in> set (st_calls st))
     \<or> rec_status (st_rec st) = 204 \<and> req_method (st_req st) = ''OPTIONS''"

definition refused :: "'w st \<Rightarrow> bool" where
  "refused st \<longleftrightarrow> rec_wrote (st_rec st) \<and> 400 \<le> rec_status (st_rec st)"

locale closed_stage =
  fixes gw :: "'w gateway" and stage :: "'w st \<Rightarrow> ('w st, 'a) flow"
  assumes continues: "\<not> rec_wrote (st_rec st) \<Longrightarrow> stage st = Continue st' a \<Longrightarrow> \<not> rec_wrote (st_rec st')"
    and returns: "gw_responder gw = defaultErrorResponder \<Longrightarrow> \<not> rec_wrote (st_rec st) \<Longrightarrow>
      stage st = Return st' \<Longrightarrow> refused st' \<or> locally_answered st'"
    and panics: "\<not> rec_wrote (st_rec st) \<Longrightarrow> stage st = Panicking st' p \<Longrightarrow>
      \<not> rec_wrote (st_rec st') \<or> locally_answered st'"
begin

lemma outcome:
  assumes "gw_responder gw = defaultErrorResponder" "\<not> rec_wrote (st_rec st)"
  shows "case stage st of Continue st' a \<Rightarrow> \<not> rec_wrote (st_rec st')
     | Return st' \<Rightarrow> refused st' \<or> locally_answered st'
     | Panicking st' p \<Rightarrow> \<not> rec_wrote (st_rec st') \<or> locally_answered st'"
  using assms continues returns panics by (cases "stage st") auto

end

lemma closed_return: "(\<And>st. st_rec (a st) = st_rec st) \<Longrightarrow> closed_stage gw (\<lambda>st. Continue (a st) (b st))"
  by unfold_locales auto

lemma closed_refuse:
  assumes "400 \<le> ge_status e" "\<And>st. st_rec (u st) = st_rec st"
  shows "closed_stage gw (\<lambda>st. refuse gw e (u st))"
  by unfold_locales (auto simp: refuse_def refused_def assms fail_default_status)

lemma closed_bind:
  assumes f: "closed_stage gw f" and g: "\<And>a. closed_stage gw (\<lambda>st. g st a)"
  shows "closed_stage gw (\<lambda>st. flow_bind (f st) g)"
proof
  fix st st' a
  assume st: "\<not> rec_wrote (st_rec st)" and out: "flow_bind (f st) g = Continue st' a"
  from out obtain s b where s: "f st = Continue s b" "g s b = Continue st' a"
    by (auto simp: flow_bind_eq_Continue)
  show "\<not> rec_wrote (st_rec st')"
    by (rule closed_stage.continues [OF g closed_stage.continues [OF f st s(1)] s(2)])
next
  fix st st'
  assume default: "gw_responder gw = defaultErrorResponder" and st: "\<not> rec_wrote (st_rec st)"
    and out: "flow_bind (f st) g = Return st'"
  show "refused st' \<or> locally_answered st'"
  proof (cases "f st")
    case (Continue s b)
    with out have "g s b = Return st'" by simp
    from closed_stage.returns [OF g default closed_stage.continues [OF f st Continue] this] show ?thesis .
  next
    case (Return s)
    with out closed_stage.returns [OF f default st Return] show ?thesis by simp
  qed (use out in simp)
next
  fix st st' p
  assume st: "\<not> rec_wrote (st_rec st)" and out: "flow_bind (f st) g = Panicking st' p"
  show "\<not> rec_wrote (st_rec st') \<or> locally_answered st'"
  proof (cases "f st")
    case (Continue s b)
    with out have "g s b = Panicking st' p" by simp
    from closed_stage.panics [OF g closed_stage.continues [OF f st Continue] this] show ?thesis .
  next
    case (Panicking s q)
    with out closed_stage.panics [OF f st Panicking] show ?thesis by simp
  qed (use out in simp)
qed

text \<open>The contract is about one state at a time.\<close>

lemma closed_pointwise:
  assumes "\<And>st. \<exists>f. closed_stage gw f \<and> stage st = f st"
  shows "closed_stage gw stage"
proof
  fix st st' a
  assume st: "\<not> rec_wrote (st_rec st)" and out: "stage st = Continue st' a"
  obtain f where f: "closed_stage gw f" "stage st = f st" using assms by blast
  show "\<not> rec_wrote (st_rec st')" by (rule closed_stage.continues [OF f(1) st out [unfolded f(2)]])
next
  fix st st'
  assume default: "gw_responder gw = defaultErrorResponder" and st: "\<not> rec_wrote (st_rec st)"
    and out: "stage st = Return st'"
  obtain f where f: "closed_stage gw f" "stage st = f st" using assms by blast
  show "refused st' \<or> locally_answered st'"
    by (rule closed_stage.returns [OF f(1) default st out [unfolded f(2)]])
next
  fix st st' p
  assume st: "\<not> rec_wrote (st_rec st)" and out: "stage st = Panicking st' p"
  obtain f where f: "closed_stage gw f" "stage st = f st" using assms by blast
  show "\<not> rec_wrote (st_rec st') \<or> locally_answered st'"
    by (rule closed_stage.panics [OF f(1) st out [unfolded f(2)]])
qed

lemma closed_at: "closed_stage gw f \<Longrightarrow> stage st = f st \<Longrightarrow> \<exists>f. closed_stage gw f \<and> stage st = f st"
  by blast

lemma closed_invoke: "closed_stage gw (\<lambda>st. invoke c (f st) st)"
proof
  fix st :: "'a st"
  show "invoke c (f st) st = Continue st' a \<Longrightarrow> \<not> rec_wrote (st_rec st) \<Longrightarrow> \<not> rec_wrote (st_rec st')" for st' a
    by (cases rule: invoke_cases [of "f st" st c]) auto
  show "invoke c (f st) st = Return st' \<Longrightarrow> refused st' \<or> locally_answered st'" for st'
    by (cases rule: invoke_cases [of "f st" st c]) auto
  show "invoke c (f st) st = Panicking st' p \<Longrightarrow> \<not> rec_wrote (st_rec st) \<Longrightarrow>
      \<not> rec_wrote (st_rec st') \<or> locally_answered st'" for st' p
    by (cases rule: invoke_cases [of "f st" st c]) auto
qed

lemma closed_update:
  assumes f: "closed_stage gw f" and u: "\<And>st. \<not> rec_wrote (st_rec st) \<Longrightarrow> \<not> rec_wrote (st_rec (u st))"
  shows "closed_stage gw (\<lambda>st. f (u st))"
  by unfold_locales
    (erule (1) closed_stage.continues [OF f u] closed_stage.returns [OF f _ u] closed_stage.panics [OF f u]
     | assumption)+

lemma closed_if:
  assumes "closed_stage gw f" "closed_stage gw g"
  shows "closed_stage gw (\<lambda>st. if b st then f st else g st)"
proof (rule closed_pointwise)
  fix st
  show "\<exists>h. closed_stage gw h \<and> (if b st then f st else g st) = h st"
    using assms by (cases "b st") auto
qed

lemma closed_or_unavailable: "closed_stage gw (\<lambda>st. or_unavailable gw code st res)"
  by (cases res)
    (simp_all add: or_unavailable_def closed_refuse [where u = "\<lambda>st. st"] closed_return unavailableError_def)

lemmas closed_simps =
  closed_refuse closed_refuse [where u = "\<lambda>st. st"] closed_return closed_if
  unavailableError_def gateway_failure_def unauthorized_def forbidden_def rateLimitExceeded_def
  cors_rejected_def route_not_found_def

section \<open>The stages meet it\<close>

lemma closed_applyRateLimit: "closed_stage gw (applyRateLimit gw limiter q)"
proof (cases limiter)
  case None
  then show ?thesis by (simp add: applyRateLimit_def [abs_def] closed_simps)
next
  case (Some allow)
  have decided: "closed_stage gw (\<lambda>st. case res of
              Inl err \<Rightarrow> refuse gw (unavailableError ''rate_limiter_unavailable'' err)
                           (setRateLimitResult (rl_scope q) ''error'' st)
            | Inr decision \<Rightarrow>
                if rd_allowed decision
                then Continue (setRateLimitResult (rl_scope q) ''allowed'' st) ()
                else refuse gw (rateLimitExceeded (rd_retry_after decision))
                       (setRateLimitResult (rl_scope q) ''rejected'' st))" for res
    by (cases res) (simp_all add: closed_simps)
  show ?thesis
    unfolding applyRateLimit_def [abs_def] Some option.case
    by (rule closed_bind [OF closed_invoke decided])
qed

lemma closed_policy_decision:
  "400 \<le> ge_status e \<Longrightarrow> closed_stage gw (\<lambda>st. case res of
              Inl err \<Rightarrow> refuse gw (unavailableError a err) st
            | Inr decision \<Rightarrow> if pd_allowed decision then Continue st () else refuse gw e st)"
  by (cases res) (simp_all add: closed_simps)

lemma closed_applyAuthorizer: "closed_stage gw (applyAuthorizer gw c)"
proof (cases "gw_authorizer gw")
  case None
  then show ?thesis by (simp add: applyAuthorizer_def [abs_def] closed_simps)
next
  case (Some f)
  show ?thesis
    unfolding applyAuthorizer_def [abs_def] Some option.case
    by (rule closed_bind [OF closed_invoke closed_policy_decision]) (simp add: forbidden_def gateway_failure_def)
qed

lemma closed_applyBeforeProxy: "closed_stage gw (applyBeforeProxy gw c)"
proof (cases "gw_before_proxy gw")
  case None
  then show ?thesis by (simp add: applyBeforeProxy_def [abs_def] closed_simps)
next
  case (Some f)
  show ?thesis
    unfolding applyBeforeProxy_def [abs_def] Some option.case
    by (rule closed_bind [OF closed_invoke closed_policy_decision]) (simp add: forbidden_def gateway_failure_def)
qed

lemma closed_acceptDecision: "closed_stage gw (\<lambda>st. acceptDecision gw st decided)"
  by (cases decided) (simp_all add: acceptDecision_def closed_simps)

lemma closed_checkCredential: "closed_stage gw (\<lambda>st. checkCredential gw authenticator st extracted)"
proof (cases extracted)
  case (Inr credential)
  have "closed_stage gw (\<lambda>st. flow_bind
      (invoke (CallAuthenticator credential) (authenticator credential) st) (acceptDecision gw))"
    by (rule closed_bind [OF closed_invoke closed_acceptDecision])
  with Inr show ?thesis by (cases "credential = ''''") (simp_all add: checkCredential_def closed_simps)
qed (simp add: checkCredential_def closed_simps)

lemma closed_authenticate: "closed_stage gw (authenticate gw route)"
proof (cases "route_access route = accessPublic \<or> gw_authenticator gw = None")
  case True
  then show ?thesis
    by (cases "route_access route = accessPublic") (auto simp: authenticate_def [abs_def] closed_simps)
next
  case False
  then obtain authenticator where a: "route_access route \<noteq> accessPublic" "gw_authenticator gw = Some authenticator"
    by auto
  show ?thesis
    unfolding authenticate_def [abs_def] a(2) option.case if_not_P [OF a(1)]
    by (rule closed_bind [OF closed_invoke closed_checkCredential])
qed

lemma closed_cors: "closed_stage gw (apply_cors U gw)"
proof (cases "gw_cors gw")
  case None
  then show ?thesis by (simp add: apply_cors_def [abs_def] closed_simps)
next
  case (Some p)
  have preflight: "rec_status (apply_ops (cors_response p origin True) rc) = 204" if "\<not> rec_wrote rc" for origin rc
    using that by (simp add: cors_response_def rec_write_header_def)
  have "closed_stage gw (cors_handle U p gw)"
  proof
    fix st st' a
    assume "\<not> rec_wrote (st_rec st)" "cors_handle U p gw st = Continue st' a"
    then show "\<not> rec_wrote (st_rec st')"
      by (auto simp: cors_handle_Continue Let_def cors_response_origin(2) simp del: apply_ops.simps split: if_splits)
  next
    fix st st'
    assume "gw_responder gw = defaultErrorResponder" "\<not> rec_wrote (st_rec st)" "cors_handle U p gw st = Return st'"
    then show "refused st' \<or> locally_answered st'"
      by (auto simp: cors_handle_def Let_def refuse_def refused_def locally_answered_def fail_default_status
          cors_rejected_def gateway_failure_def preflight simp del: apply_ops.simps split: if_splits)
  next
    fix st st' q
    assume "cors_handle U p gw st = Panicking st' q"
    then show "\<not> rec_wrote (st_rec st') \<or> locally_answered st'"
      by (auto simp: cors_handle_def Let_def refuse_def split: if_splits)
  qed
  with Some show ?thesis by (simp add: apply_cors_def [abs_def])
qed

lemma closed_check_readiness: "closed_stage gw (check_readiness p gw)"
proof (cases "hp_readiness p")
  case None
  then show ?thesis by (simp add: check_readiness_def [abs_def] closed_simps)
next
  case (Some check)
  have "closed_stage gw (\<lambda>st. flow_bind (invoke CallReadiness (check (hp_timeout p)) st)
      (or_unavailable gw ''readiness_failed''))"
    by (rule closed_bind [OF closed_invoke closed_or_unavailable])
  with Some show ?thesis by (simp add: check_readiness_def [abs_def] closed_simps)
qed

lemma closed_respond_health: "closed_stage gw (respond_health p)"
  by unfold_locales
    (auto simp: respond_health_def Let_def locally_answered_def split: prod.splits option.splits)

lemma closed_health: "closed_stage gw (apply_health gw)"
proof (cases "gw_health gw")
  case None
  then show ?thesis by (simp add: apply_health_def [abs_def] closed_simps)
next
  case (Some p)
  have answered: "closed_stage gw (\<lambda>st. flow_bind (check_readiness p gw (health_log x st))
      (\<lambda>st2 u. respond_health p (skip_successful b st2)))" for x b
    by (rule closed_bind [OF closed_update [OF closed_check_readiness] closed_update [OF closed_respond_health]])
      simp_all
  have method_not_allowed: "closed_stage gw (\<lambda>st. refuse gw (gateway_failure 405 c m) (health_log x st))" for c m x
    by (simp add: closed_simps)
  have "closed_stage gw (health_handle p gw)"
  proof (rule closed_pointwise)
    fix st :: "'a st"
    let ?x = "if req_path (st_req st) = hp_live p then ''health_live'' else ''health_ready''"
    consider (other) "req_path (st_req st) \<noteq> hp_live p \<and> req_path (st_req st) \<noteq> hp_ready p"
      | (wrong_method) "\<not> (req_path (st_req st) \<noteq> hp_live p \<and> req_path (st_req st) \<noteq> hp_ready p)"
          "req_method (st_req st) \<noteq> ''GET''"
      | (answer) "\<not> (req_path (st_req st) \<noteq> hp_live p \<and> req_path (st_req st) \<noteq> hp_ready p)"
          "req_method (st_req st) = ''GET''" by blast
    then show "\<exists>f. closed_stage gw f \<and> health_handle p gw st = f st"
    proof cases
      case other
      then have "health_handle p gw st = Continue st ()" by (simp add: health_handle_def)
      then show ?thesis by (rule closed_at [OF closed_return [where a = "\<lambda>st. st"], rotated]) simp
    next
      case wrong_method
      then have "health_handle p gw st = refuse gw (gateway_failure 405 ''health_method_not_allowed''
          ''method not allowed'') (health_log ?x st)"
        by (auto simp: health_handle_def Let_def)
      then show ?thesis by (rule closed_at [OF method_not_allowed])
    next
      case answer
      then have "health_handle p gw st = flow_bind (check_readiness p gw (health_log ?x st))
          (\<lambda>st2 u. respond_health p (skip_successful (\<not> hp_log_successful p) st2))"
        by (auto simp: health_handle_def Let_def)
      then show ?thesis by (rule closed_at [OF answered])
    qed
  qed
  with Some show ?thesis by (simp add: apply_health_def [abs_def])
qed

lemma closed_resolveRequestID: "closed_stage gw (resolveRequestID gw)"
proof -
  have generated: "closed_stage gw (\<lambda>st. flow_bind
      (invoke CallGenerateID (generatedRequestID config) (set_header f st)) (or_unavailable gw code))" for config f code
    by (rule closed_update [OF closed_bind [OF closed_invoke closed_or_unavailable]]) simp
  show ?thesis
  proof (rule closed_pointwise)
    fix st :: "'a st"
    have adopted: "closed_stage gw (\<lambda>st. Continue (set_header f st) v)" for f v
      by (rule closed_return [where b = "\<lambda>st. v"]) simp
    show "\<exists>f. closed_stage gw f \<and> resolveRequestID gw st = f st"
    proof (cases "adoptedRequestID (gw_request_id gw)
          (header_values (req_header (st_req st)) (rid_header (gw_request_id gw)))")
      case None
      show ?thesis by (rule closed_at [OF generated]) (simp add: resolveRequestID_def None Let_def)
    next
      case (Some v)
      show ?thesis by (rule closed_at [OF adopted]) (simp add: resolveRequestID_def Some Let_def)
    qed
  qed
qed

lemma closed_checkRoute: "closed_stage gw (\<lambda>st. checkRoute gw st resolved)"
proof -
  have "closed_stage gw (\<lambda>st. case normalizeResolvedRoute route of
        Inl err \<Rightarrow> refuse gw (unavailableError ''invalid_resolved_route'' err) st
      | Inr route \<Rightarrow> Continue (st\<lparr>st_log := (st_log st)\<lparr>al_route := route_name route,
            al_upstream := route_upstream route\<rparr>,
          st_req := (st_req st)\<lparr>ctx_route := Some route\<rparr>\<rparr>) route)" for route
    by (cases "normalizeResolvedRoute route") (simp_all add: closed_simps)
  then show ?thesis
    by (cases resolved; cases "projr resolved") (simp_all add: checkRoute_def closed_simps)
qed

lemma closed_checkUpstream: "closed_stage gw (\<lambda>st. checkUpstream gw st resolved)"
  by (cases resolved; cases "projr resolved") (simp_all add: checkUpstream_def closed_simps)

lemma closed_checkClientIP: "closed_stage gw (\<lambda>st. checkClientIP gw st resolved)"
  by (cases resolved; cases "trim_space (projr resolved) = ''''")
    (simp_all add: checkClientIP_def closed_simps)

lemma closed_limitUser: "closed_stage gw (limitUser gw route identity)"
proof (cases identity)
  case None
  then show ?thesis by (simp add: limitUser_def [abs_def] closed_simps)
next
  case (Some i)
  have "closed_stage gw (\<lambda>st. applyRateLimit gw l q (st\<lparr>st_req := (st_req st)\<lparr>ctx_identity := Some i\<rparr>\<rparr>))" for l q
    by (rule closed_update [OF closed_applyRateLimit]) simp
  with Some show ?thesis by (simp add: limitUser_def [abs_def])
qed

lemma closed_authorize: "closed_stage gw (authorize gw request_id ip route)"
  unfolding authorize_def [abs_def] Let_def
  by (rule closed_bind closed_applyRateLimit closed_authenticate closed_limitUser
      closed_applyAuthorizer closed_applyBeforeProxy closed_return refl)+

lemma closed_admit: "closed_stage gw (admit U gw)"
proof -
  have assigned: "closed_stage gw (\<lambda>st. apply_cors U gw (assignRequestID gw i st))" for i
    by (rule closed_update [OF closed_cors]) simp
  have route: "closed_stage gw (resolveRoute gw)"
    unfolding resolveRoute_def [abs_def] by (rule closed_bind [OF closed_invoke closed_checkRoute])
  have upstream: "closed_stage gw (findUpstream gw x)" for x
    unfolding findUpstream_def [abs_def] by (rule closed_bind [OF closed_invoke closed_checkUpstream])
  have ip: "closed_stage gw (resolveClientIP gw)"
    unfolding resolveClientIP_def [abs_def] by (rule closed_bind [OF closed_invoke closed_checkClientIP])
  show ?thesis
    unfolding admit_def [abs_def]
    by (rule closed_bind closed_resolveRequestID assigned closed_health route upstream ip closed_authorize
        closed_return refl)+
qed

interpretation closed_admission: closed_stage gw "admit U gw" for gw U
  by (rule closed_admit)

section \<open>The whole handler\<close>

lemma finishRequest_log [simp]: "st_log (finishRequest gw now st) = finished_log now st"
  by (simp add: finishRequest_unfold emitAccessLog_def callAccessLogger_def Let_def
      split: option.splits prod.splits ext.splits sum.splits)

lemma finished_log_keeps_code:
  "al_error_code (st_log st) \<noteq> '''' \<Longrightarrow> al_error_code (finished_log now st) = al_error_code (st_log st)"
  by (simp add: finished_log_def Let_def)

lemma locally_answered_finish:
  assumes "locally_answered st"
  shows "locally_answered (finishRequest gw now st)"
proof -
  obtain tail where "rev (st_calls (finishRequest gw now st)) = rev (st_calls st) @ tail"
    using followed_finish [of st gw now] by (auto simp: followed_def)
  then have "set (st_calls st) \<subseteq> set (st_calls (finishRequest gw now st))"
    by (metis Un_upper1 set_append set_rev)
  with assms show ?thesis by (auto simp: locally_answered_def)
qed

lemma forward_too_large:
  assumes "gw_responder gw = defaultErrorResponder" "\<not> rec_wrote (st_rec st)" "body_too_large route (st_req st)"
  shows "refused (recovered gw r (forward gw st (route, upstream, identity)))"
  using assms
  by (simp add: forward_def Let_def body_too_large_def refuse_def recovered_def refused_def
      fail_default_status request_too_large_def gateway_failure_def)

lemma recoverPanic_outcome:
  assumes "gw_responder gw = defaultErrorResponder" "\<not> rec_wrote (st_rec st) \<or> locally_answered st"
  shows "refused (recoverPanic gw r p st) \<or> locally_answered (recoverPanic gw r p st)
     \<or> al_error_code (st_log (recoverPanic gw r p st)) = ''upstream_stream_aborted''"
proof (cases p)
  case (OtherPanic m)
  with assms show ?thesis
    by (auto simp: recoverPanic_def log_failure_def Let_def refused_def locally_answered_def
        fail_default_status gatewayPanic_def gateway_failure_def)
qed (simp add: recoverPanic_def log_failure_def)

lemma handled_not_forwarded:
  assumes default: "gw_responder gw = defaultErrorResponder"
    and none: "\<And>q. CallUpstream q \<notin> set (st_calls (handled U gw t0 r w))"
  shows "refused (handled U gw t0 r w) \<or> locally_answered (handled U gw t0 r w)
     \<or> al_error_code (st_log (handled U gw t0 r w)) = ''upstream_stream_aborted''"
proof -
  have "\<not> rec_wrote (st_rec (entry t0 r w))" by (simp add: entry_def newResponseRecorder_def)
  note outcome = closed_admission.outcome [OF default this]
  show ?thesis
  proof (cases "admit U gw (entry t0 r w)")
    case (Continue st a)
    obtain route upstream identity where a: "a = (route, upstream, identity)" by (cases a)
    note admitted = Continue [unfolded a]
    have "body_too_large route (st_req st)"
    proof (rule ccontr)
      assume "\<not> body_too_large route (st_req st)"
      with handled_admitted [OF admitted]
      obtain tail where "rev (st_calls (handled U gw t0 r w)) =
          rev (CallUpstream (upstream_request route identity (st_req st)) # st_calls st) @ tail"
        by (auto simp: followed_def)
      then have "CallUpstream (upstream_request route identity (st_req st))
          \<in> set (rev (st_calls (handled U gw t0 r w)))" by simp
      with none show False by simp
    qed
    with outcome [of U] Continue forward_too_large [OF default] show ?thesis
      by (simp add: handled_def run_def a)
  next
    case (Return st)
    with outcome [of U] show ?thesis by (auto simp: handled_def run_def recovered_def)
  next
    case (Panicking st p)
    with outcome [of U] recoverPanic_outcome [OF default] show ?thesis
      by (simp add: handled_def run_def recovered_def)
  qed
qed

text \<open>
  C4 The gateway fails closed: with the default error responder, a request that no upstream handler
  received is answered with an error status (400 or more), unless one of the gateway's own health
  endpoints answered it or it was a CORS preflight, or a component panicked with
  \<open>http.ErrAbortHandler\<close>.
\<close>

theorem not_forwarded_refused:
  assumes "gw_responder gw = defaultErrorResponder"
    "\<And>q. CallUpstream q \<notin> set (st_calls (serveHTTP U gw t0 t1 r w))"
  shows "refused (serveHTTP U gw t0 t1 r w) \<or> locally_answered (serveHTTP U gw t0 t1 r w)
     \<or> al_error_code (st_log (serveHTTP U gw t0 t1 r w)) = ''upstream_stream_aborted''"
proof -
  let ?st = "handled U gw t0 r w"
  obtain tail where tail: "rev (st_calls (finishRequest gw t1 ?st)) = rev (st_calls ?st) @ tail"
    using followed_finish [of ?st gw t1] by (auto simp: followed_def)
  have "CallUpstream q \<notin> set (rev (st_calls ?st))" for q
    using assms(2) [of q] unfolding serveHTTP_def set_rev [symmetric, of "st_calls (finishRequest gw t1 ?st)"] tail
    by simp
  then have "\<And>q. CallUpstream q \<notin> set (st_calls ?st)" by simp
  from handled_not_forwarded [OF assms(1) this] show ?thesis
    by (auto simp: serveHTTP_def refused_def locally_answered_finish finished_log_keeps_code)
qed

section \<open>Panics\<close>

text \<open>
  A component's panic before anything was written is answered 500 by the default responder and logged
  as a gateway panic.
\<close>

lemma panic_answered:
  assumes "gw_responder gw = defaultErrorResponder" "run U gw (entry t0 r w) = Panicking st (OtherPanic m)"
    "\<not> rec_wrote (st_rec st)"
  shows "rec_status (st_rec (serveHTTP U gw t0 t1 r w)) = 500"
    "al_error_code (st_log (serveHTTP U gw t0 t1 r w)) = ''gateway_panic''"
proof -
  let ?st = "log_failure ''gateway_panic'' st"
  have eq: "handled U gw t0 r w = fail gw (deferred_request r ?st) gatewayPanic ?st"
    using assms by (simp add: handled_def recovered_def recoverPanic_def log_failure_def Let_def)
  have "\<not> rec_wrote (st_rec ?st)" using assms(3) by (simp add: log_failure_def)
  from fail_default_status(1) [OF assms(1) this]
  show "rec_status (st_rec (serveHTTP U gw t0 t1 r w)) = 500"
    by (simp add: serveHTTP_def eq gatewayPanic_def gateway_failure_def)
  show "al_error_code (st_log (serveHTTP U gw t0 t1 r w)) = ''gateway_panic''"
    using assms(1)
    by (simp add: serveHTTP_def eq finished_log_keeps_code fail_def protocol_respond_def valid_status_def
        defaultErrorResponder_def recordGatewayError_def gatewayPanic_def gateway_failure_def Let_def)
qed

text \<open>
  An \<open>http.ErrAbortHandler\<close> panic is swallowed: the handler returns normally, with what was written
  so far and nothing more. If nothing was, the client gets the writer's default, 200 with an empty
  body; if the upstream's body broke off, nothing tells the client so.
\<close>

theorem abort_swallowed:
  assumes "run U gw (entry t0 r w) = Panicking st AbortHandler"
  shows "st_rec (serveHTTP U gw t0 t1 r w) = st_rec st
    \<and> al_error_code (st_log (serveHTTP U gw t0 t1 r w)) = ''upstream_stream_aborted''"
  using assms
  by (simp add: serveHTTP_def handled_def recovered_def recoverPanic_def log_failure_def
      finished_log_keeps_code)

end
