(* ===== verification/GatewayNew.thy ===== *)
theory GatewayNew
  imports FailClosed
begin

text \<open>
  Building a gateway: the options (\<open>options.go\<close> and the \<open>With...\<close> functions of the other files of
  \<open>sdk/go/gateway/\<close>) and \<open>New\<close> (\<open>gateway.go\<close>). An option is a constructor with its arguments; a Go
  interface argument may be nil (\<open>interface\<close>). What the code takes from outside, the standard
  library's parsers, randomness, the default transport and the default slog logger, is a record.
\<close>

record 'w platform =
  pf_tables :: unicode_tables
  pf_netip :: netip
  pf_url_parse :: "string \<Rightarrow> url option"
  pf_rand :: "'w \<Rightarrow> string result \<times> 'w"
  pf_transport :: "transport_settings \<Rightarrow> 'w transport_fn"
  pf_slog :: "'w logger_fn"

record 'w gateway_config =
  cfg_route_resolver :: "'w route_resolver_fn option"
  cfg_static_routes :: "route list"
  cfg_upstream_resolver :: "'w upstream_resolver_fn option"
  cfg_authenticator :: "'w authenticator_fn option"
  cfg_extractor :: "'w extractor_fn option"
  cfg_authorizer :: "'w policy_fn option"
  cfg_before_proxy :: "'w policy_fn option"
  cfg_client_ip :: "'w ip_resolver_fn option"
  cfg_client_ip_limiter :: "'w limiter_fn option"
  cfg_user_limiter :: "'w limiter_fn option"
  cfg_upstream_limiter :: "'w limiter_fn option"
  cfg_responder :: "'w responder_fn option"
  cfg_request_id :: "'w request_id_config"
  cfg_upstreams :: "upstream_spec list"
  cfg_transport :: "'w transport_fn option"
  cfg_cors :: "cors_config option"
  cfg_access_logger :: "'w logger_fn option"
  cfg_log_disabled :: bool
  cfg_observer :: "'w observer_fn option"
  cfg_health :: "'w health_config option"
  cfg_configured :: "string set"

definition emptyConfig :: "'w gateway_config" where
  "emptyConfig =
     \<lparr>cfg_route_resolver = None, cfg_static_routes = [], cfg_upstream_resolver = None,
      cfg_authenticator = None, cfg_extractor = None, cfg_authorizer = None, cfg_before_proxy = None,
      cfg_client_ip = None, cfg_client_ip_limiter = None, cfg_user_limiter = None,
      cfg_upstream_limiter = None, cfg_responder = None,
      cfg_request_id = \<lparr>rid_header = '''', rid_max_length = 0, rid_generate = None, rid_trust_incoming = False\<rparr>,
      cfg_upstreams = [], cfg_transport = None, cfg_cors = None, cfg_access_logger = None,
      cfg_log_disabled = False, cfg_observer = None, cfg_health = None, cfg_configured = {}\<rparr>"

datatype 'w gw_option =
    WithRoutes "route list"
  | WithRouteResolver "'w route_resolver_fn interface"
  | WithUpstreamResolver "'w upstream_resolver_fn interface"
  | WithUpstreams "upstream_spec list"
  | WithTransport "'w transport_fn interface"
  | WithAuthenticator "'w authenticator_fn interface" "'w extractor_fn option list"
  | WithAuthorizer "'w policy_fn interface"
  | WithBeforeProxyPolicy "'w policy_fn interface"
  | WithTrustedProxies "string list"
  | WithClientIPResolver "'w ip_resolver_fn interface"
  | WithClientIPRateLimiter "'w limiter_fn interface"
  | WithUserRateLimiter "'w limiter_fn interface"
  | WithUpstreamRateLimiter "'w limiter_fn interface"
  | WithErrorResponder "'w responder_fn interface"
  | WithRequestID "'w request_id_config"
  | WithCORS cors_config
  | WithAccessLogger "'w logger_fn interface"
  | WithSlogAccessLogger "'w logger_fn"
  | WithoutAccessLog
  | WithObserver "'w observer_fn interface"
  | WithHealth "'w health_config"

section \<open>Options\<close>

text \<open>The name each option passes to \<open>componentOption\<close>.\<close>

fun component_name :: "'w gw_option \<Rightarrow> string" where
  "component_name (WithRoutes rs) = ''routes''"
| "component_name (WithRouteResolver f) = ''route_resolver''"
| "component_name (WithUpstreamResolver f) = ''upstream_resolver''"
| "component_name (WithUpstreams us) = ''upstreams''"
| "component_name (WithTransport t) = ''transport''"
| "component_name (WithAuthenticator a es) = ''authenticator''"
| "component_name (WithAuthorizer p) = ''authorizer''"
| "component_name (WithBeforeProxyPolicy p) = ''before_proxy_policy''"
| "component_name (WithTrustedProxies cs) = ''client_ip_resolver''"
| "component_name (WithClientIPResolver f) = ''client_ip_resolver''"
| "component_name (WithClientIPRateLimiter l) = ''client_ip_limiter''"
| "component_name (WithUserRateLimiter l) = ''user_limiter''"
| "component_name (WithUpstreamRateLimiter l) = ''upstream_limiter''"
| "component_name (WithErrorResponder f) = ''error_responder''"
| "component_name (WithRequestID c) = ''request_id''"
| "component_name (WithCORS c) = ''cors''"
| "component_name (WithAccessLogger l) = ''access_logger''"
| "component_name (WithSlogAccessLogger l) = ''access_logger''"
| "component_name WithoutAccessLog = ''access_logger''"
| "component_name (WithObserver ob) = ''observer''"
| "component_name (WithHealth c) = ''health''"

definition bearer_extractor :: "'w extractor_fn" where
  "bearer_extractor r w = (Ret (BearerCredential (req_header r)), w)"

text \<open>
  What each option does to the configuration, once its name is known to be new: the function each
  \<open>With...\<close> hands to \<open>componentOption\<close>.
\<close>

definition rateLimiterOption ::
  "('w limiter_fn option \<Rightarrow> 'w gateway_config \<Rightarrow> 'w gateway_config) \<Rightarrow> 'w limiter_fn interface \<Rightarrow>
   'w gateway_config \<Rightarrow> 'w gateway_config result" where
  "rateLimiterOption assign limiter c =
     (if isNilInterface limiter then Inl (Plain ''gateway rate limiter is nil'')
      else Inr (assign (interface_value limiter) c))"

definition withRoutes ::
  "route list \<Rightarrow> 'w gateway_config \<Rightarrow> 'w gateway_config result" where
  "withRoutes rs c =
     Inr (c\<lparr>cfg_static_routes := rs\<rparr>)"

definition withRouteResolver ::
  "'w route_resolver_fn interface \<Rightarrow> 'w gateway_config \<Rightarrow> 'w gateway_config result" where
  "withRouteResolver f c =
     (if isNilInterface f then Inl (Plain ''gateway route resolver is nil'')
      else Inr (c\<lparr>cfg_route_resolver := interface_value f\<rparr>))"

definition withUpstreamResolver ::
  "'w upstream_resolver_fn interface \<Rightarrow> 'w gateway_config \<Rightarrow> 'w gateway_config result" where
  "withUpstreamResolver f c =
     (if isNilInterface f then Inl (Plain ''gateway upstream resolver is nil'')
      else Inr (c\<lparr>cfg_upstream_resolver := interface_value f\<rparr>))"

definition withUpstreams ::
  "upstream_spec list \<Rightarrow> 'w gateway_config \<Rightarrow> 'w gateway_config result" where
  "withUpstreams us c =
     Inr (c\<lparr>cfg_upstreams := us\<rparr>)"

definition withTransport ::
  "'w transport_fn interface \<Rightarrow> 'w gateway_config \<Rightarrow> 'w gateway_config result" where
  "withTransport t c =
     (if isNilInterface t then Inl (Plain ''gateway transport is nil'')
      else Inr (c\<lparr>cfg_transport := interface_value t\<rparr>))"

definition withAuthenticator ::
  "'w authenticator_fn interface \<Rightarrow> 'w extractor_fn option list \<Rightarrow> 'w gateway_config \<Rightarrow> 'w gateway_config result" where
  "withAuthenticator a es c =
     (let extractor = (if length es = 1 then es ! 0 else Some bearer_extractor) in
      if isNilInterface a then Inl (Plain ''gateway authenticator is nil'')
      else if length es > 1 \<or> extractor = None
      then Inl (Plain ''gateway requires exactly one non-nil credential extractor'')
      else Inr (c\<lparr>cfg_extractor := extractor, cfg_authenticator := interface_value a\<rparr>))"

definition withAuthorizer ::
  "'w policy_fn interface \<Rightarrow> 'w gateway_config \<Rightarrow> 'w gateway_config result" where
  "withAuthorizer p c =
     (if isNilInterface p then Inl (Plain ''gateway authorizer is nil'')
      else Inr (c\<lparr>cfg_authorizer := interface_value p\<rparr>))"

definition withBeforeProxyPolicy ::
  "'w policy_fn interface \<Rightarrow> 'w gateway_config \<Rightarrow> 'w gateway_config result" where
  "withBeforeProxyPolicy p c =
     (if isNilInterface p then Inl (Plain ''gateway before-proxy policy is nil'')
      else Inr (c\<lparr>cfg_before_proxy := interface_value p\<rparr>))"

definition withTrustedProxies ::
  "'w platform \<Rightarrow> string list \<Rightarrow> 'w gateway_config \<Rightarrow> 'w gateway_config result" where
  "withTrustedProxies P cidrs c =
     and_then (compile_trusted_proxies (pf_netip P) cidrs) (\<lambda>prefixes.
       Inr (c\<lparr>cfg_client_ip := Some (\<lambda>r w. (Ret (trustedProxyResolve (pf_netip P) prefixes r), w))\<rparr>))"

definition withClientIPResolver ::
  "'w ip_resolver_fn interface \<Rightarrow> 'w gateway_config \<Rightarrow> 'w gateway_config result" where
  "withClientIPResolver f c =
     (if isNilInterface f then Inl (Plain ''gateway client IP resolver is nil'')
      else Inr (c\<lparr>cfg_client_ip := interface_value f\<rparr>))"

definition withClientIPRateLimiter ::
  "'w limiter_fn interface \<Rightarrow> 'w gateway_config \<Rightarrow> 'w gateway_config result" where
  "withClientIPRateLimiter l c =
     rateLimiterOption (\<lambda>l c. c\<lparr>cfg_client_ip_limiter := l\<rparr>) l c"

definition withUserRateLimiter ::
  "'w limiter_fn interface \<Rightarrow> 'w gateway_config \<Rightarrow> 'w gateway_config result" where
  "withUserRateLimiter l c =
     rateLimiterOption (\<lambda>l c. c\<lparr>cfg_user_limiter := l\<rparr>) l c"

definition withUpstreamRateLimiter ::
  "'w limiter_fn interface \<Rightarrow> 'w gateway_config \<Rightarrow> 'w gateway_config result" where
  "withUpstreamRateLimiter l c =
     rateLimiterOption (\<lambda>l c. c\<lparr>cfg_upstream_limiter := l\<rparr>) l c"

definition withErrorResponder ::
  "'w responder_fn interface \<Rightarrow> 'w gateway_config \<Rightarrow> 'w gateway_config result" where
  "withErrorResponder f c =
     (if isNilInterface f then Inl (Plain ''gateway error responder is nil'')
      else Inr (c\<lparr>cfg_responder := interface_value f\<rparr>))"

definition withRequestID ::
  "'w request_id_config \<Rightarrow> 'w gateway_config \<Rightarrow> 'w gateway_config result" where
  "withRequestID rc c =
     Inr (c\<lparr>cfg_request_id := rc\<rparr>)"

definition withCORS ::
  "cors_config \<Rightarrow> 'w gateway_config \<Rightarrow> 'w gateway_config result" where
  "withCORS cc c =
     Inr (c\<lparr>cfg_cors := Some cc\<rparr>)"

definition withAccessLogger ::
  "'w logger_fn interface \<Rightarrow> 'w gateway_config \<Rightarrow> 'w gateway_config result" where
  "withAccessLogger l c =
     (if isNilInterface l then Inl (Plain ''gateway access logger is nil'')
      else Inr (c\<lparr>cfg_access_logger := interface_value l\<rparr>))"

definition withSlogAccessLogger ::
  "'w logger_fn \<Rightarrow> 'w gateway_config \<Rightarrow> 'w gateway_config result" where
  "withSlogAccessLogger l c =
     Inr (c\<lparr>cfg_access_logger := Some l\<rparr>)"

definition withoutAccessLog ::
  "'w gateway_config \<Rightarrow> 'w gateway_config result" where
  "withoutAccessLog c =
     Inr (c\<lparr>cfg_log_disabled := True\<rparr>)"

definition withObserver ::
  "'w observer_fn interface \<Rightarrow> 'w gateway_config \<Rightarrow> 'w gateway_config result" where
  "withObserver ob c =
     (if isNilInterface ob then Inl (Plain ''gateway observer is nil'')
      else Inr (c\<lparr>cfg_observer := interface_value ob\<rparr>))"

definition withHealth ::
  "'w health_config \<Rightarrow> 'w gateway_config \<Rightarrow> 'w gateway_config result" where
  "withHealth hc c =
     Inr (c\<lparr>cfg_health := Some hc\<rparr>)"

fun configure :: "'w platform \<Rightarrow> 'w gw_option \<Rightarrow> 'w gateway_config \<Rightarrow> 'w gateway_config result" where
  "configure P (WithRoutes rs) c = withRoutes rs c"
| "configure P (WithRouteResolver f) c = withRouteResolver f c"
| "configure P (WithUpstreamResolver f) c = withUpstreamResolver f c"
| "configure P (WithUpstreams us) c = withUpstreams us c"
| "configure P (WithTransport t) c = withTransport t c"
| "configure P (WithAuthenticator a es) c = withAuthenticator a es c"
| "configure P (WithAuthorizer p) c = withAuthorizer p c"
| "configure P (WithBeforeProxyPolicy p) c = withBeforeProxyPolicy p c"
| "configure P (WithTrustedProxies cidrs) c = withTrustedProxies P cidrs c"
| "configure P (WithClientIPResolver f) c = withClientIPResolver f c"
| "configure P (WithClientIPRateLimiter l) c = withClientIPRateLimiter l c"
| "configure P (WithUserRateLimiter l) c = withUserRateLimiter l c"
| "configure P (WithUpstreamRateLimiter l) c = withUpstreamRateLimiter l c"
| "configure P (WithErrorResponder f) c = withErrorResponder f c"
| "configure P (WithRequestID rc) c = withRequestID rc c"
| "configure P (WithCORS cc) c = withCORS cc c"
| "configure P (WithAccessLogger l) c = withAccessLogger l c"
| "configure P (WithSlogAccessLogger l) c = withSlogAccessLogger l c"
| "configure P WithoutAccessLog c = withoutAccessLog c"
| "configure P (WithObserver ob) c = withObserver ob c"
| "configure P (WithHealth hc) c = withHealth hc c"

lemmas option_defs =
  withRoutes_def
  withRouteResolver_def
  withUpstreamResolver_def
  withUpstreams_def
  withTransport_def
  withAuthenticator_def
  withAuthorizer_def
  withBeforeProxyPolicy_def
  withTrustedProxies_def
  withClientIPResolver_def
  withClientIPRateLimiter_def
  withUserRateLimiter_def
  withUpstreamRateLimiter_def
  withErrorResponder_def
  withRequestID_def
  withCORS_def
  withAccessLogger_def
  withSlogAccessLogger_def
  withoutAccessLog_def
  withObserver_def
  withHealth_def
  rateLimiterOption_def

definition apply_option :: "'w platform \<Rightarrow> 'w gw_option \<Rightarrow> 'w gateway_config \<Rightarrow> 'w gateway_config result" where
  "apply_option P opt c =
     (let name = component_name opt in
      if name \<in> cfg_configured c then Inl (Plain (''duplicate gateway component: '' @ name))
      else configure P opt (c\<lparr>cfg_configured := insert name (cfg_configured c)\<rparr>))"

text \<open>The loop of \<open>New\<close>; \<open>None\<close> is a nil option.\<close>

fun apply_options ::
  "'w platform \<Rightarrow> nat \<Rightarrow> 'w gw_option option list \<Rightarrow> 'w gateway_config \<Rightarrow> 'w gateway_config result" where
  "apply_options P index [] c = Inr c"
| "apply_options P index (None # opts) c =
     Inl (Plain (''gateway option at index '' @ nat_string index @ '' is nil''))"
| "apply_options P index (Some opt # opts) c =
     and_then (apply_option P opt c) (apply_options P (index + 1) opts)"

section \<open>New\<close>

definition static_resolver :: "unicode_tables \<Rightarrow> route_resolver \<Rightarrow> 'w route_resolver_fn" where
  "static_resolver U rr r w = (Ret (Inr (resolve U rr (req_path r) (req_method r))), w)"

definition route_source :: "'w platform \<Rightarrow> 'w gateway_config \<Rightarrow> 'w route_resolver_fn result" where
  "route_source P c =
     (if cfg_static_routes c \<noteq> [] \<and> cfg_route_resolver c \<noteq> None
      then Inl (Plain ''gateway static routes and route resolver are mutually exclusive'')
      else if cfg_static_routes c \<noteq> []
      then and_then (newStaticRouteResolver (pf_tables P) (cfg_static_routes c))
             (\<lambda>rr. Inr (static_resolver (pf_tables P) rr))
      else case cfg_route_resolver c of
             None \<Rightarrow> Inl (Plain ''gateway route resolver is required'')
           | Some f \<Rightarrow> Inr f)"

definition upstream_source :: "'w platform \<Rightarrow> 'w gateway_config \<Rightarrow> string \<Rightarrow> 'w upstream_resolver_fn result" where
  "upstream_source P c id_header =
     (if cfg_upstreams c \<noteq> []
      then and_then (newReverseProxyResolver (pf_url_parse P) (cfg_upstreams c)) (\<lambda>proxies.
             Inr (resolveUpstream proxies
                    (case cfg_transport c of None \<Rightarrow> pf_transport P defaultProxyTransport | Some t \<Rightarrow> t) id_header))
      else if cfg_transport c \<noteq> None then Inl (Plain ''gateway transport requires fixed upstreams'')
      else case cfg_upstream_resolver c of
             None \<Rightarrow> Inl (Plain ''gateway upstream resolver is required'')
           | Some f \<Rightarrow> Inr f)"

text \<open>The steps of \<open>New\<close> up to the validation of the static upstreams.\<close>

definition build_gateway :: "'w platform \<Rightarrow> 'w gateway_config \<Rightarrow> 'w gateway result" where
  "build_gateway P c =
     and_then (route_source P c) (\<lambda>routes.
     and_then (reject_if (cfg_upstreams c \<noteq> [] \<and> cfg_upstream_resolver c \<noteq> None)
         ''gateway fixed upstreams and upstream resolver are mutually exclusive'') (\<lambda>u.
     and_then (normalizeRequestIDConfig (pf_rand P) (cfg_request_id c)) (\<lambda>request_id.
     and_then (upstream_source P c (rid_header request_id)) (\<lambda>upstreams.
     and_then (reject_if (cfg_authenticator c = None \<and> containsProtectedRoute (cfg_static_routes c))
         ''gateway authenticator is required by protected routes'') (\<lambda>u.
     and_then (newCORSPolicy (pf_url_parse P) (pf_tables P) (cfg_cors c)) (\<lambda>cors.
     and_then (newHealthPolicy (cfg_health c)) (\<lambda>health.
     Inr \<lparr>gw_routes = routes, gw_upstreams = upstreams, gw_authenticator = cfg_authenticator c,
          gw_extractor = (case cfg_extractor c of
              None \<Rightarrow> (\<lambda>r w. (Panics (OtherPanic ''nil credential extractor''), w)) | Some f \<Rightarrow> f),
          gw_authorizer = cfg_authorizer c, gw_before_proxy = cfg_before_proxy c,
          gw_client_ip = (case cfg_client_ip c of
              None \<Rightarrow> (\<lambda>r w. (Ret (resolveRemoteAddr (pf_netip P) r), w)) | Some f \<Rightarrow> f),
          gw_client_ip_limiter = cfg_client_ip_limiter c, gw_user_limiter = cfg_user_limiter c,
          gw_upstream_limiter = cfg_upstream_limiter c,
          gw_responder = (case cfg_responder c of None \<Rightarrow> defaultErrorResponder | Some f \<Rightarrow> f),
          gw_request_id = request_id, gw_cors = cors,
          gw_access_logger = (if cfg_access_logger c = None \<and> \<not> cfg_log_disabled c then Some (pf_slog P)
                              else cfg_access_logger c),
          gw_observer = cfg_observer c, gw_health = health\<rparr>)))))))"

definition newGateway ::
  "'w platform \<Rightarrow> 'w gw_option option list \<Rightarrow> 'w \<Rightarrow> 'w gateway result ext \<times> 'w" where
  "newGateway P opts w =
     (case and_then (apply_options P 0 opts emptyConfig) (\<lambda>c. and_then (build_gateway P c) (\<lambda>gw. Inr (c, gw))) of
        Inl e \<Rightarrow> (Ret (Inl e), w)
      | Inr (c, gw) \<Rightarrow>
          (case validateStaticUpstreams (pf_tables P) (cfg_static_routes c) (gw_upstreams gw) w of
             (Ret (Inr u), w') \<Rightarrow> (Ret (Inr gw), w')
           | (Ret (Inl e), w') \<Rightarrow> (Ret (Inl e), w')
           | (Panics p, w') \<Rightarrow> (Panics p, w')))"

section \<open>What the options leave behind\<close>

lemma configure_configured: "configure P opt c = Inr c' \<Longrightarrow> cfg_configured c' = cfg_configured c"
  by (cases opt) (auto simp: option_defs Let_def and_then_eq_Inr split: if_splits)

lemma apply_option_Inr:
  "apply_option P opt c = Inr c' \<longleftrightarrow> component_name opt \<notin> cfg_configured c
     \<and> configure P opt (c\<lparr>cfg_configured := insert (component_name opt) (cfg_configured c)\<rparr>) = Inr c'"
  by (auto simp: apply_option_def Let_def)

text \<open>
  Every option is present, no two share a component, and a fact that one option establishes and no
  option of another name disturbs holds of the final configuration.
\<close>

lemma apply_options_distinct:
  "apply_options P i opts c = Inr c' \<Longrightarrow>
     \<exists>os. opts = map Some os \<and> distinct (map component_name os)
       \<and> set (map component_name os) \<inter> cfg_configured c = {}
       \<and> cfg_configured c' = cfg_configured c \<union> set (map component_name os)"
proof (induction P i opts c rule: apply_options.induct)
  case (3 P i opt opts c)
  then obtain c1 where c1: "apply_option P opt c = Inr c1" "apply_options P (i + 1) opts c1 = Inr c'"
    by (auto simp: and_then_eq_Inr)
  from c1(1) have conf: "cfg_configured c1 = insert (component_name opt) (cfg_configured c)"
      "component_name opt \<notin> cfg_configured c"
    by (auto simp: apply_option_Inr dest: configure_configured)
  from "3.IH" [OF c1(2)] obtain os where os: "opts = map Some os" "distinct (map component_name os)"
      "set (map component_name os) \<inter> cfg_configured c1 = {}"
      "cfg_configured c' = cfg_configured c1 \<union> set (map component_name os)" by blast
  with conf show ?case by (intro exI [of _ "opt # os"]) auto
qed auto

lemma apply_options_invariant:
  assumes "apply_options P i (map Some os) c = Inr c'" "Q c"
    and keep: "\<And>opt c c'. opt \<in> set os \<Longrightarrow> Q c \<Longrightarrow> apply_option P opt c = Inr c' \<Longrightarrow> Q c'"
  shows "Q c'"
  using assms
proof (induction os arbitrary: i c)
  case (Cons opt os)
  then obtain c1 where c1: "apply_option P opt c = Inr c1" "apply_options P (i + 1) (map Some os) c1 = Inr c'"
    by (auto simp: and_then_eq_Inr)
  have q: "Q c1" by (rule Cons.prems(3) [OF _ Cons.prems(2) c1(1)]) simp
  show ?case by (rule Cons.IH [OF c1(2) q]) (rule Cons.prems(3), simp_all)
qed simp

lemma apply_options_establishes:
  assumes "apply_options P i (map Some os) c = Inr c'" "opt \<in> set os"
    and now: "\<And>c c'. apply_option P opt c = Inr c' \<Longrightarrow> Q c'"
    and keep: "\<And>o2 c c'. component_name o2 \<noteq> component_name opt \<Longrightarrow> Q c \<Longrightarrow>
      apply_option P o2 c = Inr c' \<Longrightarrow> Q c'"
  shows "Q c'"
  using assms(1,2)
proof (induction os arbitrary: i c)
  case (Cons o2 os)
  then obtain c1 where c1: "apply_option P o2 c = Inr c1" "apply_options P (i + 1) (map Some os) c1 = Inr c'"
    by (auto simp: and_then_eq_Inr)
  show ?case
  proof (cases "opt \<in> set os")
    case True
    with Cons.IH [OF c1(2)] show ?thesis by simp
  next
    case False
    with Cons.prems(2) have o2: "o2 = opt" by simp
    from apply_options_distinct [OF c1(2)]
    have "set (map component_name os) \<inter> cfg_configured c1 = {}"
      by (metis map_injective option.inject inj_onI inj_map_eq_map)
    moreover have "component_name opt \<in> cfg_configured c1"
      using c1(1) o2 by (auto simp: apply_option_Inr dest: configure_configured)
    ultimately have others: "component_name o3 \<noteq> component_name opt" if "o3 \<in> set os" for o3
      using that by auto
    show ?thesis
      by (rule apply_options_invariant [where Q = Q, OF c1(2) now [OF c1(1) [unfolded o2]]])
        (use others keep in blast)
  qed
qed simp

lemma option_routes: "apply_option P (WithRoutes rs) c = Inr c' \<Longrightarrow> cfg_static_routes c' = rs"
  by (auto simp: apply_option_Inr option_defs)

lemma other_option_routes:
  "component_name opt \<noteq> ''routes'' \<Longrightarrow> apply_option P opt c = Inr c' \<Longrightarrow>
     cfg_static_routes c' = cfg_static_routes c"
  by (cases opt) (auto simp: apply_option_Inr option_defs Let_def and_then_eq_Inr split: if_splits)

lemma option_upstreams: "apply_option P (WithUpstreams us) c = Inr c' \<Longrightarrow> cfg_upstreams c' = us"
  by (auto simp: apply_option_Inr option_defs)

lemma other_option_upstreams:
  "component_name opt \<noteq> ''upstreams'' \<Longrightarrow> apply_option P opt c = Inr c' \<Longrightarrow>
     cfg_upstreams c' = cfg_upstreams c"
  by (cases opt) (auto simp: apply_option_Inr option_defs Let_def and_then_eq_Inr split: if_splits)

lemma extractor_with_authenticator:
  "apply_option P opt c = Inr c' \<Longrightarrow> cfg_authenticator c \<noteq> None \<longrightarrow> cfg_extractor c \<noteq> None \<Longrightarrow>
     cfg_authenticator c' \<noteq> None \<longrightarrow> cfg_extractor c' \<noteq> None"
  by (cases opt) (auto simp: apply_option_Inr option_defs Let_def and_then_eq_Inr split: if_splits)

section \<open>What a gateway that New returns has\<close>

lemma newGateway_Inr:
  assumes "newGateway P opts w = (Ret (Inr gw), w')"
  obtains os c where "opts = map Some os" "distinct (map component_name os)"
    "apply_options P 0 (map Some os) emptyConfig = Inr c" "build_gateway P c = Inr gw"
    "validateStaticUpstreams (pf_tables P) (cfg_static_routes c) (gw_upstreams gw) w = (Ret (Inr ()), w')"
proof -
  obtain c where c: "apply_options P 0 opts emptyConfig = Inr c" "build_gateway P c = Inr gw"
    "validateStaticUpstreams (pf_tables P) (cfg_static_routes c) (gw_upstreams gw) w = (Ret (Inr ()), w')"
    using assms
    by (auto simp: newGateway_def and_then_eq_Inr split: sum.splits prod.splits ext.splits)
  from apply_options_distinct [OF c(1)] obtain os where "opts = map Some os" "distinct (map component_name os)"
    by blast
  with c that show ?thesis by blast
qed

lemma static_routes_final:
  assumes "apply_options P 0 (map Some os) emptyConfig = Inr c" "WithRoutes rs \<in> set os"
  shows "cfg_static_routes c = rs"
  by (rule apply_options_establishes [OF assms]) (auto dest: option_routes other_option_routes)

lemma upstreams_final:
  assumes "apply_options P 0 (map Some os) emptyConfig = Inr c" "WithUpstreams us \<in> set os"
  shows "cfg_upstreams c = us"
  by (rule apply_options_establishes [OF assms]) (auto dest: option_upstreams other_option_upstreams)

lemma extractor_final:
  assumes "apply_options P 0 (map Some os) emptyConfig = Inr c"
  shows "cfg_authenticator c \<noteq> None \<longrightarrow> cfg_extractor c \<noteq> None"
  by (rule apply_options_invariant [OF assms]) (auto simp: emptyConfig_def dest: extractor_with_authenticator)

lemma build_gateway_Inr:
  assumes "build_gateway P c = Inr gw"
  shows "route_source P c = Inr (gw_routes gw)"
    "upstream_source P c (rid_header (gw_request_id gw)) = Inr (gw_upstreams gw)"
    "normalizeRequestIDConfig (pf_rand P) (cfg_request_id c) = Inr (gw_request_id gw)"
    "gw_authenticator gw = cfg_authenticator c"
    "containsProtectedRoute (cfg_static_routes c) \<Longrightarrow> gw_authenticator gw \<noteq> None"
    "cfg_upstreams c = [] \<or> cfg_upstream_resolver c = None"
  using assms by (auto simp: build_gateway_def and_then_eq_Inr)

text \<open>
  C9 \<open>New\<close> accepts only sound configurations: no option is nil and no component is configured twice;
  static routes compile to a table that answers every request by the best match, need an authenticator
  as soon as one of them is protected, and, with fixed upstreams, all name a declared one.
\<close>

theorem new_gateway_sound:
  assumes "newGateway P opts w = (Ret (Inr gw), w')" "Some (WithRoutes rs) \<in> set opts" "rs \<noteq> []"
  shows "None \<notin> set opts \<and> distinct (map (\<lambda>opt. component_name (the opt)) opts)
    \<and> (containsProtectedRoute rs \<longrightarrow> gw_authenticator gw \<noteq> None)
    \<and> (\<exists>rr. newStaticRouteResolver (pf_tables P) rs = Inr rr
         \<and> (\<forall>r w. gw_routes gw r w = (Ret (Inr (resolve (pf_tables P) rr (req_path r) (req_method r))), w)))
    \<and> (\<forall>us. Some (WithUpstreams us) \<in> set opts \<longrightarrow> us \<noteq> [] \<longrightarrow>
         (\<forall>r \<in> set rs. trim_space (route_upstream r) \<in> (\<lambda>u. trim_space (us_name u)) ` set us))"
proof (rule newGateway_Inr [OF assms(1)], goal_cases)
  case (1 os c)
  have "WithRoutes rs \<in> set os" using assms(2) 1(1) by auto
  note rs = static_routes_final [OF 1(3) this]
  note gw = build_gateway_Inr [OF 1(4)]
  have names: "map (\<lambda>opt. component_name (the opt)) opts = map component_name os"
    unfolding 1(1) by simp
  obtain rr where rr: "newStaticRouteResolver (pf_tables P) rs = Inr rr"
      "gw_routes gw = static_resolver (pf_tables P) rr"
    using gw(1) assms(3) rs by (auto simp: route_source_def and_then_eq_Inr split: if_splits)
  have declared: "trim_space (route_upstream r) \<in> (\<lambda>u. trim_space (us_name u)) ` set us"
    if us: "Some (WithUpstreams us) \<in> set opts" "us \<noteq> []" and r: "r \<in> set rs" for us r
  proof -
    have "WithUpstreams us \<in> set os" using us(1) 1(1) by auto
    note final = upstreams_final [OF 1(3) this]
    obtain proxies transport where proxies: "newReverseProxyResolver (pf_url_parse P) us = Inr proxies"
        "resolveUpstream proxies transport (rid_header (gw_request_id gw)) = gw_upstreams gw"
      using gw(2) us(2) final by (auto simp: upstream_source_def and_then_eq_Inr split: if_splits)
    obtain cr t where cr: "compileRoute (pf_tables P) r = Inr cr" "proxies (route_upstream (cr_route cr)) = Some t"
      using validateStaticUpstreams_fixed [OF 1(5) [unfolded proxies(2) [symmetric] rs] r] by blast
    have "route_upstream (cr_route cr) = trim_space (route_upstream r)"
      using compileRoute_fields [OF cr(1)] by simp
    with cr(2) have hit: "proxies (trim_space (route_upstream r)) \<noteq> None" by simp
    have "add_upstreams (pf_url_parse P) 0 Map.empty us = Inr proxies"
      using proxies(1) us(2) by (simp add: newReverseProxyResolver_def)
    from add_upstreams_ok [OF this] hit show ?thesis by force
  qed
  have distinct: "None \<notin> set opts \<and> distinct (map (\<lambda>opt. component_name (the opt)) opts)"
    using 1(1,2) unfolding names by auto
  have static: "\<forall>r w. gw_routes gw r w = (Ret (Inr (resolve (pf_tables P) rr (req_path r) (req_method r))), w)"
    by (simp add: rr(2) static_resolver_def)
  from distinct gw(5) rs rr(1) static declared show ?case by blast
qed

text \<open>Where there is an authenticator there is an extractor, so the nil one is never called.\<close>

lemma new_gateway_extractor:
  assumes "newGateway P opts w = (Ret (Inr gw), w')"
  shows "\<exists>c. apply_options P 0 opts emptyConfig = Inr c \<and> build_gateway P c = Inr gw
     \<and> (gw_authenticator gw \<noteq> None \<longrightarrow> cfg_extractor c \<noteq> None)"
proof (rule newGateway_Inr [OF assms(1)], goal_cases)
  case (1 os c)
  from extractor_final [OF 1(3)] build_gateway_Inr(4) [OF 1(4)] 1(1,3,4) show ?case by auto
qed

end
