(* ===== verification/GatewayExamples.thy ===== *)
theory GatewayExamples
  imports GatewayNew
begin

text \<open>
  A small gateway and a request it forwards, on which the theorems about \<open>serveHTTP\<close> are evaluated: a
  protected route, a bearer token, limiters and policies that allow, and an upstream that answers 200.
\<close>

definition demo_route :: route where
  "demo_route = \<lparr>route_name = ''o'', route_match = \<lparr>match_methods = [], match_exact = ''/orders'',
     match_prefix = ''''\<rparr>, route_upstream = ''o'', route_access = accessProtected, route_max_body = 10\<rparr>"

definition demo_identity :: identity where
  "demo_identity = \<lparr>id_user = ''a'', id_roles = [''admin'', ''dev''], id_attributes = None\<rparr>"

definition allow_all :: "unit limiter_fn" where
  "allow_all q w = (Ret (Inr \<lparr>rd_allowed = True, rd_remaining = 1, rd_retry_after = 0, rd_reason = ''''\<rparr>), w)"

definition permit_all :: "unit policy_fn" where
  "permit_all r c w = (Ret (Inr \<lparr>pd_allowed = True, pd_reason = ''''\<rparr>), w)"

definition demo_upstream :: "unit upstream_fn" where
  "demo_upstream rc r w = ((map UpstreamWrites [WriteHeader 200, WriteBody ''ok''], None), w)"

definition demo_gateway :: "unit gateway" where
  "demo_gateway =
     \<lparr>gw_routes = (\<lambda>r w. (Ret (Inr (Some demo_route)), w)),
      gw_upstreams = (\<lambda>route w. (Ret (Inr (Some demo_upstream)), w)),
      gw_authenticator = Some (\<lambda>token w. (Ret (Inr \<lparr>ad_authenticated = (token = ''s''),
        ad_identity = demo_identity, ad_reason = ''''\<rparr>), w)),
      gw_extractor = bearer_extractor, gw_authorizer = Some permit_all, gw_before_proxy = Some permit_all,
      gw_client_ip = (\<lambda>r w. (Ret (Inr ''9''), w)), gw_client_ip_limiter = Some allow_all,
      gw_user_limiter = Some allow_all, gw_upstream_limiter = Some allow_all,
      gw_responder = defaultErrorResponder,
      gw_request_id = \<lparr>rid_header = ''X-Request-ID'', rid_max_length = 128,
        rid_generate = Some (\<lambda>w. (Ret (Inr ''r''), w)), rid_trust_incoming = False\<rparr>,
      gw_cors = None, gw_access_logger = Some (\<lambda>l w. (Ret (Inr ()), w)), gw_observer = None,
      gw_health = None\<rparr>"

definition demo_request :: http_request where
  "demo_request = \<lparr>req_method = ''GET'', req_path = ''/orders'', req_raw_path = '''', req_raw_query = '''',
     req_header = [''Authorization'' \<mapsto> [''Bearer s''], ''X-User-Id'' \<mapsto> [''mallory'']],
     req_host = ''example.org'', req_tls = True, req_remote = ''192.0.2.7:4000'',
     req_content_length = 0, req_has_body = False, req_body_limit = None, ctx_request_id = None,
     ctx_route = None, ctx_identity = None, ctx_client_ip = None\<rparr>"

definition admitted :: "unit gateway \<Rightarrow> http_request \<Rightarrow> bool" where
  "admitted gw r = (case admit ascii_tables gw (entry 0 r ()) of
     Continue st (route, upstream, identity) \<Rightarrow> \<not> body_too_large route (st_req st)
   | Return st \<Rightarrow> False | Panicking st p \<Rightarrow> False)"

lemma admit_forwards:
  assumes "admit U gw (entry t0 r w) = Continue st (route, upstream, identity)" "\<not> body_too_large route (st_req st)"
  shows "CallUpstream (upstream_request route identity (st_req st)) \<in> set (st_calls (serveHTTP U gw t0 t1 r w))"
proof -
  from handled_admitted [OF assms(1)] assms(2) obtain tail where
    "rev (st_calls (handled U gw t0 r w)) = rev (CallUpstream (upstream_request route identity (st_req st)) # st_calls st) @ tail"
    by (auto simp: followed_def)
  moreover obtain tail' where "rev (st_calls (serveHTTP U gw t0 t1 r w)) = rev (st_calls (handled U gw t0 r w)) @ tail'"
    using followed_finish unfolding serveHTTP_def followed_def by blast
  ultimately have "CallUpstream (upstream_request route identity (st_req st)) \<in> set (rev (st_calls (serveHTTP U gw t0 t1 r w)))"
    by simp
  then show ?thesis by simp
qed

lemma admitted_forwarded:
  assumes "admitted gw r"
  obtains q where "CallUpstream q \<in> set (st_calls (serveHTTP ascii_tables gw 0 0 r ()))"
proof -
  obtain st route upstream identity where
    "admit ascii_tables gw (entry 0 r ()) = Continue st (route, upstream, identity)" "\<not> body_too_large route (st_req st)"
    using assms by (auto simp: admitted_def split: flow.splits)
  from that [OF admit_forwards [OF this]] show thesis .
qed

lemma demo_facts:
  "trim_space ''a'' = ''a''" "trim_space ''9'' = ''9''" "trim_space ''o'' = ''o''" "isSafeRequestID ''r'' 128"
  by (simp_all add: trim_space_visible isSafeRequestID_bytes)

lemma demo_keys:
  "canonical_key ''X-Request-ID'' = ''X-Request-Id''" "canonical_key ''Authorization'' = ''Authorization''"
  by code_simp+

lemma demo_token:
  "BearerCredential [''Authorization'' \<mapsto> [''Bearer s''], ''X-User-Id'' \<mapsto> [''mallory''],
     ''X-Request-Id'' \<mapsto> [''r'']] = Inr ''s''"
  by code_simp

lemma demo_route_normal: "normalizeResolvedRoute demo_route = Inr demo_route"
  by (simp add: normalizeResolvedRoute_def demo_route_def demo_facts accessProtected_def accessPublic_def Let_def)

lemma demo_user: "trim_space (id_user demo_identity) = ''a''"
  by (simp add: demo_identity_def demo_facts)

lemma demo_protected: "route_access demo_route \<noteq> accessPublic"
  by (simp add: demo_route_def accessProtected_def accessPublic_def)

lemma demo_admitted: "admitted demo_gateway demo_request"
proof -
  have "\<exists>st. admit ascii_tables demo_gateway (entry 0 demo_request ())
      = Continue st (demo_route, demo_upstream, Some demo_identity) \<and> \<not> req_has_body (st_req st)"
    by (simp add: admit_def demo_gateway_def entry_def demo_request_def resolveRequestID_def Let_def
        adoptedRequestID_def invoke_def generatedRequestID_def or_unavailable_def demo_facts assignRequestID_def
        set_header_def header_del_def header_set_def demo_keys apply_cors_def apply_health_def resolveRoute_def
        findUpstream_def resolveClientIP_def checkRoute_def checkUpstream_def checkClientIP_def demo_route_normal
        authorize_def applyRateLimit_def allow_all_def authenticate_def checkCredential_def acceptDecision_def
        bearer_extractor_def demo_token limitUser_def applyAuthorizer_def applyBeforeProxy_def permit_all_def
        demo_user demo_protected)
  then show ?thesis by (auto simp: admitted_def body_too_large_def)
qed

lemma demo_forwarded:
  obtains q where "CallUpstream q \<in> set (st_calls (serveHTTP ascii_tables demo_gateway 0 0 demo_request ()))"
  by (rule admitted_forwarded [OF demo_admitted])

section \<open>The theorems on the example\<close>

theorem forwarding_order_witness:
  "\<exists>q gen rid ip route cred identity tail.
     rev (st_calls (serveHTTP ascii_tables demo_gateway 0 0 demo_request ())) =
       admission_calls demo_gateway gen rid ip route cred identity @ CallUpstream q # tail
     \<and> list_all epilogue_call tail"
proof (rule demo_forwarded)
  fix q
  assume "CallUpstream q \<in> set (st_calls (serveHTTP ascii_tables demo_gateway 0 0 demo_request ()))"
  from forwarding_order [OF this] show ?thesis by blast
qed

theorem forwarded_identity_witness:
  "\<exists>q route. CallUpstream q \<in> set (st_calls (serveHTTP ascii_tables demo_gateway 0 0 demo_request ()))
     \<and> CallUpstreams route \<in> set (st_calls (serveHTTP ascii_tables demo_gateway 0 0 demo_request ()))
     \<and> (route_access route = accessPublic \<or> header_values (req_header q) headerXUserID = [''a''])"
proof (rule demo_forwarded)
  fix q
  assume q: "CallUpstream q \<in> set (st_calls (serveHTTP ascii_tables demo_gateway 0 0 demo_request ()))"
  from forwarded_identity [OF q] obtain route where route:
    "CallUpstreams route \<in> set (st_calls (serveHTTP ascii_tables demo_gateway 0 0 demo_request ()))"
    "if route_access route = accessPublic
     then header_values (req_header q) headerXUserID = [] \<and> header_values (req_header q) headerXUserRoles = []
     else \<exists>authenticator req c d s0 s1 s2. gw_authenticator demo_gateway = Some authenticator
       \<and> gw_extractor demo_gateway req s0 = (Ret (Inr c), s1) \<and> c \<noteq> ''''
       \<and> authenticator c s1 = (Ret (Inr d), s2) \<and> ad_authenticated d
       \<and> trim_space (id_user (ad_identity d)) \<noteq> ''''
       \<and> header_values (req_header q) headerXUserID = [id_user (ad_identity d)]
       \<and> header_values (req_header q) headerXUserRoles =
           (if id_roles (ad_identity d) = [] then [] else [join '','' (id_roles (ad_identity d))])"
    by blast
  have "route_access route = accessPublic \<or> header_values (req_header q) headerXUserID = [''a'']"
    using route(2) by (auto simp: demo_gateway_def demo_identity_def split: if_splits)
  with q route(1) show ?thesis by blast
qed

theorem forwarded_permitted_witness:
  "\<exists>route ip. CallUpstreams route \<in> set (st_calls (serveHTTP ascii_tables demo_gateway 0 0 demo_request ()))
     \<and> limiter_allows (gw_client_ip_limiter demo_gateway) (limit_request scopeClientIP ip route)
     \<and> limiter_allows (gw_upstream_limiter demo_gateway)
         (limit_request scopeUpstream (route_upstream route) route)"
proof (rule demo_forwarded)
  fix q
  assume "CallUpstream q \<in> set (st_calls (serveHTTP ascii_tables demo_gateway 0 0 demo_request ()))"
  from forwarded_permitted [OF this] show ?thesis by blast
qed

theorem forwarded_request_id_witness:
  "\<exists>q rid. CallUpstream q \<in> set (st_calls (serveHTTP ascii_tables demo_gateway 0 0 demo_request ()))
     \<and> header_values (req_header q) (rid_header (gw_request_id demo_gateway)) = [rid]"
proof (rule demo_forwarded)
  fix q
  assume q: "CallUpstream q \<in> set (st_calls (serveHTTP ascii_tables demo_gateway 0 0 demo_request ()))"
  have "canonical_key (rid_header (gw_request_id demo_gateway)) \<notin> {''X-User-Id'', ''X-User-Roles''}"
    by (simp add: demo_gateway_def demo_keys)
  from forwarded_request_id [OF q this] q show ?thesis by blast
qed

text \<open>The same gateway with no route: nothing is forwarded and the answer is an error.\<close>

definition demo_routeless :: "unit gateway" where
  "demo_routeless = demo_gateway\<lparr>gw_routes := (\<lambda>r w. (Ret (Inr None), w))\<rparr>"

lemma demo_routeless_refused: "admit ascii_tables demo_routeless (entry 0 demo_request ()) \<noteq> Continue st a"
  by (simp add: admit_def demo_routeless_def demo_gateway_def entry_def demo_request_def resolveRequestID_def
      Let_def adoptedRequestID_def invoke_def generatedRequestID_def or_unavailable_def demo_facts
      assignRequestID_def set_header_def apply_cors_def apply_health_def resolveRoute_def checkRoute_def
      refuse_def)

theorem not_forwarded_refused_witness:
  "refused (serveHTTP ascii_tables demo_routeless 0 0 demo_request ())
   \<or> locally_answered (serveHTTP ascii_tables demo_routeless 0 0 demo_request ())
   \<or> al_error_code (st_log (serveHTTP ascii_tables demo_routeless 0 0 demo_request ()))
       = ''upstream_stream_aborted''"
proof (rule not_forwarded_refused)
  show "gw_responder demo_routeless = defaultErrorResponder"
    by (simp add: demo_routeless_def demo_gateway_def)
  show "CallUpstream q \<notin> set (st_calls (serveHTTP ascii_tables demo_routeless 0 0 demo_request ()))" for q
    by (rule refused_not_forwarded) (rule demo_routeless_refused)
qed

text \<open>A configuration that \<open>New\<close> accepts.\<close>

definition demo_platform :: "unit platform" where
  "demo_platform = \<lparr>pf_tables = ascii_tables,
     pf_netip = \<lparr>parse_addr = (\<lambda>s. None), parse_prefix = (\<lambda>s. None), addr_string = (\<lambda>a. ''''),
                 parse_ip = (\<lambda>s. False)\<rparr>,
     pf_url_parse = (\<lambda>s. Some \<lparr>url_scheme = ''http'', url_has_user = False, url_host = s, url_path = '''', url_raw_path = '''',
                               url_raw_query = '''', url_fragment = ''''\<rparr>),
     pf_rand = (\<lambda>w. (Inr ''0123456789abcdef'', w)),
     pf_transport = (\<lambda>settings q w. (([], TransportResponse 200 [] [] True), w)),
     pf_slog = (\<lambda>l w. (Ret (Inr ()), w))\<rparr>"

definition demo_options :: "unit gw_option option list" where
  "demo_options =
     [Some (WithUpstreams [\<lparr>us_name = ''o'', us_url = ''h''\<rparr>]), Some (WithRoutes [demo_route]),
      Some (WithAuthenticator (Some (gw_authenticator demo_gateway)) [])]"

lemma demo_trim:
  "trim_space ''h'' = ''h''" "trim_space ''/orders'' = ''/orders''" "trim_space '''' = ''''"
  "trim_space ''X-Request-ID'' = ''X-Request-ID''" "trim_space ''s'' = ''s''"
  by (simp_all add: trim_space_visible)

lemma demo_compiled:
  "\<exists>c. compileRoute ascii_tables demo_route = Inr c \<and> route_upstream (cr_route c) = ''o''"
  "\<exists>rr. newStaticRouteResolver ascii_tables [demo_route] = Inr rr"
  by (simp_all add: newStaticRouteResolver_def compileRoute_def demo_route_def demo_facts demo_trim Let_def
      accessPublic_def accessProtected_def)

lemma demo_token_name: "isHTTPToken ''X-Request-ID''"
  by (simp add: isHTTPToken_iff token_byte_def)

lemma demo_accepted: "\<exists>gw. newGateway demo_platform demo_options () = (Ret (Inr gw), ())"
proof -
  obtain c where c: "compileRoute ascii_tables demo_route = Inr c" "route_upstream (cr_route c) = ''o''"
    using demo_compiled(1) by blast
  obtain rr where rr: "newStaticRouteResolver ascii_tables [demo_route] = Inr rr"
    using demo_compiled(2) by blast
  show ?thesis
    by (simp add: newGateway_def option_defs demo_options_def demo_platform_def apply_option_def emptyConfig_def
        isNilInterface_def interface_value_def Let_def demo_gateway_def build_gateway_def route_source_def
        upstream_source_def normalizeRequestIDConfig_def headerXRequestID_def defaultRequestIDMaxLength_def
        newCORSPolicy_def newHealthPolicy_def demo_token_name demo_trim newReverseProxyResolver_def demo_facts
        containsProtectedRoute_def rr c resolveUpstream_def)
qed

theorem new_gateway_sound_witness:
  "\<exists>gw. newGateway demo_platform demo_options () = (Ret (Inr gw), ()) \<and> None \<notin> set demo_options
     \<and> gw_authenticator gw \<noteq> None"
proof -
  obtain gw where gw: "newGateway demo_platform demo_options () = (Ret (Inr gw), ())"
    using demo_accepted by blast
  have "Some (WithRoutes [demo_route]) \<in> set demo_options" by (simp add: demo_options_def)
  from new_gateway_sound [OF gw this] gw show ?thesis
    by (auto simp: containsProtectedRoute_def demo_route_def)
qed

section \<open>The theorems about single components\<close>

theorem route_resolution_witness:
  "\<exists>rr. newStaticRouteResolver ascii_tables [demo_route] = Inr rr \<and>
     (resolve ascii_tables rr ''/orders'' ''GET'' = None
      \<or> (\<exists>c. c \<in> set (compiled_table ascii_tables [demo_route]) \<and> covers ascii_tables c ''/orders'' ''GET''))"
proof -
  obtain rr where rr: "newStaticRouteResolver ascii_tables [demo_route] = Inr rr"
    using demo_compiled(2) by blast
  from route_resolution [OF rr, of "''/orders''" "''GET''"] rr show ?thesis
    by (auto split: option.splits)
qed

definition demo_prefix_route :: route where
  "demo_prefix_route = demo_route\<lparr>route_match := \<lparr>match_methods = [], match_exact = '''', match_prefix = ''/orders''\<rparr>\<rparr>"

lemma demo_two_compiled: "\<exists>rr. newStaticRouteResolver ascii_tables [demo_route, demo_prefix_route] = Inr rr"
  by (simp add: newStaticRouteResolver_def compileRoute_def demo_route_def demo_prefix_route_def demo_facts
      demo_trim Let_def accessPublic_def accessProtected_def routeMatchKey_def sortedKeys_def)

theorem route_table_unambiguous_witness:
  "(let t = compiled_table ascii_tables [demo_route, demo_prefix_route] in
     (exact_of (t ! 0), prefix_of (t ! 0), cr_methods (t ! 0))
       \<noteq> (exact_of (t ! 1), prefix_of (t ! 1), cr_methods (t ! 1)))"
proof -
  obtain rr where "newStaticRouteResolver ascii_tables [demo_route, demo_prefix_route] = Inr rr"
    using demo_two_compiled by blast
  from route_table_unambiguous [OF this, of 0 1] show ?thesis by simp
qed

definition demo_cors :: cors_config where
  "demo_cors = \<lparr>cc_origins = [''*''], cc_methods = [''GET''], cc_headers = [''X''], cc_credentials = False,
     cc_max_age = 0\<rparr>"

definition demo_cors_request :: "unit st" where
  "demo_cors_request = entry 0 (demo_request\<lparr>req_header := [''Origin'' \<mapsto> [''o'']]\<rparr>) ()"

lemma demo_cors_facts:
  "trim_space ''*'' = ''*''" "trim_space ''GET'' = ''GET''" "trim_space ''X'' = ''X''"
  "to_upper ascii_tables ''GET'' = ''GET''" "canonical_key ''X'' = ''X''" "isHTTPToken ''GET''" "isHTTPToken ''X''"
  "canonical_key ''Origin'' = ''Origin''"
  by (simp_all add: trim_space_visible to_upper_ascii is_ascii_def ascii_upper_def ascii_lower_def
      isHTTPToken_iff token_byte_def canonical_key_def Let_def)

lemma demo_cors_policy:
  "\<exists>p. newCORSPolicy (\<lambda>s. None) ascii_tables (Some demo_cors) = Inr (Some p)
     \<and> cp_wildcard p \<and> cp_methods p = {''GET''}"
  by (simp add: newCORSPolicy_def demo_cors_def demo_cors_facts Let_def)

theorem cors_origin_respected_witness:
  "\<exists>p st' u. cors_handle ascii_tables p demo_gateway demo_cors_request = Continue st' u
     \<and> header_values (rec_header (st_rec st')) ''Access-Control-Allow-Origin'' = [''*'']"
proof -
  obtain p where p: "newCORSPolicy (\<lambda>s. None) ascii_tables (Some demo_cors) = Inr (Some p)"
      "cp_wildcard p" "cp_methods p = {''GET''}"
    using demo_cors_policy by blast
  have origin: "trim_space (header_get (req_header (st_req demo_cors_request)) ''Origin'') = ''o''"
    by (simp add: demo_cors_request_def entry_def header_get_def header_values_def demo_cors_facts demo_facts)
  obtain st' u where handled: "cors_handle ascii_tables p demo_gateway demo_cors_request = Continue st' u"
    using p origin
    by (simp add: cors_handle_Continue Let_def demo_cors_request_def entry_def demo_request_def del: apply_ops.simps)
  from cors_origin_respected [OF p(1) handled] origin p(2) handled show ?thesis by auto
qed

definition demo_netip :: netip where
  "demo_netip = \<lparr>parse_addr = (\<lambda>s. if s = ''p'' then Some (Addr4 1) else if s = ''o'' then Some (Addr4 2) else None),
     parse_prefix = (\<lambda>s. None), addr_string = (\<lambda>a. if a = Addr4 2 then ''o'' else ''p''), parse_ip = (\<lambda>s. False)\<rparr>"

definition demo_forwarded_request :: http_request where
  "demo_forwarded_request = demo_request\<lparr>req_remote := ''p'', req_header := [''X-Forwarded-For'' \<mapsto> [''o'']]\<rparr>"

theorem client_ip_resolution_witness:
  "trustedProxyResolve demo_netip [\<lparr>prefix_addr = Addr4 1, prefix_bits = 32\<rparr>] demo_forwarded_request = Inr ''o''"
proof -
  let ?ps = "[\<lparr>prefix_addr = Addr4 1, prefix_bits = 32\<rparr>]"
  have trims: "trim_space ''p'' = ''p''" "trim_space ''o'' = ''o''" by (simp_all add: trim_space_visible)
  have peer: "parseRemoteAddr demo_netip (req_remote demo_forwarded_request) = Inr (Addr4 1)"
    by (simp add: parseRemoteAddr_def demo_netip_def demo_forwarded_request_def trims split_host_port_def
        last_index_of_def unmap_def)
  have trusts: "trusted ?ps (Addr4 1)" "\<not> trusted ?ps (Addr4 2)" by (simp_all add: trusted_def)
  have line: "header_get (req_header demo_forwarded_request) ''X-Forwarded-For'' = ''o''"
    by (simp add: demo_forwarded_request_def header_get_def header_values_def)
  have first: "first_line (req_header demo_forwarded_request) ''X-Forwarded-For'' = ''o''"
    by (simp add: line trims flip: first_line)
  have "map (entry_address demo_netip) (split_on (CHR '','') ''o'') = map Some ([] @ Addr4 2 # [])"
    by (simp add: entry_address_def demo_netip_def trims unmap_def)
  moreover have "''o'' = addr_string demo_netip (Addr4 2)" by (simp add: demo_netip_def)
  ultimately show ?thesis
    unfolding client_ip_resolution first Let_def using peer trusts
    by (intro exI [of _ "Addr4 1"] exI [of _ "Addr4 2"]) (auto intro!: exI [of _ "[]"])
qed

definition demo_target :: url where
  "demo_target = \<lparr>url_scheme = ''http'', url_has_user = False, url_host = ''h'', url_path = '''', url_raw_path = '''',
     url_raw_query = '''', url_fragment = ''''\<rparr>"

text \<open>A target with a path and a query, and a request whose path encodes a slash and whose query has a semicolon.\<close>

definition demo_api :: url where
  "demo_api = demo_target\<lparr>url_path := ''/v1/'', url_raw_query := ''k=1''\<rparr>"

definition demo_encoded_request :: http_request where
  "demo_encoded_request = demo_request\<lparr>req_path := ''/a/b'', req_raw_path := ''/a%2Fb'', req_raw_query := ''k=2&x;y&k=3''\<rparr>"

theorem proxy_url_exact_witness:
  "fst (cut_at (CHR ''?'') (request_uri (out_url (proxy_request demo_api ''X'' demo_encoded_request)))) = ''/v1/a%2Fb''
   \<and> values_named ''k'' (parse_query (url_raw_query (out_url (proxy_request demo_api ''X'' demo_encoded_request)))) = [''1'', ''2'', ''3'']"
proof -
  have "singleJoiningSlash (sent_path (url_path demo_api) (url_raw_path demo_api))
      (sent_path (req_path demo_encoded_request) (req_raw_path demo_encoded_request)) = ''/v1/a%2Fb''"
  proof -
    have "sent_path ''/v1/'' '''' = ''/v1/''" "sent_path ''/a/b'' ''/a%2Fb'' = ''/a%2Fb''"
      "singleJoiningSlash ''/v1/'' ''/a%2Fb'' = ''/v1/a%2Fb''" by code_simp+
    then show ?thesis by (simp add: demo_api_def demo_target_def demo_encoded_request_def)
  qed
  moreover have "values_named ''k'' (parse_query ''k=1'') @ values_named ''k'' (parse_query ''k=2&x;y&k=3'') = [''1'', ''2'', ''3'']"
    by code_simp
  ultimately show ?thesis
    using proxy_url_exact [of demo_api demo_encoded_request "''X''" "''k''"]
    by (simp add: Let_def demo_api_def demo_target_def demo_encoded_request_def)
qed

theorem protocol_switch_agreed_witness:
  "ascii_printable (upgrade_type [''Connection'' \<mapsto> [''keep-alive, upgrade''], ''Upgrade'' \<mapsto> [''websocket'']])"
proof -
  let ?r = "demo_request\<lparr>req_header := [''Connection'' \<mapsto> [''keep-alive, upgrade''], ''Upgrade'' \<mapsto> [''websocket'']]\<rparr>"
  let ?t = "\<lambda>q w. (([], TransportSwitches [(''Connection'', [''Upgrade'']), (''Upgrade'', [''WebSocket''])] (HijackSucceeds None)), w)"
  have x: "canonical_key ''X'' = ''X''" by code_simp
  have asked: "upgrade_type (req_header ?r) = ''websocket''" by (simp, code_simp)
  have up: "ascii_printable ''websocket''" "ascii_printable ''WebSocket''"
    "upgrade_type (map_of [(''Connection'', [''Upgrade'']), (''Upgrade'', [''WebSocket''])]) = ''WebSocket''"
    "equal_fold_ascii ''websocket'' ''WebSocket''"
    by code_simp+
  obtain ops ended w' where run: "newReverseProxy demo_target ?t ''X'' newResponseRecorder ?r () = ((ops, ended), w')"
    "UpstreamWrites (Hijack 101) \<in> set ops"
    using up asked x outgoing_upgrade [of "''X''" demo_target ?r]
    by (simp add: newReverseProxy_def handleUpgradeResponse_def Let_def)
  show ?thesis using protocol_switch_agreed [OF run] x by simp
qed

theorem switch_recorded_as_ok_witness:
  "rec_status (apply_ops (copy_header [] @ [Hijack 101]) newResponseRecorder) = 200"
  using switch_recorded_as_ok [OF _ recorder_ok_new, of "[]"] by (simp add: newResponseRecorder_def Let_def)

theorem proxy_forwards_resolved_witness:
  "header_values (req_header (out_request (proxy_request demo_target ''X-Request-ID''
     (demo_request\<lparr>ctx_request_id := Some ''r'', ctx_client_ip := Some ''9''\<rparr>)))) ''X-Request-ID'' = [''r'']"
  using proxy_forwards_resolved [of "demo_request\<lparr>ctx_request_id := Some ''r'', ctx_client_ip := Some ''9''\<rparr>"
      "''r''" "''9''" "''X-Request-ID''" demo_target]
  by (simp add: demo_keys)

section \<open>The theorems about unintended behaviour\<close>

definition demo_aborting :: "unit gateway" where
  "demo_aborting = demo_gateway\<lparr>gw_routes := (\<lambda>r w. (Panics AbortHandler, w))\<rparr>"

lemma demo_aborting_run:
  "\<exists>st. run ascii_tables demo_aborting (entry 0 demo_request ()) = Panicking st AbortHandler"
  by (simp add: run_def admit_def demo_aborting_def demo_gateway_def entry_def demo_request_def
      resolveRequestID_def Let_def adoptedRequestID_def invoke_def generatedRequestID_def or_unavailable_def
      demo_facts assignRequestID_def set_header_def apply_cors_def apply_health_def resolveRoute_def)

theorem abort_swallowed_witness:
  "al_error_code (st_log (serveHTTP ascii_tables demo_aborting 0 0 demo_request ())) = ''upstream_stream_aborted''"
proof -
  obtain st where "run ascii_tables demo_aborting (entry 0 demo_request ()) = Panicking st AbortHandler"
    using demo_aborting_run by blast
  from abort_swallowed [OF this] show ?thesis by blast
qed

definition demo_short_ids :: "unit request_id_config" where
  "demo_short_ids = \<lparr>rid_header = ''X'', rid_max_length = 16,
     rid_generate = Some (generateRequestID (\<lambda>w. (Inr (replicate 16 (CHR ''a'')), w))), rid_trust_incoming = False\<rparr>"

theorem generated_id_short_bound_witness:
  "\<exists>e w'. generatedRequestID demo_short_ids () = (Ret (Inl e), w')"
  by (rule generated_id_short_bound [where rand = "\<lambda>w. (Inr (replicate 16 (CHR ''a'')), w)"])
    (simp_all add: demo_short_ids_def)

theorem forwarded_first_line_only_witness:
  "trustedProxyResolve demo_netip [] (demo_request\<lparr>req_header := [''X-Forwarded-For'' \<mapsto> [''o'', ''p'']]\<rparr>)
   = trustedProxyResolve demo_netip [] (demo_request\<lparr>req_header := [''X-Forwarded-For'' \<mapsto> [''o'']]\<rparr>)"
proof -
  have real: "canonical_key ''X-Real-IP'' = ''X-Real-Ip''" by code_simp
  have "trustedProxyResolve demo_netip []
      ((demo_request\<lparr>req_header := [''X-Forwarded-For'' \<mapsto> [''o'']]\<rparr>)\<lparr>req_header := [''X-Forwarded-For'' \<mapsto> [''o'', ''p'']]\<rparr>)
    = trustedProxyResolve demo_netip [] (demo_request\<lparr>req_header := [''X-Forwarded-For'' \<mapsto> [''o'']]\<rparr>)"
    by (rule forwarded_first_line_only [where v = "''o''" and vs = "[]" and ws = "[''p'']"])
      (simp_all add: header_get_def header_values_def real)
  then show ?thesis by simp
qed

theorem proxy_request_field_witness:
  "header_values (req_header (out_request (proxy_request demo_target ''X-Request-ID''
     (demo_request\<lparr>req_header := [''Connection'' \<mapsto> [''X-User-ID''], ''X-User-Id'' \<mapsto> [''a'']]\<rparr>)))) ''X-User-ID'' = []"
proof -
  let ?h = "[''Connection'' \<mapsto> [''X-User-ID''], ''X-User-Id'' \<mapsto> [''a'']]"
  have keys: "canonical_key ''X-User-ID'' = ''X-User-Id''" "canonical_key ''Connection'' = ''Connection''"
    by code_simp+
  have "connection_tokens ?h = [''X-User-ID'']"
    by (simp add: connection_tokens_def header_values_def keys trim_ascii_space_def Let_def)
  moreover have "canonical_key ''X-User-ID'' \<notin> canonical_key ` set (''X-Request-ID'' # rewritten_fields)"
    by (simp add: keys demo_keys rewritten_fields_def forwarding_fields_def)
  ultimately show ?thesis
    using proxy_request_field [of "''X-User-ID''" "''X-Request-ID''" demo_target "demo_request\<lparr>req_header := ?h\<rparr>"]
    by (simp add: keys)
qed

theorem interim_status_recorded_witness:
  "rec_status (apply_ops (interim_writes [(103, [])] @ copy_header [] @ [WriteHeader 500] @ map WriteBody [])
     newResponseRecorder) = 103"
  using interim_status_recorded [of 103 newResponseRecorder "[]" "[]" 500 "[]"]
  by (simp add: informational_def newResponseRecorder_def Let_def)

end
