(* ===== verification/Base64.thy ===== *)
theory Base64
  imports GoStrings
begin

text \<open>
  \<open>base64.RawURLEncoding\<close> of the standard library as the session store uses it: \<open>EncodeToString\<close>,
  and \<open>DecodeString\<close>, which skips line breaks and does not check the unused bits of the last digit.
\<close>

definition b64_char :: "nat \<Rightarrow> char" where
  "b64_char n = (if n < 26 then char_of (65 + n) else if n < 52 then char_of (71 + n)
     else if n < 62 then char_of (n - 4) else if n = 62 then CHR ''-'' else CHR ''_'')"

definition b64_digit :: "char \<Rightarrow> nat option" where
  "b64_digit c = (let b = byte c in
     if 65 \<le> b \<and> b \<le> 90 then Some (b - 65) else if 97 \<le> b \<and> b \<le> 122 then Some (b - 71)
     else if 48 \<le> b \<and> b \<le> 57 then Some (b + 4) else if b = 45 then Some 62
     else if b = 95 then Some 63 else None)"

fun b64_encode :: "string \<Rightarrow> string" where
  "b64_encode [] = []"
| "b64_encode [a] = [b64_char (byte a div 4), b64_char (byte a mod 4 * 16)]"
| "b64_encode [a, b] = [b64_char (byte a div 4), b64_char (byte a mod 4 * 16 + byte b div 16),
     b64_char (byte b mod 16 * 4)]"
| "b64_encode (a # b # c # s) = b64_char (byte a div 4) # b64_char (byte a mod 4 * 16 + byte b div 16)
     # b64_char (byte b mod 16 * 4 + byte c div 64) # b64_char (byte c mod 64) # b64_encode s"

fun b64_quanta :: "nat list \<Rightarrow> string option" where
  "b64_quanta [] = Some []"
| "b64_quanta [w] = None"
| "b64_quanta [w, x] = Some [char_of (w * 4 + x div 16)]"
| "b64_quanta [w, x, y] = Some [char_of (w * 4 + x div 16), char_of (x mod 16 * 16 + y div 4)]"
| "b64_quanta (w # x # y # z # ds) = map_option
     (\<lambda>s. char_of (w * 4 + x div 16) # char_of (x mod 16 * 16 + y div 4) # char_of (y mod 4 * 64 + z) # s)
     (b64_quanta ds)"

definition line_break :: "char \<Rightarrow> bool" where
  "line_break c \<longleftrightarrow> byte c = 10 \<or> byte c = 13"

definition b64_decode :: "string \<Rightarrow> string option" where
  "b64_decode s = (let ds = map b64_digit (filter (\<lambda>c. \<not> line_break c) s) in
     if None \<in> set ds then None else b64_quanta (map the ds))"

section \<open>Decoding undoes encoding\<close>

lemma b64_digit_char [simp]: "n < 64 \<Longrightarrow> b64_digit (b64_char n) = Some n"
  by (auto simp: b64_digit_def b64_char_def Let_def)

lemma b64_char_no_break [simp]: "n < 64 \<Longrightarrow> \<not> line_break (b64_char n)"
  by (auto simp: line_break_def b64_char_def)

lemma sextets [simp]:
  "byte a div 4 < 64" "byte a mod 4 * 16 < 64" "byte a mod 4 * 16 + byte b div 16 < 64"
  "byte b mod 16 * 4 < 64" "byte b mod 16 * 4 + byte c div 64 < 64" "byte c mod 64 < 64"
  using byte_less_256 [of a] byte_less_256 [of b] byte_less_256 [of c] by linarith+

lemma octets:
  "byte a div 4 * 4 + byte a mod 4 * 16 div 16 = byte a"
  "byte a div 4 * 4 + (byte a mod 4 * 16 + byte b div 16) div 16 = byte a"
  "(byte a mod 4 * 16 + byte b div 16) mod 16 * 16 + byte b mod 16 * 4 div 4 = byte b"
  "(byte a mod 4 * 16 + byte b div 16) mod 16 * 16 + (byte b mod 16 * 4 + byte c div 64) div 4 = byte b"
  "(byte b mod 16 * 4 + byte c div 64) mod 4 * 64 + byte c mod 64 = byte c"
proof -
  have b: "byte b div 16 < 16" and c: "byte c div 64 < 4"
    using byte_less_256 [of b] byte_less_256 [of c] by linarith+
  show "byte a div 4 * 4 + byte a mod 4 * 16 div 16 = byte a" by simp
  show "byte a div 4 * 4 + (byte a mod 4 * 16 + byte b div 16) div 16 = byte a" using b by simp
  have m: "(byte a mod 4 * 16 + byte b div 16) mod 16 = byte b div 16" using b by simp
  show "(byte a mod 4 * 16 + byte b div 16) mod 16 * 16 + byte b mod 16 * 4 div 4 = byte b"
    unfolding m by simp
  have d: "(byte b mod 16 * 4 + byte c div 64) div 4 = byte b mod 16" using c by simp
  show "(byte a mod 4 * 16 + byte b div 16) mod 16 * 16 + (byte b mod 16 * 4 + byte c div 64) div 4 = byte b"
    unfolding m d by simp
  have e: "(byte b mod 16 * 4 + byte c div 64) mod 4 = byte c div 64" using c by (simp add: mod_add_eq mod_mult_left_eq mult.commute)
  show "(byte b mod 16 * 4 + byte c div 64) mod 4 * 64 + byte c mod 64 = byte c" unfolding e by simp
qed

lemma b64_encode_chars: "\<forall>c \<in> set (b64_encode s). \<exists>n < 64. c = b64_char n"
  by (induction s rule: b64_encode.induct) (auto intro: sextets)

lemma b64_quanta_encode: "b64_quanta (map (the \<circ> b64_digit) (b64_encode s)) = Some s"
  by (induction s rule: b64_encode.induct) (simp_all only: b64_encode.simps list.map comp_apply
      b64_digit_char sextets option.sel b64_quanta.simps octets option.map char_of_char)

theorem b64_decode_encode: "b64_decode (b64_encode s) = Some s"
proof -
  have f: "filter (\<lambda>c. \<not> line_break c) (b64_encode s) = b64_encode s"
    using b64_encode_chars [of s] by (auto simp: filter_id_conv)
  have "None \<notin> set (map b64_digit (b64_encode s))"
    using b64_encode_chars [of s] by force
  then show ?thesis using b64_quanta_encode [of s] by (simp add: b64_decode_def Let_def f)
qed

lemma length_b64_encode_32: "length s = 32 \<Longrightarrow> length (b64_encode s) = 43"
proof -
  have "length (b64_encode s) = (length s * 4 + 2) div 3"
    by (induction s rule: b64_encode.induct) auto
  then show "length s = 32 \<Longrightarrow> length (b64_encode s) = 43" by simp
qed

end
