(* ===== verification/SessionKey.thy ===== *)
theory SessionKey
  imports GoStrings
begin

text \<open>
  The keys of the session store, \<open>sdk/go/gateway/sessionauth/key.go\<close>: \<open>NewKeyBuilder\<close> and the methods
  of \<open>KeyBuilder\<close>. Keys of different scopes, kinds or identifiers are different.
\<close>

record key_builder =
  kb_separator :: string

definition separator_byte :: "char \<Rightarrow> bool" where
  "separator_byte c \<longleftrightarrow> \<not> (byte c < 33 \<or> byte c > 126 \<or> c = CHR ''%'' \<or> c = CHR ''{'' \<or> c = CHR ''}''
     \<or> 97 \<le> byte c \<and> byte c \<le> 122 \<or> 65 \<le> byte c \<and> byte c \<le> 90 \<or> 48 \<le> byte c \<and> byte c \<le> 57)"

definition separator_rune :: "nat \<Rightarrow> bool" where
  "separator_rune r \<longleftrightarrow> \<not> (r < 33 \<or> r > 126 \<or> r = 37 \<or> r = 123 \<or> r = 125
     \<or> 97 \<le> r \<and> r \<le> 122 \<or> 65 \<le> r \<and> r \<le> 90 \<or> 48 \<le> r \<and> r \<le> 57)"

text \<open>The loop of \<open>NewKeyBuilder\<close> runs over the runes of the separator.\<close>

definition newKeyBuilder :: "string \<Rightarrow> key_builder result" where
  "newKeyBuilder configured =
     (let separator = (if configured = [] then '':'' else configured) in
      if list_ex (\<lambda>(r, w). \<not> separator_rune r) (runes separator)
      then Inl (Plain ''invalid session key separator'')
      else Inr \<lparr>kb_separator = separator\<rparr>)"

definition delimiter :: "key_builder \<Rightarrow> string" where
  "delimiter b = (if kb_separator b = [] then '':'' else kb_separator b)"

definition upper_hex :: "nat \<Rightarrow> char" where
  "upper_hex n = (if n < 10 then char_of (48 + n) else char_of (55 + n))"

definition must_escape :: "string \<Rightarrow> char \<Rightarrow> bool" where
  "must_escape separator c \<longleftrightarrow> byte c \<le> 32 \<or> byte c \<ge> 127 \<or> c = CHR ''%'' \<or> c = CHR ''{'' \<or> c = CHR ''}''
     \<or> c \<in> set separator"

fun escape_with :: "string \<Rightarrow> string \<Rightarrow> string" where
  "escape_with separator [] = []"
| "escape_with separator (c # s) =
     (if must_escape separator c
      then CHR ''%'' # upper_hex (byte c div 16) # upper_hex (byte c mod 16) # escape_with separator s
      else c # escape_with separator s)"

definition escape :: "key_builder \<Rightarrow> string \<Rightarrow> string" where
  "escape b value = escape_with (delimiter b) value"

definition key_prefix :: "key_builder \<Rightarrow> string \<Rightarrow> string \<Rightarrow> string" where
  "key_prefix b scope kind = escape b scope @ delimiter b @ kind @ delimiter b"

definition key :: "key_builder \<Rightarrow> string \<Rightarrow> string \<Rightarrow> string \<Rightarrow> string result" where
  "key b scope kind i =
     (if scope = [] \<or> i = [] then Inl (Plain ''session key scope and ID are required'')
      else Inr (key_prefix b scope kind @ escape b i))"

definition sessionKey :: "key_builder \<Rightarrow> string \<Rightarrow> string \<Rightarrow> string result" where
  "sessionKey b project_scope session_id = key b project_scope ''session'' session_id"

definition userSessionsKey :: "key_builder \<Rightarrow> string \<Rightarrow> string \<Rightarrow> string result" where
  "userSessionsKey b project_scope user_id = key b project_scope ''user_sessions'' user_id"

section \<open>Escaping is reversible\<close>

definition hex_value :: "char \<Rightarrow> nat" where
  "hex_value c = (if byte c < 58 then byte c - 48 else byte c - 55)"

fun unescape :: "string \<Rightarrow> string" where
  "unescape (c # h # l # s) =
     (if c = CHR ''%'' then char_of (hex_value h * 16 + hex_value l) # unescape s
      else c # unescape (h # l # s))"
| "unescape s = s"

lemma hex_value_upper_hex: "n < 16 \<Longrightarrow> hex_value (upper_hex n) = n"
  by (auto simp: hex_value_def upper_hex_def)

lemma unescape_plain: "c \<noteq> CHR ''%'' \<Longrightarrow> unescape (c # s) = c # unescape s"
  by (cases s rule: unescape.cases) auto

lemma nibbles: "byte c div 16 < 16" "byte c mod 16 < 16" "byte c div 16 * 16 + byte c mod 16 = byte c"
  using byte_less_256 [of c] by (linarith, simp, simp)

lemma unescape_escape [simp]: "unescape (escape_with separator s) = s"
proof (induction s)
  case (Cons c s)
  show ?case
  proof (cases "must_escape separator c")
    case True
    then show ?thesis
      by (simp only: escape_with.simps if_True unescape.simps simp_thms hex_value_upper_hex nibbles Cons) simp
  next
    case False
    then have "c \<noteq> CHR ''%''" by (auto simp: must_escape_def)
    with False Cons show ?thesis by (simp add: unescape_plain)
  qed
qed simp

lemma escape_with_inject: "escape_with separator s = escape_with separator t \<Longrightarrow> s = t"
  by (metis unescape_escape)

section \<open>No separator in an escaped text\<close>

definition separator_ok :: "string \<Rightarrow> bool" where
  "separator_ok separator \<longleftrightarrow> separator \<noteq> [] \<and> (\<forall>c \<in> set separator. separator_byte c)"

lemma separator_byte_rune: "separator_rune (byte c) \<Longrightarrow> separator_byte c"
proof -
  have "byte (CHR ''%'') = 37" "byte (CHR ''{'') = 123" "byte (CHR ''}'') = 125" by simp_all
  then show "separator_rune (byte c) \<Longrightarrow> separator_byte c"
    by (auto simp: separator_rune_def separator_byte_def)
qed

lemma separator_runes_ok:
  assumes r: "\<forall>(r, w) \<in> set (runes s). separator_rune r" and "s \<noteq> []"
  shows "separator_ok s"
proof -
  have "\<forall>(r, w) \<in> set (runes s). 33 \<le> r \<and> r \<le> 126"
    using r by (fastforce simp: separator_rune_def)
  then have "\<forall>c \<in> set s. 33 \<le> byte c \<and> byte c \<le> 126"
    by (rule runes_all_small) simp
  then have "is_ascii s" by (force simp: is_ascii_def)
  then have "\<forall>c \<in> set s. separator_rune (byte c)"
    using r by (auto simp: runes_ascii)
  with assms(2) separator_byte_rune show ?thesis by (auto simp: separator_ok_def)
qed

lemma newKeyBuilder_ok:
  assumes "newKeyBuilder configured = Inr b"
  shows "separator_ok (delimiter b)"
proof -
  define s where "s = (if configured = [] then '':'' else configured)"
  have "\<forall>(r, w) \<in> set (runes s). separator_rune r" and b: "kb_separator b = s"
    using assms unfolding newKeyBuilder_def Let_def s_def [symmetric]
    by (auto simp: list_ex_iff split: if_splits)
  moreover have "s \<noteq> []" by (simp add: s_def)
  ultimately show ?thesis using separator_runes_ok by (simp add: delimiter_def)
qed

lemma upper_hex_range: "n < 16 \<Longrightarrow> 48 \<le> byte (upper_hex n) \<and> byte (upper_hex n) \<le> 57
    \<or> 65 \<le> byte (upper_hex n) \<and> byte (upper_hex n) \<le> 70"
  by (auto simp: upper_hex_def)

lemma upper_hex_not_separator: "n < 16 \<Longrightarrow> separator_ok separator \<Longrightarrow> upper_hex n \<notin> set separator"
  using upper_hex_range [of n] by (fastforce simp: separator_ok_def separator_byte_def)

lemma escape_no_separator:
  assumes "separator_ok separator"
  shows "set (escape_with separator s) \<inter> set separator = {}"
proof (induction s)
  case (Cons c s)
  have "CHR ''%'' \<notin> set separator" using assms by (auto simp: separator_ok_def separator_byte_def)
  moreover have "upper_hex (byte c div 16) \<notin> set separator" "upper_hex (byte c mod 16) \<notin> set separator"
    using upper_hex_not_separator assms nibbles by blast+
  moreover have "\<not> must_escape separator c \<Longrightarrow> c \<notin> set separator" by (simp add: must_escape_def)
  ultimately show ?case using Cons by auto
qed simp

lemma split_at_separator:
  assumes "a @ x # p = b @ x # q" "x \<notin> set a" "x \<notin> set b"
  shows "a = b \<and> p = q"
  using assms
proof (induction a arbitrary: b)
  case Nil
  then show ?case by (cases b) auto
next
  case (Cons c a)
  then show ?case by (cases b) auto
qed

lemma key_prefix_parts:
  assumes "separator_ok (delimiter b)"
    "key_prefix b scope kind @ rest = key_prefix b scope' kind' @ rest'"
  shows "scope = scope' \<and> kind @ delimiter b @ rest = kind' @ delimiter b @ rest'"
proof -
  obtain x xs where sep: "delimiter b = x # xs"
    using assms(1) by (cases "delimiter b") (auto simp: separator_ok_def)
  have none: "x \<notin> set (escape b s)" for s
    using escape_no_separator [OF assms(1), of s] sep by (auto simp: escape_def)
  have "escape b scope @ x # (xs @ kind @ delimiter b @ rest) = escape b scope' @ x # (xs @ kind' @ delimiter b @ rest')"
    using assms(2) by (simp add: key_prefix_def sep)
  from split_at_separator [OF this none none]
  have "escape b scope = escape b scope'" "kind @ delimiter b @ rest = kind' @ delimiter b @ rest'" by simp_all
  then show ?thesis using escape_with_inject by (auto simp: escape_def)
qed

section \<open>Projects with different separators\<close>

definition letter_or_digit :: "char \<Rightarrow> bool" where
  "letter_or_digit c \<longleftrightarrow> 97 \<le> byte c \<and> byte c \<le> 122 \<or> 65 \<le> byte c \<and> byte c \<le> 90 \<or> 48 \<le> byte c \<and> byte c \<le> 57"

definition plain_scope :: "string \<Rightarrow> bool" where
  "plain_scope s = list_all letter_or_digit s"

lemma letter_or_digit_plain:
  assumes "separator_ok separator" "letter_or_digit c"
  shows "c \<notin> set separator" "\<not> must_escape separator c"
proof -
  have "\<not> separator_byte c" using assms(2) by (auto simp: letter_or_digit_def separator_byte_def)
  then show sep: "c \<notin> set separator" using assms(1) by (auto simp: separator_ok_def)
  have "byte (CHR ''%'') = 37" "byte (CHR ''{'') = 123" "byte (CHR ''}'') = 125" by simp_all
  then have "c \<noteq> CHR ''%''" "c \<noteq> CHR ''{''" "c \<noteq> CHR ''}''" using assms(2) by (auto simp: letter_or_digit_def)
  with assms(2) sep show "\<not> must_escape separator c" by (auto simp: must_escape_def letter_or_digit_def)
qed

lemma escape_plain: "separator_ok separator \<Longrightarrow> plain_scope s \<Longrightarrow> escape_with separator s = s"
  by (induction s) (simp_all add: plain_scope_def letter_or_digit_plain)

text \<open>A scope of letters and digits is the part of its keys before the first other character.\<close>

lemma plain_scope_read:
  assumes "separator_ok (delimiter b)" "plain_scope scope"
  shows "takeWhile letter_or_digit (key_prefix b scope kind @ rest) = scope"
proof -
  obtain x xs where sep: "delimiter b = x # xs"
    using assms(1) by (cases "delimiter b") (auto simp: separator_ok_def)
  then have "\<not> letter_or_digit x" using letter_or_digit_plain(1) [OF assms(1), of x] by auto
  with assms show ?thesis
    by (simp add: key_prefix_def escape_def escape_plain) (simp add: sep takeWhile_append2 plain_scope_def list_all_iff)
qed

text \<open>
  Other scopes of projects with different separators may have the same key: the user index of one is then
  the session of the other.
\<close>

theorem separators_collide:
  assumes "i \<noteq> []" "plain_scope i"
  shows "\<exists>b b'. newKeyBuilder '':'' = Inr b \<and> newKeyBuilder ''-'' = Inr b'
    \<and> (\<exists>k. userSessionsKey b ''p'' (''x-session-'' @ i) = Inr k \<and> sessionKey b' ''p:user_sessions:x'' i = Inr k)"
proof -
  have builders: "newKeyBuilder '':'' = Inr \<lparr>kb_separator = '':''\<rparr>" "newKeyBuilder ''-'' = Inr \<lparr>kb_separator = ''-''\<rparr>"
    by (simp_all add: newKeyBuilder_def Let_def runes_ascii is_ascii_def separator_rune_def)
  have ok: "separator_ok '':''" "separator_ok ''-''" by (simp_all add: separator_ok_def separator_byte_def)
  have app: "escape_with sep (s @ t) = escape_with sep s @ escape_with sep t" for sep s t
    by (induction s) simp_all
  have "escape_with '':'' (''x-session-'' @ i) = ''x-session-'' @ i"
    unfolding app escape_plain [OF ok(1) assms(2)] by (simp add: must_escape_def)
  moreover have "escape_with ''-'' i = i" by (rule escape_plain [OF ok(2) assms(2)])
  ultimately have "userSessionsKey \<lparr>kb_separator = '':''\<rparr> ''p'' (''x-session-'' @ i)
      = sessionKey \<lparr>kb_separator = ''-''\<rparr> ''p:user_sessions:x'' i"
    using assms(1) by (simp add: userSessionsKey_def sessionKey_def key_def key_prefix_def escape_def delimiter_def
        must_escape_def)
  moreover have "\<exists>k. userSessionsKey \<lparr>kb_separator = '':''\<rparr> ''p'' (''x-session-'' @ i) = Inr k"
    by (simp add: userSessionsKey_def key_def)
  ultimately show ?thesis using builders by auto
qed

text \<open>
  C22 Keys are injective: with a separator \<open>NewKeyBuilder\<close> accepts, two keys are equal only if they are of
  the same scope, the same kind (session or user index) and the same identifier, whatever bytes scope
  and identifier contain.
\<close>

theorem session_keys_injective:
  assumes "newKeyBuilder configured = Inr b"
    "key b scope kind i = Inr k" "key b scope' kind' i' = Inr k"
    "kind \<in> {''session'', ''user_sessions''}" "kind' \<in> {''session'', ''user_sessions''}"
  shows "scope = scope' \<and> kind = kind' \<and> i = i'"
proof -
  have "key_prefix b scope kind @ escape b i = key_prefix b scope' kind' @ escape b i'"
    using assms(2,3) by (auto simp: key_def split: if_splits)
  from key_prefix_parts [OF newKeyBuilder_ok [OF assms(1)] this]
  have parts: "scope = scope'" "kind @ delimiter b @ escape b i = kind' @ delimiter b @ escape b i'" by simp_all
  from parts(2) assms(4,5) have "kind = kind'" by auto
  with parts show ?thesis using escape_with_inject by (auto simp: escape_def)
qed

theorem session_keys_injective_witness:
  "\<exists>b. newKeyBuilder ''_'' = Inr b \<and> key b ''a'' ''session'' ''b_c'' \<noteq> key b ''a_session'' ''session'' ''c''"
proof -
  have "newKeyBuilder ''_'' = Inr \<lparr>kb_separator = ''_''\<rparr>"
    by (simp add: newKeyBuilder_def Let_def runes_ascii is_ascii_def separator_rune_def)
  then show ?thesis
    using session_keys_injective [of "''_''" "\<lparr>kb_separator = ''_''\<rparr>" "''a''" "''session''" "''b_c''" _
        "''a_session''" "''session''" "''c''"]
    by (auto simp: key_def)
qed

end
