(* ===== verification/SessionScript.thy ===== *)
theory SessionScript
  imports SessionKey "HOL-Library.Product_Lexorder"
begin

text \<open>
  The Lua script of the session store (\<open>sessionScript\<close> in \<open>sdk/go/gateway/sessionauth/store.go\<close>) on a
  model of the Redis keys it touches. A script runs atomically at one instant: keys whose expiry has
  passed are gone when it starts. \<open>cjson\<close> and \<open>sha1hex\<close> are arguments (\<open>script_lib\<close>); decoding gives
  a row only where the script's type checks hold.
\<close>

section \<open>Redis\<close>

datatype redis_value = RString string | RZset "(string \<times> int) list" | ROther

type_synonym db = "string \<rightharpoonup> redis_value \<times> int option"

text \<open>Times are milliseconds; a key is gone once the clock is past its expiry.\<close>

definition expire :: "int \<Rightarrow> db \<Rightarrow> db" where
  "expire now db k = (case db k of
     Some (v, Some e) \<Rightarrow> if e < now then None else Some (v, Some e)
   | other \<Rightarrow> other)"

definition redis_del :: "string \<Rightarrow> db \<Rightarrow> db" where
  "redis_del k db = db(k := None)"

definition set_px :: "string \<Rightarrow> string \<Rightarrow> int \<Rightarrow> int \<Rightarrow> db \<Rightarrow> db" where
  "set_px k v now ttl db = db(k \<mapsto> (RString v, Some (now + ttl)))"

text \<open>A sorted set is kept in the order of its scores, equal scores in the order of the members.\<close>

definition zset_put :: "string \<Rightarrow> int \<Rightarrow> (string \<times> int) list \<Rightarrow> (string \<times> int) list" where
  "zset_put m s ms = insort_key (\<lambda>(m, s). (s, m)) (m, s) (filter (\<lambda>(n, t). n \<noteq> m) ms)"

definition zadd :: "string \<Rightarrow> int \<Rightarrow> string \<Rightarrow> db \<Rightarrow> db" where
  "zadd k s m db = (case db k of
     None \<Rightarrow> db(k \<mapsto> (RZset [(m, s)], None))
   | Some (RZset ms, e) \<Rightarrow> db(k \<mapsto> (RZset (zset_put m s ms), e))
   | Some other \<Rightarrow> db)"

definition zrem :: "string \<Rightarrow> string \<Rightarrow> db \<Rightarrow> db" where
  "zrem k m db = (case db k of
     Some (RZset ms, e) \<Rightarrow>
       (let ms' = filter (\<lambda>(n, t). n \<noteq> m) ms in
        if ms' = [] then db(k := None) else db(k \<mapsto> (RZset ms', e)))
   | other \<Rightarrow> db)"

definition pexpireat :: "string \<Rightarrow> int \<Rightarrow> db \<Rightarrow> db" where
  "pexpireat k e db = (case db k of None \<Rightarrow> db | Some (v, old) \<Rightarrow> db(k \<mapsto> (v, Some e)))"

section \<open>Rows and keys\<close>

record session_row =
  row_version :: int
  row_id :: string
  row_user :: string
  row_identity :: string
  row_hash :: string
  row_created :: int
  row_expires :: int

record script_lib =
  lib_decode :: "string \<Rightarrow> session_row option"
  lib_encode :: "session_row \<Rightarrow> string"
  lib_identity_user :: "string \<Rightarrow> string option"
  lib_sha1 :: "string \<Rightarrow> string"

text \<open>The prefixes and the separator that \<open>Store.run\<close> passes.\<close>

record namespace =
  ns_session_prefix :: string
  ns_user_prefix :: string
  ns_separator :: string

definition skey :: "namespace \<Rightarrow> string \<Rightarrow> string" where
  "skey ns sid = ns_session_prefix ns @ escape_with (ns_separator ns) sid"

definition ukey :: "namespace \<Rightarrow> string \<Rightarrow> string" where
  "ukey ns user = ns_user_prefix ns @ escape_with (ns_separator ns) user"

definition namespace_of :: "key_builder \<Rightarrow> string \<Rightarrow> namespace" where
  "namespace_of b scope = \<lparr>ns_session_prefix = key_prefix b scope ''session'',
     ns_user_prefix = key_prefix b scope ''user_sessions'', ns_separator = delimiter b\<rparr>"

record session_item =
  it_row :: session_row
  it_raw :: string
  it_key :: string

definition session_corrupt :: string where "session_corrupt = ''SESSION_CORRUPT''"

definition id_char :: "char \<Rightarrow> bool" where
  "id_char c \<longleftrightarrow> 48 \<le> byte c \<and> byte c \<le> 57 \<or> 65 \<le> byte c \<and> byte c \<le> 90 \<or> 97 \<le> byte c \<and> byte c \<le> 122
     \<or> c = CHR ''_'' \<or> c = CHR ''-''"

definition row_valid :: "script_lib \<Rightarrow> int \<Rightarrow> string \<Rightarrow> session_row \<Rightarrow> bool" where
  "row_valid L now sid row \<longleftrightarrow>
     row_version row = 1 \<and> row_id row = sid \<and> row_hash row = lib_sha1 L (row_identity row)
     \<and> row_user row \<noteq> '''' \<and> 0 < row_created row \<and> row_created row \<le> now
     \<and> row_created row < row_expires row \<and> row_expires row \<le> 9007199254740991
     \<and> length sid = 43 \<and> list_all id_char sid
     \<and> lib_identity_user L (row_identity row) = Some (row_user row)"

text \<open>\<open>load\<close>: an error, no session, or the session's item.\<close>

definition load_session ::
  "script_lib \<Rightarrow> namespace \<Rightarrow> int \<Rightarrow> db \<Rightarrow> string \<Rightarrow> string + session_item option" where
  "load_session L ns now db sid =
     (case db (skey ns sid) of
        None \<Rightarrow> Inr None
      | Some (RString raw, expiry) \<Rightarrow>
          (case lib_decode L raw of
             None \<Rightarrow> Inl session_corrupt
           | Some row \<Rightarrow>
               if \<not> row_valid L now sid row then Inl session_corrupt
               else if expiry = None then Inl session_corrupt
               else if row_expires row \<le> now then Inr None
               else Inr (Some \<lparr>it_row = row, it_raw = raw, it_key = skey ns sid\<rparr>))
      | Some other \<Rightarrow> Inl session_corrupt)"

section \<open>The script\<close>

datatype session_op = OpCreate | OpLookup | OpRenew | OpRevoke | OpList | OpRevokeUser

record script_args =
  sa_key :: string
  sa_op :: session_op
  sa_id :: string
  sa_user :: string
  sa_ttl :: int
  sa_identity :: string
  sa_limit :: int

datatype reply = ReplyOk "string list" | ReplyMissing | ReplyCollision | ReplyError string

definition find_target ::
  "script_lib \<Rightarrow> namespace \<Rightarrow> int \<Rightarrow> db \<Rightarrow> script_args \<Rightarrow> reply + session_item option" where
  "find_target L ns now db a =
     (case sa_op a of
        OpCreate \<Rightarrow> if db (sa_key a) \<noteq> None then Inl ReplyCollision else Inr None
      | OpList \<Rightarrow> Inr None
      | OpRevokeUser \<Rightarrow> Inr None
      | _ \<Rightarrow> (case load_session L ns now db (sa_id a) of
                Inl e \<Rightarrow> Inl (ReplyError e)
              | Inr None \<Rightarrow> Inl ReplyMissing
              | Inr (Some item) \<Rightarrow> Inr (Some item)))"

definition index_members :: "db \<Rightarrow> string \<Rightarrow> (string \<times> int) list option" where
  "index_members db index = (case db index of
     None \<Rightarrow> Some []
   | Some (RZset ms, e) \<Rightarrow> Some ms
   | Some other \<Rightarrow> None)"

text \<open>The loop over the members: the active items, the stale members, whether the target was met.\<close>

fun scan_members ::
  "script_lib \<Rightarrow> namespace \<Rightarrow> int \<Rightarrow> db \<Rightarrow> string \<Rightarrow> string \<Rightarrow> (string \<times> int) list \<Rightarrow>
   string + session_item list \<times> string list \<times> bool" where
  "scan_members L ns now db user sought [] = Inr ([], [], False)"
| "scan_members L ns now db user sought ((sid, score) # ms) =
     (case load_session L ns now db sid of
        Inl e \<Rightarrow> Inl e
      | Inr None \<Rightarrow>
          and_then (scan_members L ns now db user sought ms) (\<lambda>(active, stale, found).
            Inr (active, sid # stale, found))
      | Inr (Some item) \<Rightarrow>
          if row_user (it_row item) \<noteq> user \<or> row_created (it_row item) \<noteq> score then Inl session_corrupt
          else and_then (scan_members L ns now db user sought ms) (\<lambda>(active, stale, found).
            Inr (item # active, stale, found \<or> sid = sought)))"

fun drop_stale :: "namespace \<Rightarrow> string \<Rightarrow> string list \<Rightarrow> db \<Rightarrow> db" where
  "drop_stale ns index [] db = db"
| "drop_stale ns index (sid # sids) db =
     drop_stale ns index sids (zrem index sid (redis_del (skey ns sid) db))"

text \<open>The eviction loop: while the user has \<open>limit\<close> sessions or more, the oldest is removed.\<close>

fun evict :: "int \<Rightarrow> string \<Rightarrow> session_item list \<Rightarrow> db \<Rightarrow> db \<times> session_item list" where
  "evict limit index [] db = (db, [])"
| "evict limit index (oldest # active) db =
     (if int (length (oldest # active)) \<ge> limit
      then evict limit index active (zrem index (row_id (it_row oldest)) (redis_del (it_key oldest) db))
      else (db, oldest # active))"

fun remove_first :: "string \<Rightarrow> session_item list \<Rightarrow> session_item list" where
  "remove_first i [] = []"
| "remove_first i (item # items) = (if row_id (it_row item) = i then items else item # remove_first i items)"

definition new_row :: "script_lib \<Rightarrow> int \<Rightarrow> script_args \<Rightarrow> session_row" where
  "new_row L now a = \<lparr>row_version = 1, row_id = sa_id a, row_user = sa_user a,
     row_identity = sa_identity a, row_hash = lib_sha1 L (sa_identity a), row_created = now,
     row_expires = now + sa_ttl a\<rparr>"

definition max_expires :: "session_item list \<Rightarrow> int" where
  "max_expires items = fold (\<lambda>item m. max m (row_expires (it_row item))) items 0"

definition touch_index :: "int \<Rightarrow> string \<Rightarrow> session_item list \<Rightarrow> db \<Rightarrow> db" where
  "touch_index now index active db =
     (let expires = max_expires active in
      if expires > now then pexpireat index expires db else redis_del index db)"

definition write_create ::
  "script_lib \<Rightarrow> int \<Rightarrow> string \<Rightarrow> script_args \<Rightarrow> session_item list \<Rightarrow> db \<Rightarrow> reply \<times> db" where
  "write_create L now index a active db =
     (let row = new_row L now a; encoded = lib_encode L row;
          (db1, kept) = evict (sa_limit a) index active db;
          db2 = zadd index now (sa_id a) (set_px (sa_key a) encoded now (sa_ttl a) db1);
          item = \<lparr>it_row = row, it_raw = encoded, it_key = sa_key a\<rparr> in
      (ReplyOk [encoded], touch_index now index (kept @ [item]) db2))"

definition write_renew ::
  "script_lib \<Rightarrow> int \<Rightarrow> string \<Rightarrow> script_args \<Rightarrow> session_item \<Rightarrow> session_item list \<Rightarrow> db \<Rightarrow> reply \<times> db" where
  "write_renew L now index a target active db =
     (let row = (it_row target)\<lparr>row_expires := now + sa_ttl a\<rparr>; encoded = lib_encode L row;
          db1 = set_px (sa_key a) encoded now (sa_ttl a) db;
          active' = map (\<lambda>item. if row_id (it_row item) = sa_id a
            then item\<lparr>it_row := (it_row item)\<lparr>row_expires := now + sa_ttl a\<rparr>, it_raw := encoded\<rparr>
            else item) active in
      (ReplyOk [encoded], touch_index now index active' db1))"

definition write_revoke ::
  "int \<Rightarrow> string \<Rightarrow> script_args \<Rightarrow> session_item list \<Rightarrow> db \<Rightarrow> reply \<times> db" where
  "write_revoke now index a active db =
     (let db1 = zrem index (sa_id a) (redis_del (sa_key a) db) in
      (ReplyOk [], touch_index now index (remove_first (sa_id a) active) db1))"

definition write_phase ::
  "script_lib \<Rightarrow> int \<Rightarrow> string \<Rightarrow> script_args \<Rightarrow> session_item option \<Rightarrow> session_item list \<Rightarrow> db \<Rightarrow> reply \<times> db" where
  "write_phase L now index a target active db =
     (case (sa_op a, target) of
        (OpRevokeUser, _) \<Rightarrow> (ReplyOk [], redis_del index (fold (\<lambda>item. redis_del (it_key item)) active db))
      | (OpCreate, _) \<Rightarrow> write_create L now index a active db
      | (OpRenew, Some item) \<Rightarrow> write_renew L now index a item active db
      | (OpRevoke, _) \<Rightarrow> write_revoke now index a active db
      | (OpLookup, Some item) \<Rightarrow> (ReplyOk [it_raw item], touch_index now index active db)
      | (_, _) \<Rightarrow> (ReplyOk (map it_raw active), touch_index now index active db))"

definition session_script ::
  "script_lib \<Rightarrow> namespace \<Rightarrow> int \<Rightarrow> script_args \<Rightarrow> db \<Rightarrow> reply \<times> db" where
  "session_script L ns now a db0 =
     (let db = expire now db0 in
      case find_target L ns now db a of
        Inl reply \<Rightarrow> (reply, db)
      | Inr target \<Rightarrow>
          (let user = (case target of None \<Rightarrow> sa_user a | Some item \<Rightarrow> row_user (it_row item));
               index = ukey ns user in
           case index_members db index of
             None \<Rightarrow> (ReplyError session_corrupt, db)
           | Some ms \<Rightarrow>
               (case scan_members L ns now db user (sa_id a) ms of
                  Inl e \<Rightarrow> (ReplyError e, db)
                | Inr (active, stale, found) \<Rightarrow>
                    if target \<noteq> None \<and> \<not> found then (ReplyError session_corrupt, db)
                    else write_phase L now index a target active (drop_stale ns index stale db))))"

end
