(* ===== verification/SessionStore.thy ===== *)
theory SessionStore
  imports GatewayState Base64 SessionScript
begin

text \<open>
  The Go side of the session store (\<open>sdk/go/gateway/sessionauth/store.go\<close>, \<open>session.go\<close>) and the
  authenticator over it (\<open>authenticator.go\<close>). The Redis client is a function of the world; JSON and
  the random source are the fields of \<open>session_env\<close>. An instant is a number of nanoseconds since 1970.
\<close>

section \<open>Calls to Redis\<close>

record eval_call =
  ev_key :: string
  ev_op :: string
  ev_id :: string
  ev_user :: string
  ev_ttl :: int
  ev_identity :: string
  ev_limit :: int
  ev_session_prefix :: string
  ev_user_prefix :: string
  ev_separator :: string

datatype redis_item = BulkString string | OtherItem
datatype redis_result = RedisArray "redis_item list" | OtherResult

type_synonym 'w redis_fn = "eval_call \<Rightarrow> 'w \<Rightarrow> redis_result result \<times> 'w"

text \<open>A client is nil, wraps a nil pointer, is a cluster client, or can be used.\<close>

datatype 'w redis_client = NilClient | NilPointerClient | ClusterClient | SingleClient "'w redis_fn"

definition client_nil :: "'w redis_client \<Rightarrow> bool" where
  "client_nil c = (case c of NilClient \<Rightarrow> True | NilPointerClient \<Rightarrow> True | _ \<Rightarrow> False)"

section \<open>Store\<close>

record 'w store_config =
  sc_client :: "'w redis_client"
  sc_scope :: string
  sc_separator :: string
  sc_max_sessions :: int

record 'w store =
  store_client :: "'w redis_fn"
  store_scope :: string
  store_keys :: key_builder
  store_limit :: int

definition newStore :: "'w store_config \<Rightarrow> 'w store result" where
  "newStore config = (case sc_client config of
     NilClient \<Rightarrow> Inl (Plain ''session Redis client is required'')
   | NilPointerClient \<Rightarrow> Inl (Plain ''session Redis client is required'')
   | ClusterClient \<Rightarrow> Inl (Plain ''session store does not support Redis Cluster'')
   | SingleClient f \<Rightarrow>
       if sc_scope config = '''' then Inl (Plain ''session project scope is required'')
       else if sc_max_sessions config < 0 \<or> sc_max_sessions config > 2 ^ 53 - 1
       then Inl (Plain ''invalid maximum sessions per user'')
       else and_then (newKeyBuilder (sc_separator config)) (\<lambda>keys.
         Inr \<lparr>store_client = f, store_scope = sc_scope config, store_keys = keys,
              store_limit = (if sc_max_sessions config = 0 then 10 else sc_max_sessions config)\<rparr>))"

definition errCorruptSession :: go_error where
  "errCorruptSession = Sentinel ''corrupt session storage''"

definition errSessionCollision :: go_error where
  "errSessionCollision = Sentinel ''session ID collision''"

fun contains_string :: "string \<Rightarrow> string \<Rightarrow> bool" where
  "contains_string [] p = (p = [])"
| "contains_string (c # s) p = (has_prefix (c # s) p \<or> contains_string s p)"

definition key_or_empty :: "string result \<Rightarrow> string" where
  "key_or_empty r = (case r of Inl e \<Rightarrow> '''' | Inr k \<Rightarrow> k)"

definition session_call :: "'w store \<Rightarrow> string \<Rightarrow> string \<Rightarrow> string \<Rightarrow> int \<Rightarrow> string \<Rightarrow> eval_call" where
  "session_call s op i user ttl identity =
     \<lparr>ev_key = (if op = ''list'' \<or> op = ''revoke_user''
                then key_or_empty (userSessionsKey (store_keys s) (store_scope s) user)
                else key_or_empty (sessionKey (store_keys s) (store_scope s) i)),
      ev_op = op, ev_id = i, ev_user = user, ev_ttl = milliseconds ttl, ev_identity = identity,
      ev_limit = store_limit s,
      ev_session_prefix = key_prefix (store_keys s) (store_scope s) ''session'',
      ev_user_prefix = key_prefix (store_keys s) (store_scope s) ''user_sessions'',
      ev_separator = delimiter (store_keys s)\<rparr>"

text \<open>What \<open>run\<close> makes of the script's reply.\<close>

definition check_reply :: "string \<Rightarrow> redis_result \<Rightarrow> redis_item list result" where
  "check_reply op raw = (case raw of
     RedisArray (BulkString status # rest) \<Rightarrow>
       if status = ''ok'' then
         (if op \<in> {''create'', ''lookup'', ''renew''} \<and> length rest \<noteq> 1 then Inl errCorruptSession
          else if op \<in> {''revoke'', ''revoke_user''} \<and> rest \<noteq> [] then Inl errCorruptSession
          else Inr rest)
       else if status = ''missing'' then
         (if rest \<noteq> [] \<or> op \<notin> {''lookup'', ''renew'', ''revoke''} then Inl errCorruptSession else Inr [])
       else if status = ''collision'' then
         (if op \<noteq> ''create'' \<or> rest \<noteq> [] then Inl errCorruptSession else Inl errSessionCollision)
       else Inl errCorruptSession
   | _ \<Rightarrow> Inl errCorruptSession)"

definition run ::
  "'w store \<Rightarrow> string \<Rightarrow> string \<Rightarrow> string \<Rightarrow> int \<Rightarrow> string \<Rightarrow> 'w \<Rightarrow> redis_item list result \<times> 'w" where
  "run s op i user ttl identity w =
     (let (answer, w') = store_client s (session_call s op i user ttl identity) w in
      case answer of
        Inl err \<Rightarrow>
          ((if contains_string (error_text err) ''SESSION_CORRUPT''
            then Inl (Wrap (error_text errCorruptSession @ '': '' @ error_text err) [errCorruptSession, err])
            else Inl (Wrap (''session Redis operation failed: '' @ error_text err) [err])), w')
      | Inr raw \<Rightarrow> (check_reply op raw, w'))"

section \<open>Sessions\<close>

record session =
  ses_id :: string
  ses_identity :: identity
  ses_created :: int
  ses_expires :: int

record stored_session =
  sto_version :: int
  sto_id :: string
  sto_user :: string
  sto_identity :: string
  sto_created :: int
  sto_expires :: int

record 'w session_env =
  se_random :: "'w \<Rightarrow> string result \<times> 'w"
  se_marshal :: "identity \<Rightarrow> string result"
  se_stored :: "string \<Rightarrow> stored_session option"
  se_identity :: "string \<Rightarrow> identity option"

definition validSessionID :: "string \<Rightarrow> bool" where
  "validSessionID i \<longleftrightarrow> length i = 43 \<and>
     (case b64_decode i of None \<Rightarrow> False | Some bytes \<Rightarrow> length bytes = 32 \<and> b64_encode bytes = i)"

definition unix_milli :: "int \<Rightarrow> int" where
  "unix_milli ms = ms * millisecond"

definition decodeSession :: "'w session_env \<Rightarrow> redis_item \<Rightarrow> session result" where
  "decodeSession E raw = (case raw of
     OtherItem \<Rightarrow> Inl errCorruptSession
   | BulkString text \<Rightarrow>
       (case se_stored E text of
          None \<Rightarrow> Inl errCorruptSession
        | Some r \<Rightarrow>
            (case se_identity E (sto_identity r) of
               None \<Rightarrow> Inl errCorruptSession
             | Some identity \<Rightarrow>
                 if sto_version r \<noteq> 1 \<or> \<not> validSessionID (sto_id r) \<or> trim_space (id_user identity) = ''''
                    \<or> id_user identity \<noteq> sto_user r \<or> sto_created r \<le> 0 \<or> sto_expires r \<le> sto_created r
                 then Inl errCorruptSession
                 else Inr \<lparr>ses_id = sto_id r, ses_identity = identity, ses_created = unix_milli (sto_created r),
                           ses_expires = unix_milli (sto_expires r)\<rparr>)))"

definition validateTTL :: "int \<Rightarrow> unit result" where
  "validateTTL ttl = reject_if (ttl < millisecond) ''session TTL must be at least one millisecond''"

section \<open>Operations\<close>

record create_options =
  co_identity :: identity
  co_ttl :: int

text \<open>What \<open>Create\<close> makes of a successful run.\<close>

definition created_session :: "'w session_env \<Rightarrow> create_options \<Rightarrow> string \<Rightarrow> redis_item list \<Rightarrow> session result" where
  "created_session E opts i values = (case values of
     [item] \<Rightarrow> and_then (decodeSession E item) (\<lambda>session.
       if ses_id session \<noteq> i \<or> id_user (ses_identity session) \<noteq> id_user (co_identity opts)
       then Inl errCorruptSession else Inr session)
   | _ \<Rightarrow> Inl errCorruptSession)"

text \<open>The loop of at most three attempts.\<close>

fun create_attempts ::
  "'w session_env \<Rightarrow> 'w store \<Rightarrow> create_options \<Rightarrow> string \<Rightarrow> nat \<Rightarrow> 'w \<Rightarrow> session result \<times> 'w" where
  "create_attempts E s opts identity 0 w = (Inl errSessionCollision, w)"
| "create_attempts E s opts identity (Suc n) w =
     (case se_random E w of
        (Inl err, w1) \<Rightarrow> (Inl err, w1)
      | (Inr random, w1) \<Rightarrow>
          (let i = b64_encode random in
           case run s ''create'' i (id_user (co_identity opts)) (co_ttl opts) identity w1 of
             (Inl err, w2) \<Rightarrow>
               if errors_is err (error_text errSessionCollision) then create_attempts E s opts identity n w2
               else (Inl err, w2)
           | (Inr values, w2) \<Rightarrow> (created_session E opts i values, w2)))"

definition create :: "'w session_env \<Rightarrow> 'w store \<Rightarrow> create_options \<Rightarrow> 'w \<Rightarrow> session result \<times> 'w" where
  "create E s opts w =
     (if trim_space (id_user (co_identity opts)) = '''' \<or> \<not> valid_string (id_user (co_identity opts))
      then (Inl (Plain ''session user ID is required''), w)
      else case validateTTL (co_ttl opts) of
        Inl err \<Rightarrow> (Inl err, w)
      | Inr u \<Rightarrow>
          (case se_marshal E (co_identity opts) of
             Inl err \<Rightarrow> (Inl (Wrap (''encode session identity: '' @ error_text err) [err]), w)
           | Inr identity \<Rightarrow> create_attempts E s opts identity 3 w))"

definition read_session ::
  "'w session_env \<Rightarrow> 'w store \<Rightarrow> string \<Rightarrow> string \<Rightarrow> int \<Rightarrow> 'w \<Rightarrow> session option result \<times> 'w" where
  "read_session E s op i ttl w =
     (case run s op i '''' ttl '''' w of
        (Inl err, w') \<Rightarrow> (Inl err, w')
      | (Inr [], w') \<Rightarrow> (Inr None, w')
      | (Inr (item # rest), w') \<Rightarrow>
          (and_then (decodeSession E item) (\<lambda>session.
             if ses_id session \<noteq> i then Inl errCorruptSession else Inr (Some session)), w'))"

definition lookup :: "'w session_env \<Rightarrow> 'w store \<Rightarrow> string \<Rightarrow> 'w \<Rightarrow> session option result \<times> 'w" where
  "lookup E s i w = (if \<not> validSessionID i then (Inr None, w) else read_session E s ''lookup'' i 0 w)"

definition renew :: "'w session_env \<Rightarrow> 'w store \<Rightarrow> string \<Rightarrow> int \<Rightarrow> 'w \<Rightarrow> session option result \<times> 'w" where
  "renew E s i ttl w = (case validateTTL ttl of
     Inl err \<Rightarrow> (Inl err, w)
   | Inr u \<Rightarrow> if \<not> validSessionID i then (Inr None, w) else read_session E s ''renew'' i ttl w)"

definition revoke :: "'w store \<Rightarrow> string \<Rightarrow> 'w \<Rightarrow> unit result \<times> 'w" where
  "revoke s i w = (if \<not> validSessionID i then (Inr (), w)
     else case run s ''revoke'' i '''' 0 '''' w of (r, w') \<Rightarrow> (and_then r (\<lambda>values. Inr ()), w'))"

definition listByUser :: "'w session_env \<Rightarrow> 'w store \<Rightarrow> string \<Rightarrow> 'w \<Rightarrow> session list result \<times> 'w" where
  "listByUser E s user w =
     (if trim_space user = '''' then (Inl (Plain ''session user ID is required''), w)
      else case run s ''list'' '''' user 0 '''' w of (r, w') \<Rightarrow>
        (and_then r (map_result (\<lambda>item. and_then (decodeSession E item) (\<lambda>session.
           if id_user (ses_identity session) \<noteq> user then Inl errCorruptSession else Inr session))), w'))"

definition revokeByUser :: "'w store \<Rightarrow> string \<Rightarrow> 'w \<Rightarrow> unit result \<times> 'w" where
  "revokeByUser s user w =
     (if trim_space user = '''' then (Inl (Plain ''session user ID is required''), w)
      else case run s ''revoke_user'' '''' user 0 '''' w of (r, w') \<Rightarrow> (and_then r (\<lambda>values. Inr ()), w'))"

section \<open>The authenticator\<close>

type_synonym 'w session_reader = "string \<Rightarrow> 'w \<Rightarrow> session option result \<times> 'w"

definition newAuthenticator :: "'w session_reader option option \<Rightarrow> 'w session_reader result" where
  "newAuthenticator reader = (case reader of
     Some (Some r) \<Rightarrow> Inr r
   | _ \<Rightarrow> Inl (Plain ''session reader is required''))"

definition rejected_decision :: auth_decision where
  "rejected_decision = \<lparr>ad_authenticated = False,
     ad_identity = \<lparr>id_user = '''', id_roles = [], id_attributes = None\<rparr>, ad_reason = ''''\<rparr>"

text \<open>\<open>time.Time\<close>'s zero value is the first of January of the year 1.\<close>

definition time_zero :: int where
  "time_zero = -62135596800 * second"

definition session_authenticate :: "'w session_reader \<Rightarrow> string \<Rightarrow> 'w \<Rightarrow> auth_decision result \<times> 'w" where
  "session_authenticate reader credential w =
     (if \<not> validSessionID credential then (Inr rejected_decision, w)
      else case reader credential w of
        (Inl err, w') \<Rightarrow> (Inl err, w')
      | (Inr None, w') \<Rightarrow> (Inr rejected_decision, w')
      | (Inr (Some session), w') \<Rightarrow>
          ((if ses_id session \<noteq> credential \<or> trim_space (id_user (ses_identity session)) = ''''
               \<or> ses_created session = time_zero \<or> \<not> ses_created session < ses_expires session
            then Inl errCorruptSession
            else Inr \<lparr>ad_authenticated = True, ad_identity = ses_identity session, ad_reason = ''''\<rparr>), w'))"

section \<open>The script as a client\<close>

definition script_op :: "string \<Rightarrow> session_op option" where
  "script_op op = (if op = ''create'' then Some OpCreate else if op = ''lookup'' then Some OpLookup
     else if op = ''renew'' then Some OpRenew else if op = ''revoke'' then Some OpRevoke
     else if op = ''list'' then Some OpList else if op = ''revoke_user'' then Some OpRevokeUser else None)"

definition reply_result :: "reply \<Rightarrow> redis_result result" where
  "reply_result r = (case r of
     ReplyOk raws \<Rightarrow> Inr (RedisArray (BulkString ''ok'' # map BulkString raws))
   | ReplyMissing \<Rightarrow> Inr (RedisArray [BulkString ''missing''])
   | ReplyCollision \<Rightarrow> Inr (RedisArray [BulkString ''collision''])
   | ReplyError e \<Rightarrow> Inl (Plain e))"

text \<open>The world of the end-to-end theorems: Redis, its clock, and the bytes yet to be drawn.\<close>

record redis_world =
  rw_now :: int
  rw_db :: db
  rw_random :: "string list"

definition call_args :: "eval_call \<Rightarrow> session_op \<Rightarrow> script_args" where
  "call_args c op = \<lparr>sa_key = ev_key c, sa_op = op, sa_id = ev_id c, sa_user = ev_user c,
     sa_ttl = ev_ttl c, sa_identity = ev_identity c, sa_limit = ev_limit c\<rparr>"

definition call_namespace :: "eval_call \<Rightarrow> namespace" where
  "call_namespace c = \<lparr>ns_session_prefix = ev_session_prefix c, ns_user_prefix = ev_user_prefix c,
     ns_separator = ev_separator c\<rparr>"

definition redis_eval :: "script_lib \<Rightarrow> redis_world redis_fn" where
  "redis_eval L c w = (case script_op (ev_op c) of
     None \<Rightarrow> (Inl (Plain ''unknown operation''), w)
   | Some op \<Rightarrow>
       (let (r, db) = session_script L (call_namespace c) (rw_now w) (call_args c op) (rw_db w) in
        (reply_result r, w\<lparr>rw_db := db\<rparr>)))"

definition draw_random :: "redis_world \<Rightarrow> string result \<times> redis_world" where
  "draw_random w = (case rw_random w of
     [] \<Rightarrow> (Inl (Plain ''no entropy''), w)
   | bytes # rest \<Rightarrow> (Inr bytes, w\<lparr>rw_random := rest\<rparr>))"

end
