(* ===== verification/SessionInvariant.thy ===== *)
theory SessionInvariant
  imports SessionScript
begin

text \<open>
  The invariant of the session store's keys and what the building blocks of the script do to it.
  \<open>live\<close> abstracts a database to the sessions in force; \<open>store_ok\<close> says every session key holds a
  valid row, every live session is in the index of its user with its creation time and in no other
  index, and an index outlives the sessions it lists.
\<close>

section \<open>The abstraction\<close>

definition live :: "script_lib \<Rightarrow> namespace \<Rightarrow> int \<Rightarrow> db \<Rightarrow> string \<Rightarrow> session_row option" where
  "live L ns now db sid = (case db (skey ns sid) of
     Some (RString raw, x) \<Rightarrow> (case lib_decode L raw of
        Some row \<Rightarrow> if now < row_expires row then Some row else None
      | None \<Rightarrow> None)
   | _ \<Rightarrow> None)"

definition raw_of :: "namespace \<Rightarrow> db \<Rightarrow> string \<Rightarrow> string" where
  "raw_of ns db sid = (case db (skey ns sid) of Some (RString raw, x) \<Rightarrow> raw | _ \<Rightarrow> [])"

definition members :: "namespace \<Rightarrow> db \<Rightarrow> string \<Rightarrow> (string \<times> int) list" where
  "members ns db user = (case db (ukey ns user) of Some (RZset ms, x) \<Rightarrow> ms | _ \<Rightarrow> [])"

definition index_expiry :: "namespace \<Rightarrow> db \<Rightarrow> string \<Rightarrow> int option" where
  "index_expiry ns db user = (case db (ukey ns user) of Some (v, x) \<Rightarrow> x | None \<Rightarrow> None)"

definition item :: "script_lib \<Rightarrow> namespace \<Rightarrow> int \<Rightarrow> db \<Rightarrow> string \<Rightarrow> session_item" where
  "item L ns now db sid =
     \<lparr>it_row = the (live L ns now db sid), it_raw = raw_of ns db sid, it_key = skey ns sid\<rparr>"

definition live_ids :: "script_lib \<Rightarrow> namespace \<Rightarrow> int \<Rightarrow> db \<Rightarrow> string \<Rightarrow> string list" where
  "live_ids L ns now db user = filter (\<lambda>sid. live L ns now db sid \<noteq> None) (map fst (members ns db user))"

section \<open>The invariant\<close>

definition zset_ok :: "(string \<times> int) list \<Rightarrow> bool" where
  "zset_ok ms \<longleftrightarrow> sorted (map (\<lambda>(m, s). (s, m)) ms) \<and> distinct (map fst ms)"

definition session_key_ok :: "script_lib \<Rightarrow> int \<Rightarrow> string \<Rightarrow> redis_value \<Rightarrow> int option \<Rightarrow> bool" where
  "session_key_ok L now sid v x = (case v of
     RString raw \<Rightarrow> (case lib_decode L raw of
        Some row \<Rightarrow> row_valid L now sid row \<and> x = Some (row_expires row)
      | None \<Rightarrow> False)
   | _ \<Rightarrow> False)"

definition store_core :: "script_lib \<Rightarrow> namespace \<Rightarrow> int \<Rightarrow> db \<Rightarrow> bool" where
  "store_core L ns now db \<longleftrightarrow>
     (\<forall>sid v x. db (skey ns sid) = Some (v, x) \<longrightarrow> session_key_ok L now sid v x) \<and>
     (\<forall>user v x. db (ukey ns user) = Some (v, x) \<longrightarrow> v = RZset (members ns db user)) \<and>
     (\<forall>user. zset_ok (members ns db user)) \<and>
     (\<forall>sid row user score. live L ns now db sid = Some row \<longrightarrow>
        ((sid, score) \<in> set (members ns db user) \<longleftrightarrow> user = row_user row \<and> score = row_created row))"

definition index_lasts :: "script_lib \<Rightarrow> namespace \<Rightarrow> int \<Rightarrow> db \<Rightarrow> string \<Rightarrow> bool" where
  "index_lasts L ns now db user \<longleftrightarrow>
     (\<forall>sid row e. live L ns now db sid = Some row \<longrightarrow> row_user row = user \<longrightarrow>
        index_expiry ns db user = Some e \<longrightarrow> row_expires row \<le> e)"

definition store_ok :: "script_lib \<Rightarrow> namespace \<Rightarrow> int \<Rightarrow> db \<Rightarrow> bool" where
  "store_ok L ns now db \<longleftrightarrow> store_core L ns now db \<and> (\<forall>user. index_lasts L ns now db user)"

lemma store_ok_empty: "store_ok L ns now Map.empty"
  by (simp add: store_ok_def store_core_def index_lasts_def live_def members_def zset_ok_def)

lemma store_core_key: "store_core L ns now db \<Longrightarrow> db (skey ns sid) = Some (v, x) \<Longrightarrow> session_key_ok L now sid v x"
  and store_core_index: "store_core L ns now db \<Longrightarrow> db (ukey ns user) = Some (v, x) \<Longrightarrow> v = RZset (members ns db user)"
  and store_core_zset: "store_core L ns now db \<Longrightarrow> zset_ok (members ns db user)"
  and store_core_member: "store_core L ns now db \<Longrightarrow> live L ns now db sid = Some row \<Longrightarrow>
    (sid, score) \<in> set (members ns db user) \<longleftrightarrow> user = row_user row \<and> score = row_created row"
  by (simp_all add: store_core_def)

lemma live_Some:
  "live L ns now db sid = Some row \<longleftrightarrow>
     (\<exists>raw x. db (skey ns sid) = Some (RString raw, x) \<and> lib_decode L raw = Some row \<and> now < row_expires row)"
  by (auto simp: live_def split: option.splits prod.splits redis_value.splits if_splits)

lemma live_row_valid:
  "store_core L ns now db \<Longrightarrow> live L ns now db sid = Some row \<Longrightarrow> row_valid L now sid row"
  by (auto simp: live_Some session_key_ok_def dest!: store_core_key)

lemma live_row_id: "store_core L ns now db \<Longrightarrow> live L ns now db sid = Some row \<Longrightarrow> row_id row = sid"
  by (auto dest: live_row_valid simp: row_valid_def)

text \<open>Two databases that agree on a key agree on what is read from it.\<close>

lemma agree_session:
  assumes "db' (skey ns sid) = db (skey ns sid)"
  shows "live L ns now db' sid = live L ns now db sid" "raw_of ns db' sid = raw_of ns db sid"
  using assms by (simp_all add: live_def raw_of_def)

lemma agree_index:
  assumes "db' (ukey ns user) = db (ukey ns user)"
  shows "members ns db' user = members ns db user" "index_expiry ns db' user = index_expiry ns db user"
  using assms by (simp_all add: members_def index_expiry_def)

lemma zset_ok_filter: "zset_ok ms \<Longrightarrow> zset_ok (filter P ms)"
  by (auto simp: zset_ok_def sorted_wrt_map intro: sorted_wrt_filter distinct_map_filter)

lemma zset_ok_put: "zset_ok ms \<Longrightarrow> zset_ok (zset_put m s ms)"
proof -
  assume ok: "zset_ok ms"
  let ?ms = "filter (\<lambda>(n, t). n \<noteq> m) ms"
  have f: "zset_ok ?ms" using ok by (rule zset_ok_filter)
  have "distinct (map fst (insort_key (\<lambda>(m, s). (s, m)) (m, s) xs)) \<longleftrightarrow> m \<notin> fst ` set xs \<and> distinct (map fst xs)" for xs
    by (induction xs) (auto simp: set_insort_key)
  moreover have "m \<notin> fst ` set ?ms" by auto
  ultimately show ?thesis
    using f by (auto simp: zset_ok_def zset_put_def sorted_insort_key)
qed

lemma set_zset_put: "set (zset_put m s ms) = insert (m, s) {(n, t) \<in> set ms. n \<noteq> m}"
  by (auto simp: zset_put_def set_insort_key)

section \<open>Loading under the invariant\<close>

lemma load_session_live:
  assumes "store_core L ns now db"
  shows "load_session L ns now db sid = Inr (if live L ns now db sid = None then None else Some (item L ns now db sid))"
proof (cases "db (skey ns sid)")
  case None
  then show ?thesis by (simp add: load_session_def live_def)
next
  case (Some vx)
  obtain v x where vx: "vx = (v, x)" by fastforce
  have "session_key_ok L now sid v x" using store_core_key [OF assms] Some vx by simp
  then obtain raw row where "v = RString raw" "lib_decode L raw = Some row" "row_valid L now sid row"
      "x = Some (row_expires row)"
    by (auto simp: session_key_ok_def split: redis_value.splits option.splits)
  with Some vx show ?thesis
    by (simp add: load_session_def live_def item_def raw_of_def)
qed

lemma index_members_ok: "store_core L ns now db \<Longrightarrow> index_members db (ukey ns user) = Some (members ns db user)"
  using store_core_index [of L ns now db user]
  by (cases "db (ukey ns user)") (auto simp: index_members_def members_def split: redis_value.splits)

lemma scan_members_ok:
  assumes core: "store_core L ns now db"
    and "\<forall>(sid, score) \<in> set ms. \<forall>row. live L ns now db sid = Some row \<longrightarrow> row_user row = user \<and> row_created row = score"
  shows "scan_members L ns now db user sought ms =
    Inr (map (item L ns now db) (filter (\<lambda>sid. live L ns now db sid \<noteq> None) (map fst ms)),
         filter (\<lambda>sid. live L ns now db sid = None) (map fst ms),
         sought \<in> set (filter (\<lambda>sid. live L ns now db sid \<noteq> None) (map fst ms)))"
  using assms(2)
proof (induction ms)
  case (Cons m ms)
  obtain sid score where m: "m = (sid, score)" by fastforce
  show ?case
  proof (cases "live L ns now db sid")
    case None
    with Cons m core show ?thesis by (simp add: load_session_live)
  next
    case (Some row)
    with Cons m core have "row_user row = user" "row_created row = score" by auto
    with Cons m core Some show ?thesis by (auto simp: load_session_live item_def)
  qed
qed simp

lemma scan_index:
  assumes "store_core L ns now db"
  shows "scan_members L ns now db user sought (members ns db user) =
    Inr (map (item L ns now db) (live_ids L ns now db user),
         filter (\<lambda>sid. live L ns now db sid = None) (map fst (members ns db user)),
         sought \<in> set (live_ids L ns now db user))"
  unfolding live_ids_def
  by (rule scan_members_ok [OF assms]) (auto simp: store_core_member [OF assms])

lemma live_ids_iff:
  assumes "store_core L ns now db"
  shows "sid \<in> set (live_ids L ns now db user) \<longleftrightarrow> (\<exists>row. live L ns now db sid = Some row \<and> row_user row = user)"
proof (cases "live L ns now db sid")
  case (Some row)
  have "sid \<in> fst ` set (members ns db user) \<longleftrightarrow> (\<exists>score. (sid, score) \<in> set (members ns db user))" by force
  with Some store_core_member [OF assms Some] show ?thesis by (auto simp: live_ids_def)
qed (simp add: live_ids_def)

lemma live_ids_distinct: "store_core L ns now db \<Longrightarrow> distinct (live_ids L ns now db user)"
  using store_core_zset by (auto simp: live_ids_def zset_ok_def)

section \<open>Removing a session\<close>

text \<open>The script always deletes a session's key and its index entry together.\<close>

definition remove_session :: "namespace \<Rightarrow> string \<Rightarrow> string \<Rightarrow> db \<Rightarrow> db" where
  "remove_session ns user sid db = zrem (ukey ns user) sid (redis_del (skey ns sid) db)"

lemma drop_stale_fold: "drop_stale ns (ukey ns user) sids db = fold (remove_session ns user) sids db"
  by (induction sids arbitrary: db) (simp_all add: remove_session_def)

text \<open>Keys of sessions and of indexes do not meet.\<close>

locale key_space =
  fixes ns :: namespace
  assumes skey_inject: "skey ns a = skey ns b \<Longrightarrow> a = b"
    and ukey_inject: "ukey ns a = ukey ns b \<Longrightarrow> a = b"
    and skey_ukey: "skey ns a \<noteq> ukey ns b"
begin

lemma skey_eq [simp]: "skey ns a = skey ns b \<longleftrightarrow> a = b"
  using skey_inject by blast

lemma ukey_eq [simp]: "ukey ns a = ukey ns b \<longleftrightarrow> a = b"
  using ukey_inject by blast

lemma skey_ukey' [simp]: "skey ns a \<noteq> ukey ns b" "ukey ns b \<noteq> skey ns a"
  using skey_ukey by (simp, metis)

lemma zrem_other [simp]: "k \<noteq> index \<Longrightarrow> zrem index m db k = db k"
  by (auto simp: zrem_def Let_def split: option.splits redis_value.splits)

lemma remove_session_skey [simp]:
  "remove_session ns user sid db (skey ns sid') = (if sid' = sid then None else db (skey ns sid'))"
  by (simp add: remove_session_def redis_del_def)

lemma remove_session_ukey [simp]:
  "user' \<noteq> user \<Longrightarrow> remove_session ns user sid db (ukey ns user') = db (ukey ns user')"
  by (simp add: remove_session_def redis_del_def)

lemma remove_session_other:
  "\<forall>sid. k \<noteq> skey ns sid \<Longrightarrow> k \<noteq> ukey ns user \<Longrightarrow> remove_session ns user sid db k = db k"
  by (simp add: remove_session_def redis_del_def)

lemma live_remove_session [simp]:
  "live L ns now (remove_session ns user sid db) = (live L ns now db)(sid := None)"
  by (rule ext) (simp add: live_def)

lemma raw_of_remove_session [simp]:
  "sid' \<noteq> sid \<Longrightarrow> raw_of ns (remove_session ns user sid db) sid' = raw_of ns db sid'"
  by (simp add: raw_of_def)

lemma members_remove_session [simp]:
  "members ns (remove_session ns user sid db) user' =
     (if user' = user then filter (\<lambda>(n, t). n \<noteq> sid) (members ns db user') else members ns db user')"
  by (auto simp: members_def remove_session_def redis_del_def zrem_def Let_def
      split: option.splits redis_value.splits)

lemma index_expiry_remove_session:
  "index_expiry ns (remove_session ns user sid db) user' = Some e \<Longrightarrow> index_expiry ns db user' = Some e"
  by (auto simp: index_expiry_def remove_session_def redis_del_def zrem_def Let_def
      split: option.splits redis_value.splits if_splits)

lemma remove_session_core:
  assumes "store_core L ns now db"
  shows "store_core L ns now (remove_session ns user sid db)"
proof -
  have "\<And>sid' v x. remove_session ns user sid db (skey ns sid') = Some (v, x) \<Longrightarrow> session_key_ok L now sid' v x"
    using store_core_key [OF assms] by (auto split: if_splits)
  moreover have "v = RZset (members ns (remove_session ns user sid db) user')"
    if r: "remove_session ns user sid db (ukey ns user') = Some (v, x)" for user' v x
  proof (cases "user' = user")
    case False
    with r store_core_index [OF assms] show ?thesis by simp
  next
    case True
    with r show ?thesis
      using store_core_index [OF assms, of user]
      by (auto simp: remove_session_def redis_del_def zrem_def Let_def members_def split: option.splits redis_value.splits if_splits)
  qed
  moreover have "zset_ok (members ns (remove_session ns user sid db) user')" for user'
    using store_core_zset [OF assms] zset_ok_filter by simp
  moreover have "((sid', score) \<in> set (members ns (remove_session ns user sid db) user')
      \<longleftrightarrow> user' = row_user row \<and> score = row_created row)"
    if "live L ns now (remove_session ns user sid db) sid' = Some row" for sid' row user' score
    using that store_core_member [OF assms, of sid' row score user'] by (auto split: if_splits)
  ultimately show ?thesis unfolding store_core_def by blast
qed

lemma remove_session_lasts:
  "index_lasts L ns now db user' \<Longrightarrow> index_lasts L ns now (remove_session ns user sid db) user'"
  by (auto simp: index_lasts_def dest!: index_expiry_remove_session split: if_splits)

lemma remove_session_ok: "store_ok L ns now db \<Longrightarrow> store_ok L ns now (remove_session ns user sid db)"
  by (simp add: store_ok_def remove_session_core remove_session_lasts)

lemma remove_sessions:
  shows "store_ok L ns now db \<Longrightarrow> store_ok L ns now (fold (remove_session ns user) sids db)"
    and "live L ns now (fold (remove_session ns user) sids db) = (live L ns now db) |` (- set sids)"
    and "sid \<notin> set sids \<Longrightarrow> raw_of ns (fold (remove_session ns user) sids db) sid = raw_of ns db sid"
    and "members ns (fold (remove_session ns user) sids db) user' =
      (if user' = user then filter (\<lambda>(n, t). n \<notin> set sids) (members ns db user') else members ns db user')"
proof (induction sids arbitrary: db)
  case (Cons s sids)
  {
    case 1
    then show ?case using Cons.IH(1) remove_session_ok by simp
  next
    case 2
    show ?case by (rule ext) (simp add: Cons.IH(2) restrict_map_def)
  next
    case 3
    then show ?case using Cons.IH(3) by simp
  next
    case 4
    show ?case by (auto simp: Cons.IH(4) intro!: filter_cong)
  }
qed (auto simp: restrict_map_def)

end

section \<open>Writing a session\<close>

text \<open>
  What the store relies on of \<open>cjson\<close>: a row it encoded decodes to itself. Numbers are written with
  14 digits, so this is asked only of times below \<open>10 ^ 14\<close> (the year 5138).
\<close>

definition encodes :: "script_lib \<Rightarrow> bool" where
  "encodes L \<longleftrightarrow> (\<forall>row. row_version row = 1 \<longrightarrow> 0 < row_created row \<longrightarrow> row_created row < row_expires row \<longrightarrow> row_expires row < 10 ^ 14 \<longrightarrow>
     lib_decode L (lib_encode L row) = Some row)"

context key_space
begin

lemma set_px_session:
  assumes "lib_decode L raw = Some row" "row_expires row = now + ttl" "0 < ttl"
  shows "live L ns now (set_px (skey ns sid) raw now ttl db) = (live L ns now db)(sid \<mapsto> row)"
    and "raw_of ns (set_px (skey ns sid) raw now ttl db) sid' = (if sid' = sid then raw else raw_of ns db sid')"
    and "members ns (set_px (skey ns sid) raw now ttl db) user = members ns db user"
    and "index_expiry ns (set_px (skey ns sid) raw now ttl db) user = index_expiry ns db user"
  using assms by (auto simp: live_def raw_of_def members_def index_expiry_def set_px_def fun_eq_iff)

lemma renew_session_core:
  assumes core: "store_core L ns now db" and old: "live L ns now db sid = Some row0"
    and row: "row = row0\<lparr>row_expires := now + ttl\<rparr>" and raw: "lib_decode L raw = Some row"
    and ttl: "0 < ttl" "now + ttl < 10 ^ 14"
  shows "store_core L ns now (set_px (skey ns sid) raw now ttl db)"
    and "user \<noteq> row_user row0 \<Longrightarrow> index_lasts L ns now db user \<Longrightarrow>
      index_lasts L ns now (set_px (skey ns sid) raw now ttl db) user"
proof -
  have exp: "row_expires row = now + ttl" using row by simp
  note sets = set_px_session [OF raw exp ttl(1)]
  have valid0: "row_valid L now sid row0" using live_row_valid [OF core old] .
  then have valid: "row_valid L now sid row" using row ttl by (auto simp: row_valid_def)
  have "session_key_ok L now sid' v x"
    if "set_px (skey ns sid) raw now ttl db (skey ns sid') = Some (v, x)" for sid' v x
    using that store_core_key [OF core, of sid'] valid raw exp
    by (auto simp: set_px_def session_key_ok_def split: if_splits)
  moreover have "v = RZset (members ns (set_px (skey ns sid) raw now ttl db) user)"
    if "set_px (skey ns sid) raw now ttl db (ukey ns user) = Some (v, x)" for user v x
    using that store_core_index [OF core, of user] sets(3) by (simp add: set_px_def)
  moreover have "(sid', score) \<in> set (members ns db user) \<longleftrightarrow> user = row_user row' \<and> score = row_created row'"
    if "live L ns now (set_px (skey ns sid) raw now ttl db) sid' = Some row'" for sid' row' user score
    using that store_core_member [OF core, of sid' row'] store_core_member [OF core old] row sets(1)
    by (auto split: if_splits)
  ultimately show "store_core L ns now (set_px (skey ns sid) raw now ttl db)"
    using store_core_zset [OF core] unfolding store_core_def sets(3) by blast
  show "user \<noteq> row_user row0 \<Longrightarrow> index_lasts L ns now db user \<Longrightarrow>
      index_lasts L ns now (set_px (skey ns sid) raw now ttl db) user"
    using row by (auto simp: index_lasts_def sets(1,4) split: if_splits)
qed

lemma zadd_index:
  assumes "store_core L ns now db"
  shows "live L ns now (zadd (ukey ns user) score m db) = live L ns now db"
    and "raw_of ns (zadd (ukey ns user) score m db) sid = raw_of ns db sid"
    and "set (members ns (zadd (ukey ns user) score m db) user') =
      (if user' = user then insert (m, score) {(n, t) \<in> set (members ns db user). n \<noteq> m} else set (members ns db user'))"
    and "zset_ok (members ns (zadd (ukey ns user) score m db) user')"
    and "zadd (ukey ns user) score m db (ukey ns user') = Some (v, x) \<Longrightarrow>
      v = RZset (members ns (zadd (ukey ns user) score m db) user')"
    and "index_expiry ns (zadd (ukey ns user) score m db) user' = index_expiry ns db user'"
proof -
  let ?db = "zadd (ukey ns user) score m db"
  have other [simp]: "k \<noteq> ukey ns user \<Longrightarrow> ?db k = db k" for k
    by (auto simp: zadd_def split: option.splits redis_value.splits)
  have zput1: "zset_put m score [] = [(m, score)]" by (simp add: zset_put_def)
  have self: "?db (ukey ns user) = Some (RZset (zset_put m score (members ns db user)), index_expiry ns db user)"
    using store_core_index [OF assms, of user] zput1
    by (cases "db (ukey ns user)") (auto simp: zadd_def members_def index_expiry_def split: redis_value.splits)
  have mems: "members ns ?db user' = (if user' = user then zset_put m score (members ns db user') else members ns db user')" for user'
    by (cases "user' = user") (simp_all add: members_def self)
  show "live L ns now ?db = live L ns now db" "raw_of ns ?db sid = raw_of ns db sid"
    by (simp_all add: live_def raw_of_def fun_eq_iff)
  show "set (members ns ?db user') =
      (if user' = user then insert (m, score) {(n, t) \<in> set (members ns db user). n \<noteq> m} else set (members ns db user'))"
    by (simp add: mems set_zset_put)
  show "zset_ok (members ns ?db user')"
    using store_core_zset [OF assms] zset_ok_put by (simp add: mems)
  show "v = RZset (members ns ?db user')" if "?db (ukey ns user') = Some (v, x)"
    using that store_core_index [OF assms, of user'] self mems by (cases "user' = user") auto
  show "index_expiry ns ?db user' = index_expiry ns db user'"
    using self by (cases "user' = user") (simp_all add: index_expiry_def)
qed

lemma create_session_core:
  assumes core: "store_core L ns now db"
    and raw: "lib_decode L raw = Some row" and valid: "row_valid L now sid row"
    and exp: "row_expires row = now + ttl" "0 < ttl" and created: "row_created row = now"
    and fresh: "\<forall>user. user \<noteq> row_user row \<longrightarrow> sid \<notin> fst ` set (members ns db user)"
  defines "db' \<equiv> zadd (ukey ns (row_user row)) now sid (set_px (skey ns sid) raw now ttl db)"
  shows "store_core L ns now db'"
    and "live L ns now db' = (live L ns now db)(sid \<mapsto> row)"
    and "raw_of ns db' sid' = (if sid' = sid then raw else raw_of ns db sid')"
    and "user \<noteq> row_user row \<Longrightarrow> index_lasts L ns now db user \<Longrightarrow> index_lasts L ns now db' user"
proof -
  let ?db1 = "set_px (skey ns sid) raw now ttl db"
  note sets = set_px_session [OF raw exp]
  have key: "session_key_ok L now sid' v x" if "?db1 (skey ns sid') = Some (v, x)" for sid' v x
    using that store_core_key [OF core, of sid'] valid raw exp
    by (auto simp: set_px_def session_key_ok_def split: if_splits)
  let ?db0 = "db(skey ns sid := None)"
  have core0: "store_core L ns now ?db0"
  proof -
    have m: "members ns ?db0 user = members ns db user" for user by (simp add: members_def)
    have l: "live L ns now ?db0 = (live L ns now db)(sid := None)" by (simp add: live_def fun_eq_iff)
    show ?thesis using core unfolding store_core_def m l by (auto split: if_splits)
  qed
  have same: "db' (ukey ns user) = zadd (ukey ns (row_user row)) now sid ?db0 (ukey ns user)" for user
    by (simp add: db'_def zadd_def set_px_def split: option.splits redis_value.splits)
  have skeys: "db' (skey ns sid') = ?db1 (skey ns sid')" for sid'
    by (auto simp: db'_def zadd_def split: option.splits redis_value.splits)
  have m0: "members ns ?db0 user = members ns db user" for user by (simp add: members_def)
  note z = zadd_index [OF core0, where user = "row_user row" and score = now and m = sid]
  have mems: "members ns db' user = members ns (zadd (ukey ns (row_user row)) now sid ?db0) user" for user
    by (rule agree_index(1)) (rule same)
  have "live L ns now db' = live L ns now ?db1" by (simp add: live_def skeys fun_eq_iff)
  then show l: "live L ns now db' = (live L ns now db)(sid \<mapsto> row)" by (simp only: sets(1))
  have "raw_of ns db' sid' = raw_of ns ?db1 sid'" by (simp add: raw_of_def skeys)
  then show "raw_of ns db' sid' = (if sid' = sid then raw else raw_of ns db sid')" by (simp only: sets(2))
  have "(sid', score) \<in> set (members ns db' user) \<longleftrightarrow> user = row_user row' \<and> score = row_created row'"
    if "live L ns now db' sid' = Some row'" for sid' row' user score
  proof (cases "sid' = sid")
    case True
    with that l have "row' = row" by simp
    moreover have "user \<noteq> row_user row \<Longrightarrow> (sid, score) \<notin> set (members ns db user)" using fresh by force
    ultimately show ?thesis using True created by (auto simp: mems z(3) m0)
  next
    case False
    with that l store_core_member [OF core, of sid' row' score user] show ?thesis by (auto simp: mems z(3) m0)
  qed
  moreover have "v = RZset (members ns db' user)" if "db' (ukey ns user) = Some (v, x)" for user v x
    using that z(5) by (simp add: same mems)
  moreover have "zset_ok (members ns db' user)" for user by (simp add: mems z(4))
  ultimately show "store_core L ns now db'"
    using key skeys unfolding store_core_def by metis
  have "index_expiry ns db' user = index_expiry ns db user"
  proof -
    have "index_expiry ns db' user = index_expiry ns (zadd (ukey ns (row_user row)) now sid ?db0) user"
      by (rule agree_index(2)) (rule same)
    then show ?thesis by (simp add: z(6)) (simp add: index_expiry_def)
  qed
  then show "user \<noteq> row_user row \<Longrightarrow> index_lasts L ns now db user \<Longrightarrow> index_lasts L ns now db' user"
    by (auto simp: index_lasts_def l split: if_splits)
qed

section \<open>The index's expiry\<close>

lemma touch_index_other [simp]: "k \<noteq> index \<Longrightarrow> touch_index now index active db k = db k"
  by (auto simp: touch_index_def Let_def pexpireat_def redis_del_def split: option.splits)

lemma touch_index_ok:
  assumes core: "store_core L ns now db"
    and others: "\<And>user'. user' \<noteq> user \<Longrightarrow> index_lasts L ns now db user'"
    and covers: "\<And>sid row. live L ns now db sid = Some row \<Longrightarrow> row_user row = user \<Longrightarrow> row_expires row \<le> max_expires active"
  shows "store_ok L ns now (touch_index now (ukey ns user) active db)"
    and "live L ns now (touch_index now (ukey ns user) active db) = live L ns now db"
    and "raw_of ns (touch_index now (ukey ns user) active db) sid = raw_of ns db sid"
proof -
  let ?db = "touch_index now (ukey ns user) active db"
  show l: "live L ns now ?db = live L ns now db" and "raw_of ns ?db sid = raw_of ns db sid"
    by (simp_all add: live_def raw_of_def fun_eq_iff)
  have mo: "members ns ?db user' = members ns db user'" "index_expiry ns ?db user' = index_expiry ns db user'"
    if "user' \<noteq> user" for user'
    using that by (simp_all add: members_def index_expiry_def)
  show "store_ok L ns now ?db"
  proof (cases "max_expires active > now")
    case True
    then have m: "members ns ?db user' = members ns db user'" for user'
      by (cases "user' = user")
        (auto simp: mo touch_index_def Let_def pexpireat_def members_def split: option.splits)
    have e: "index_expiry ns ?db user = Some e \<Longrightarrow> e = max_expires active" for e
      using True by (auto simp: index_expiry_def touch_index_def pexpireat_def split: option.splits)
    have "v = RZset (members ns db user')" if "?db (ukey ns user') = Some (v, x)" for user' v x
      using that store_core_index [OF core, of user'] True
      by (cases "user' = user") (auto simp: touch_index_def pexpireat_def split: option.splits)
    then have "store_core L ns now ?db"
      using core unfolding store_core_def l m by auto
    moreover have "index_lasts L ns now ?db user'" for user'
    proof (cases "user' = user")
      case True
      then show ?thesis using covers e unfolding index_lasts_def l by metis
    next
      case False
      with others [of user'] show ?thesis by (simp add: index_lasts_def l mo)
    qed
    ultimately show ?thesis by (simp add: store_ok_def)
  next
    case False
    have none: "live L ns now db sid = Some row \<Longrightarrow> row_user row \<noteq> user" for sid row
      using covers [of sid row] False by (auto simp: live_Some)
    have del: "?db = db(ukey ns user := None)" using False by (simp add: touch_index_def redis_del_def)
    then have m: "members ns ?db user = []" by (simp add: members_def)
    have mem: "set (members ns ?db user') = (if user' = user then {} else set (members ns db user'))" for user'
      by (simp add: m mo)
    have "(sid, score) \<in> set (members ns ?db user') \<longleftrightarrow> user' = row_user row \<and> score = row_created row"
      if "live L ns now ?db sid = Some row" for sid row user' score
      using that store_core_member [OF core, of sid row score user'] none [of sid row] by (auto simp: l mem)
    moreover have "zset_ok (members ns ?db user')" for user'
      using store_core_zset [OF core, of user'] by (cases "user' = user") (simp_all add: m mo zset_ok_def)
    moreover have "v = RZset (members ns ?db user')" if "?db (ukey ns user') = Some (v, x)" for user' v x
      using that store_core_index [OF core, of user'] del mo by (cases "user' = user") auto
    moreover have "?db (skey ns sid) = db (skey ns sid)" for sid by simp
    ultimately have "store_core L ns now ?db"
      using store_core_key [OF core] unfolding store_core_def by metis
    moreover have "index_lasts L ns now ?db user'" for user'
      using others [of user'] none by (cases "user' = user") (auto simp: index_lasts_def l mo)
    ultimately show ?thesis by (simp add: store_ok_def)
  qed
qed

end

end
