(* ===== verification/SessionRefine.thy ===== *)
theory SessionRefine
  imports SessionInvariant
begin

text \<open>
  The abstract session store and the refinement: a run of the script on a database that satisfies
  \<open>store_ok\<close> is a step of \<open>session_spec\<close> on the map of live sessions, and leaves \<open>store_ok\<close>.
\<close>

section \<open>Time\<close>

lemma row_valid_later: "row_valid L now sid row \<Longrightarrow> now \<le> now' \<Longrightarrow> row_valid L now' sid row"
  by (auto simp: row_valid_def)

lemma expire_Some:
  "expire now db k = Some (v, x) \<longleftrightarrow> db k = Some (v, x) \<and> (\<forall>e. x = Some e \<longrightarrow> now \<le> e)"
  by (auto simp: expire_def split: option.splits)

lemma expire_None: "expire now db k = None \<longleftrightarrow> db k = None \<or> (\<exists>v e. db k = Some (v, Some e) \<and> e < now)"
  by (auto simp: expire_def split: option.splits)

lemma live_expire:
  assumes "store_core L ns now db" and "now \<le> now'"
  shows "live L ns now' (expire now' db) sid = live L ns now' db sid"
    and "live L ns now' db sid = (case live L ns now db sid of
      Some row \<Rightarrow> if now' < row_expires row then Some row else None | None \<Rightarrow> None)"
proof -
  have key: "x = Some (row_expires row)"
    if "db (skey ns sid) = Some (RString raw, x)" "lib_decode L raw = Some row" for raw x row
    using store_core_key [OF assms(1) that(1)] that(2) by (simp add: session_key_ok_def)
  have "live L ns now' (expire now' db) sid = Some row \<longleftrightarrow> live L ns now' db sid = Some row" for row
    by (fastforce simp: live_Some expire_Some dest: key)
  then show "live L ns now' (expire now' db) sid = live L ns now' db sid"
    by (metis not_Some_eq)
  show "live L ns now' db sid = (case live L ns now db sid of
      Some row \<Rightarrow> if now' < row_expires row then Some row else None | None \<Rightarrow> None)"
    using assms(2) by (auto simp: live_def split: option.splits redis_value.splits)
qed

lemma store_ok_expire:
  assumes ok: "store_ok L ns now db" and "now \<le> now'"
  shows "store_ok L ns now' (expire now' db)"
proof -
  have core: "store_core L ns now db" and lasts: "\<And>user. index_lasts L ns now db user"
    using ok by (simp_all add: store_ok_def)
  let ?db = "expire now' db"
  have alive: "live L ns now db sid = Some row \<and> now' < row_expires row" if "live L ns now' ?db sid = Some row" for sid row
    using that live_expire [OF core assms(2), of sid] by (auto split: option.splits if_splits)
  have key: "session_key_ok L now' sid v x" if "?db (skey ns sid) = Some (v, x)" for sid v x
    using that store_core_key [OF core, of sid v x] row_valid_later [OF _ assms(2)]
    by (auto simp: expire_Some session_key_ok_def split: redis_value.splits option.splits)
  have mems: "members ns ?db user = (if ?db (ukey ns user) = None then [] else members ns db user)" for user
    by (auto simp: members_def expire_def split: option.splits)
  have kept: "?db (ukey ns user) \<noteq> None" if l: "live L ns now' ?db sid = Some row" and u: "row_user row = user" for sid row user
  proof
    assume none: "?db (ukey ns user) = None"
    have "(sid, row_created row) \<in> set (members ns db user)"
      using store_core_member [OF core, of sid row "row_created row" user] alive [OF l] u by simp
    then have "db (ukey ns user) \<noteq> None" by (cases "db (ukey ns user)") (simp_all add: members_def)
    with none obtain v e where e: "db (ukey ns user) = Some (v, Some e)" "e < now'" by (auto simp: expire_None)
    then have "index_expiry ns db user = Some e" by (simp add: index_expiry_def)
    with lasts [of user] alive [OF l] u have "row_expires row \<le> e" by (auto simp: index_lasts_def)
    with alive [OF l] e(2) show False by simp
  qed
  have "(sid, score) \<in> set (members ns ?db user) \<longleftrightarrow> user = row_user row \<and> score = row_created row"
    if l: "live L ns now' ?db sid = Some row" for sid row user score
    using store_core_member [OF core, of sid row score user] alive [OF l] kept [OF l] by (auto simp: mems)
  moreover have "zset_ok (members ns ?db user)" for user
    using store_core_zset [OF core, of user] by (simp add: mems zset_ok_def)
  moreover have "v = RZset (members ns ?db user)" if "?db (ukey ns user) = Some (v, x)" for user v x
    using that store_core_index [OF core, of user v x] expire_Some [of now' db "ukey ns user" v x] by (simp add: mems)
  ultimately have "store_core L ns now' ?db"
    using key unfolding store_core_def by metis
  moreover have "index_lasts L ns now' ?db user" for user
  proof -
    have "index_expiry ns ?db user = Some e \<Longrightarrow> index_expiry ns db user = Some e" for e
      by (auto simp: index_expiry_def expire_def split: option.splits if_splits)
    with lasts [of user] alive show ?thesis unfolding index_lasts_def by metis
  qed
  ultimately show ?thesis by (simp add: store_ok_def)
qed

section \<open>The keys of a project are a key space\<close>

lemma accepted_key_space:
  assumes "separator_ok (delimiter b)"
  shows "key_space (namespace_of b scope)"
proof -
  have s: "skey (namespace_of b scope) a = key_prefix b scope ''session'' @ escape b a"
    and u: "ukey (namespace_of b scope) a = key_prefix b scope ''user_sessions'' @ escape b a" for a
    by (simp_all add: skey_def ukey_def namespace_of_def escape_def)
  show ?thesis
  proof (unfold_locales, goal_cases)
    case (1 a c)
    then show ?case unfolding s using escape_with_inject by (auto simp: escape_def)
  next
    case (2 a c)
    then show ?case unfolding u using escape_with_inject by (auto simp: escape_def)
  next
    case (3 a c)
    show ?case unfolding s u using key_prefix_parts [OF assms] by fastforce
  qed
qed

lemma default_separator_ok: "separator_ok (delimiter \<lparr>kb_separator = '':''\<rparr>)"
  by (simp add: delimiter_def separator_ok_def separator_byte_def)

interpretation default_keys: key_space "namespace_of \<lparr>kb_separator = '':''\<rparr> scope" for scope
  by (rule accepted_key_space [OF default_separator_ok])

section \<open>The abstract store\<close>

type_synonym sessions = "string \<rightharpoonup> session_row"

definition oldest_first :: "sessions \<Rightarrow> string \<Rightarrow> string list \<Rightarrow> bool" where
  "oldest_first st user ids \<longleftrightarrow> distinct ids
     \<and> set ids = {sid. \<exists>row. st sid = Some row \<and> row_user row = user}
     \<and> sorted (map (\<lambda>sid. (row_created (the (st sid)), sid)) ids)"

datatype session_reply = Found "session_row list" | Missing | Taken

text \<open>
  What each operation promises, on the sessions in force at the time it runs. Creating a session
  removes as many of the user's oldest sessions as are above \<open>limit - 1\<close>.
\<close>

inductive session_spec :: "script_lib \<Rightarrow> int \<Rightarrow> script_args \<Rightarrow> sessions \<Rightarrow> session_reply \<Rightarrow> sessions \<Rightarrow> bool"
  for L now a st where
  spec_lookup: "sa_op a = OpLookup \<Longrightarrow> st (sa_id a) = Some row \<Longrightarrow> session_spec L now a st (Found [row]) st"
| spec_renew: "sa_op a = OpRenew \<Longrightarrow> st (sa_id a) = Some row \<Longrightarrow> row' = row\<lparr>row_expires := now + sa_ttl a\<rparr> \<Longrightarrow>
    session_spec L now a st (Found [row']) (st(sa_id a \<mapsto> row'))"
| spec_revoke: "sa_op a = OpRevoke \<Longrightarrow> st (sa_id a) = Some row \<Longrightarrow>
    session_spec L now a st (Found []) (st(sa_id a := None))"
| spec_missing: "sa_op a \<in> {OpLookup, OpRenew, OpRevoke} \<Longrightarrow> st (sa_id a) = None \<Longrightarrow> session_spec L now a st Missing st"
| spec_list: "sa_op a = OpList \<Longrightarrow> oldest_first st (sa_user a) ids \<Longrightarrow>
    session_spec L now a st (Found (map (the \<circ> st) ids)) st"
| spec_revoke_user: "sa_op a = OpRevokeUser \<Longrightarrow> oldest_first st (sa_user a) ids \<Longrightarrow>
    session_spec L now a st (Found []) (st |` (- set ids))"
| spec_create: "sa_op a = OpCreate \<Longrightarrow> st (sa_id a) = None \<Longrightarrow> oldest_first st (sa_user a) ids \<Longrightarrow>
    session_spec L now a st (Found [new_row L now a])
      ((st |` (- set (take (length ids - nat (sa_limit a - 1)) ids)))(sa_id a \<mapsto> new_row L now a))"
| spec_taken: "sa_op a = OpCreate \<Longrightarrow> session_spec L now a st Taken st"

text \<open>The reply of the script carries the encoded rows.\<close>

definition reply_of :: "script_lib \<Rightarrow> reply \<Rightarrow> session_reply \<Rightarrow> bool" where
  "reply_of L r s = (case (r, s) of
     (ReplyOk raws, Found rows) \<Rightarrow> map (lib_decode L) raws = map Some rows
   | (ReplyMissing, Missing) \<Rightarrow> True
   | (ReplyCollision, Taken) \<Rightarrow> True
   | _ \<Rightarrow> False)"

section \<open>The script under the invariant\<close>

lemma oldest_first_live_ids:
  assumes core: "store_core L ns now db"
  shows "oldest_first (live L ns now db) user (live_ids L ns now db user)"
proof -
  let ?ms = "filter (\<lambda>m. live L ns now db (fst m) \<noteq> None) (members ns db user)"
  have ids: "live_ids L ns now db user = map fst ?ms"
    by (simp add: live_ids_def filter_map comp_def)
  have "sorted (map (\<lambda>(m, s). (s, m)) ?ms)"
    using zset_ok_filter [OF store_core_zset [OF core]] by (simp add: zset_ok_def)
  moreover have "map (\<lambda>(m, s). (s, m)) ?ms = map (\<lambda>sid. (row_created (the (live L ns now db sid)), sid)) (map fst ?ms)"
    using store_core_member [OF core] by (auto simp: comp_def)
  ultimately have "sorted (map (\<lambda>sid. (row_created (the (live L ns now db sid)), sid)) (live_ids L ns now db user))"
    unfolding ids by (simp only:)
  then show ?thesis
    using live_ids_distinct [OF core] live_ids_iff [OF core] by (auto simp: oldest_first_def)
qed

lemma max_expires_ge: "it \<in> set items \<Longrightarrow> row_expires (it_row it) \<le> max_expires items"
proof -
  have "m \<le> fold (\<lambda>item m. max m (row_expires (it_row item))) items m
      \<and> (\<forall>it \<in> set items. row_expires (it_row it) \<le> fold (\<lambda>item m. max m (row_expires (it_row item))) items m)" for m
  proof (induction items arbitrary: m)
    case (Cons i items)
    from Cons [of "max m (row_expires (it_row i))"] show ?case by auto
  qed simp
  then show "it \<in> set items \<Longrightarrow> row_expires (it_row it) \<le> max_expires items"
    unfolding max_expires_def by blast
qed


context key_space
begin

text \<open>The database after the stale entries of the index are dropped.\<close>

definition settled :: "script_lib \<Rightarrow> int \<Rightarrow> db \<Rightarrow> string \<Rightarrow> db" where
  "settled L now db user = fold (remove_session ns user)
     (filter (\<lambda>sid. live L ns now db sid = None) (map fst (members ns db user))) db"

lemma settled_facts:
  assumes "store_ok L ns now db"
  shows "store_ok L ns now (settled L now db user)"
    and "live L ns now (settled L now db user) = live L ns now db"
    and "live L ns now db sid \<noteq> None \<Longrightarrow> item L ns now (settled L now db user) sid = item L ns now db sid"
    and "live_ids L ns now (settled L now db user) user = live_ids L ns now db user"
    and "user' \<noteq> user \<Longrightarrow> members ns (settled L now db user) user' = members ns db user'"
proof -
  let ?stale = "filter (\<lambda>sid. live L ns now db sid = None) (map fst (members ns db user))"
  show "store_ok L ns now (settled L now db user)"
    unfolding settled_def by (rule remove_sessions(1) [OF assms])
  show l: "live L ns now (settled L now db user) = live L ns now db"
    unfolding settled_def remove_sessions(2) by (auto simp: restrict_map_def fun_eq_iff)
  show "live L ns now db sid \<noteq> None \<Longrightarrow> item L ns now (settled L now db user) sid = item L ns now db sid"
    using remove_sessions(3) [of sid ?stale user db] by (simp add: item_def l) (simp add: settled_def)
  have m: "members ns (settled L now db user) user'' =
      (if user'' = user then filter (\<lambda>(n, t). n \<notin> set ?stale) (members ns db user'') else members ns db user'')" for user''
    unfolding settled_def by (rule remove_sessions(4))
  show "live_ids L ns now (settled L now db user) user = live_ids L ns now db user"
    unfolding live_ids_def l m by (force simp: filter_map comp_def case_prod_beta intro!: arg_cong [where f = "map fst"] filter_cong)
  show "user' \<noteq> user \<Longrightarrow> members ns (settled L now db user) user' = members ns db user'"
    by (simp add: m)
qed

lemma settled_items:
  assumes "store_ok L ns now db"
  shows "map (item L ns now db) (live_ids L ns now db user) =
    map (item L ns now (settled L now db user)) (live_ids L ns now (settled L now db user) user)"
proof -
  have "live L ns now db sid \<noteq> None" if "sid \<in> set (live_ids L ns now db user)" for sid
    using that by (simp add: live_ids_def)
  then show ?thesis by (simp add: settled_facts [OF assms])
qed

text \<open>Past the checks, the script is its write phase on the settled database.\<close>

lemma script_write_phase:
  assumes ok: "store_ok L ns now (expire now db0)"
    and find: "find_target L ns now (expire now db0) a = Inr target"
    and user: "user = (case target of None \<Rightarrow> sa_user a | Some it \<Rightarrow> row_user (it_row it))"
  shows "session_script L ns now a db0 =
    write_phase L now (ukey ns user) a target
      (map (item L ns now (settled L now (expire now db0) user)) (live_ids L ns now (settled L now (expire now db0) user) user))
      (settled L now (expire now db0) user)"
proof -
  let ?db = "expire now db0"
  have core: "store_core L ns now ?db" using ok by (simp add: store_ok_def)
  have found: "sa_id a \<in> set (live_ids L ns now ?db user)" if t: "target \<noteq> None"
  proof -
    from t find have "live L ns now ?db (sa_id a) \<noteq> None \<and> target = Some (item L ns now ?db (sa_id a))"
      by (auto simp: find_target_def load_session_live [OF core] split: session_op.splits if_splits)
    with user show ?thesis by (auto simp: live_ids_iff [OF core] item_def)
  qed
  have "session_script L ns now a db0 = write_phase L now (ukey ns user) a target
      (map (item L ns now ?db) (live_ids L ns now ?db user)) (settled L now ?db user)"
    using found unfolding session_script_def Let_def find
    by (auto simp: user [symmetric] index_members_ok [OF core] scan_index [OF core] drop_stale_fold settled_def)
  then show ?thesis by (simp only: settled_items [OF ok])
qed

text \<open>Touching the index of a user whose live sessions are the active ones.\<close>

lemma touch_live:
  assumes core: "store_core L ns now db"
    and others: "\<And>user'. user' \<noteq> user \<Longrightarrow> index_lasts L ns now db user'"
    and active: "\<And>sid row. live L ns now db sid = Some row \<Longrightarrow> row_user row = user \<Longrightarrow>
      \<exists>it \<in> set active. row_expires (it_row it) = row_expires row"
  shows "store_ok L ns now (touch_index now (ukey ns user) active db)"
    and "live L ns now (touch_index now (ukey ns user) active db) = live L ns now db"
    and "raw_of ns (touch_index now (ukey ns user) active db) sid = raw_of ns db sid"
proof -
  have "row_expires row \<le> max_expires active" if "live L ns now db sid = Some row" "row_user row = user" for sid row
    using active [OF that] max_expires_ge by fastforce
  from touch_index_ok [OF core others this]
  show "store_ok L ns now (touch_index now (ukey ns user) active db)"
    "live L ns now (touch_index now (ukey ns user) active db) = live L ns now db"
    "raw_of ns (touch_index now (ukey ns user) active db) sid = raw_of ns db sid" by auto
qed

lemma touch_same:
  assumes "store_ok L ns now db"
  shows "store_ok L ns now (touch_index now (ukey ns user) (map (item L ns now db) (live_ids L ns now db user)) db)"
    and "live L ns now (touch_index now (ukey ns user) (map (item L ns now db) (live_ids L ns now db user)) db) = live L ns now db"
proof -
  have core: "store_core L ns now db" and lasts: "\<And>user. index_lasts L ns now db user"
    using assms by (simp_all add: store_ok_def)
  have act: "\<exists>it \<in> set (map (item L ns now db) (live_ids L ns now db user)). row_expires (it_row it) = row_expires row"
    if "live L ns now db sid = Some row" "row_user row = user" for sid row
    using that live_ids_iff [OF core, of sid user] by (force simp: item_def)
  show "store_ok L ns now (touch_index now (ukey ns user) (map (item L ns now db) (live_ids L ns now db user)) db)"
    "live L ns now (touch_index now (ukey ns user) (map (item L ns now db) (live_ids L ns now db user)) db) = live L ns now db"
    using touch_live [OF core lasts act] by simp_all
qed

lemma evict_items:
  assumes "store_core L ns now db0" "1 \<le> limit" "\<forall>sid \<in> set ids. live L ns now db0 sid \<noteq> None"
  shows "evict limit (ukey ns user) (map (item L ns now db0) ids) db =
    (fold (remove_session ns user) (take (length ids - nat (limit - 1)) ids) db,
     map (item L ns now db0) (drop (length ids - nat (limit - 1)) ids))"
  using assms(3)
proof (induction ids arbitrary: db)
  case (Cons sid ids)
  then obtain row where l: "live L ns now db0 sid = Some row" by auto
  have r: "row_id row = sid" using live_row_id [OF assms(1) l] .
  show ?case
  proof (cases "int (length (sid # ids)) \<ge> limit")
    case True
    then have k: "length (sid # ids) - nat (limit - 1) = Suc (length ids - nat (limit - 1))" using assms(2) by auto
    have i: "row_id (it_row (item L ns now db0 sid)) = sid" "it_key (item L ns now db0 sid) = skey ns sid"
      by (simp_all add: item_def l r)
    show ?thesis using Cons True unfolding k by (simp add: i remove_session_def)
  next
    case False
    then have "length (sid # ids) - nat (limit - 1) = 0" by auto
    with False show ?thesis by simp
  qed
qed simp

end

end
