(* ===== verification/SessionTheorems.thy ===== *)
theory SessionTheorems
  imports SessionRefine
begin

text \<open>
  The script refines the abstract store: every operation on a database that satisfies the invariant
  is a step of \<open>session_spec\<close>.
\<close>

definition args_ok :: "script_lib \<Rightarrow> namespace \<Rightarrow> int \<Rightarrow> script_args \<Rightarrow> bool" where
  "args_ok L ns now a \<longleftrightarrow>
     (sa_op a \<in> {OpCreate, OpLookup, OpRenew, OpRevoke} \<longrightarrow> sa_key a = skey ns (sa_id a)) \<and>
     (sa_op a \<in> {OpCreate, OpRenew} \<longrightarrow> 0 < sa_ttl a \<and> now + sa_ttl a < 10 ^ 14) \<and>
     (sa_op a = OpCreate \<longrightarrow> row_valid L now (sa_id a) (new_row L now a) \<and> 1 \<le> sa_limit a)"

text \<open>A new identifier is in no index of another user; it is 256 random bits.\<close>

definition fresh_id :: "namespace \<Rightarrow> db \<Rightarrow> script_args \<Rightarrow> bool" where
  "fresh_id ns db a \<longleftrightarrow> (\<forall>user. user \<noteq> sa_user a \<longrightarrow> sa_id a \<notin> fst ` set (members ns db user))"

definition refines :: "script_lib \<Rightarrow> namespace \<Rightarrow> int \<Rightarrow> script_args \<Rightarrow> sessions \<Rightarrow> reply \<times> db \<Rightarrow> bool" where
  "refines L ns now a st r \<longleftrightarrow> store_ok L ns now (snd r) \<and>
     (\<exists>s. reply_of L (fst r) s \<and> session_spec L now a st s (live L ns now (snd r)))"

lemma raw_of_live: "live L ns now db sid = Some row \<Longrightarrow> lib_decode L (raw_of ns db sid) = Some row"
  by (auto simp: live_Some raw_of_def)

lemma raw_items:
  "\<forall>sid \<in> set ids. live L ns now db sid \<noteq> None \<Longrightarrow>
   map (lib_decode L) (map it_raw (map (item L ns now db) ids)) = map Some (map (the \<circ> live L ns now db) ids)"
  by (auto simp: item_def raw_of_live)

lemma it_row_item: "live L ns now db sid = Some row \<Longrightarrow> it_row (item L ns now db sid) = row"
  by (simp add: item_def)

lemma valid_new_row_times:
  "row_valid L now sid row \<Longrightarrow> row_version row = 1 \<and> 0 < row_created row \<and> row_created row < row_expires row"
  by (simp add: row_valid_def)

context key_space
begin

lemma refine_list:
  assumes ok: "store_ok L ns now db" and op: "sa_op a = OpList" and user: "user = sa_user a"
  shows "refines L ns now a (live L ns now db)
    (write_phase L now (ukey ns user) a None (map (item L ns now db) (live_ids L ns now db user)) db)"
proof -
  have core: "store_core L ns now db" using ok by (simp add: store_ok_def)
  let ?ids = "live_ids L ns now db user"
  have live: "\<forall>sid \<in> set ?ids. live L ns now db sid \<noteq> None" by (simp add: live_ids_def)
  have "reply_of L (ReplyOk (map it_raw (map (item L ns now db) ?ids))) (Found (map (the \<circ> live L ns now db) ?ids))"
    using raw_items [OF live] by (simp add: reply_of_def)
  moreover have "session_spec L now a (live L ns now db) (Found (map (the \<circ> live L ns now db) ?ids)) (live L ns now db)"
    using spec_list [OF op] oldest_first_live_ids [OF core] user by blast
  ultimately show ?thesis
    using touch_same [OF ok] by (auto simp: refines_def write_phase_def op)
qed

lemma refine_lookup:
  assumes ok: "store_ok L ns now db" and op: "sa_op a = OpLookup"
    and st: "live L ns now db (sa_id a) = Some row"
  shows "refines L ns now a (live L ns now db)
    (write_phase L now (ukey ns (row_user row)) a (Some (item L ns now db (sa_id a)))
       (map (item L ns now db) (live_ids L ns now db (row_user row))) db)"
proof -
  have "reply_of L (ReplyOk [it_raw (item L ns now db (sa_id a))]) (Found [row])"
    by (simp add: reply_of_def item_def raw_of_live [OF st])
  then show ?thesis
    using spec_lookup [OF op, of "live L ns now db"] st touch_same [OF ok] by (auto simp: refines_def write_phase_def op)
qed

lemma fold_redis_del:
  "fold (\<lambda>it. redis_del (it_key it)) (map (item L ns now db0) ids) db k =
     (if k \<in> skey ns ` set ids then None else db k)"
  by (induction ids arbitrary: db) (auto simp: item_def redis_del_def)

lemma refine_revoke_user:
  assumes ok: "store_ok L ns now db" and op: "sa_op a = OpRevokeUser" and user: "user = sa_user a"
  shows "refines L ns now a (live L ns now db)
    (write_phase L now (ukey ns user) a None (map (item L ns now db) (live_ids L ns now db user)) db)"
proof -
  have core: "store_core L ns now db" using ok by (simp add: store_ok_def)
  let ?ids = "live_ids L ns now db user"
  define db' where "db' = redis_del (ukey ns user) (fold (\<lambda>it. redis_del (it_key it)) (map (item L ns now db) ?ids) db)"
  have sk: "db' (skey ns sid) = (if sid \<in> set ?ids then None else db (skey ns sid))" for sid
    by (auto simp: db'_def redis_del_def fold_redis_del)
  have uk: "db' (ukey ns u) = (if u = user then None else db (ukey ns u))" for u
    by (auto simp: db'_def redis_del_def fold_redis_del)
  have l: "live L ns now db' = live L ns now db |` (- set ?ids)"
    by (rule ext) (simp add: live_def sk restrict_map_def)
  have m: "members ns db' u = (if u = user then [] else members ns db u)" for u by (simp add: members_def uk)
  have e: "index_expiry ns db' u = (if u = user then None else index_expiry ns db u)" for u
    by (simp add: index_expiry_def uk)
  have alive: "live L ns now db sid = Some row \<and> row_user row \<noteq> user"
    if "live L ns now db' sid = Some row" for sid row
    using that live_ids_iff [OF core, of sid user] by (auto simp: l restrict_map_def split: if_splits)
  have "(sid, score) \<in> set (members ns db' u) \<longleftrightarrow> u = row_user row \<and> score = row_created row"
    if "live L ns now db' sid = Some row" for sid row u score
    using store_core_member [OF core, of sid row score u] alive [OF that] by (auto simp: m)
  moreover have "zset_ok (members ns db' u)" for u
    using store_core_zset [OF core, of u] by (simp add: m zset_ok_def)
  moreover have "session_key_ok L now sid v x" if "db' (skey ns sid) = Some (v, x)" for sid v x
    using that store_core_key [OF core, of sid] by (simp add: sk split: if_splits)
  moreover have "v = RZset (members ns db' u)" if "db' (ukey ns u) = Some (v, x)" for u v x
    using that store_core_index [OF core, of u] by (simp add: uk m split: if_splits)
  ultimately have "store_core L ns now db'" unfolding store_core_def by metis
  moreover have "index_lasts L ns now db' u" for u
    using ok alive unfolding store_ok_def index_lasts_def e by (metis option.distinct(1))
  ultimately have "store_ok L ns now db'" by (simp add: store_ok_def)
  moreover have "session_spec L now a (live L ns now db) (Found []) (live L ns now db')"
    unfolding l using spec_revoke_user [OF op] oldest_first_live_ids [OF core] user by blast
  moreover have "reply_of L (ReplyOk []) (Found [])" by (simp add: reply_of_def)
  ultimately show ?thesis by (auto simp: refines_def write_phase_def op db'_def)
qed

lemma remove_first_item:
  assumes "store_core L ns now db" "it \<in> set (map (item L ns now db) ids)" "\<forall>sid \<in> set ids. live L ns now db sid \<noteq> None"
    "row_id (it_row it) \<noteq> i"
  shows "it \<in> set (remove_first i (map (item L ns now db) ids))"
  using assms(2-4) by (induction ids) auto

lemma refine_revoke:
  assumes ok: "store_ok L ns now db" and op: "sa_op a = OpRevoke" and key: "sa_key a = skey ns (sa_id a)"
    and st: "live L ns now db (sa_id a) = Some row"
  shows "refines L ns now a (live L ns now db)
    (write_phase L now (ukey ns (row_user row)) a (Some (item L ns now db (sa_id a)))
       (map (item L ns now db) (live_ids L ns now db (row_user row))) db)"
proof -
  have core: "store_core L ns now db" using ok by (simp add: store_ok_def)
  let ?user = "row_user row" and ?sid = "sa_id a"
  let ?ids = "live_ids L ns now db ?user"
  let ?db1 = "remove_session ns ?user ?sid db"
  have ok1: "store_ok L ns now ?db1" by (rule remove_session_ok [OF ok])
  have act: "\<exists>it \<in> set (remove_first ?sid (map (item L ns now db) ?ids)). row_expires (it_row it) = row_expires row'"
    if "live L ns now ?db1 sid = Some row'" "row_user row' = ?user" for sid row'
  proof -
    from that have l: "live L ns now db sid = Some row'" "sid \<noteq> ?sid" by (auto split: if_splits)
    then have "item L ns now db sid \<in> set (map (item L ns now db) ?ids)"
      using that(2) live_ids_iff [OF core, of sid ?user] by auto
    moreover have "row_id (it_row (item L ns now db sid)) \<noteq> ?sid"
      using l live_row_id [OF core l(1)] by (simp add: item_def)
    moreover have "\<forall>sid \<in> set ?ids. live L ns now db sid \<noteq> None" by (simp add: live_ids_def)
    ultimately have "item L ns now db sid \<in> set (remove_first ?sid (map (item L ns now db) ?ids))"
      using remove_first_item [OF core] by blast
    with l show ?thesis by (force simp: item_def)
  qed
  have core1: "store_core L ns now ?db1" and lasts1: "\<And>u. index_lasts L ns now ?db1 u"
    using ok1 by (simp_all add: store_ok_def)
  note touched = touch_live [OF core1 lasts1 act]
  have "session_spec L now a (live L ns now db) (Found []) ((live L ns now db)(?sid := None))"
    using spec_revoke [OF op, of "live L ns now db"] st by simp
  moreover have "reply_of L (ReplyOk []) (Found [])" by (simp add: reply_of_def)
  moreover have w: "write_phase L now (ukey ns ?user) a (Some (item L ns now db ?sid)) (map (item L ns now db) ?ids) db
      = (ReplyOk [], touch_index now (ukey ns ?user) (remove_first ?sid (map (item L ns now db) ?ids)) ?db1)"
    by (simp add: write_phase_def op write_revoke_def Let_def key remove_session_def)
  ultimately show ?thesis
    unfolding refines_def w using touched(1,2) by auto
qed

lemma refine_renew:
  assumes ok: "store_ok L ns now db" and op: "sa_op a = OpRenew" and key: "sa_key a = skey ns (sa_id a)"
    and st: "live L ns now db (sa_id a) = Some row"
    and enc: "encodes L" and ttl: "0 < sa_ttl a" "now + sa_ttl a < 10 ^ 14"
  shows "refines L ns now a (live L ns now db)
    (write_phase L now (ukey ns (row_user row)) a (Some (item L ns now db (sa_id a)))
       (map (item L ns now db) (live_ids L ns now db (row_user row))) db)"
proof -
  have core: "store_core L ns now db" and lasts: "\<And>u. index_lasts L ns now db u" using ok by (simp_all add: store_ok_def)
  let ?user = "row_user row" and ?sid = "sa_id a"
  let ?ids = "live_ids L ns now db ?user"
  define row' where "row' = row\<lparr>row_expires := now + sa_ttl a\<rparr>"
  define raw where "raw = lib_encode L row'"
  let ?db1 = "set_px (skey ns ?sid) raw now (sa_ttl a) db"
  let ?change = "\<lambda>it. if row_id (it_row it) = ?sid
      then it\<lparr>it_row := (it_row it)\<lparr>row_expires := now + sa_ttl a\<rparr>, it_raw := raw\<rparr> else it"
  have valid: "row_valid L now ?sid row" by (rule live_row_valid [OF core st])
  then have dec: "lib_decode L raw = Some row'"
    using enc ttl by (auto simp: encodes_def raw_def row'_def row_valid_def)
  have exp: "row_expires row' = now + sa_ttl a" by (simp add: row'_def)
  note sets = set_px_session [OF dec exp ttl(1)]
  have core1: "store_core L ns now ?db1" by (rule renew_session_core(1) [OF core st row'_def dec ttl])
  have lasts1: "index_lasts L ns now ?db1 u" if "u \<noteq> ?user" for u
    by (rule renew_session_core(2) [OF core st row'_def dec ttl that lasts])
  have act: "\<exists>it \<in> set (map ?change (map (item L ns now db) ?ids)). row_expires (it_row it) = row_expires r"
    if lr: "live L ns now ?db1 sid = Some r" "row_user r = ?user" for sid r
  proof (rule bexI [where x = "?change (item L ns now db sid)"])
    obtain r0 where r0: "live L ns now db sid = Some r0" "row_user r0 = ?user"
      using lr st by (auto simp: sets(1) row'_def split: if_splits)
    then have "sid \<in> set ?ids" using live_ids_iff [OF core] by blast
    then show "?change (item L ns now db sid) \<in> set (map ?change (map (item L ns now db) ?ids))" by simp
    have "row_id (it_row (item L ns now db sid)) = sid" using live_row_id [OF core r0(1)] r0 by (simp add: item_def)
    with lr r0 show "row_expires (it_row (?change (item L ns now db sid))) = row_expires r"
      by (auto simp: sets(1) row'_def item_def split: if_splits)
  qed
  note touched = touch_live [OF core1 lasts1 act]
  have "reply_of L (ReplyOk [raw]) (Found [row'])" by (simp add: reply_of_def dec)
  moreover have "session_spec L now a (live L ns now db) (Found [row']) ((live L ns now db)(?sid \<mapsto> row'))"
    using spec_renew [OF op, of "live L ns now db"] st row'_def by simp
  moreover have raw': "lib_encode L (row\<lparr>row_expires := now + sa_ttl a\<rparr>) = raw" by (simp add: raw_def row'_def)
  have w: "write_phase L now (ukey ns ?user) a (Some (item L ns now db ?sid)) (map (item L ns now db) ?ids) db
      = (ReplyOk [raw], touch_index now (ukey ns ?user) (map ?change (map (item L ns now db) ?ids)) ?db1)"
    by (simp add: write_phase_def op write_renew_def Let_def key it_row_item [OF st] raw' cong: if_cong)
  ultimately show ?thesis
    unfolding refines_def w using touched(1,2) sets(1) by auto
qed

lemma refine_create:
  assumes ok: "store_ok L ns now db" and op: "sa_op a = OpCreate" and key: "sa_key a = skey ns (sa_id a)"
    and user: "user = sa_user a" and none: "live L ns now db (sa_id a) = None" and fresh: "fresh_id ns db a"
    and enc: "encodes L" and ttl: "0 < sa_ttl a" "now + sa_ttl a < 10 ^ 14"
    and valid: "row_valid L now (sa_id a) (new_row L now a)" and limit: "1 \<le> sa_limit a"
  shows "refines L ns now a (live L ns now db)
    (write_phase L now (ukey ns user) a None (map (item L ns now db) (live_ids L ns now db user)) db)"
proof -
  have core: "store_core L ns now db" using ok by (simp add: store_ok_def)
  let ?sid = "sa_id a" and ?ids = "live_ids L ns now db user"
  let ?k = "length ?ids - nat (sa_limit a - 1)"
  define row where "row = new_row L now a"
  define raw where "raw = lib_encode L row"
  have row: "row_user row = user" "row_created row = now" "row_expires row = now + sa_ttl a"
    by (simp_all add: row_def new_row_def user)
  let ?db1 = "fold (remove_session ns user) (take ?k ?ids) db"
  let ?db2 = "zadd (ukey ns (row_user row)) now ?sid (set_px (skey ns ?sid) raw now (sa_ttl a) ?db1)"
  let ?it = "\<lparr>it_row = row, it_raw = raw, it_key = sa_key a\<rparr>"
  let ?kept = "map (item L ns now db) (drop ?k ?ids)"
  have alive: "\<forall>sid \<in> set ?ids. live L ns now db sid \<noteq> None" by (simp add: live_ids_def)
  have ok1: "store_ok L ns now ?db1" by (rule remove_sessions(1) [OF ok])
  then have core1: "store_core L ns now ?db1" and lasts1: "\<And>u. index_lasts L ns now ?db1 u" by (simp_all add: store_ok_def)
  have l1: "live L ns now ?db1 = live L ns now db |` (- set (take ?k ?ids))" by (rule remove_sessions(2))
  have fresh1: "\<forall>u. u \<noteq> row_user row \<longrightarrow> ?sid \<notin> fst ` set (members ns ?db1 u)"
    using fresh by (auto simp: remove_sessions(4) row user fresh_id_def)
  have valid': "row_valid L now ?sid row" using valid by (simp add: row_def)
  have dec: "lib_decode L raw = Some row"
    using enc ttl valid_new_row_times [OF valid'] row by (auto simp: encodes_def raw_def)
  note cr = create_session_core [OF core1 dec valid' row(3) ttl(1) row(2) fresh1]
  have act: "\<exists>it \<in> set (?kept @ [?it]). row_expires (it_row it) = row_expires r"
    if "live L ns now ?db2 sid = Some r" "row_user r = user" for sid r
  proof (cases "sid = ?sid")
    case True
    with that cr(2) show ?thesis by simp
  next
    case False
    with that cr(2) l1 have l: "live L ns now db sid = Some r" and out: "sid \<notin> set (take ?k ?ids)"
      by (auto simp: restrict_map_def split: if_splits)
    have "sid \<in> set ?ids" using l that(2) live_ids_iff [OF core] by blast
    with out have "sid \<in> set (drop ?k ?ids)" by (metis Un_iff append_take_drop_id set_append)
    with l show ?thesis by (force simp: item_def)
  qed
  have lasts2: "index_lasts L ns now ?db2 u" if "u \<noteq> user" for u
    using cr(4) [of u] lasts1 that row(1) by simp
  note touched = touch_live [OF cr(1) lasts2 act]
  have "reply_of L (ReplyOk [raw]) (Found [row])" by (simp add: reply_of_def dec)
  moreover have "session_spec L now a (live L ns now db) (Found [row])
      ((live L ns now db |` (- set (take ?k ?ids)))(?sid \<mapsto> row))"
    unfolding row_def using spec_create [OF op, of "live L ns now db"] none oldest_first_live_ids [OF core] user by blast
  moreover have w: "write_phase L now (ukey ns user) a None (map (item L ns now db) ?ids) db
      = (ReplyOk [raw], touch_index now (ukey ns user) (?kept @ [?it]) ?db2)"
    using evict_items [OF core limit alive, of user db] row(1)
    by (simp add: write_phase_def op write_create_def Let_def key raw_def row_def)
  ultimately show ?thesis
    unfolding refines_def w using touched(1,2) cr(2) l1 row(1) by auto
qed

lemma refine_early:
  assumes ok: "store_ok L ns now db" and find: "find_target L ns now db a = Inl r"
  shows "refines L ns now a (live L ns now db) (r, db)"
proof -
  have core: "store_core L ns now db" using ok by (simp add: store_ok_def)
  from find consider "sa_op a = OpCreate" "r = ReplyCollision"
    | "sa_op a \<in> {OpLookup, OpRenew, OpRevoke}" "live L ns now db (sa_id a) = None" "r = ReplyMissing"
    by (auto simp: find_target_def load_session_live [OF core] split: session_op.splits if_splits)
  then show ?thesis
  proof cases
    case 1
    then show ?thesis using ok spec_taken [of a] by (force simp: refines_def reply_of_def)
  next
    case 2
    then show ?thesis using ok spec_missing [of a "live L ns now db"] by (force simp: refines_def reply_of_def)
  qed
qed

lemma script_refines:
  assumes ok: "store_ok L ns now (expire now db0)" and args: "args_ok L ns now a"
    and fresh: "sa_op a = OpCreate \<longrightarrow> fresh_id ns (expire now db0) a" and enc: "encodes L"
  shows "refines L ns now a (live L ns now (expire now db0)) (session_script L ns now a db0)"
proof (cases "find_target L ns now (expire now db0) a")
  case (Inl r)
  then have "session_script L ns now a db0 = (r, expire now db0)" by (simp add: session_script_def)
  with refine_early [OF ok Inl] show ?thesis by simp
next
  case (Inr target)
  let ?db = "expire now db0"
  have core: "store_core L ns now ?db" using ok by (simp add: store_ok_def)
  define user where user: "user = (case target of None \<Rightarrow> sa_user a | Some it \<Rightarrow> row_user (it_row it))"
  let ?s = "settled L now ?db user"
  note settle = settled_facts [OF ok, where user = user]
  have script: "session_script L ns now a db0 =
      write_phase L now (ukey ns user) a target (map (item L ns now ?s) (live_ids L ns now ?s user)) ?s"
    by (rule script_write_phase [OF ok Inr user])
  have l: "live L ns now ?db = live L ns now ?s" by (simp add: settle(2))
  show ?thesis
  proof (cases target)
    case None
    then have u: "user = sa_user a" by (simp add: user)
    from Inr None have "sa_op a \<in> {OpCreate, OpList, OpRevokeUser}"
      by (auto simp: find_target_def split: session_op.splits sum.splits option.splits)
    then consider "sa_op a = OpCreate" | "sa_op a = OpList" | "sa_op a = OpRevokeUser" by auto
    then show ?thesis
    proof cases
      case 1
      with Inr args have "?db (skey ns (sa_id a)) = None"
        by (cases "?db (skey ns (sa_id a))") (auto simp: find_target_def args_ok_def)
      then have none: "live L ns now ?s (sa_id a) = None" by (simp add: settle(2) live_def)
      have fr: "fresh_id ns ?s a" using fresh 1 settle(5) u by (simp add: fresh_id_def)
      show ?thesis unfolding script l None
        using refine_create [OF settle(1) 1 _ u none fr enc] args 1 by (simp add: args_ok_def)
    next
      case 2
      show ?thesis unfolding script l None by (rule refine_list [OF settle(1) 2 u])
    next
      case 3
      show ?thesis unfolding script l None by (rule refine_revoke_user [OF settle(1) 3 u])
    qed
  next
    case (Some it)
    with Inr have op: "sa_op a \<in> {OpLookup, OpRenew, OpRevoke}" and alive: "live L ns now ?db (sa_id a) \<noteq> None"
      and it: "it = item L ns now ?db (sa_id a)"
      by (auto simp: find_target_def load_session_live [OF core] split: session_op.splits if_splits)
    then obtain row where st: "live L ns now ?s (sa_id a) = Some row" by (auto simp: l)
    have it': "it = item L ns now ?s (sa_id a)" using it settle(3) [OF alive] by simp
    have u: "user = row_user row" unfolding user Some using it' it_row_item [OF st] by simp
    from op consider "sa_op a = OpLookup" | "sa_op a = OpRenew" | "sa_op a = OpRevoke" by auto
    then show ?thesis
    proof cases
      case 1
      show ?thesis unfolding script l Some it' u by (rule refine_lookup [OF settle(1) [unfolded u] 1 st [unfolded u]])
    next
      case 2
      show ?thesis unfolding script l Some it' u
        using refine_renew [OF settle(1) [unfolded u] 2 _ st [unfolded u] enc] args 2 by (simp add: args_ok_def)
    next
      case 3
      show ?thesis unfolding script l Some it' u
        using refine_revoke [OF settle(1) [unfolded u] 3 _ st [unfolded u]] args 3 by (simp add: args_ok_def)
    qed
  qed
qed

end

end
