(* ===== verification/SessionIsolation.thy ===== *)
theory SessionIsolation
  imports SessionTheorems
begin

text \<open>
  What the script does on any database, whether or not it satisfies the invariant: it writes nothing
  unless it succeeds, and it touches only the keys of its own project.
\<close>

section \<open>All or nothing\<close>

lemma write_phase_ok: "\<exists>raws db'. write_phase L now index a target active db = (ReplyOk raws, db')"
  by (auto simp: write_phase_def write_create_def write_renew_def write_revoke_def Let_def
      split: session_op.splits option.splits prod.splits)

lemma script_failed_unchanged:
  "session_script L ns now a db = (r, db') \<Longrightarrow> \<nexists>raws. r = ReplyOk raws \<Longrightarrow> db' = expire now db"
proof -
  have ok: "write_phase L now index a target active db'' = (r, db') \<Longrightarrow> \<exists>raws. r = ReplyOk raws"
    for index target active db''
    using write_phase_ok [of L now index a target active db''] by auto
  show "session_script L ns now a db = (r, db') \<Longrightarrow> \<nexists>raws. r = ReplyOk raws \<Longrightarrow> db' = expire now db"
    by (auto simp: session_script_def Let_def split: sum.splits option.splits prod.splits if_splits dest!: ok)
qed

section \<open>Isolation\<close>

definition foreign_key :: "namespace \<Rightarrow> string \<Rightarrow> bool" where
  "foreign_key ns k \<longleftrightarrow> (\<forall>sid. k \<noteq> skey ns sid) \<and> (\<forall>user. k \<noteq> ukey ns user)"

lemma zrem_foreign [simp]: "k \<noteq> index \<Longrightarrow> zrem index m db k = db k"
  by (auto simp: zrem_def Let_def split: option.splits redis_value.splits)

lemma zadd_foreign [simp]: "k \<noteq> index \<Longrightarrow> zadd index s m db k = db k"
  by (auto simp: zadd_def split: option.splits redis_value.splits)

lemma touch_index_foreign [simp]: "k \<noteq> index \<Longrightarrow> touch_index now index active db k = db k"
  by (auto simp: touch_index_def Let_def pexpireat_def redis_del_def split: option.splits)

lemma drop_stale_foreign: "foreign_key ns k \<Longrightarrow> drop_stale ns (ukey ns user) sids db k = db k"
  by (induction sids arbitrary: db) (simp_all add: foreign_key_def redis_del_def)

lemma evict_foreign:
  "k \<noteq> index \<Longrightarrow> \<forall>it \<in> set active. k \<noteq> it_key it \<Longrightarrow> fst (evict limit index active db) k = db k"
  by (induction limit index active db rule: evict.induct) (auto simp: redis_del_def)

lemma fold_del_foreign:
  "\<forall>it \<in> set active. k \<noteq> it_key it \<Longrightarrow> fold (\<lambda>it. redis_del (it_key it)) active db k = db k"
  by (induction active arbitrary: db) (auto simp: redis_del_def)

lemma load_session_key: "load_session L ns now db sid = Inr (Some it) \<Longrightarrow> it_key it = skey ns sid"
  by (auto simp: load_session_def split: option.splits redis_value.splits if_splits prod.splits)

lemma scan_members_keys:
  "scan_members L ns now db user sought ms = Inr (active, stale, found) \<Longrightarrow>
     \<forall>it \<in> set active. \<exists>sid. it_key it = skey ns sid"
proof (induction ms arbitrary: active stale found)
  case (Cons m ms)
  obtain sid score where m: "m = (sid, score)" by fastforce
  show ?case
  proof (cases "load_session L ns now db sid")
    case (Inr r)
    with Cons.prems m obtain a st f where rest: "scan_members L ns now db user sought ms = Inr (a, st, f)"
      by (cases "scan_members L ns now db user sought ms") (auto split: option.splits if_splits)
    have "\<exists>sid'. it_key it = skey ns sid'" if "r = Some it" for it
      using load_session_key [of L ns now db sid it] Inr that by blast
    with Cons.prems m Inr rest Cons.IH [OF rest] show ?thesis
      by (fastforce split: option.splits if_splits)
  qed (use Cons.prems m in simp)
qed simp

lemma write_phase_foreign:
  assumes k: "k \<noteq> index" "k \<noteq> sa_key a" and active: "\<forall>it \<in> set active. k \<noteq> it_key it"
  shows "snd (write_phase L now index a target active db) k = db k"
proof -
  obtain db1 kept where e: "evict (sa_limit a) index active db = (db1, kept)" by fastforce
  with evict_foreign [OF k(1) active, of "sa_limit a" db] have "db1 k = db k" by simp
  with e k fold_del_foreign [OF active] show ?thesis
    by (auto simp: write_phase_def write_create_def write_renew_def write_revoke_def Let_def set_px_def redis_del_def
        split: session_op.splits option.splits)
qed

lemma script_foreign:
  assumes "foreign_key ns k" and "sa_op a \<in> {OpCreate, OpRenew, OpRevoke} \<Longrightarrow> sa_key a = skey ns (sa_id a)"
  shows "snd (session_script L ns now a db) k = expire now db k"
proof -
  let ?db = "expire now db"
  have wp: "snd (write_phase L now (ukey ns user) a target active (drop_stale ns (ukey ns user) stale ?db)) k = ?db k"
    if s: "scan_members L ns now ?db user (sa_id a) ms = Inr (active, stale, found)" for user target active stale ms found
  proof -
    have act: "\<forall>it \<in> set active. k \<noteq> it_key it"
      using scan_members_keys [OF s] assms(1) by (auto simp: foreign_key_def)
    show ?thesis
    proof (cases "sa_op a \<in> {OpCreate, OpRenew, OpRevoke}")
      case True
      then have "k \<noteq> sa_key a" using assms by (auto simp: foreign_key_def)
      then show ?thesis
        using write_phase_foreign [OF _ _ act] drop_stale_foreign [OF assms(1)] assms(1) by (simp add: foreign_key_def)
    next
      case False
      then have "sa_op a \<in> {OpLookup, OpList, OpRevokeUser}" by (cases "sa_op a") auto
      then show ?thesis
        using fold_del_foreign [OF act] drop_stale_foreign [OF assms(1)] assms(1)
        by (auto simp: foreign_key_def write_phase_def redis_del_def split: option.splits)
    qed
  qed
  show ?thesis
    by (auto simp: session_script_def Let_def wp split: sum.splits option.splits prod.splits)
qed

end
