(* ===== verification/SessionClient.thy ===== *)
theory SessionClient
  imports SessionStore SessionIsolation
begin

text \<open>
  The Go operations over the script: what \<open>run\<close> returns when the client is Redis running the script,
  the invariant along any sequence of operations, and what callers of the store may rely on.
\<close>

section \<open>A store on Redis\<close>

definition redis_store :: "script_lib \<Rightarrow> redis_world store \<Rightarrow> bool" where
  "redis_store L s \<longleftrightarrow> store_client s = redis_eval L \<and> separator_ok (delimiter (store_keys s))
     \<and> store_scope s \<noteq> [] \<and> 1 \<le> store_limit s"

definition store_namespace :: "'w store \<Rightarrow> namespace" where
  "store_namespace s = namespace_of (store_keys s) (store_scope s)"

lemma newStore_redis_store:
  assumes "newStore config = Inr s" "sc_client config = SingleClient (redis_eval L)"
  shows "redis_store L s"
  using assms newKeyBuilder_ok
  by (auto simp: newStore_def redis_store_def and_then_eq_Inr)

lemma store_key_space: "redis_store L s \<Longrightarrow> key_space (store_namespace s)"
  by (simp add: redis_store_def store_namespace_def accepted_key_space)

definition store_args :: "'w store \<Rightarrow> session_op \<Rightarrow> string \<Rightarrow> string \<Rightarrow> int \<Rightarrow> string \<Rightarrow> script_args" where
  "store_args s op i user ttl identity =
     \<lparr>sa_key = (if op \<in> {OpList, OpRevokeUser} then key_or_empty (userSessionsKey (store_keys s) (store_scope s) user)
                else skey (store_namespace s) i),
      sa_op = op, sa_id = i, sa_user = user, sa_ttl = milliseconds ttl, sa_identity = identity,
      sa_limit = store_limit s\<rparr>"

definition script_values :: "string \<Rightarrow> reply \<Rightarrow> redis_item list result" where
  "script_values op r = (case reply_result r of
     Inl err \<Rightarrow>
       if contains_string (error_text err) ''SESSION_CORRUPT''
       then Inl (Wrap (error_text errCorruptSession @ '': '' @ error_text err) [errCorruptSession, err])
       else Inl (Wrap (''session Redis operation failed: '' @ error_text err) [err])
   | Inr raw \<Rightarrow> check_reply op raw)"

lemma script_op_user: "script_op op = Some x \<Longrightarrow> (op = ''list'' \<or> op = ''revoke_user'') \<longleftrightarrow> (x = OpList \<or> x = OpRevokeUser)"
  unfolding script_op_def by (simp split: if_split_asm)

lemma call_args_session_call:
  assumes "script_op op = Some x" "store_scope s \<noteq> []" "x \<notin> {OpList, OpRevokeUser} \<Longrightarrow> i \<noteq> []"
  shows "call_args (session_call s op i user ttl identity) x = store_args s x i user ttl identity"
    and "call_namespace (session_call s op i user ttl identity) = store_namespace s"
proof -
  have "key_or_empty (sessionKey (store_keys s) (store_scope s) i) = skey (store_namespace s) i" if "i \<noteq> []"
    using that assms(2)
    by (simp add: key_or_empty_def sessionKey_def key_def skey_def store_namespace_def namespace_of_def escape_def)
  then show "call_args (session_call s op i user ttl identity) x = store_args s x i user ttl identity"
    using assms(3) script_op_user [OF assms(1)] by (cases "x = OpList \<or> x = OpRevokeUser") (simp_all add: call_args_def session_call_def store_args_def)
  show "call_namespace (session_call s op i user ttl identity) = store_namespace s"
    by (simp add: call_namespace_def session_call_def store_namespace_def namespace_of_def)
qed

lemma run_redis:
  assumes "redis_store L s" "script_op op = Some x" "x \<notin> {OpList, OpRevokeUser} \<Longrightarrow> i \<noteq> []"
  shows "run s op i user ttl identity w =
    (let (r, db) = session_script L (store_namespace s) (rw_now w) (store_args s x i user ttl identity) (rw_db w)
     in (script_values op r, w\<lparr>rw_db := db\<rparr>))"
proof -
  have "ev_op (session_call s op i user ttl identity) = op" by (simp add: session_call_def)
  then show ?thesis
    using assms call_args_session_call [OF assms(2) _ assms(3), of s]
    by (auto simp: run_def redis_eval_def redis_store_def script_values_def Let_def
        split: prod.splits sum.splits)
qed

section \<open>Sequences of operations\<close>

text \<open>
  Any number of callers: a history is the operations in the order Redis ran them, at times that do
  not go back.
\<close>

inductive store_history :: "script_lib \<Rightarrow> namespace \<Rightarrow> int \<times> db \<Rightarrow> (script_args \<times> reply) list \<Rightarrow> int \<times> db \<Rightarrow> bool"
  for L ns where
  history_start: "store_history L ns c [] c"
| history_step: "store_history L ns c es (t, db) \<Longrightarrow> t \<le> now \<Longrightarrow> args_ok L ns now a \<Longrightarrow>
    (sa_op a = OpCreate \<longrightarrow> fresh_id ns (expire now db) a) \<Longrightarrow> session_script L ns now a db = (r, db') \<Longrightarrow>
    store_history L ns c (es @ [(a, r)]) (now, db')"

lemma history_refines:
  assumes "key_space ns" "encodes L" "store_ok L ns t db" "t \<le> now" "args_ok L ns now a"
    "sa_op a = OpCreate \<longrightarrow> fresh_id ns (expire now db) a" "session_script L ns now a db = (r, db')"
  shows "store_ok L ns now db' \<and> (\<exists>sr. reply_of L r sr \<and> session_spec L now a (live L ns now db) sr (live L ns now db'))"
proof -
  have ok: "store_ok L ns now (expire now db)" by (rule store_ok_expire [OF assms(3,4)])
  have "live L ns now (expire now db) = live L ns now db"
    using assms(3,4) live_expire(1) by (auto simp: store_ok_def)
  with key_space.script_refines [OF assms(1) ok assms(5,6,2)] show ?thesis
    by (simp add: refines_def assms(7))
qed

lemma history_store_ok:
  assumes "store_history L ns (t, db) es (t', db')" "key_space ns" "encodes L" "store_ok L ns t db"
  shows "store_ok L ns t' db' \<and> t \<le> t'"
  using assms
proof (induction "(t, db)" es "(t', db')" arbitrary: t' db' rule: store_history.induct)
  case history_start
  then show ?case by simp
next
  case (history_step es t1 db1 now a r db2)
  from history_step.hyps(2) history_step.prems have ok: "store_ok L ns t1 db1" "t \<le> t1" by blast+
  with history_refines [OF history_step.prems(1,2) ok(1) history_step.hyps(3-6)] history_step.hyps(3)
  show ?case by simp
qed

lemma spec_no_resurrection:
  assumes "session_spec L now a st r st'" "st sid = None" "sa_op a = OpCreate \<Longrightarrow> sa_id a \<noteq> sid"
  shows "st' sid = None"
  using assms by (cases rule: session_spec.cases) (auto simp: restrict_map_def)

lemma live_later:
  "t \<le> t' \<Longrightarrow> live L ns t db sid = None \<Longrightarrow> live L ns t' db sid = None"
  by (auto simp: live_def split: option.splits redis_value.splits prod.splits if_splits)

lemma history_no_resurrection:
  assumes "store_history L ns (t, db) es (t', db')" "key_space ns" "encodes L" "store_ok L ns t db"
    "live L ns t db sid = None" "\<forall>(a, r) \<in> set es. sa_op a = OpCreate \<longrightarrow> sa_id a \<noteq> sid"
  shows "live L ns t' db' sid = None"
  using assms
proof (induction "(t, db)" es "(t', db')" arbitrary: t' db' rule: store_history.induct)
  case history_start
  then show ?case by simp
next
  case (history_step es t1 db1 now a r db2)
  have ok: "store_ok L ns t1 db1"
    using history_store_ok [OF history_step.hyps(1) history_step.prems(1-3)] by simp
  have "live L ns t1 db1 sid = None" using history_step by simp
  then have none: "live L ns now db1 sid = None" using history_step.hyps(3) live_later by blast
  obtain sr where "session_spec L now a (live L ns now db1) sr (live L ns now db2)"
    using history_refines [OF history_step.prems(1,2) ok history_step.hyps(3-6)] by blast
  from spec_no_resurrection [OF this none] show ?case using history_step.prems(5) by simp
qed

end
