(* ===== verification/SessionProperties.thy ===== *)
theory SessionProperties
  imports SessionClient
begin

text \<open>
  The theorems of the session store: refinement, the invariant over histories, the limit per user,
  isolation of projects, and what the Go operations and the authenticator guarantee.
\<close>

section \<open>The limit per user\<close>

inductive_cases session_spec_create: "session_spec L now a st (Found rows) st'"

lemma spec_create_found:
  assumes "session_spec L now a st (Found rows) st'" "sa_op a = OpCreate"
  obtains ids where "oldest_first st (sa_user a) ids" "st (sa_id a) = None" "rows = [new_row L now a]"
    "st' = (st |` (- set (take (length ids - nat (sa_limit a - 1)) ids)))(sa_id a \<mapsto> new_row L now a)"
  using assms by (elim session_spec_create) auto

lemma oldest_first_take_drop:
  assumes "oldest_first st user ids" "e \<in> set (take k ids)" "d \<in> set (drop k ids)"
  shows "(row_created (the (st e)), e) < (row_created (the (st d)), d)"
proof -
  let ?f = "\<lambda>sid. (row_created (the (st sid)), sid)"
  have "sorted (map ?f (take k ids @ drop k ids))" and dis: "distinct (take k ids @ drop k ids)"
    using assms(1) by (simp_all add: oldest_first_def)
  then have "?f e \<le> ?f d" using assms(2,3) by (auto simp: sorted_append simp del: append_take_drop_id)
  moreover have "e \<noteq> d" using dis assms(2,3) by (auto simp del: append_take_drop_id)
  ultimately show ?thesis by (metis order_le_imp_less_or_eq prod.inject)
qed

definition user_session_ids :: "sessions \<Rightarrow> string \<Rightarrow> string set" where
  "user_session_ids st user = {sid. \<exists>row. st sid = Some row \<and> row_user row = user}"

lemma spec_create_limit:
  assumes spec: "session_spec L now a st (Found rows) st'" and op: "sa_op a = OpCreate" and limit: "1 \<le> sa_limit a"
  shows "card (user_session_ids st' (sa_user a)) \<le> nat (sa_limit a)
    \<and> st' (sa_id a) = Some (new_row L now a)
    \<and> (\<forall>sid. sid \<notin> user_session_ids st (sa_user a) \<longrightarrow> sid \<noteq> sa_id a \<longrightarrow> st' sid = st sid)
    \<and> (\<forall>e d re rd. st e = Some re \<longrightarrow> st' e = None \<longrightarrow> d \<noteq> sa_id a \<longrightarrow> st' d = Some rd \<longrightarrow> row_user rd = sa_user a \<longrightarrow>
         (row_created re, e) < (row_created rd, d))
    \<and> (card (user_session_ids st (sa_user a)) < nat (sa_limit a) \<longrightarrow> (\<forall>sid. sid \<noteq> sa_id a \<longrightarrow> st' sid = st sid))"
proof -
  obtain ids where ids: "oldest_first st (sa_user a) ids" and none: "st (sa_id a) = None"
    and st': "st' = (st |` (- set (take (length ids - nat (sa_limit a - 1)) ids)))(sa_id a \<mapsto> new_row L now a)"
    using spec_create_found [OF spec op] by metis
  let ?k = "length ids - nat (sa_limit a - 1)"
  have set_ids: "set ids = user_session_ids st (sa_user a)" and dis: "distinct ids"
    using ids by (simp_all add: oldest_first_def user_session_ids_def)
  then have card: "card (user_session_ids st (sa_user a)) = length ids" by (metis distinct_card)
  have split: "set ids = set (take ?k ids) \<union> set (drop ?k ids)" "set (take ?k ids) \<inter> set (drop ?k ids) = {}"
    using dis by (metis append_take_drop_id set_append, metis append_take_drop_id distinct_append)
  have user: "row_user (new_row L now a) = sa_user a" by (simp add: new_row_def)
  have "user_session_ids st' (sa_user a) \<subseteq> insert (sa_id a) (set (drop ?k ids))"
  proof
    fix sid assume "sid \<in> user_session_ids st' (sa_user a)"
    then have "sid = sa_id a \<or> sid \<in> set ids \<and> sid \<notin> set (take ?k ids)"
      by (auto simp: set_ids user_session_ids_def st' restrict_map_def split: if_splits)
    with split(1) show "sid \<in> insert (sa_id a) (set (drop ?k ids))" by blast
  qed
  then have "card (user_session_ids st' (sa_user a)) \<le> card (insert (sa_id a) (set (drop ?k ids)))"
    by (rule card_mono [rotated]) simp
  also have "\<dots> \<le> Suc (length (drop ?k ids))" by (metis card_insert_le_m1 card_length diff_Suc_1 le_SucI length_Cons list.simps(15))
  also have "\<dots> \<le> nat (sa_limit a)" using limit by simp
  finally have "card (user_session_ids st' (sa_user a)) \<le> nat (sa_limit a)" .
  moreover have "(row_created re, e) < (row_created rd, d)"
    if "st e = Some re" "st' e = None" "d \<noteq> sa_id a" "st' d = Some rd" "row_user rd = sa_user a" for e d re rd
  proof -
    have "e \<in> set (take ?k ids)" using that(1,2) by (auto simp: st' restrict_map_def split: if_splits)
    moreover have d: "st d = Some rd" and "d \<notin> set (take ?k ids)"
      using that(3,4) by (auto simp: st' restrict_map_def split: if_splits)
    moreover from d that(5) have "d \<in> set ids" by (auto simp: set_ids user_session_ids_def)
    ultimately have "(row_created (the (st e)), e) < (row_created (the (st d)), d)"
      using oldest_first_take_drop [OF ids] split(1) by blast
    then show ?thesis by (simp add: that(1) d)
  qed
  moreover have "sid \<notin> set ids \<Longrightarrow> sid \<noteq> sa_id a \<Longrightarrow> st' sid = st sid" for sid
    using split(1) by (auto simp: st' restrict_map_def)
  moreover have "length ids < nat (sa_limit a) \<Longrightarrow> sid \<noteq> sa_id a \<Longrightarrow> st' sid = st sid" for sid
    by (simp add: st')
  ultimately show ?thesis unfolding card set_ids by (simp add: st')
qed

section \<open>The script\<close>

text \<open>
  C14 Refinement: with a store \<open>NewStore\<close> accepts, on a database that satisfies the invariant, every
  run of the script is a step of the abstract store on the sessions in force and its reply carries the
  rows of that step; the invariant holds afterwards.
\<close>

theorem session_script_refines:
  assumes "newStore config = Inr s" "sc_client config = SingleClient (redis_eval L)" "encodes L"
    "store_ok L (store_namespace s) t db" "t \<le> now" "args_ok L (store_namespace s) now a"
    "sa_op a = OpCreate \<longrightarrow> fresh_id (store_namespace s) (expire now db) a"
    "session_script L (store_namespace s) now a db = (r, db')"
  shows "store_ok L (store_namespace s) now db' \<and>
    (\<exists>sr. reply_of L r sr \<and>
      session_spec L now a (live L (store_namespace s) now db) sr (live L (store_namespace s) now db'))"
proof -
  have "key_space (store_namespace s)" using newStore_redis_store [OF assms(1,2)] store_key_space by blast
  from history_refines [OF this assms(3-8)] show ?thesis .
qed

text \<open>
  C15 Invariant: from an empty database, after any history of operations by any callers, the store's keys
  are consistent: rows valid, live sessions indexed under their user and no other, no index that expires
  before a session it lists.
\<close>

theorem session_store_invariant:
  assumes "newStore config = Inr s" "sc_client config = SingleClient (redis_eval L)" "encodes L"
    "store_history L (store_namespace s) (t, Map.empty) es (t', db)"
  shows "store_ok L (store_namespace s) t' db"
proof -
  have "key_space (store_namespace s)" using newStore_redis_store [OF assms(1,2)] store_key_space by blast
  from history_store_ok [OF assms(4) this assms(3) store_ok_empty] show ?thesis by simp
qed

text \<open>
  C17 No resurrection: a session that has ended - revoked, evicted or expired - is never in force again,
  whatever operations follow, unless a session is created with the same identifier.
\<close>

theorem session_no_resurrection:
  assumes "newStore config = Inr s" "sc_client config = SingleClient (redis_eval L)" "encodes L"
    "store_ok L (store_namespace s) t db" "store_history L (store_namespace s) (t, db) es (t', db')"
    "live L (store_namespace s) t db sid = None"
    "\<forall>(a, r) \<in> set es. sa_op a = OpCreate \<longrightarrow> sa_id a \<noteq> sid"
  shows "live L (store_namespace s) t' db' sid = None"
proof -
  have "key_space (store_namespace s)" using newStore_redis_store [OF assms(1,2)] store_key_space by blast
  from history_no_resurrection [OF assms(5) this assms(3,4,6,7)] show ?thesis .
qed

text \<open>
  C16 The limit: after a session is created its user has at most \<open>limit\<close> sessions, the new one among
  them; only the user's own sessions are evicted, each older than every session kept, and none if there
  was room.
\<close>

theorem session_limit:
  assumes "newStore config = Inr s" "sc_client config = SingleClient (redis_eval L)" "encodes L"
    "store_ok L (store_namespace s) t db" "t \<le> now" "args_ok L (store_namespace s) now a"
    "sa_op a = OpCreate" "fresh_id (store_namespace s) (expire now db) a"
    "session_script L (store_namespace s) now a db = (ReplyOk raws, db')"
  shows "let st = live L (store_namespace s) now db; st' = live L (store_namespace s) now db' in
    card (user_session_ids st' (sa_user a)) \<le> nat (sa_limit a)
    \<and> st' (sa_id a) = Some (new_row L now a)
    \<and> (\<forall>sid. sid \<notin> user_session_ids st (sa_user a) \<longrightarrow> sid \<noteq> sa_id a \<longrightarrow> st' sid = st sid)
    \<and> (\<forall>e d re rd. st e = Some re \<longrightarrow> st' e = None \<longrightarrow> d \<noteq> sa_id a \<longrightarrow> st' d = Some rd \<longrightarrow> row_user rd = sa_user a \<longrightarrow>
         (row_created re, e) < (row_created rd, d))
    \<and> (card (user_session_ids st (sa_user a)) < nat (sa_limit a) \<longrightarrow> (\<forall>sid. sid \<noteq> sa_id a \<longrightarrow> st' sid = st sid))"
proof -
  have k: "key_space (store_namespace s)" using newStore_redis_store [OF assms(1,2)] store_key_space by blast
  obtain sr where sr: "reply_of L (ReplyOk raws) sr"
    "session_spec L now a (live L (store_namespace s) now db) sr (live L (store_namespace s) now db')"
    using history_refines [OF k assms(3-6) _ assms(9)] assms(8) by blast
  then obtain rows where "sr = Found rows" by (cases sr) (auto simp: reply_of_def)
  moreover have "1 \<le> sa_limit a" using assms(6,7) by (simp add: args_ok_def)
  ultimately show ?thesis
    using spec_create_limit [of L now a "live L (store_namespace s) now db" rows] sr(2) assms(7) by (simp add: Let_def)
qed

end
