(* ===== verification/SessionGo.thy ===== *)
theory SessionGo
  imports SessionProperties
begin

text \<open>
  What callers of the Go store and its authenticator may rely on, with Redis running the script.
\<close>

section \<open>Session identifiers\<close>

lemma validSessionID_encode: "length bytes = 32 \<Longrightarrow> validSessionID (b64_encode bytes)"
  using length_b64_encode_32 [of bytes] by (simp add: validSessionID_def b64_decode_encode)

text \<open>
  Round trip of identifiers: the base64 text of any 32 random bytes is a valid session identifier and
  decodes to those bytes.
\<close>

theorem session_id_roundtrip:
  assumes "length bytes = 32"
  shows "validSessionID (b64_encode bytes) \<and> b64_decode (b64_encode bytes) = Some bytes"
  using validSessionID_encode [OF assms] by (simp add: b64_decode_encode)

lemma id_char_b64: "n < 64 \<Longrightarrow> id_char (b64_char n)"
  by (auto simp: id_char_def b64_char_def)

lemma valid_id_chars: "validSessionID i \<Longrightarrow> length i = 43 \<and> list_all id_char i"
  using b64_encode_chars id_char_b64 by (auto simp: validSessionID_def list_all_iff split: option.splits) metis

lemma valid_id_nonempty: "validSessionID i \<Longrightarrow> i \<noteq> []"
  by (auto simp: validSessionID_def)

lemma decodeSession_sound:
  "decodeSession E raw = Inr session \<Longrightarrow> validSessionID (ses_id session) \<and> trim_space (id_user (ses_identity session)) \<noteq> ''''
     \<and> 0 < ses_created session \<and> ses_created session < ses_expires session"
  by (auto simp: decodeSession_def unix_milli_def millisecond_def split: redis_item.splits option.splits if_splits)

section \<open>Isolation of projects\<close>

lemma other_scope_foreign:
  assumes "separator_ok (delimiter b)" "separator_ok (delimiter b')" "key b scope kind i = Inr k" "scope \<noteq> scope'"
    "delimiter b = delimiter b' \<or> plain_scope scope \<and> plain_scope scope'"
  shows "foreign_key (namespace_of b' scope') k"
proof -
  have k: "k = key_prefix b scope kind @ escape b i" using assms(3) by (auto simp: key_def split: if_splits)
  have "k \<noteq> key_prefix b' scope' kind' @ rest" for kind' rest
  proof (cases "delimiter b = delimiter b'")
    case True
    then have "key_prefix b' scope' kind' = key_prefix b scope' kind'" by (simp add: key_prefix_def escape_def)
    then show ?thesis
      using key_prefix_parts [OF assms(1), of scope kind "escape b i" scope' kind' rest] assms(4) by (auto simp: k)
  next
    case False
    with assms(5) have "plain_scope scope" "plain_scope scope'" by simp_all
    with plain_scope_read [OF assms(1)] plain_scope_read [OF assms(2)] assms(4) show ?thesis by (metis k)
  qed
  then show ?thesis by (simp add: foreign_key_def skey_def ukey_def namespace_of_def)
qed

lemma run_foreign:
  assumes s: "redis_store L s" and k: "foreign_key (store_namespace s) k" and op: "script_op op = Some x"
    and i: "x \<notin> {OpList, OpRevokeUser} \<Longrightarrow> i \<noteq> []"
  shows "rw_db (snd (run s op i user ttl identity w)) k = expire (rw_now w) (rw_db w) k
    \<and> rw_now (snd (run s op i user ttl identity w)) = rw_now w"
proof -
  have "snd (session_script L (store_namespace s) now (store_args s x i user ttl identity) db) k = expire now db k" for now db
    by (rule script_foreign [OF k]) (auto simp: store_args_def)
  then have foreign: "snd (session_script L (store_namespace s) (rw_now w) (store_args s x i user ttl identity) (rw_db w)) k
      = expire (rw_now w) (rw_db w) k" .
  have "run s op i user ttl identity w =
    (let (r, db) = session_script L (store_namespace s) (rw_now w) (store_args s x i user ttl identity) (rw_db w)
     in (script_values op r, w\<lparr>rw_db := db\<rparr>))"
    by (rule run_redis [OF s op i])
  with foreign show ?thesis by (auto simp: Let_def split: prod.splits)
qed

lemma expire_idem: "expire now (expire now db) = expire now db"
  by (rule ext) (simp add: expire_def split: option.splits)

lemma expire_point: "db k = db' k \<Longrightarrow> expire now db k = expire now db' k"
  by (simp add: expire_def)

definition settled_key :: "redis_world \<Rightarrow> string \<Rightarrow> redis_world \<Rightarrow> bool" where
  "settled_key w k w' \<longleftrightarrow> rw_now w' = rw_now w \<and> rw_db w' k \<in> {rw_db w k, expire (rw_now w) (rw_db w) k}"

lemma settled_key_trans: "settled_key w k w1 \<Longrightarrow> settled_key w1 k w2 \<Longrightarrow> settled_key w k w2"
  using expire_idem [of "rw_now w" "rw_db w"] expire_point [of "rw_db w1" k "expire (rw_now w) (rw_db w)" "rw_now w"]
    expire_point [of "rw_db w1" k "rw_db w" "rw_now w"]
  by (auto simp: settled_key_def)

lemma create_attempts_foreign:
  assumes s: "redis_store L s" and k: "foreign_key (store_namespace s) k" and E: "se_random E = draw_random"
    and r: "\<forall>bytes \<in> set (rw_random w). bytes \<noteq> []"
  shows "settled_key w k (snd (create_attempts E s opts identity n w))"
  using r
proof (induction n arbitrary: w)
  case (Suc n)
  show ?case
  proof (cases "rw_random w")
    case Nil
    then show ?thesis by (simp add: E draw_random_def settled_key_def)
  next
    case (Cons bytes rest)
    let ?w1 = "w\<lparr>rw_random := rest\<rparr>"
    have i: "b64_encode bytes \<noteq> []" using Suc.prems Cons by (cases bytes rule: b64_encode.cases) auto
    obtain v w2 where run: "run s ''create'' (b64_encode bytes) (id_user (co_identity opts)) (co_ttl opts) identity ?w1 = (v, w2)"
      by fastforce
    have op: "script_op ''create'' = Some OpCreate" by (simp add: script_op_def)
    have s2: "settled_key w k w2"
      using run_foreign [OF s k op, of "b64_encode bytes" "id_user (co_identity opts)" "co_ttl opts" identity ?w1] i run
      by (simp add: settled_key_def)
    have "rw_random w2 = rest"
      using run run_redis [OF s op, of "b64_encode bytes" "id_user (co_identity opts)" "co_ttl opts" identity ?w1] i
      by (auto simp: Let_def split: prod.splits)
    with Suc.prems Cons have "settled_key w2 k (snd (create_attempts E s opts identity n w2))"
      by (intro Suc.IH) simp
    with s2 have "settled_key w k (snd (create_attempts E s opts identity n w2))" by (rule settled_key_trans)
    with s2 show ?thesis by (simp add: E draw_random_def Cons run Let_def split: sum.splits)
  qed
qed (simp add: settled_key_def)

text \<open>
  C21 Isolation: no operation of a store writes a key of another project: such a key is as it was, or
  gone because its time was up. The other project has another scope, and it either uses the same separator,
  or its scope and the store's consist of letters and digits, when its separator may be any; without that
  condition keys of two projects can coincide.
\<close>

theorem session_projects_isolated:
  assumes "newStore config = Inr s" "sc_client config = SingleClient (redis_eval L)"
    "se_random E = draw_random" "\<forall>bytes \<in> set (rw_random w). bytes \<noteq> []"
    "newKeyBuilder configured = Inr b" "key b scope kind i = Inr k" "scope \<noteq> store_scope s"
    "delimiter b = delimiter (store_keys s) \<or> plain_scope scope \<and> plain_scope (store_scope s)"
    "w' \<in> {snd (create E s opts w), snd (lookup E s sid w), snd (renew E s sid ttl w), snd (revoke s sid w),
           snd (listByUser E s user w), snd (revokeByUser s user w)}"
  shows "rw_db w' k \<in> {rw_db w k, expire (rw_now w) (rw_db w) k}"
proof -
  have s: "redis_store L s" using newStore_redis_store [OF assms(1,2)] .
  have k: "foreign_key (store_namespace s) k"
    using other_scope_foreign [OF newKeyBuilder_ok [OF assms(5)] _ assms(6-8)] s
    by (simp add: redis_store_def store_namespace_def)
  have run: "settled_key w k (snd (run s op j u ttl identity w))"
    if "script_op op = Some x" "x \<notin> {OpList, OpRevokeUser} \<Longrightarrow> j \<noteq> []" for op x j u ttl identity
    using run_foreign [OF s k that] by (simp add: settled_key_def)
  have id: "settled_key w k w" by (simp add: settled_key_def)
  have read: "settled_key w k (snd (read_session E s op sid ttl w))" if "script_op op = Some x" "sid \<noteq> []" for op x ttl
    using run [OF that(1), of sid "''''" ttl "''''"] that(2)
    by (auto simp: read_session_def split: prod.splits sum.splits list.splits)
  have ops: "script_op ''lookup'' = Some OpLookup" "script_op ''renew'' = Some OpRenew" "script_op ''revoke'' = Some OpRevoke"
    "script_op ''list'' = Some OpList" "script_op ''revoke_user'' = Some OpRevokeUser"
    by (simp_all add: script_op_def)
  have "settled_key w k (snd (create E s opts w))"
    using create_attempts_foreign [OF s k assms(3,4)] id by (simp add: create_def split: sum.splits)
  moreover have "settled_key w k (snd (lookup E s sid w))"
    using read [OF ops(1)] id valid_id_nonempty by (simp add: lookup_def)
  moreover have "settled_key w k (snd (renew E s sid ttl w))"
    using read [OF ops(2)] id valid_id_nonempty by (simp add: renew_def split: sum.splits)
  moreover have "settled_key w k (snd (revoke s sid w))"
    using run [OF ops(3), of sid] id valid_id_nonempty by (simp add: revoke_def split: prod.splits) (metis snd_conv)
  moreover have "settled_key w k (snd (listByUser E s user w))"
    using run [OF ops(4)] id by (simp add: listByUser_def split: prod.splits) (metis snd_conv)
  moreover have "settled_key w k (snd (revokeByUser s user w))"
    using run [OF ops(5)] id by (simp add: revokeByUser_def split: prod.splits) (metis snd_conv)
  ultimately have "settled_key w k w'" using assms(9) by auto
  then show ?thesis by (simp add: settled_key_def)
qed

end
