(* ===== verification/SessionAuth.thy ===== *)
theory SessionAuth
  imports SessionGo
begin

text \<open>
  The life of one session seen through the Go operations: what \<open>Create\<close> stores, \<open>Lookup\<close> finds and
  the authenticator accepts, until it expires or is revoked; and what corrupt storage leads to.
\<close>

section \<open>Looking a session up\<close>

lemma lookup_script:
  assumes k: "key_space ns" and ok: "store_ok L ns t db" "t \<le> now" and op: "sa_op a = OpLookup"
  shows "fst (session_script L ns now a db) =
    (case live L ns now db (sa_id a) of None \<Rightarrow> ReplyMissing | Some row \<Rightarrow> ReplyOk [raw_of ns db (sa_id a)])"
proof -
  let ?db = "expire now db"
  have ok': "store_ok L ns now ?db" by (rule store_ok_expire [OF ok])
  have core: "store_core L ns now ?db" using ok' by (simp add: store_ok_def)
  have l: "live L ns now ?db sid = live L ns now db sid" for sid
    using ok live_expire(1) by (auto simp: store_ok_def)
  show ?thesis
  proof (cases "live L ns now db (sa_id a)")
    case None
    then show ?thesis by (simp add: session_script_def find_target_def op load_session_live [OF core] l)
  next
    case (Some row)
    then have find: "find_target L ns now ?db a = Inr (Some (item L ns now ?db (sa_id a)))"
      by (simp add: find_target_def op load_session_live [OF core] l)
    have raw: "raw_of ns ?db (sa_id a) = raw_of ns db (sa_id a)"
    proof -
      have "live L ns now ?db (sa_id a) = Some row" using Some l by simp
      then have "?db (skey ns (sa_id a)) \<noteq> None" by (auto simp: live_Some)
      then have "?db (skey ns (sa_id a)) = db (skey ns (sa_id a))"
        by (auto simp: expire_def split: option.splits if_splits)
      then show ?thesis by (simp add: raw_of_def)
    qed
    show ?thesis
      unfolding key_space.script_write_phase [OF k ok' find refl]
      by (simp add: write_phase_def op item_def raw Some)
  qed
qed

lemma check_reply_simps [simp]:
  "check_reply ''lookup'' (RedisArray [BulkString ''ok'', x]) = Inr [x]"
  "check_reply ''lookup'' (RedisArray [BulkString ''missing'']) = Inr []"
  "check_reply ''create'' (RedisArray [BulkString ''ok'', x]) = Inr [x]"
  "check_reply ''create'' (RedisArray [BulkString ''collision'']) = Inl errSessionCollision"
  by (simp_all add: check_reply_def)

lemma lookup_redis:
  assumes s: "redis_store L s" and ok: "store_ok L (store_namespace s) t (rw_db w)" "t \<le> rw_now w"
    and i: "validSessionID i"
  shows "fst (lookup E s i w) = (case live L (store_namespace s) (rw_now w) (rw_db w) i of
     None \<Rightarrow> Inr None
   | Some row \<Rightarrow> and_then (decodeSession E (BulkString (raw_of (store_namespace s) (rw_db w) i)))
       (\<lambda>session. if ses_id session \<noteq> i then Inl errCorruptSession else Inr (Some session)))"
proof -
  let ?a = "store_args s OpLookup i '''' 0 ''''"
  have op: "script_op ''lookup'' = Some OpLookup" by (simp add: script_op_def)
  have run: "run s ''lookup'' i '''' 0 '''' w =
    (let (r, db) = session_script L (store_namespace s) (rw_now w) ?a (rw_db w) in (script_values ''lookup'' r, w\<lparr>rw_db := db\<rparr>))"
    by (rule run_redis [OF s op]) (rule valid_id_nonempty [OF i])
  obtain r db where script: "session_script L (store_namespace s) (rw_now w) ?a (rw_db w) = (r, db)" by fastforce
  have a: "sa_op ?a = OpLookup" "sa_id ?a = i" by (simp_all add: store_args_def)
  have r: "r = (case live L (store_namespace s) (rw_now w) (rw_db w) i of None \<Rightarrow> ReplyMissing
      | Some row \<Rightarrow> ReplyOk [raw_of (store_namespace s) (rw_db w) i])"
    using lookup_script [OF store_key_space [OF s] ok, of ?a] by (simp add: a script cong: option.case_cong)
  show ?thesis
    using i r by (simp add: lookup_def read_session_def run script Let_def script_values_def reply_result_def split: option.splits)
qed

section \<open>Creating a session\<close>

context key_space
begin

lemma create_script_stored:
  assumes op: "sa_op a = OpCreate" and key: "sa_key a = skey ns (sa_id a)"
    and s: "session_script L ns now a db = (ReplyOk raws, db')"
  shows "raws = [raw_of ns db' (sa_id a)]"
proof -
  have stored: "raws = [raw_of ns (snd (write_create L now (ukey ns user) a active d)) (sa_id a)]"
    if "fst (write_create L now (ukey ns user) a active d) = ReplyOk raws" for user active d
  proof -
    obtain d1 kept where e: "evict (sa_limit a) (ukey ns user) active d = (d1, kept)" by fastforce
    show ?thesis
      using that by (simp add: write_create_def e Let_def key raw_of_def) (simp add: set_px_def)
  qed
  have find: "find_target L ns now (expire now db) a = Inr None"
    using s by (auto simp: session_script_def find_target_def op Let_def split: if_splits)
  have "\<exists>user active d. write_create L now (ukey ns user) a active d = (ReplyOk raws, db')"
    using s by (auto simp: session_script_def find Let_def write_phase_def op
        split: option.splits sum.splits prod.splits)
  then obtain user active d where "write_create L now (ukey ns user) a active d = (ReplyOk raws, db')" by blast
  with stored [of user active d] show ?thesis by simp
qed

end

lemma members_expire: "set (members ns (expire now db) user) \<subseteq> set (members ns db user)"
  by (auto simp: members_def expire_def split: option.splits redis_value.splits if_splits)

text \<open>The identifiers to be drawn are of 32 bytes and in no index.\<close>

definition draws_fresh :: "namespace \<Rightarrow> redis_world \<Rightarrow> bool" where
  "draws_fresh ns w \<longleftrightarrow> (\<forall>bytes \<in> set (rw_random w). length bytes = 32 \<and>
     (\<forall>user. b64_encode bytes \<notin> fst ` set (members ns (rw_db w) user)))"

definition session_stored :: "'w session_env \<Rightarrow> script_lib \<Rightarrow> namespace \<Rightarrow> session \<Rightarrow> int \<Rightarrow> redis_world \<Rightarrow> bool" where
  "session_stored E L ns session expires w \<longleftrightarrow> store_ok L ns (rw_now w) (rw_db w) \<and> validSessionID (ses_id session)
     \<and> (\<exists>row. live L ns (rw_now w) (rw_db w) (ses_id session) = Some row \<and> row_expires row = expires)
     \<and> decodeSession E (BulkString (raw_of ns (rw_db w) (ses_id session))) = Inr session"

lemma create_attempts_stored:
  assumes s: "redis_store L s" and enc: "encodes L" and E: "se_random E = draw_random"
    and ident: "lib_identity_user L identity = Some (id_user (co_identity opts))" "id_user (co_identity opts) \<noteq> ''''"
    and time: "0 < rw_now w" "0 < milliseconds (co_ttl opts)" "rw_now w + milliseconds (co_ttl opts) < 10 ^ 14"
    and "store_ok L (store_namespace s) t (rw_db w)" "t \<le> rw_now w" "draws_fresh (store_namespace s) w"
    and "create_attempts E s opts identity n w = (Inr session, w')"
  shows "session_stored E L (store_namespace s) session (rw_now w + milliseconds (co_ttl opts)) w' \<and> rw_now w' = rw_now w"
  using assms(6-)
proof (induction n arbitrary: w t)
  case (Suc n)
  let ?ns = "store_namespace s" and ?now = "rw_now w" and ?user = "id_user (co_identity opts)"
  have k: "key_space ?ns" by (rule store_key_space [OF s])
  obtain bytes rest where random: "rw_random w = bytes # rest"
    using Suc.prems(7) by (cases "rw_random w") (auto simp: E draw_random_def)
  let ?i = "b64_encode bytes" and ?w1 = "w\<lparr>rw_random := rest\<rparr>"
  let ?a = "store_args s OpCreate ?i ?user (co_ttl opts) identity"
  have bytes: "length bytes = 32" and new: "\<And>user. ?i \<notin> fst ` set (members ?ns (rw_db w) user)"
    using Suc.prems(6) random by (simp_all add: draws_fresh_def)
  have valid: "validSessionID ?i"
    by (rule validSessionID_encode [OF bytes])
  obtain r db where script: "session_script L ?ns ?now ?a (rw_db w) = (r, db)" by fastforce
  have op: "script_op ''create'' = Some OpCreate" by (simp add: script_op_def)
  have "run s ''create'' ?i ?user (co_ttl opts) identity ?w1 =
    (let (r, db) = session_script L ?ns (rw_now ?w1) ?a (rw_db ?w1) in (script_values ''create'' r, ?w1\<lparr>rw_db := db\<rparr>))"
    by (rule run_redis [OF s op]) (rule valid_id_nonempty [OF valid])
  then have run: "run s ''create'' ?i ?user (co_ttl opts) identity ?w1 = (script_values ''create'' r, ?w1\<lparr>rw_db := db\<rparr>)"
    by (simp add: script)
  have a [simp]: "sa_op ?a = OpCreate" "sa_id ?a = ?i" "sa_user ?a = ?user" "sa_key ?a = skey ?ns ?i"
    "sa_ttl ?a = milliseconds (co_ttl opts)" "sa_identity ?a = identity" "sa_limit ?a = store_limit s"
    by (simp_all add: store_args_def)
  have "row_valid L ?now ?i (new_row L ?now ?a)"
    using Suc.prems(1-3) ident valid_id_chars [OF valid] by (simp add: row_valid_def new_row_def)
  then have args: "args_ok L ?ns ?now ?a"
    using Suc.prems(1-3) s by (simp add: args_ok_def redis_store_def)
  have fresh: "fresh_id ?ns (expire ?now (rw_db w)) ?a"
    unfolding fresh_id_def a using new members_expire [of ?ns ?now "rw_db w"] by (meson image_mono subsetD)
  obtain sr where ok: "store_ok L ?ns ?now db" and sr: "reply_of L r sr"
      "session_spec L ?now ?a (live L ?ns ?now (rw_db w)) sr (live L ?ns ?now db)"
    using history_refines [OF k enc Suc.prems(4,5) args _ script] fresh by auto
  show ?case
  proof (cases r)
    case (ReplyOk raws)
    then obtain rows where rows: "sr = Found rows" using sr(1) by (cases sr) (auto simp: reply_of_def)
    have raws: "raws = [raw_of ?ns db ?i]"
      using key_space.create_script_stored [OF k _ _ script [unfolded ReplyOk]] by simp
    have l: "live L ?ns ?now db ?i = Some (new_row L ?now ?a)"
      using spec_create_found [OF sr(2) [unfolded rows] a(1)] by (metis a(2) fun_upd_same)
    have "created_session E opts ?i [BulkString (raw_of ?ns db ?i)] = Inr session" and w': "w' = ?w1\<lparr>rw_db := db\<rparr>"
      using Suc.prems(7) by (simp_all add: E draw_random_def random run ReplyOk raws script_values_def reply_result_def Let_def)
    then have "decodeSession E (BulkString (raw_of ?ns db ?i)) = Inr session" "ses_id session = ?i"
      by (auto simp: created_session_def and_then_eq_Inr split: if_splits)
    with ok valid l show ?thesis by (simp add: session_stored_def w' new_row_def)
  next
    case ReplyCollision
    let ?w2 = "?w1\<lparr>rw_db := db\<rparr>"
    have next_try: "create_attempts E s opts identity n ?w2 = (Inr session, w')"
      using Suc.prems(7) by (simp add: E draw_random_def random run ReplyCollision script_values_def reply_result_def
          Let_def errSessionCollision_def)
    have db: "db = expire ?now (rw_db w)" using script_failed_unchanged [OF script] ReplyCollision by simp
    have "draws_fresh ?ns ?w2"
      unfolding draws_fresh_def db
      using Suc.prems(6) random members_expire [of ?ns ?now "rw_db w"]
      by (simp add: draws_fresh_def) (meson image_mono subsetD)
    with Suc.IH [of ?w2 ?now] Suc.prems(1-3) ok next_try show ?thesis by simp
  next
    case ReplyMissing
    then show ?thesis
      using sr Suc.prems(7) by (simp add: E draw_random_def random run script_values_def reply_result_def Let_def
          check_reply_def errCorruptSession_def errSessionCollision_def)
  next
    case (ReplyError e)
    then show ?thesis using sr(1) by (cases sr) (simp_all add: reply_of_def)
  qed
qed simp

section \<open>The life of a session\<close>

definition accepted_decision :: "session \<Rightarrow> auth_decision" where
  "accepted_decision session =
     \<lparr>ad_authenticated = True, ad_identity = ses_identity session, ad_reason = ''''\<rparr>"

lemma session_authenticate_lookup:
  assumes s: "redis_store L s" and ok: "store_ok L (store_namespace s) t (rw_db w)" "t \<le> rw_now w"
  shows "fst (session_authenticate (lookup E s) i w) =
    (if \<not> validSessionID i then Inr rejected_decision
     else case live L (store_namespace s) (rw_now w) (rw_db w) i of
       None \<Rightarrow> Inr rejected_decision
     | Some row \<Rightarrow> and_then (decodeSession E (BulkString (raw_of (store_namespace s) (rw_db w) i)))
         (\<lambda>session. if ses_id session \<noteq> i then Inl errCorruptSession else Inr (accepted_decision session)))"
proof (cases "validSessionID i")
  case True
  have zero: "time_zero < 0" by (simp add: time_zero_def second_def)
  obtain r w' where l: "lookup E s i w = (r, w')" by fastforce
  have r: "r = (case live L (store_namespace s) (rw_now w) (rw_db w) i of
     None \<Rightarrow> Inr None
   | Some row \<Rightarrow> and_then (decodeSession E (BulkString (raw_of (store_namespace s) (rw_db w) i)))
       (\<lambda>session. if ses_id session \<noteq> i then Inl errCorruptSession else Inr (Some session)))"
    using lookup_redis [OF s ok True, of E] by (simp add: l)
  show ?thesis
  proof (cases "decodeSession E (BulkString (raw_of (store_namespace s) (rw_db w) i))")
    case (Inl e)
    with True r show ?thesis by (simp add: session_authenticate_def l split: option.splits)
  next
    case (Inr session)
    with True r zero decodeSession_sound [OF Inr] show ?thesis
      by (simp add: session_authenticate_def l accepted_decision_def split: option.splits)
  qed
qed (simp add: session_authenticate_def)

text \<open>
  C18 Round trip of sessions: a session that \<open>Create\<close> returns is found by \<open>Lookup\<close>, unchanged, and
  accepted by the authenticator with its identity, until the moment it expires.
\<close>

theorem session_created_found:
  assumes "newStore config = Inr s" "sc_client config = SingleClient (redis_eval L)" "encodes L"
    "se_random E = draw_random"
    "\<forall>text. se_marshal E (co_identity opts) = Inr text \<longrightarrow> lib_identity_user L text = Some (id_user (co_identity opts))"
    "store_ok L (store_namespace s) t (rw_db w)" "t \<le> rw_now w" "draws_fresh (store_namespace s) w"
    "0 < rw_now w" "rw_now w + milliseconds (co_ttl opts) < 10 ^ 14"
    "create E s opts w = (Inr session, w')"
    "rw_now w \<le> now" "now < rw_now w + milliseconds (co_ttl opts)"
  shows "fst (lookup E s (ses_id session) (w'\<lparr>rw_now := now\<rparr>)) = Inr (Some session)
    \<and> fst (session_authenticate (lookup E s) (ses_id session) (w'\<lparr>rw_now := now\<rparr>)) = Inr (accepted_decision session)"
proof -
  have s: "redis_store L s" by (rule newStore_redis_store [OF assms(1,2)])
  have u: "id_user (co_identity opts) \<noteq> []"
    using assms(11) by (cases "id_user (co_identity opts) = []") (simp_all add: create_def)
  obtain encoded where enc: "se_marshal E (co_identity opts) = Inr encoded"
    "create_attempts E s opts encoded 3 w = (Inr session, w')" "id_user (co_identity opts) \<noteq> ''''" "millisecond \<le> co_ttl opts"
    using assms(11) u by (auto simp: create_def validateTTL_def reject_if_def split: if_splits sum.splits)
  have "0 < milliseconds (co_ttl opts)"
    using enc(4) by (simp add: milliseconds_def millisecond_def)
  then have "session_stored E L (store_namespace s) session (rw_now w + milliseconds (co_ttl opts)) w'" and now: "rw_now w' = rw_now w"
    using create_attempts_stored [OF s assms(3,4) _ enc(3) assms(9) _ assms(10,6-8) enc(2)] assms(5) enc(1) by blast+
  then obtain row where stored: "store_ok L (store_namespace s) (rw_now w) (rw_db w')" "validSessionID (ses_id session)"
      "live L (store_namespace s) (rw_now w) (rw_db w') (ses_id session) = Some row"
      "row_expires row = rw_now w + milliseconds (co_ttl opts)"
      "decodeSession E (BulkString (raw_of (store_namespace s) (rw_db w') (ses_id session))) = Inr session"
    by (auto simp: session_stored_def)
  let ?w = "w'\<lparr>rw_now := now\<rparr>"
  have ok: "store_ok L (store_namespace s) (rw_now w) (rw_db ?w)" "rw_now w \<le> rw_now ?w"
    using stored(1) assms(12) by simp_all
  have l: "live L (store_namespace s) (rw_now ?w) (rw_db ?w) (ses_id session) = Some row"
    using stored(3,4) assms(13) by (auto simp: live_Some)
  show ?thesis
    using lookup_redis [OF s ok stored(2), of E] session_authenticate_lookup [OF s ok, of E "ses_id session"]
    by (simp add: l [simplified] stored(2,5))
qed

text \<open>
  C19 Acceptance: while the invariant holds, the session authenticator accepts a credential exactly when a
  session with that identifier is in force and its stored text decodes to it; the identity is the one in
  that text.
\<close>

theorem session_acceptance:
  assumes "newStore config = Inr s" "sc_client config = SingleClient (redis_eval L)"
    "store_ok L (store_namespace s) t (rw_db w)" "t \<le> rw_now w"
  shows "(\<exists>d. fst (session_authenticate (lookup E s) credential w) = Inr d \<and> ad_authenticated d \<and> ad_identity d = identity)
    \<longleftrightarrow> validSessionID credential \<and> live L (store_namespace s) (rw_now w) (rw_db w) credential \<noteq> None
      \<and> (\<exists>session. decodeSession E (BulkString (raw_of (store_namespace s) (rw_db w) credential)) = Inr session
           \<and> ses_id session = credential \<and> ses_identity session = identity)"
proof -
  note auth = session_authenticate_lookup [OF newStore_redis_store [OF assms(1,2)] assms(3,4), of E credential]
  show ?thesis
  proof (cases "validSessionID credential \<and> live L (store_namespace s) (rw_now w) (rw_db w) credential \<noteq> None")
    case False
    then show ?thesis by (auto simp: auth rejected_decision_def)
  next
    case True
    then show ?thesis
      by (cases "decodeSession E (BulkString (raw_of (store_namespace s) (rw_db w) credential))")
        (auto simp: auth accepted_decision_def)
  qed
qed

lemma script_revoke:
  assumes "key_space ns" "encodes L" "store_ok L ns t db" "t \<le> now" "sa_op a = OpRevoke" "sa_key a = skey ns (sa_id a)"
  shows "\<exists>db'. session_script L ns now a db \<in> {(ReplyOk [], db'), (ReplyMissing, db')} \<and> store_ok L ns now db'
    \<and> live L ns now db' (sa_id a) = None"
proof -
  obtain r db' where script: "session_script L ns now a db = (r, db')" by fastforce
  have "args_ok L ns now a" using assms(5,6) by (simp add: args_ok_def)
  with assms(5) obtain sr where sr: "store_ok L ns now db'" "reply_of L r sr"
      "session_spec L now a (live L ns now db) sr (live L ns now db')"
    using history_refines [OF assms(1-4) _ _ script] by auto
  from sr(3) assms(5) have "sr \<in> {Found [], Missing}" "live L ns now db' (sa_id a) = None"
    by (auto elim: session_spec.cases)
  with sr(1,2) show ?thesis by (cases r) (auto simp: reply_of_def script)
qed

lemma revoked_not_live:
  assumes "newStore config = Inr s" "sc_client config = SingleClient (redis_eval L)" "encodes L"
    "store_ok L (store_namespace s) t (rw_db w)" "t \<le> rw_now w" "revoke s credential w = (r, w1)"
    "store_history L (store_namespace s) (rw_now w1, rw_db w1) es (t2, rw_db w2)" "t2 \<le> rw_now w2"
    "\<forall>(a, r) \<in> set es. sa_op a = OpCreate \<longrightarrow> sa_id a \<noteq> credential" "validSessionID credential"
  shows "r = Inr ()" "redis_store L s" "store_ok L (store_namespace s) t2 (rw_db w2)"
    "live L (store_namespace s) (rw_now w2) (rw_db w2) credential = None"
proof -
  note True = assms(10)
  show s: "redis_store L s" by (rule newStore_redis_store [OF assms(1,2)])
  have k: "key_space (store_namespace s)" by (rule store_key_space [OF s])
  let ?a = "store_args s OpRevoke credential '''' 0 ''''"
  have a: "sa_op ?a = OpRevoke" "sa_id ?a = credential" "sa_key ?a = skey (store_namespace s) credential"
    by (simp_all add: store_args_def)
  obtain db' where script: "session_script L (store_namespace s) (rw_now w) ?a (rw_db w) \<in> {(ReplyOk [], db'), (ReplyMissing, db')}"
    and ok: "store_ok L (store_namespace s) (rw_now w) db'" and none: "live L (store_namespace s) (rw_now w) db' credential = None"
    using script_revoke [OF k assms(3-5) a(1)] a by auto
  have op: "script_op ''revoke'' = Some OpRevoke" by (simp add: script_op_def)
  have "run s ''revoke'' credential '''' 0 '''' w =
    (let (r, db) = session_script L (store_namespace s) (rw_now w) ?a (rw_db w) in (script_values ''revoke'' r, w\<lparr>rw_db := db\<rparr>))"
    by (rule run_redis [OF s op]) (rule valid_id_nonempty [OF True])
  with script have "run s ''revoke'' credential '''' 0 '''' w = (Inr [], w\<lparr>rw_db := db'\<rparr>)"
    by (auto simp: Let_def script_values_def reply_result_def check_reply_def)
  with True assms(6) have r: "r = Inr ()" "rw_now w1 = rw_now w" "rw_db w1 = db'" by (auto simp: revoke_def)
  have h: "store_history L (store_namespace s) (rw_now w, db') es (t2, rw_db w2)" using assms(7) by (simp add: r)
  show ok2: "store_ok L (store_namespace s) t2 (rw_db w2)" using history_store_ok [OF h k assms(3) ok] by simp
  have "live L (store_namespace s) t2 (rw_db w2) credential = None"
    by (rule history_no_resurrection [OF h k assms(3) ok none assms(9)])
  then show "live L (store_namespace s) (rw_now w2) (rw_db w2) credential = None" by (rule live_later [OF assms(8)])
  show "r = Inr ()" by (rule r(1))
qed

text \<open>
  C20 Revocation is final: after \<open>Revoke\<close>, which cannot fail while the invariant holds, the authenticator
  rejects the credential, whatever the other callers do in the meantime, unless a session is created with
  that identifier.
\<close>

theorem session_revocation_final:
  assumes "newStore config = Inr s" "sc_client config = SingleClient (redis_eval L)" "encodes L"
    "store_ok L (store_namespace s) t (rw_db w)" "t \<le> rw_now w" "revoke s credential w = (r, w1)"
    "store_history L (store_namespace s) (rw_now w1, rw_db w1) es (t2, rw_db w2)" "t2 \<le> rw_now w2"
    "\<forall>(a, r) \<in> set es. sa_op a = OpCreate \<longrightarrow> sa_id a \<noteq> credential"
  shows "r = Inr () \<and> fst (session_authenticate (lookup E s) credential w2) = Inr rejected_decision"
proof (cases "validSessionID credential")
  case False
  with assms(6) show ?thesis by (simp add: revoke_def session_authenticate_def)
next
  case True
  note revoked = revoked_not_live [OF assms True]
  show ?thesis
    using session_authenticate_lookup [OF revoked(2,3) assms(8), of E credential] True by (simp add: revoked(1,4))
qed

section \<open>Corrupt storage\<close>

lemma load_session_error: "load_session L ns now db sid = Inl e \<Longrightarrow> e = session_corrupt"
  by (auto simp: load_session_def split: option.splits redis_value.splits if_splits prod.splits)

text \<open>
  Corrupt storage fails closed: when the key of a session does not hold a valid row, the authenticator
  returns an error that is \<open>ErrCorruptSession\<close>, neither an acceptance nor a rejection, and nothing is
  written.
\<close>

theorem corrupt_session_error:
  assumes "newStore config = Inr s" "sc_client config = SingleClient (redis_eval L)" "validSessionID credential"
    "load_session L (store_namespace s) (rw_now w) (expire (rw_now w) (rw_db w)) credential = Inl e"
  shows "\<exists>err w'. session_authenticate (lookup E s) credential w = (Inl err, w')
    \<and> errors_is err (error_text errCorruptSession) \<and> rw_db w' = expire (rw_now w) (rw_db w)"
proof -
  have s: "redis_store L s" by (rule newStore_redis_store [OF assms(1,2)])
  let ?a = "store_args s OpLookup credential '''' 0 ''''"
  have "find_target L (store_namespace s) (rw_now w) (expire (rw_now w) (rw_db w)) ?a = Inl (ReplyError session_corrupt)"
    using assms(4) load_session_error [OF assms(4)] by (simp add: find_target_def store_args_def)
  then have script: "session_script L (store_namespace s) (rw_now w) ?a (rw_db w) =
      (ReplyError session_corrupt, expire (rw_now w) (rw_db w))"
    by (simp add: session_script_def)
  have op: "script_op ''lookup'' = Some OpLookup" by (simp add: script_op_def)
  have "run s ''lookup'' credential '''' 0 '''' w =
    (let (r, db) = session_script L (store_namespace s) (rw_now w) ?a (rw_db w) in (script_values ''lookup'' r, w\<lparr>rw_db := db\<rparr>))"
    by (rule run_redis [OF s op]) (rule valid_id_nonempty [OF assms(3)])
  then show ?thesis
    using assms(3) by (simp add: session_authenticate_def lookup_def read_session_def script script_values_def
        reply_result_def session_corrupt_def errCorruptSession_def)
qed

end
