(* ===== verification/SessionExamples.thy ===== *)
theory SessionExamples
  imports SessionAuth
begin

text \<open>
  A store on an empty Redis, with a concrete encoding of rows, and the session theorems evaluated on it.
\<close>

section \<open>An encoding of rows\<close>

definition put_string :: "string \<Rightarrow> string" where
  "put_string s = concat (map (\<lambda>c. [CHR ''+'', c]) s) @ [CHR ''.'']"

fun get_string :: "string \<Rightarrow> (string \<times> string) option" where
  "get_string (m # c # s) = (if m = CHR ''+'' then map_option (\<lambda>(a, b). (c # a, b)) (get_string s)
     else Some ([], c # s))"
| "get_string [m] = Some ([], [])"
| "get_string [] = None"

lemma get_put_string [simp]: "get_string (put_string s @ t) = Some (s, t)"
  by (induction s) (cases t, auto simp: put_string_def)

lemma get_put_string_Nil [simp]: "get_string (put_string s) = Some (s, [])"
  using get_put_string [of s "[]"] by simp

fun get_strings :: "nat \<Rightarrow> string \<Rightarrow> string list option" where
  "get_strings 0 s = Some []"
| "get_strings (Suc n) s = (case get_string s of None \<Rightarrow> None
     | Some (a, t) \<Rightarrow> map_option (Cons a) (get_strings n t))"

definition demo_encode :: "session_row \<Rightarrow> string" where
  "demo_encode row = concat (map put_string [row_id row, row_user row, row_identity row, row_hash row,
     format_int (row_created row), format_int (row_expires row)])"

definition demo_decode :: "string \<Rightarrow> session_row option" where
  "demo_decode s = (case get_strings 6 s of
     Some [i, u, d, h, c, e] \<Rightarrow> (case (parse_int c, parse_int e) of
        (Some c, Some e) \<Rightarrow> Some \<lparr>row_version = 1, row_id = i, row_user = u, row_identity = d, row_hash = h,
          row_created = c, row_expires = e\<rparr>
      | _ \<Rightarrow> None)
   | _ \<Rightarrow> None)"

definition demo_lib :: script_lib where
  "demo_lib = \<lparr>lib_decode = demo_decode, lib_encode = demo_encode,
     lib_identity_user = (\<lambda>t. Some t), lib_sha1 = (\<lambda>t. t)\<rparr>"

lemma demo_decode_encode:
  assumes "row_version row = 1" "in_int64 (row_created row)" "in_int64 (row_expires row)"
  shows "demo_decode (demo_encode row) = Some row"
proof -
  let ?ss = "[row_id row, row_user row, row_identity row, row_hash row, format_int (row_created row), format_int (row_expires row)]"
  have "get_strings 6 (demo_encode row) = Some ?ss"
    by (simp add: demo_encode_def eval_nat_numeral)
  then show ?thesis using assms by (simp add: demo_decode_def parse_int_format_int)
qed

lemma encodes_demo: "encodes demo_lib"
  unfolding encodes_def demo_lib_def
  by (auto intro!: demo_decode_encode simp: in_int64_def max_int64_def min_int64_def)

section \<open>A store\<close>

definition demo_config :: "redis_world store_config" where
  "demo_config = \<lparr>sc_client = SingleClient (redis_eval demo_lib), sc_scope = ''p'', sc_separator = '''', sc_max_sessions = 1\<rparr>"

definition demo_store :: "redis_world store" where
  "demo_store = \<lparr>store_client = redis_eval demo_lib, store_scope = ''p'', store_keys = \<lparr>kb_separator = '':''\<rparr>, store_limit = 1\<rparr>"

lemma demo_newStore: "newStore demo_config = Inr demo_store" "sc_client demo_config = SingleClient (redis_eval demo_lib)"
  by (simp_all add: newStore_def demo_config_def demo_store_def newKeyBuilder_def Let_def runes_ascii is_ascii_def
      separator_rune_def)

definition demo_stored :: "session_row \<Rightarrow> stored_session" where
  "demo_stored row = \<lparr>sto_version = row_version row, sto_id = row_id row, sto_user = row_user row,
     sto_identity = row_identity row, sto_created = row_created row, sto_expires = row_expires row\<rparr>"

definition demo_env :: "redis_world session_env" where
  "demo_env = \<lparr>se_random = draw_random, se_marshal = (\<lambda>i. Inr (id_user i)),
     se_stored = (\<lambda>s. map_option demo_stored (demo_decode s)),
     se_identity = (\<lambda>t. Some \<lparr>id_user = t, id_roles = [], id_attributes = None\<rparr>)\<rparr>"

definition demo_id :: string where
  "demo_id = b64_encode (replicate 32 (CHR ''a''))"

definition demo_world :: redis_world where
  "demo_world = \<lparr>rw_now = 1000, rw_db = Map.empty, rw_random = [replicate 32 (CHR ''a'')]\<rparr>"

definition demo_opts :: create_options where
  "demo_opts = \<lparr>co_identity = \<lparr>id_user = ''u'', id_roles = [], id_attributes = None\<rparr>, co_ttl = 60 * second\<rparr>"

abbreviation demo_ns :: namespace where "demo_ns \<equiv> store_namespace demo_store"

definition demo_args :: script_args where
  "demo_args = store_args demo_store OpCreate demo_id ''u'' (60 * second) ''u''"

lemma demo_redis: "redis_store demo_lib demo_store"
  by (rule newStore_redis_store [OF demo_newStore])

lemma demo_id_valid: "validSessionID demo_id"
  by (simp add: demo_id_def validSessionID_encode)

lemma demo_args_simps [simp]:
  "sa_op demo_args = OpCreate" "sa_id demo_args = demo_id" "sa_user demo_args = ''u''"
  "sa_key demo_args = skey demo_ns demo_id" "sa_ttl demo_args = 60000" "sa_identity demo_args = ''u''"
  "sa_limit demo_args = 1"
  by (simp_all add: demo_args_def store_args_def milliseconds_def millisecond_def second_def demo_store_def)

lemma demo_args_ok: "args_ok demo_lib demo_ns 1000 demo_args"
  using valid_id_chars [OF demo_id_valid]
  by (simp add: args_ok_def row_valid_def new_row_def demo_lib_def)

lemma demo_script: "fst (session_script demo_lib demo_ns 1000 demo_args Map.empty) =
    ReplyOk [demo_encode (new_row demo_lib 1000 demo_args)]"
  by (simp add: session_script_def Let_def find_target_def index_members_def write_phase_def write_create_def
      expire_def demo_lib_def)

lemma demo_fresh: "fresh_id demo_ns (expire now Map.empty) a"
  by (simp add: fresh_id_def members_def expire_def)

lemma demo_db: "\<exists>db'. session_script demo_lib demo_ns 1000 demo_args Map.empty =
    (ReplyOk [demo_encode (new_row demo_lib 1000 demo_args)], db')"
  by (metis demo_script prod.collapse)

lemma demo_history:
  "\<exists>db'. store_history demo_lib demo_ns (0, Map.empty) [(demo_args, ReplyOk [demo_encode (new_row demo_lib 1000 demo_args)])] (1000, db')"
proof -
  obtain db' where db': "session_script demo_lib demo_ns 1000 demo_args Map.empty =
      (ReplyOk [demo_encode (new_row demo_lib 1000 demo_args)], db')" using demo_db by blast
  have "store_history demo_lib demo_ns (0, Map.empty) ([] @ [(demo_args, ReplyOk [demo_encode (new_row demo_lib 1000 demo_args)])]) (1000, db')"
    by (rule history_step [OF history_start _ demo_args_ok _ db']) (simp_all add: demo_fresh)
  then show ?thesis by auto
qed

section \<open>The theorems on it\<close>

theorem session_id_roundtrip_witness: "validSessionID (b64_encode (replicate 32 (CHR ''a'')))"
  using session_id_roundtrip [of "replicate 32 (CHR ''a'')"] by simp

theorem session_script_refines_witness:
  "\<exists>db' sr. store_ok demo_lib demo_ns 1000 db'
    \<and> session_spec demo_lib 1000 demo_args (live demo_lib demo_ns 1000 Map.empty) sr (live demo_lib demo_ns 1000 db')"
proof -
  obtain db' where "session_script demo_lib demo_ns 1000 demo_args Map.empty =
      (ReplyOk [demo_encode (new_row demo_lib 1000 demo_args)], db')" using demo_db by blast
  then show ?thesis
    using session_script_refines [OF demo_newStore encodes_demo store_ok_empty, of 1000 1000 demo_args] demo_args_ok demo_fresh by blast
qed

theorem session_store_invariant_witness: "\<exists>db'. store_ok demo_lib demo_ns 1000 db'"
  using session_store_invariant [OF demo_newStore encodes_demo] demo_history by blast

lemma demo_live_empty: "live demo_lib demo_ns now Map.empty sid = None"
  by (simp add: live_def)

theorem session_no_resurrection_witness: "\<exists>db'. live demo_lib demo_ns 1000 db' [] = None"
proof -
  obtain db' where h: "store_history demo_lib demo_ns (0, Map.empty) [(demo_args, ReplyOk [demo_encode (new_row demo_lib 1000 demo_args)])] (1000, db')"
    using demo_history by blast
  have "demo_id \<noteq> []" by (rule valid_id_nonempty [OF demo_id_valid])
  then show ?thesis
    using session_no_resurrection [OF demo_newStore encodes_demo store_ok_empty h demo_live_empty] by force
qed

theorem session_limit_witness: "\<exists>db'. card (user_session_ids (live demo_lib demo_ns 1000 db') ''u'') \<le> 1
  \<and> live demo_lib demo_ns 1000 db' demo_id \<noteq> None"
proof -
  obtain db' where "session_script demo_lib demo_ns 1000 demo_args Map.empty =
      (ReplyOk [demo_encode (new_row demo_lib 1000 demo_args)], db')" using demo_db by blast
  from session_limit [OF demo_newStore encodes_demo store_ok_empty _ demo_args_ok _ demo_fresh this, of 1000]
  show ?thesis by (auto simp: Let_def)
qed

lemma demo_created: "\<exists>session w'. create demo_env demo_store demo_opts demo_world = (Inr session, w')
    \<and> session_stored demo_env demo_lib demo_ns session 61000 w' \<and> rw_now w' = 1000"
proof -
  have op: "script_op ''create'' = Some OpCreate" by (simp add: script_op_def)
  have "run demo_store ''create'' demo_id ''u'' (60 * second) ''u'' (demo_world\<lparr>rw_random := []\<rparr>) =
    (let (r, db) = session_script demo_lib demo_ns 1000 demo_args Map.empty
     in (script_values ''create'' r, demo_world\<lparr>rw_random := [], rw_db := db\<rparr>))"
    using run_redis [OF demo_redis op, of demo_id "''u''" "60 * second" "''u''" "demo_world\<lparr>rw_random := []\<rparr>"]
      valid_id_nonempty [OF demo_id_valid] by (simp add: demo_args_def demo_world_def)
  then obtain db' where run: "run demo_store ''create'' demo_id ''u'' (60 * second) ''u'' (demo_world\<lparr>rw_random := []\<rparr>) =
      (Inr [BulkString (demo_encode (new_row demo_lib 1000 demo_args))], demo_world\<lparr>rw_random := [], rw_db := db'\<rparr>)"
    using demo_db by (auto simp: script_values_def reply_result_def)
  have "demo_decode (demo_encode (new_row demo_lib 1000 demo_args)) = Some (new_row demo_lib 1000 demo_args)"
    by (rule demo_decode_encode) (simp_all add: new_row_def in_int64_def min_int64_def max_int64_def)
  then have "\<exists>session. created_session demo_env demo_opts demo_id [BulkString (demo_encode (new_row demo_lib 1000 demo_args))] = Inr session"
    by (simp add: created_session_def decodeSession_def demo_env_def demo_stored_def new_row_def demo_id_valid trim_space_visible demo_opts_def)
  then obtain session where attempts: "create_attempts demo_env demo_store demo_opts ''u'' 3 demo_world =
      (Inr session, demo_world\<lparr>rw_random := [], rw_db := db'\<rparr>)"
    using run by (auto simp: demo_opts_def demo_env_def draw_random_def demo_world_def demo_id_def numeral_3_eq_3 Let_def)
  then have "create demo_env demo_store demo_opts demo_world = (Inr session, demo_world\<lparr>rw_random := [], rw_db := db'\<rparr>)"
    by (simp add: create_def demo_opts_def validateTTL_def second_def millisecond_def trim_space_visible valid_string_ascii
        is_ascii_def demo_env_def)
  moreover have "session_stored demo_env demo_lib demo_ns session 61000 (demo_world\<lparr>rw_random := [], rw_db := db'\<rparr>)
      \<and> rw_now (demo_world\<lparr>rw_random := [], rw_db := db'\<rparr>) = rw_now demo_world"
    using create_attempts_stored [OF demo_redis encodes_demo _ _ _ _ _ _ _ _ _ attempts, of 1000]
    by (simp add: demo_env_def demo_lib_def demo_opts_def demo_world_def milliseconds_def millisecond_def second_def
        store_ok_empty draws_fresh_def members_def)
  ultimately show ?thesis by (auto simp: demo_world_def)
qed

lemma demo_draws: "draws_fresh demo_ns demo_world"
  by (simp add: draws_fresh_def demo_world_def members_def)

theorem session_created_found_witness:
  "\<exists>session w'. create demo_env demo_store demo_opts demo_world = (Inr session, w')
    \<and> fst (lookup demo_env demo_store (ses_id session) (w'\<lparr>rw_now := 60999\<rparr>)) = Inr (Some session)"
proof -
  obtain session w' where c: "create demo_env demo_store demo_opts demo_world = (Inr session, w')"
    using demo_created by blast
  have "fst (lookup demo_env demo_store (ses_id session) (w'\<lparr>rw_now := 60999\<rparr>)) = Inr (Some session)"
    using session_created_found [OF demo_newStore encodes_demo _ _ _ _ demo_draws _ _ c, of 1000 60999]
    by (simp add: demo_env_def demo_lib_def demo_world_def demo_opts_def milliseconds_def millisecond_def second_def store_ok_empty)
  with c show ?thesis by blast
qed

theorem session_acceptance_witness:
  "\<exists>(session :: session) w d. fst (session_authenticate (lookup demo_env demo_store) (ses_id session) w) = Inr d
    \<and> ad_authenticated d \<and> ad_identity d = ses_identity session"
proof -
  obtain session w where s: "session_stored demo_env demo_lib demo_ns session 61000 w" using demo_created by blast
  then have ok: "store_ok demo_lib demo_ns (rw_now w) (rw_db w)" by (simp add: session_stored_def)
  have "\<exists>d. fst (session_authenticate (lookup demo_env demo_store) (ses_id session) w) = Inr d
      \<and> ad_authenticated d \<and> ad_identity d = ses_identity session"
    using session_acceptance [OF demo_newStore ok order_refl, of demo_env "ses_id session" "ses_identity session"] s
    by (auto simp: session_stored_def)
  then show ?thesis by (intro exI [of _ session] exI [of _ w])
qed

theorem session_revocation_final_witness:
  "\<exists>(session :: session) w. live demo_lib demo_ns (rw_now w) (rw_db w) (ses_id session) \<noteq> None
    \<and> fst (session_authenticate (lookup demo_env demo_store) (ses_id session) (snd (revoke demo_store (ses_id session) w)))
      = Inr rejected_decision"
proof -
  obtain session w where s: "session_stored demo_env demo_lib demo_ns session 61000 w" using demo_created by blast
  then have ok: "store_ok demo_lib demo_ns (rw_now w) (rw_db w)" by (simp add: session_stored_def)
  obtain r w1 where r: "revoke demo_store (ses_id session) w = (r, w1)" by fastforce
  have "fst (session_authenticate (lookup demo_env demo_store) (ses_id session) w1) = Inr rejected_decision"
    using session_revocation_final [OF demo_newStore encodes_demo ok order_refl r history_start order_refl] by simp
  with r s have "live demo_lib demo_ns (rw_now w) (rw_db w) (ses_id session) \<noteq> None
    \<and> fst (session_authenticate (lookup demo_env demo_store) (ses_id session) (snd (revoke demo_store (ses_id session) w)))
      = Inr rejected_decision"
    by (auto simp: session_stored_def)
  then show ?thesis by (intro exI [of _ session] exI [of _ w])
qed

theorem corrupt_session_error_witness:
  "\<exists>err w'. session_authenticate (lookup demo_env demo_store) demo_id
      (demo_world\<lparr>rw_db := [skey demo_ns demo_id \<mapsto> (RString ''x'', None)]\<rparr>) = (Inl err, w')
    \<and> errors_is err ''corrupt session storage''"
proof -
  let ?w = "demo_world\<lparr>rw_db := [skey demo_ns demo_id \<mapsto> (RString ''x'', None)]\<rparr>"
  have "load_session demo_lib demo_ns (rw_now ?w) (expire (rw_now ?w) (rw_db ?w)) demo_id = Inl session_corrupt"
    by (simp add: load_session_def expire_def demo_lib_def demo_decode_def eval_nat_numeral)
  from corrupt_session_error [OF demo_newStore demo_id_valid this, of demo_env]
  show ?thesis by (auto simp: errCorruptSession_def)
qed

text \<open>A project with another separator.\<close>

theorem session_projects_isolated_witness:
  "rw_db (snd (revokeByUser demo_store ''u'' (demo_world\<lparr>rw_db := [''q-session-x'' \<mapsto> (ROther, None)]\<rparr>))) ''q-session-x'' = Some (ROther, None)"
proof -
  let ?w = "demo_world\<lparr>rw_db := [''q-session-x'' \<mapsto> (ROther, None)]\<rparr>" and ?b = "\<lparr>kb_separator = ''-''\<rparr>"
  have b: "newKeyBuilder ''-'' = Inr ?b"
    by (simp add: newKeyBuilder_def Let_def runes_ascii is_ascii_def separator_rune_def)
  have k: "key ?b ''q'' ''session'' ''x'' = Inr ''q-session-x''"
    by (simp add: key_def key_prefix_def escape_def delimiter_def must_escape_def)
  have plain: "plain_scope ''q''" "plain_scope (store_scope demo_store)" "''q'' \<noteq> store_scope demo_store"
    by (simp_all add: plain_scope_def letter_or_digit_def demo_store_def)
  have "rw_db (snd (revokeByUser demo_store ''u'' ?w)) ''q-session-x'' \<in> {rw_db ?w ''q-session-x'', expire (rw_now ?w) (rw_db ?w) ''q-session-x''}"
    by (rule session_projects_isolated [OF demo_newStore, where E = demo_env and opts = demo_opts and sid = demo_id
          and ttl = 0 and user = "''u''", OF _ _ b k plain(3)])
      (simp_all add: demo_env_def demo_world_def plain)
  then show ?thesis by (simp add: expire_def)
qed

end
