(* ===== verification/JsonBody.thy ===== *)
theory JsonBody
  imports Prelude
begin

text \<open>
  \<open>sdk/go/http/jsonbody/decode.go\<close>: bounded decoding of one JSON value. A reader is the bytes it still
  yields and the error it ends with; the decoder of a type is a function from a reader to a value and the
  rest of the reader, given whether unknown fields are refused.
\<close>

type_synonym reader = "string \<times> go_error"

definition eof :: go_error where "eof = Sentinel ''EOF''"

text \<open>\<open>*http.MaxBytesError\<close>, recognised by \<open>errors.As\<close>.\<close>

definition max_bytes_error :: go_error where "max_bytes_error = Sentinel ''http: request body too large''"

definition maxBytesReader :: "string \<Rightarrow> int \<Rightarrow> reader" where
  "maxBytesReader body n = (if int (length body) \<le> n then (body, eof) else (take (nat n) body, max_bytes_error))"

definition defaultMaxBytes :: int where "defaultMaxBytes = 1048576"

definition errMultipleValues :: go_error where
  "errMultipleValues = Sentinel ''request body must contain exactly one JSON value''"

record decode_options =
  do_max_bytes :: int
  do_disallow_unknown :: bool

record 'a json_decoder =
  jd_value :: "bool \<Rightarrow> reader \<Rightarrow> ('a \<times> reader) result"
  jd_raw :: "reader \<Rightarrow> string result"

definition json_body_decode :: "'a json_decoder \<Rightarrow> string \<Rightarrow> decode_options \<Rightarrow> 'a result" where
  "json_body_decode dec body options =
     (let n = (if do_max_bytes options \<le> 0 then defaultMaxBytes else do_max_bytes options) in
      case jd_value dec (do_disallow_unknown options) (maxBytesReader body n) of
        Inl err \<Rightarrow> Inl err
      | Inr (target, rest) \<Rightarrow>
          (case jd_raw dec rest of
             Inr trailing \<Rightarrow> Inl errMultipleValues
           | Inl err \<Rightarrow> if errors_is err (error_text eof) then Inr target else Inl err))"

text \<open>A value is only accepted when the decoder met the end of the body, not the limit.\<close>

definition honest_decoder :: "'a json_decoder \<Rightarrow> bool" where
  "honest_decoder dec \<longleftrightarrow>
     (\<forall>strict r target rest. jd_value dec strict r = Inr (target, rest) \<longrightarrow> snd rest = snd r)
     \<and> (\<forall>r err. jd_raw dec r = Inl err \<longrightarrow> errors_is err (error_text eof) \<longrightarrow> errors_is (snd r) (error_text eof))"

text \<open>
  Bounded bodies: with a decoder that passes on the end of its reader, a body is decoded only if it is
  within the limit.
\<close>

theorem json_body_bounded:
  assumes "honest_decoder dec" "json_body_decode dec body options = Inr target"
  shows "int (length body) \<le> (if do_max_bytes options \<le> 0 then defaultMaxBytes else do_max_bytes options)"
proof -
  define n where "n = (if do_max_bytes options \<le> 0 then defaultMaxBytes else do_max_bytes options)"
  obtain rest err where v: "jd_value dec (do_disallow_unknown options) (maxBytesReader body n) = Inr (target, rest)"
    and raw: "jd_raw dec rest = Inl err" "errors_is err (error_text eof)"
    using assms(2) unfolding json_body_decode_def Let_def n_def [symmetric]
    by (auto split: sum.splits if_splits prod.splits)
  have "errors_is (snd rest) (error_text eof)" using assms(1) raw unfolding honest_decoder_def by blast
  moreover have "snd rest = snd (maxBytesReader body n)" using assms(1) v unfolding honest_decoder_def by blast
  ultimately have "errors_is (snd (maxBytesReader body n)) (error_text eof)" by simp
  then show ?thesis
    by (simp add: maxBytesReader_def max_bytes_error_def eof_def n_def [symmetric] split: if_splits)
qed

text \<open>A decoder of numerals, for the witness.\<close>

definition digit_decoder :: "string json_decoder" where
  "digit_decoder = \<lparr>jd_value = (\<lambda>strict r. if fst r = [] then Inl (snd r) else Inr ([hd (fst r)], (tl (fst r), snd r))),
     jd_raw = (\<lambda>r. if fst r = [] then Inl (snd r) else Inr (fst r))\<rparr>"

theorem json_body_bounded_witness:
  "json_body_decode digit_decoder ''7'' \<lparr>do_max_bytes = 4, do_disallow_unknown = True\<rparr> = Inr ''7'' \<and> int (length ''7'') \<le> 4"
proof -
  have "honest_decoder digit_decoder"
    by (simp add: honest_decoder_def digit_decoder_def split: if_splits)
  moreover have d: "json_body_decode digit_decoder ''7'' \<lparr>do_max_bytes = 4, do_disallow_unknown = True\<rparr> = Inr ''7''"
    by (simp add: json_body_decode_def digit_decoder_def maxBytesReader_def eof_def)
  ultimately show ?thesis using json_body_bounded [of digit_decoder "''7''" "\<lparr>do_max_bytes = 4, do_disallow_unknown = True\<rparr>" "''7''"]
    by simp
qed

end
