(* ===== verification/ObjectStorage.thy ===== *)
theory ObjectStorage
  imports Base64
begin

text \<open>
  \<open>sdk/go/objectstorage/objectstorage.go\<close>: the errors, requests and validation that every object store
  shares. Messages that the source writes in Chinese are given as short labels; nothing reads them.
\<close>

section \<open>Errors\<close>

definition errNotFound :: go_error where "errNotFound = Sentinel ''object storage: not found''"
definition errForbidden :: go_error where "errForbidden = Sentinel ''object storage: forbidden''"
definition errPreconditionFailed :: go_error where "errPreconditionFailed = Sentinel ''object storage: precondition failed''"
definition errConflict :: go_error where "errConflict = Sentinel ''object storage: conflict''"
definition errInvalidArgument :: go_error where "errInvalidArgument = Sentinel ''object storage: invalid argument''"
definition errUnavailable :: go_error where "errUnavailable = Sentinel ''object storage: unavailable''"

datatype storage_error = StorageError
  (se_kind: go_error) (se_operation: string) (se_key: string) (se_message: string)
  (se_cause: "(go_error + storage_error) option")

text \<open>\<open>Unwrap\<close>: the kind and, when it is another error, the cause.\<close>

definition se_unwrap :: "storage_error \<Rightarrow> (go_error + storage_error) list" where
  "se_unwrap e = (case se_cause e of
     None \<Rightarrow> [Inl (se_kind e)]
   | Some c \<Rightarrow> if c = Inl (se_kind e) then [Inl (se_kind e)] else [Inl (se_kind e), c])"

text \<open>\<open>errors.Is\<close> on such an error, for a sentinel.\<close>

primrec se_is :: "storage_error \<Rightarrow> go_error \<Rightarrow> bool" where
  "se_is (StorageError kind op key msg cause) t = (errors_is kind (error_text t) \<or>
     (case map_option (map_sum (\<lambda>e. errors_is e (error_text t)) (\<lambda>e. se_is e t)) cause of
        None \<Rightarrow> False | Some (Inl b) \<Rightarrow> b | Some (Inr b) \<Rightarrow> b))"

type_synonym 'a storage_result = "storage_error + 'a"

definition invalid :: "string \<Rightarrow> string \<Rightarrow> string \<Rightarrow> storage_error" where
  "invalid operation key message =
     StorageError errInvalidArgument operation key message (Some (Inl (Plain message)))"

section \<open>Namespaces, keys and lifetimes\<close>

definition maxObjectKeyBytes :: nat where "maxObjectKeyBytes = 1024"
definition maxSinglePutBytes :: int where "maxSinglePutBytes = 5 * 1024 * 1024 * 1024"
definition minPresignTTL :: int where "minPresignTTL = minute"
definition maxPresignTTL :: int where "maxPresignTTL = hour"

record bucket_namespace =
  ns_bucket :: string
  ns_prefix :: string

definition trim_right_slashes :: "string \<Rightarrow> string" where
  "trim_right_slashes s = rev (dropWhile (\<lambda>c. c = CHR ''/'') (rev s))"

definition normalizeNamespace :: "bucket_namespace \<Rightarrow> bucket_namespace storage_result" where
  "normalizeNamespace ns =
     (if trim_space (ns_bucket ns) = '''' \<or> ns_bucket ns \<noteq> trim_space (ns_bucket ns)
      then Inl (invalid ''configure'' '''' ''bucket blank'')
      else if \<not> valid_string (ns_bucket ns) \<or> contains_control (ns_bucket ns)
      then Inl (invalid ''configure'' '''' ''bucket encoding'')
      else if has_prefix (ns_prefix ns) ''/'' then Inl (invalid ''configure'' '''' ''prefix slash'')
      else if \<not> valid_string (ns_prefix ns) \<or> contains_control (ns_prefix ns)
      then Inl (invalid ''configure'' '''' ''prefix encoding'')
      else let trimmed = trim_right_slashes (ns_prefix ns);
               prefix = (if trimmed \<noteq> '''' then trimmed @ ''/'' else trimmed) in
        if length prefix > maxObjectKeyBytes then Inl (invalid ''configure'' '''' ''prefix length'')
        else Inr \<lparr>ns_bucket = ns_bucket ns, ns_prefix = prefix\<rparr>)"

definition validateKey :: "bucket_namespace \<Rightarrow> string \<Rightarrow> unit storage_result" where
  "validateKey ns key =
     (if \<not> valid_string key \<or> key = '''' \<or> key \<noteq> trim_space key
      then Inl (invalid ''validate'' key ''key blank'')
      else if has_prefix key ''/'' \<or> contains_control key
      then Inl (invalid ''validate'' key ''key characters'')
      else if length (ns_prefix ns) + length key > maxObjectKeyBytes
      then Inl (invalid ''validate'' key ''key length'')
      else Inr ())"

definition validate_presign_ttl :: "int \<Rightarrow> int \<Rightarrow> int storage_result" where
  "validate_presign_ttl ttl default_ttl =
     (let ttl = (if ttl = 0 then default_ttl else ttl) in
      if ttl < minPresignTTL \<or> ttl > maxPresignTTL then Inl (invalid ''presign'' '''' ''TTL'') else Inr ttl)"

section \<open>Requests\<close>

record object_ref =
  or_key :: string
  or_version :: string

record byte_range =
  br_start :: int
  br_end :: "int option"

record header_checksum =
  hc_crc32 :: string
  hc_crc32c :: string
  hc_sha1 :: string
  hc_sha256 :: string

type_synonym metadata = "(string \<times> string) list option"

text \<open>A \<open>map[string]string\<close> that the code iterates over is the list of its entries, in any order.\<close>

record object_info =
  oi_key :: string
  oi_version :: string
  oi_etag :: string
  oi_size :: int
  oi_content_type :: string
  oi_last_modified :: int
  oi_metadata :: metadata
  oi_checksum :: header_checksum

record object_body = object_info +
  ob_body :: string

record put_request =
  pr_key :: string
  pr_body :: "string option"
  pr_size :: int
  pr_content_type :: string
  pr_metadata :: metadata
  pr_checksum :: header_checksum
  pr_if_match :: string
  pr_if_none_match :: string

record get_request =
  gr_object :: object_ref
  gr_range :: "byte_range option"

record delete_request =
  dr_object :: object_ref
  dr_if_match :: string

record presign_get_request =
  pg_object :: object_ref
  pg_range :: "byte_range option"
  pg_ttl :: int

record presign_put_request =
  pp_key :: string
  pp_size :: int
  pp_content_type :: string
  pp_metadata :: metadata
  pp_checksum :: header_checksum
  pp_if_match :: string
  pp_if_none_match :: string
  pp_ttl :: int

record presigned_request =
  ps_method :: string
  ps_url :: string
  ps_headers :: "(string \<times> string list) list"
  ps_expires_at :: int

record create_multipart_request =
  cm_key :: string
  cm_content_type :: string
  cm_metadata :: metadata
  cm_checksum :: header_checksum

record multipart_upload =
  mu_key :: string
  mu_upload_id :: string

record presign_part_request =
  pa_key :: string
  pa_upload_id :: string
  pa_part_number :: int
  pa_ttl :: int

record completed_part =
  cp_part_number :: int
  cp_etag :: string

record complete_multipart_request =
  co_key :: string
  co_upload_id :: string
  co_parts :: "completed_part list"
  co_if_match :: string
  co_if_none_match :: string

record abort_multipart_request =
  am_key :: string
  am_upload_id :: string

datatype outcome = OutcomeSuccess | OutcomeError

record storage_observation =
  so_operation :: string
  so_outcome :: outcome
  so_duration :: int
  so_bytes :: int
  so_error_kind :: "go_error option"

section \<open>What validation establishes\<close>

definition normal_namespace :: "bucket_namespace \<Rightarrow> bool" where
  "normal_namespace ns \<longleftrightarrow> ns_bucket ns \<noteq> '''' \<and> length (ns_prefix ns) \<le> maxObjectKeyBytes \<and>
     (ns_prefix ns = '''' \<or> (\<exists>p. ns_prefix ns = p @ ''/'' \<and> p \<noteq> [] \<and> last p \<noteq> CHR ''/'' \<and> hd p \<noteq> CHR ''/''))"

lemma trim_right_slashes_last: "trim_right_slashes s \<noteq> [] \<Longrightarrow> last (trim_right_slashes s) \<noteq> CHR ''/''"
  by (metis (mono_tags, lifting) hd_dropWhile last_rev rev.simps(1) trim_right_slashes_def)

lemma trim_right_slashes_prefix: "\<exists>t. s = trim_right_slashes s @ t"
  unfolding trim_right_slashes_def by (metis rev_append rev_rev_ident takeWhile_dropWhile_id)

lemma trim_right_slashes_hd: "trim_right_slashes s \<noteq> [] \<Longrightarrow> hd (trim_right_slashes s) = hd s"
  using trim_right_slashes_prefix [of s] by (metis hd_append2)

lemma normalizeNamespace_normal:
  assumes "normalizeNamespace ns = Inr ns'"
  shows "normal_namespace ns' \<and> ns_bucket ns' = ns_bucket ns"
proof -
  define p where "p = trim_right_slashes (ns_prefix ns)"
  have p: "p \<noteq> [] \<Longrightarrow> last p \<noteq> CHR ''/''" "p \<noteq> [] \<Longrightarrow> hd p = hd (ns_prefix ns)"
    unfolding p_def by (rule trim_right_slashes_last, simp, rule trim_right_slashes_hd, simp)
  have ne: "p \<noteq> [] \<Longrightarrow> ns_prefix ns \<noteq> []" by (auto simp: p_def trim_right_slashes_def)
  have "\<not> has_prefix (ns_prefix ns) ''/''" "ns_bucket ns \<noteq> ''''" "ns_bucket ns' = ns_bucket ns"
    "ns_prefix ns' = (if p \<noteq> [] then p @ ''/'' else p)" "length (ns_prefix ns') \<le> maxObjectKeyBytes"
    using assms unfolding normalizeNamespace_def Let_def p_def [symmetric] by (auto split: if_splits)
  moreover have "p \<noteq> [] \<Longrightarrow> hd p \<noteq> CHR ''/''"
    using p(2) ne calculation(1) by (cases "ns_prefix ns") auto
  ultimately show ?thesis using p(1) by (auto simp: normal_namespace_def)
qed

lemma validateKey_ok:
  "validateKey ns key = Inr u \<longleftrightarrow> valid_string key \<and> key \<noteq> '''' \<and> key = trim_space key \<and> \<not> has_prefix key ''/''
     \<and> \<not> contains_control key \<and> length (ns_prefix ns) + length key \<le> maxObjectKeyBytes"
  by (auto simp: validateKey_def)

lemma validate_presign_ttl_ok:
  "validate_presign_ttl ttl d = Inr n \<Longrightarrow> minPresignTTL \<le> n \<and> n \<le> maxPresignTTL \<and> n = (if ttl = 0 then d else ttl)"
  by (auto simp: validate_presign_ttl_def Let_def split: if_splits)

end
