(* ===== verification/AccessPolicy.thy ===== *)
theory AccessPolicy
  imports ObjectStorage
begin

text \<open>
  The access policy and the request checks of the storage service,
  \<open>services/storage/internal/storagev1\<close> (\<open>access_policy.go\<close>, \<open>validation.go\<close>). A Go map that the code
  iterates over is the list of its entries in the order of the iteration, which Go leaves open. SHA-256
  and the JSON decoder are arguments. Messages written in Chinese are given as labels.
\<close>

section \<open>validation.go\<close>

definition maxMetadataItems :: nat where "maxMetadataItems = 32"
definition maxMetadataBytes :: nat where "maxMetadataBytes = 2 * 1024"
definition maxContentTypeBytes :: nat where "maxContentTypeBytes = 255"
definition minTokenRunes :: nat where "minTokenRunes = 32"
definition defaultPresignTTLSeconds :: int where "defaultPresignTTLSeconds = 900"
definition minPresignTTLSeconds :: int where "minPresignTTLSeconds = 60"
definition maxPresignTTLSeconds :: int where "maxPresignTTLSeconds = 3600"

definition lower_letter :: "char \<Rightarrow> bool" where
  "lower_letter c \<longleftrightarrow> 97 \<le> byte c \<and> byte c \<le> 122"

definition name_char :: "char \<Rightarrow> bool" where
  "name_char c \<longleftrightarrow> lower_letter c \<or> 48 \<le> byte c \<and> byte c \<le> 57 \<or> c = CHR ''_'' \<or> c = CHR ''-''"

text \<open>The pattern \<open>^[a-z][a-z0-9_-]{0,63}$\<close>.\<close>

definition namespacePattern :: "string \<Rightarrow> bool" where
  "namespacePattern s = (case s of [] \<Rightarrow> False
     | c # rest \<Rightarrow> lower_letter c \<and> length rest \<le> 63 \<and> list_all name_char rest)"

definition validateNamespaceName :: "string \<Rightarrow> unit result" where
  "validateNamespaceName name = reject_if (\<not> namespacePattern name) ''namespace name''"

definition metadata_bytes :: "(string \<times> string) list \<Rightarrow> nat" where
  "metadata_bytes es = sum_list (map (\<lambda>(k, v). length k + length v) es)"

definition validateObjectInput ::
  "bucket_namespace \<Rightarrow> string \<Rightarrow> string \<Rightarrow> string \<Rightarrow> (string \<times> string) list \<Rightarrow> bool" where
  "validateObjectInput ns key version_id content_type metadata =
     (if \<not> is_ok (validateKey ns key) then False
      else if version_id \<noteq> '''' \<and> (\<not> valid_string version_id \<or> contains_control version_id) then False
      else if length content_type > maxContentTypeBytes \<or> \<not> valid_string content_type \<or> contains_control content_type
      then False
      else if length metadata > maxMetadataItems then False
      else if list_ex (\<lambda>(k, v). k = '''' \<or> \<not> valid_string k \<or> \<not> valid_string v \<or> contains_control k \<or> contains_control v)
                metadata
      then False
      else metadata_bytes metadata \<le> maxMetadataBytes)"

definition presignTTL :: "int \<Rightarrow> int result" where
  "presignTTL seconds =
     (let s = (if seconds = 0 then defaultPresignTTLSeconds else seconds) in
      if s < minPresignTTLSeconds \<or> s > maxPresignTTLSeconds then Inl (Plain ''expires_in'')
      else Inr (s * second))"

section \<open>access_policy.go\<close>

definition capabilityRead :: string where "capabilityRead = ''read''"
definition capabilityWrite :: string where "capabilityWrite = ''write''"
definition capabilityDelete :: string where "capabilityDelete = ''delete''"

datatype decision = DecisionUnauthenticated | DecisionForbidden | DecisionAllowed

record namespace_config =
  nc_bucket :: string
  nc_prefix :: string

record principal_config =
  prc_tokens :: "string list"
  prc_grants :: "(string \<times> string list) list"

record access_config =
  ac_namespaces :: "(string \<times> namespace_config) list"
  ac_principals :: "(string \<times> principal_config) list"

record compiled_principal =
  cpr_tokens :: "string list"
  cpr_grants :: "string \<rightharpoonup> string list"

record policy =
  po_namespaces :: "string \<rightharpoonup> bucket_namespace"
  po_principals :: "compiled_principal list"

fun compile_namespaces ::
  "(string \<times> namespace_config) list \<Rightarrow> (string \<rightharpoonup> bucket_namespace) \<Rightarrow> (string \<rightharpoonup> bucket_namespace) result" where
  "compile_namespaces [] m = Inr m"
| "compile_namespaces ((name, c) # es) m =
     (if \<not> namespacePattern name then Inl (Plain ''namespace name'')
      else case normalizeNamespace \<lparr>ns_bucket = nc_bucket c, ns_prefix = nc_prefix c\<rparr> of
        Inl e \<Rightarrow> Inl (Wrap ''namespace'' [se_kind e])
      | Inr ns \<Rightarrow> compile_namespaces es (m(name \<mapsto> ns)))"

text \<open>The loop over the tokens of a principal: the digests seen so far and those of the principal.\<close>

fun compile_tokens :: "(string \<Rightarrow> string) \<Rightarrow> string list \<Rightarrow> string list \<Rightarrow> string list \<Rightarrow> (string list \<times> string list) result" where
  "compile_tokens digest seen compiled [] = Inr (seen, compiled)"
| "compile_tokens digest seen compiled (t # ts) =
     (if \<not> valid_string t \<or> rune_count t < minTokenRunes \<or> contains_control t then Inl (Plain ''token'')
      else if digest t \<in> set seen then Inl (Plain ''token repeated'')
      else compile_tokens digest (digest t # seen) (compiled @ [digest t]) ts)"

fun compile_capabilities :: "string list \<Rightarrow> string list \<Rightarrow> string list result" where
  "compile_capabilities caps [] = Inr caps"
| "compile_capabilities caps (c # cs) =
     (if c \<notin> {capabilityRead, capabilityWrite, capabilityDelete} then Inl (Plain ''capability unknown'')
      else if c \<in> set caps then Inl (Plain ''capability repeated'')
      else compile_capabilities (c # caps) cs)"

fun compile_grants ::
  "(string \<rightharpoonup> bucket_namespace) \<Rightarrow> (string \<rightharpoonup> string list) \<Rightarrow> (string \<times> string list) list \<Rightarrow> (string \<rightharpoonup> string list) result" where
  "compile_grants namespaces grants [] = Inr grants"
| "compile_grants namespaces grants ((namespace, caps) # gs) =
     (if namespaces namespace = None then Inl (Plain ''grant namespace'')
      else if caps = [] then Inl (Plain ''grant empty'')
      else and_then (compile_capabilities [] caps) (\<lambda>set_of.
        compile_grants namespaces (grants(namespace \<mapsto> set_of)) gs))"

fun compile_principals ::
  "(string \<Rightarrow> string) \<Rightarrow> (string \<rightharpoonup> bucket_namespace) \<Rightarrow> string list \<Rightarrow> compiled_principal list \<Rightarrow>
   (string \<times> principal_config) list \<Rightarrow> compiled_principal list result" where
  "compile_principals digest namespaces seen compiled [] = Inr compiled"
| "compile_principals digest namespaces seen compiled ((name, p) # ps) =
     (if trim_space name = '''' \<or> name \<noteq> trim_space name \<or> \<not> valid_string name \<or> contains_control name
      then Inl (Plain ''principal name'')
      else if prc_tokens p = [] then Inl (Plain ''principal tokens'')
      else if prc_grants p = [] then Inl (Plain ''principal grants'')
      else and_then (compile_tokens digest seen [] (prc_tokens p)) (\<lambda>(seen', tokens).
        and_then (compile_grants namespaces Map.empty (prc_grants p)) (\<lambda>grants.
        compile_principals digest namespaces seen'
          (compiled @ [\<lparr>cpr_tokens = tokens, cpr_grants = grants\<rparr>]) ps)))"

definition compilePolicy :: "(string \<Rightarrow> string) \<Rightarrow> access_config \<Rightarrow> policy result" where
  "compilePolicy digest config =
     (if ac_namespaces config = [] then Inl (Plain ''namespaces empty'')
      else if ac_principals config = [] then Inl (Plain ''principals empty'')
      else and_then (compile_namespaces (ac_namespaces config) Map.empty) (\<lambda>namespaces.
        and_then (compile_principals digest namespaces [] [] (ac_principals config)) (\<lambda>principals.
        Inr \<lparr>po_namespaces = namespaces, po_principals = principals\<rparr>)))"

text \<open>What the JSON decoder finds after the first value.\<close>

datatype json_tail = TailEOF | TailValue | TailError go_error

definition decodePolicy ::
  "(string \<Rightarrow> (access_config \<times> string) result) \<Rightarrow> (string \<Rightarrow> json_tail) \<Rightarrow> (string \<Rightarrow> string) \<Rightarrow> string \<Rightarrow> policy result" where
  "decodePolicy json_decode json_next digest file =
     (case json_decode (take 1048576 file) of
        Inl err \<Rightarrow> Inl (Wrap (''access configuration: '' @ error_text err) [err])
      | Inr (config, rest) \<Rightarrow>
          (case json_next rest of
             TailEOF \<Rightarrow> compilePolicy digest config
           | TailValue \<Rightarrow> Inl (Plain ''more than one value'')
           | TailError err \<Rightarrow> Inl (Wrap (''access configuration tail: '' @ error_text err) [err])))"

text \<open>The loop compares with every token of every principal; \<open>-1\<close> is no match.\<close>

fun match_principals :: "string \<Rightarrow> int \<Rightarrow> int \<Rightarrow> compiled_principal list \<Rightarrow> int" where
  "match_principals d i matched [] = matched"
| "match_principals d i matched (p # ps) =
     match_principals d (i + 1) (if d \<in> set (cpr_tokens p) then i else matched) ps"

definition policy_match :: "(string \<Rightarrow> string) \<Rightarrow> policy option \<Rightarrow> string \<Rightarrow> int" where
  "policy_match digest p token = (case p of
     None \<Rightarrow> - 1
   | Some policy \<Rightarrow> if token = '''' then - 1 else match_principals (digest token) 0 (- 1) (po_principals policy))"

definition policy_authenticate :: "(string \<Rightarrow> string) \<Rightarrow> policy option \<Rightarrow> string \<Rightarrow> bool" where
  "policy_authenticate digest p token \<longleftrightarrow> policy_match digest p token \<ge> 0"

definition policy_authorize :: "(string \<Rightarrow> string) \<Rightarrow> policy option \<Rightarrow> string \<Rightarrow> string \<Rightarrow> string \<Rightarrow> decision" where
  "policy_authorize digest p token namespace capability =
     (let matched = policy_match digest p token in
      if matched < 0 then DecisionUnauthenticated
      else case p of
        None \<Rightarrow> DecisionUnauthenticated
      | Some policy \<Rightarrow>
          (case cpr_grants (po_principals policy ! nat matched) namespace of
             None \<Rightarrow> DecisionForbidden
           | Some caps \<Rightarrow> if capability \<in> set caps then DecisionAllowed else DecisionForbidden))"

definition policy_namespace :: "policy option \<Rightarrow> string \<Rightarrow> bucket_namespace option" where
  "policy_namespace p name = (case p of None \<Rightarrow> None | Some policy \<Rightarrow> po_namespaces policy name)"

section \<open>Compilation\<close>

lemma compile_tokens_ok:
  "compile_tokens digest seen compiled ts = Inr (seen', tokens) \<Longrightarrow>
     tokens = compiled @ map digest ts \<and> set seen' = set seen \<union> digest ` set ts
     \<and> digest ` set ts \<inter> set seen = {} \<and> (\<forall>t \<in> set ts. minTokenRunes \<le> rune_count t)"
proof (induction ts arbitrary: seen compiled)
  case (Cons t ts)
  then show ?case by (auto split: if_splits dest!: Cons.IH)
qed auto

lemma compile_capabilities_ok:
  "compile_capabilities caps cs = Inr caps' \<Longrightarrow> set caps' = set caps \<union> set cs"
proof (induction caps cs rule: compile_capabilities.induct)
  case (2 caps c cs)
  then have "compile_capabilities (c # caps) cs = Inr caps'" and
    new: "\<not> c \<notin> {capabilityRead, capabilityWrite, capabilityDelete}" "c \<notin> set caps"
    by (simp_all only: compile_capabilities.simps split: if_split_asm) simp_all
  with 2 show ?case by auto
qed simp

lemma compile_grants_ok:
  "compile_grants namespaces grants gs = Inr grants' \<Longrightarrow> distinct (map fst gs) \<Longrightarrow>
     grants' n = (case map_of gs n of None \<Rightarrow> grants n | Some caps \<Rightarrow> grants' n)
     \<and> (\<forall>caps. map_of gs n = Some caps \<longrightarrow> (\<exists>cs. grants' n = Some cs \<and> set cs = set caps) \<and> namespaces n \<noteq> None)"
proof (induction gs arbitrary: grants)
  case (Cons g gs)
  obtain m caps where g: "g = (m, caps)" by fastforce
  obtain cs where cs: "compile_capabilities [] caps = Inr cs" "namespaces m \<noteq> None"
      "compile_grants namespaces (grants(m \<mapsto> cs)) gs = Inr grants'"
    using Cons.prems(1) by (auto simp: g and_then_eq_Inr split: if_splits)
  have "map_of gs m = None" using Cons.prems(2) by (simp add: g map_of_eq_None_iff)
  with Cons.IH [OF cs(3)] Cons.prems(2) compile_capabilities_ok [OF cs(1)] cs(2) show ?case
    by (auto simp: g split: option.splits)
qed simp

lemma compile_grants_map:
  assumes "compile_grants namespaces Map.empty gs = Inr grants" "distinct (map fst gs)"
  shows "(\<exists>caps. grants n = Some caps \<and> c \<in> set caps) \<longleftrightarrow> (\<exists>caps. (n, caps) \<in> set gs \<and> c \<in> set caps)"
proof -
  have m: "(n, caps) \<in> set gs \<longleftrightarrow> map_of gs n = Some caps" for caps
    using assms(2) by (simp add: map_of_eq_Some_iff)
  show ?thesis
  proof (cases "map_of gs n")
    case None
    have "grants n = (case map_of gs n of None \<Rightarrow> None | Some caps \<Rightarrow> grants n)"
      using compile_grants_ok [OF assms, of n] by blast
    then have "grants n = None" by (simp only: None option.case)
    then show ?thesis unfolding m None by simp
  next
    case (Some caps)
    then obtain cs where "grants n = Some cs" "set cs = set caps" using compile_grants_ok [OF assms, of n] by blast
    then show ?thesis unfolding m Some by simp
  qed
qed

text \<open>The compiled principals, one for each configured one, with pairwise disjoint digests.\<close>

definition compiled_from :: "(string \<Rightarrow> string) \<Rightarrow> (string \<rightharpoonup> bucket_namespace) \<Rightarrow> string \<times> principal_config \<Rightarrow> compiled_principal \<Rightarrow> bool" where
  "compiled_from digest namespaces np c \<longleftrightarrow> cpr_tokens c = map digest (prc_tokens (snd np))
     \<and> compile_grants namespaces Map.empty (prc_grants (snd np)) = Inr (cpr_grants c)"


definition disjoint_tokens :: "compiled_principal list \<Rightarrow> bool" where
  "disjoint_tokens cs \<longleftrightarrow> sorted_wrt (\<lambda>a b. set (cpr_tokens a) \<inter> set (cpr_tokens b) = {}) cs"

lemma compile_principals_ok:
  "compile_principals digest namespaces seen compiled ps = Inr cs \<Longrightarrow>
     \<exists>new. cs = compiled @ new \<and> list_all2 (compiled_from digest namespaces) ps new
       \<and> disjoint_tokens new \<and> (\<forall>c \<in> set new. set (cpr_tokens c) \<inter> set seen = {})"
proof (induction ps arbitrary: seen compiled)
  case Nil
  then show ?case by (simp add: disjoint_tokens_def)
next
  case (Cons np ps)
  obtain name p where np: "np = (name, p)" by fastforce
  obtain seen' tokens grants where t: "compile_tokens digest seen [] (prc_tokens p) = Inr (seen', tokens)"
    and g: "compile_grants namespaces Map.empty (prc_grants p) = Inr grants"
    and rest: "compile_principals digest namespaces seen' (compiled @ [\<lparr>cpr_tokens = tokens, cpr_grants = grants\<rparr>]) ps = Inr cs"
    using Cons.prems by (auto simp: np and_then_eq_Inr split: if_splits)
  obtain new where new: "cs = (compiled @ [\<lparr>cpr_tokens = tokens, cpr_grants = grants\<rparr>]) @ new"
      "list_all2 (compiled_from digest namespaces) ps new" "disjoint_tokens new"
      "\<forall>c \<in> set new. set (cpr_tokens c) \<inter> set seen' = {}"
    using Cons.IH [OF rest] by blast
  note tokens = compile_tokens_ok [OF t]
  let ?c = "\<lparr>cpr_tokens = tokens, cpr_grants = grants\<rparr>"
  have "compiled_from digest namespaces np ?c" using tokens g by (simp add: compiled_from_def np)
  moreover have "\<forall>c \<in> set new. set tokens \<inter> set (cpr_tokens c) = {}" using new(4) tokens by auto
  ultimately have "cs = compiled @ (?c # new)" "list_all2 (compiled_from digest namespaces) (np # ps) (?c # new)"
    "disjoint_tokens (?c # new)" "\<forall>c \<in> set (?c # new). set (cpr_tokens c) \<inter> set seen = {}"
    using new tokens by (auto simp: disjoint_tokens_def)
  then show ?case by blast
qed

section \<open>Authorisation\<close>

lemma match_principals_cases:
  "match_principals d i matched ps = matched \<and> (\<forall>p \<in> set ps. d \<notin> set (cpr_tokens p))
   \<or> (\<exists>k < length ps. match_principals d i matched ps = i + int k \<and> d \<in> set (cpr_tokens (ps ! k)))"
proof (induction ps arbitrary: i matched)
  case (Cons p ps)
  let ?m = "if d \<in> set (cpr_tokens p) then i else matched"
  from Cons [of "i + 1" ?m] show ?case
  proof (elim disjE exE conjE)
    assume "match_principals d (i + 1) ?m ps = ?m" "\<forall>p \<in> set ps. d \<notin> set (cpr_tokens p)"
    then show ?thesis by (cases "d \<in> set (cpr_tokens p)") (auto intro: exI [of _ 0])
  next
    fix k assume "k < length ps" "match_principals d (i + 1) ?m ps = i + 1 + int k" "d \<in> set (cpr_tokens (ps ! k))"
    then show ?thesis by (intro disjI2 exI [of _ "Suc k"]) simp
  qed
qed simp

lemma disjoint_tokens_unique:
  "disjoint_tokens cs \<Longrightarrow> j < length cs \<Longrightarrow> k < length cs \<Longrightarrow> d \<in> set (cpr_tokens (cs ! j)) \<Longrightarrow> d \<in> set (cpr_tokens (cs ! k)) \<Longrightarrow> j = k"
  unfolding disjoint_tokens_def sorted_wrt_iff_nth_less by (metis IntI empty_iff linorder_neqE_nat)

definition holds_token :: "(string \<Rightarrow> string) \<Rightarrow> string \<Rightarrow> principal_config \<Rightarrow> bool" where
  "holds_token digest token p \<longleftrightarrow> digest token \<in> digest ` set (prc_tokens p)"

definition granted :: "string \<Rightarrow> string \<Rightarrow> principal_config \<Rightarrow> bool" where
  "granted namespace capability p \<longleftrightarrow> (\<exists>caps. (namespace, caps) \<in> set (prc_grants p) \<and> capability \<in> set caps)"

lemma policy_match_cases:
  assumes "compilePolicy digest config = Inr p" "token \<noteq> ''''"
  shows "policy_match digest (Some p) token = - 1 \<and> (\<forall>np \<in> set (ac_principals config). \<not> holds_token digest token (snd np))
    \<or> (\<exists>k < length (ac_principals config). k < length (po_principals p) \<and> policy_match digest (Some p) token = int k
        \<and> compiled_from digest (po_namespaces p) (ac_principals config ! k) (po_principals p ! k)
        \<and> (\<forall>np \<in> set (ac_principals config). holds_token digest token (snd np) \<longleftrightarrow> np = ac_principals config ! k))"
proof -
  let ?ps = "ac_principals config" and ?cs = "po_principals p"
  have "compile_principals digest (po_namespaces p) [] [] ?ps = Inr ?cs"
    using assms(1) by (auto simp: compilePolicy_def and_then_eq_Inr split: if_splits)
  from compile_principals_ok [OF this] have cs: "list_all2 (compiled_from digest (po_namespaces p)) ?ps ?cs" "disjoint_tokens ?cs"
    by auto
  have len: "length ?ps = length ?cs" using cs(1) by (rule list_all2_lengthD)
  have tok: "holds_token digest token (snd (?ps ! j)) \<longleftrightarrow> digest token \<in> set (cpr_tokens (?cs ! j))" if "j < length ?cs" for j
    using list_all2_nthD2 [OF cs(1) that] by (simp add: compiled_from_def holds_token_def)
  have match: "policy_match digest (Some p) token = match_principals (digest token) 0 (- 1) ?cs"
    using assms(2) by (simp add: policy_match_def)
  from match_principals_cases [of "digest token" 0 "- 1" ?cs]
  show ?thesis
  proof (elim disjE exE conjE)
    assume "match_principals (digest token) 0 (- 1) ?cs = - 1" and none: "\<forall>c \<in> set ?cs. digest token \<notin> set (cpr_tokens c)"
    moreover have "\<not> holds_token digest token (snd np)" if np: "np \<in> set ?ps" for np
    proof -
      obtain j where "j < length ?ps" "np = ?ps ! j" using np by (metis in_set_conv_nth)
      with none tok [of j] len show ?thesis by auto
    qed
    ultimately show ?thesis using match by simp
  next
    fix k assume k: "k < length ?cs" "match_principals (digest token) 0 (- 1) ?cs = 0 + int k" "digest token \<in> set (cpr_tokens (?cs ! k))"
    have "holds_token digest token (snd np) \<longleftrightarrow> np = ?ps ! k" if np: "np \<in> set ?ps" for np
    proof -
      obtain j where j: "j < length ?ps" "np = ?ps ! j" using np by (metis in_set_conv_nth)
      show ?thesis
        using tok [of j] tok [OF k(1)] k(3) j len disjoint_tokens_unique [OF cs(2) _ k(1) _ k(3), of j] by auto
    qed
    moreover have "compiled_from digest (po_namespaces p) (?ps ! k) (?cs ! k)" by (rule list_all2_nthD2 [OF cs(1) k(1)])
    ultimately show ?thesis using match k len by auto
  qed
qed

text \<open>The principal the loop finds, and what it is granted.\<close>

lemma policy_found:
  assumes "compilePolicy digest config = Inr p"
    "\<forall>np \<in> set (ac_principals config). distinct (map fst (prc_grants (snd np)))" "token \<noteq> ''''"
  obtains (none) "policy_match digest (Some p) token = - 1"
      "\<forall>np \<in> set (ac_principals config). \<not> holds_token digest token (snd np)"
  | (found) k np where "policy_match digest (Some p) token = int k" "np \<in> set (ac_principals config)"
      "\<And>np'. np' \<in> set (ac_principals config) \<Longrightarrow> holds_token digest token (snd np') \<longleftrightarrow> np' = np"
      "\<And>n c. (\<exists>caps. cpr_grants (po_principals p ! k) n = Some caps \<and> c \<in> set caps) \<longleftrightarrow> granted n c (snd np)"
  using policy_match_cases [OF assms(1,3)]
proof (elim disjE exE conjE)
  fix k
  let ?np = "ac_principals config ! k" and ?c = "po_principals p ! k"
  assume k: "k < length (ac_principals config)" "policy_match digest (Some p) token = int k"
    and made: "compiled_from digest (po_namespaces p) ?np ?c"
    and who: "\<forall>np \<in> set (ac_principals config). holds_token digest token (snd np) \<longleftrightarrow> np = ?np"
  have np: "?np \<in> set (ac_principals config)" using k(1) by simp
  then have "distinct (map fst (prc_grants (snd ?np)))" using assms(2) by blast
  then have "(\<exists>caps. cpr_grants ?c n = Some caps \<and> c \<in> set caps) \<longleftrightarrow> granted n c (snd ?np)" for n c
    using compile_grants_map [of "po_namespaces p" "prc_grants (snd ?np)" "cpr_grants ?c"] made
    by (simp add: compiled_from_def granted_def)
  with who np k(2) show thesis by (intro found [of k ?np]) auto
qed (rule none)

lemma policy_allowed:
  assumes "compilePolicy digest config = Inr p"
    "\<forall>np \<in> set (ac_principals config). distinct (map fst (prc_grants (snd np)))"
    "policy_authorize digest (Some p) token namespace capability = DecisionAllowed"
  shows "\<exists>np \<in> set (ac_principals config). holds_token digest token (snd np) \<and> granted namespace capability (snd np)"
proof -
  have "token \<noteq> ''''" using assms(3) by (auto simp: policy_authorize_def policy_match_def)
  show ?thesis
  proof (rule policy_found [OF assms(1,2) \<open>token \<noteq> ''''\<close>], goal_cases none found)
    case none
    with assms(3) show ?thesis by (simp add: policy_authorize_def Let_def)
  next
    case (found k np)
    from assms(3) found(1) have "\<exists>caps. cpr_grants (po_principals p ! k) namespace = Some caps \<and> capability \<in> set caps"
      by (auto simp: policy_authorize_def Let_def split: option.split_asm if_split_asm)
    with found(2) found(3) [OF found(2)] found(4) show ?thesis by blast
  qed
qed

text \<open>
  C24 Authorisation: with a policy that compiles, in whatever order the configuration was read, a token is
  allowed a capability on a namespace exactly when a principal that has a token with the same digest is
  granted that capability on that namespace; it is unauthenticated exactly when no principal has such a
  token or the token is empty.
\<close>

theorem policy_authorize_exact:
  assumes "compilePolicy digest config = Inr p"
    "\<forall>np \<in> set (ac_principals config). distinct (map fst (prc_grants (snd np)))"
  shows "(policy_authorize digest (Some p) token namespace capability = DecisionAllowed \<longleftrightarrow> token \<noteq> '''' \<and>
      (\<exists>np \<in> set (ac_principals config). holds_token digest token (snd np) \<and> granted namespace capability (snd np)))
    \<and> (policy_authorize digest (Some p) token namespace capability = DecisionUnauthenticated \<longleftrightarrow> token = '''' \<or>
      (\<forall>np \<in> set (ac_principals config). \<not> holds_token digest token (snd np)))"
proof (cases "token = ''''")
  case True
  then show ?thesis by (simp add: policy_authorize_def policy_match_def)
next
  case False
  show ?thesis
  proof (rule policy_found [OF assms False], goal_cases none found)
    case none
    with False show ?thesis by (simp add: policy_authorize_def Let_def)
  next
    case (found k np)
    have "policy_authorize digest (Some p) token namespace capability \<noteq> DecisionUnauthenticated"
      "policy_authorize digest (Some p) token namespace capability = DecisionAllowed
        \<longleftrightarrow> (\<exists>caps. cpr_grants (po_principals p ! k) namespace = Some caps \<and> capability \<in> set caps)"
      using found(1) by (simp_all add: policy_authorize_def Let_def split: option.split)
    then show ?thesis unfolding found(4) using found(2,3) False by blast
  qed
qed

text \<open>
  Lifetimes: the seconds of a request become a lifetime between one minute and one hour, never the zero
  that would select the store's configured default.
\<close>

theorem presign_ttl_explicit:
  "presignTTL seconds = Inr ttl \<longleftrightarrow> ttl = (if seconds = 0 then 900 else seconds) * second \<and> minPresignTTL \<le> ttl \<and> ttl \<le> maxPresignTTL"
  by (auto simp: presignTTL_def Let_def defaultPresignTTLSeconds_def minPresignTTLSeconds_def maxPresignTTLSeconds_def
      minPresignTTL_def maxPresignTTL_def hour_def minute_def second_def)

end
