(* ===== verification/S3Store.thy ===== *)
theory S3Store
  imports ObjectStorage
begin

text \<open>
  The S3 adapter, \<open>sdk/go/objectstorage/s3store\<close>: \<open>validation.go\<close>, \<open>errors.go\<close>, \<open>client.go\<close> and
  \<open>operations.go\<close>. The AWS SDK is a function from calls (\<open>s3_call\<close>, the input structs the adapter
  fills) to outputs or provider errors; the Unicode tables of \<open>strings.ToLower\<close> are an argument.
\<close>

section \<open>validation.go\<close>

definition wrapInvalid :: "string \<Rightarrow> string \<Rightarrow> storage_error \<Rightarrow> storage_error" where
  "wrapInvalid operation key err = StorageError errInvalidArgument operation key '''' (Some (Inr err))"

definition wrap_checked :: "string \<Rightarrow> string \<Rightarrow> 'a storage_result \<Rightarrow> 'a storage_result" where
  "wrap_checked operation key r = (case r of Inl e \<Rightarrow> Inl (wrapInvalid operation key e) | Inr a \<Rightarrow> Inr a)"

definition validateRef :: "bucket_namespace \<Rightarrow> string \<Rightarrow> object_ref \<Rightarrow> unit storage_result" where
  "validateRef ns operation ref =
     and_then (wrap_checked operation (or_key ref) (validateKey ns (or_key ref))) (\<lambda>u.
       if or_version ref \<noteq> '''' \<and> (\<not> valid_string (or_version ref) \<or> contains_control (or_version ref))
       then Inl (invalid operation (or_key ref) ''version ID'') else Inr ())"

definition validateRange :: "string \<Rightarrow> string \<Rightarrow> byte_range option \<Rightarrow> unit storage_result" where
  "validateRange operation key rg = (case rg of
     None \<Rightarrow> Inr ()
   | Some r \<Rightarrow>
       if br_start r < 0 then Inl (invalid operation key ''range start'')
       else (case br_end r of
         None \<Rightarrow> Inr ()
       | Some e \<Rightarrow> if e < br_start r then Inl (invalid operation key ''range end'') else Inr ()))"

definition formatRange :: "byte_range option \<Rightarrow> string option" where
  "formatRange rg = map_option (\<lambda>r. ''bytes='' @ format_int (br_start r) @ ''-'' @
     (case br_end r of None \<Rightarrow> [] | Some e \<Rightarrow> format_int e)) rg"

text \<open>\<open>base64.StdEncoding.DecodeString\<close> as a check: padded quanta, line breaks skipped.\<close>

definition std_digit :: "char \<Rightarrow> bool" where
  "std_digit c \<longleftrightarrow> (let b = byte c in 65 \<le> b \<and> b \<le> 90 \<or> 97 \<le> b \<and> b \<le> 122 \<or> 48 \<le> b \<and> b \<le> 57 \<or> b = 43 \<or> b = 47)"

fun std_quanta :: "string \<Rightarrow> bool" where
  "std_quanta [] = True"
| "std_quanta (w # x # y # z # s) = (std_digit w \<and> std_digit x \<and>
     (std_digit y \<and> std_digit z \<and> std_quanta s
      \<or> std_digit y \<and> z = CHR ''='' \<and> s = [] \<or> y = CHR ''='' \<and> z = CHR ''='' \<and> s = []))"
| "std_quanta s = False"

definition std_base64_ok :: "string \<Rightarrow> bool" where
  "std_base64_ok s = std_quanta (filter (\<lambda>c. \<not> line_break c) s)"

fun check_checksums :: "string \<Rightarrow> string \<Rightarrow> nat \<Rightarrow> string list \<Rightarrow> unit storage_result" where
  "check_checksums operation key n [] =
     (if n > 1 then Inl (invalid operation key ''more than one checksum'') else Inr ())"
| "check_checksums operation key n (v # vs) =
     (if v = '''' then check_checksums operation key n vs
      else if \<not> std_base64_ok v then Inl (invalid operation key ''checksum encoding'')
      else check_checksums operation key (Suc n) vs)"

definition validateChecksum :: "string \<Rightarrow> string \<Rightarrow> header_checksum \<Rightarrow> unit storage_result" where
  "validateChecksum operation key c =
     check_checksums operation key 0 [hc_crc32 c, hc_crc32c c, hc_sha1 c, hc_sha256 c]"

definition metadata_entries :: "metadata \<Rightarrow> (string \<times> string) list" where
  "metadata_entries m = (case m of None \<Rightarrow> [] | Some es \<Rightarrow> es)"

definition validateUploadFields ::
  "string \<Rightarrow> string \<Rightarrow> string \<Rightarrow> metadata \<Rightarrow> header_checksum \<Rightarrow> unit storage_result" where
  "validateUploadFields operation key content_type metadata checksum =
     (if \<not> valid_string content_type \<or> contains_control content_type
      then Inl (invalid operation key ''content type'')
      else if list_ex (\<lambda>(k, v). k = '''' \<or> \<not> valid_string k \<or> \<not> valid_string v \<or> contains_control (k @ v))
                (metadata_entries metadata)
      then Inl (invalid operation key ''metadata'')
      else validateChecksum operation key checksum)"

definition validatePutRequest :: "string \<Rightarrow> bucket_namespace \<Rightarrow> put_request \<Rightarrow> unit storage_result" where
  "validatePutRequest operation ns r =
     and_then (wrap_checked operation (pr_key r) (validateKey ns (pr_key r))) (\<lambda>u.
       if pr_body r = None then Inl (invalid operation (pr_key r) ''body'')
       else if pr_size r < 0 then Inl (invalid operation (pr_key r) ''size negative'')
       else if pr_size r > maxSinglePutBytes then Inl (invalid operation (pr_key r) ''size limit'')
       else validateUploadFields operation (pr_key r) (pr_content_type r) (pr_metadata r) (pr_checksum r))"

definition validatePresignPutRequest :: "bucket_namespace \<Rightarrow> presign_put_request \<Rightarrow> unit storage_result" where
  "validatePresignPutRequest ns r =
     and_then (wrap_checked ''presign_put'' (pp_key r) (validateKey ns (pp_key r))) (\<lambda>u.
       if pp_size r < 0 \<or> pp_size r > maxSinglePutBytes then Inl (invalid ''presign_put'' (pp_key r) ''size'')
       else validateUploadFields ''presign_put'' (pp_key r) (pp_content_type r) (pp_metadata r) (pp_checksum r))"

definition validateUploadID :: "string \<Rightarrow> string \<Rightarrow> string \<Rightarrow> unit storage_result" where
  "validateUploadID operation key upload_id =
     (if upload_id = '''' \<or> \<not> valid_string upload_id \<or> contains_control upload_id
      then Inl (invalid operation key ''upload ID'') else Inr ())"

definition validatePartNumber :: "string \<Rightarrow> string \<Rightarrow> int \<Rightarrow> unit storage_result" where
  "validatePartNumber operation key n =
     (if n < 1 \<or> n > 10000 then Inl (invalid operation key ''part number'') else Inr ())"

fun check_parts :: "string \<Rightarrow> string \<Rightarrow> int list \<Rightarrow> completed_part list \<Rightarrow> unit storage_result" where
  "check_parts operation key seen [] = Inr ()"
| "check_parts operation key seen (p # ps) =
     and_then (validatePartNumber operation key (cp_part_number p)) (\<lambda>u.
       if trim_space (cp_etag p) = '''' then Inl (invalid operation key ''part ETag'')
       else if cp_part_number p \<in> set seen then Inl (invalid operation key ''part number duplicate'')
       else check_parts operation key (cp_part_number p # seen) ps)"

definition validateAndSortParts ::
  "string \<Rightarrow> string \<Rightarrow> completed_part list \<Rightarrow> completed_part list storage_result" where
  "validateAndSortParts operation key parts =
     (if parts = [] then Inl (invalid operation key ''parts empty'')
      else and_then (check_parts operation key [] parts) (\<lambda>u. Inr (sort_key cp_part_number parts)))"

section \<open>errors.go\<close>

text \<open>What the adapter asks of an SDK error: its HTTP status and its API code, where it has them.\<close>

record provider_error =
  pe_error :: go_error
  pe_status :: "int option"
  pe_code :: "string option"

definition status_kind :: "int \<Rightarrow> go_error option" where
  "status_kind status =
     (if status = 400 then Some errInvalidArgument
      else if status = 401 \<or> status = 403 then Some errForbidden
      else if status = 404 then Some errNotFound
      else if status = 409 then Some errConflict
      else if status = 412 then Some errPreconditionFailed
      else None)"

definition code_kind :: "string \<Rightarrow> go_error option" where
  "code_kind code =
     (if code \<in> {''nosuchkey'', ''nosuchbucket'', ''notfound'', ''nosuchupload'', ''invalidobjectstate''}
      then Some errNotFound
      else if code \<in> {''accessdenied'', ''invalidaccesskeyid'', ''signaturedoesnotmatch'', ''expiredtoken'', ''tokenrefreshrequired''}
      then Some errForbidden
      else if code \<in> {''preconditionfailed'', ''conditionalrequestconflict''} then Some errPreconditionFailed
      else if code \<in> {''bucketalreadyexists'', ''bucketalreadyownedbyyou'', ''operationaborted'', ''conflict''}
      then Some errConflict
      else if code \<in> {''invalidargument'', ''invalidrequest'', ''invalidpart'', ''invalidpartorder'', ''entitytoolarge'', ''entitytoosmall''}
      then Some errInvalidArgument
      else None)"

definition classifyError :: "unicode_tables \<Rightarrow> provider_error \<Rightarrow> go_error" where
  "classifyError U e =
     (if errors_is (pe_error e) ''context canceled'' \<or> errors_is (pe_error e) ''context deadline exceeded''
      then errUnavailable
      else case Option.bind (pe_status e) status_kind of
        Some kind \<Rightarrow> kind
      | None \<Rightarrow>
          (case Option.bind (pe_code e) (\<lambda>c. code_kind (to_lower U c)) of
             Some kind \<Rightarrow> kind
           | None \<Rightarrow> errUnavailable))"

definition wrapProviderError :: "unicode_tables \<Rightarrow> string \<Rightarrow> string \<Rightarrow> provider_error \<Rightarrow> storage_error" where
  "wrapProviderError U operation key e =
     StorageError (classifyError U e) operation key '''' (Some (Inl (pe_error e)))"

definition error_kinds :: "go_error list" where
  "error_kinds = [errNotFound, errForbidden, errPreconditionFailed, errConflict, errInvalidArgument, errUnavailable]"

definition errorKind :: "storage_error \<Rightarrow> go_error" where
  "errorKind e = (case find (se_is e) error_kinds of Some kind \<Rightarrow> kind | None \<Rightarrow> errUnavailable)"

section \<open>client.go\<close>

record put_input =
  pi_bucket :: string
  pi_key :: string
  pi_length :: int
  pi_content_type :: "string option"
  pi_metadata :: metadata
  pi_if_match :: "string option"
  pi_if_none_match :: "string option"
  pi_algorithm :: string
  pi_checksums :: "string option list"

text \<open>The calls: bucket, key and the fields the adapter sets; a body is streamed through.\<close>

datatype s3_call =
    HeadBucket string
  | HeadObject string string "string option"
  | GetObject string string "string option" "string option"
  | PutObject put_input "string option"
  | DeleteObject string string "string option" "string option"
  | CreateMultipartUpload string string "string option" metadata string
  | CompleteMultipartUpload string string string "(string option \<times> int) list" "string option" "string option"
  | AbortMultipartUpload string string string
  | PresignGetObject string string "string option" "string option" int
  | PresignPutObject put_input int
  | PresignUploadPart string string string int int

text \<open>The fields of the outputs that the adapter reads.\<close>

record s3_output =
  s3_version :: "string option"
  s3_etag :: "string option"
  s3_length :: "int option"
  s3_content_type :: "string option"
  s3_last_modified :: "int option"
  s3_metadata :: metadata
  s3_crc32 :: "string option"
  s3_crc32c :: "string option"
  s3_sha1 :: "string option"
  s3_sha256 :: "string option"
  s3_upload_id :: "string option"
  s3_body :: string
  s3_method :: string
  s3_url :: string
  s3_headers :: "(string \<times> string list) list"

type_synonym 'w s3_api = "s3_call \<Rightarrow> 'w \<Rightarrow> (provider_error + s3_output) \<times> 'w"

record s3_config =
  sc_region :: string
  sc_namespace :: bucket_namespace
  sc_endpoint :: string
  sc_presign_endpoint :: string
  sc_path_style :: bool
  sc_default_ttl :: int
  sc_max_ttl :: int

record 'w s3_client =
  cl_config :: s3_config
  cl_api :: "'w s3_api"
  cl_observer :: "(storage_observation \<Rightarrow> 'w \<Rightarrow> 'w) option"
  cl_now :: "'w \<Rightarrow> int"

definition physicalKey :: "'w s3_client \<Rightarrow> string \<Rightarrow> string" where
  "physicalKey c key = ns_prefix (sc_namespace (cl_config c)) @ key"

definition client_bucket :: "'w s3_client \<Rightarrow> string" where
  "client_bucket c = ns_bucket (sc_namespace (cl_config c))"

definition client_ttl :: "'w s3_client \<Rightarrow> int \<Rightarrow> string \<Rightarrow> string \<Rightarrow> int storage_result" where
  "client_ttl c n operation key =
     and_then (wrap_checked operation key (validate_presign_ttl n (sc_default_ttl (cl_config c)))) (\<lambda>ttl.
       if ttl > sc_max_ttl (cl_config c) then Inl (invalid operation key ''TTL maximum'') else Inr ttl)"

definition observe_operation ::
  "'w s3_client \<Rightarrow> int \<Rightarrow> string \<Rightarrow> int \<Rightarrow> storage_error option \<Rightarrow> 'w \<Rightarrow> 'w" where
  "observe_operation c started operation bytes err w = (case cl_observer c of
     None \<Rightarrow> w
   | Some observer \<Rightarrow> observer
       \<lparr>so_operation = operation,
        so_outcome = (case err of None \<Rightarrow> OutcomeSuccess | Some e \<Rightarrow> OutcomeError),
        so_duration = cl_now c w - started, so_bytes = bytes,
        so_error_kind = map_option errorKind err\<rparr> w)"

definition string_pointer :: "string \<Rightarrow> string option" where
  "string_pointer s = (if s = '''' then None else Some s)"

definition to_string :: "string option \<Rightarrow> string" where
  "to_string s = (case s of None \<Rightarrow> '''' | Some x \<Rightarrow> x)"

definition completedParts :: "completed_part list \<Rightarrow> (string option \<times> int) list" where
  "completedParts parts = map (\<lambda>p. (string_pointer (cp_etag p), cp_part_number p)) parts"

definition copyHeaders :: "(string \<times> string list) list \<Rightarrow> (string \<times> string list) list" where
  "copyHeaders headers = map (\<lambda>(k, vs). (k, vs)) headers"

end
