(* ===== verification/S3Operations.thy ===== *)
theory S3Operations
  imports S3Store
begin

text \<open>
  The operations of the S3 client, \<open>sdk/go/objectstorage/s3store/operations.go\<close>. Every operation is
  observed_call when it returns (\<open>observed_call\<close>), and makes at most one call to the SDK (\<open>perform\<close>) after
  its checks (the \<open>..._plan\<close> of the operation: the call it makes, or the error it returns without one).
\<close>

text \<open>The deferred \<open>c.observe\<close>: the bytes may depend on the result.\<close>

definition observed_call ::
  "'w s3_client \<Rightarrow> string \<Rightarrow> ('a storage_result \<Rightarrow> int) \<Rightarrow> ('w \<Rightarrow> 'a storage_result \<times> 'w) \<Rightarrow> 'w \<Rightarrow> 'a storage_result \<times> 'w" where
  "observed_call c operation bytes body w =
     (let started = cl_now c w; (r, w') = body w in
      (r, observe_operation c started operation (bytes r) (case r of Inl e \<Rightarrow> Some e | Inr a \<Rightarrow> None) w'))"

definition perform ::
  "unicode_tables \<Rightarrow> 'w s3_client \<Rightarrow> string \<Rightarrow> string \<Rightarrow> s3_call storage_result \<Rightarrow>
   (s3_output \<Rightarrow> 'w \<Rightarrow> 'a storage_result) \<Rightarrow> 'w \<Rightarrow> 'a storage_result \<times> 'w" where
  "perform U c operation key plan result w = (case plan of
     Inl e \<Rightarrow> (Inl e, w)
   | Inr call \<Rightarrow> (case cl_api c call w of
        (Inl pe, w') \<Rightarrow> (Inl (wrapProviderError U operation key pe), w')
      | (Inr out, w') \<Rightarrow> (result out w', w')))"

section \<open>Reading\<close>

definition to_int64 :: "int option \<Rightarrow> int" where
  "to_int64 n = (case n of None \<Rightarrow> 0 | Some k \<Rightarrow> k)"

text \<open>\<open>aws.ToTime\<close> of nil is the zero time; instants are nanoseconds since 1970.\<close>

definition to_time :: "int option \<Rightarrow> int" where
  "to_time t = (case t of None \<Rightarrow> -62135596800 * second | Some n \<Rightarrow> n)"

definition output_checksums :: "s3_output \<Rightarrow> header_checksum" where
  "output_checksums out = \<lparr>hc_crc32 = to_string (s3_crc32 out), hc_crc32c = to_string (s3_crc32c out),
     hc_sha1 = to_string (s3_sha1 out), hc_sha256 = to_string (s3_sha256 out)\<rparr>"

definition cloneMetadata :: "metadata \<Rightarrow> metadata" where
  "cloneMetadata m = map_option (sort_key fst) m"

definition infoFromHead :: "string \<Rightarrow> s3_output \<Rightarrow> object_info" where
  "infoFromHead key out = \<lparr>oi_key = key, oi_version = to_string (s3_version out), oi_etag = to_string (s3_etag out),
     oi_size = to_int64 (s3_length out), oi_content_type = to_string (s3_content_type out),
     oi_last_modified = to_time (s3_last_modified out), oi_metadata = cloneMetadata (s3_metadata out),
     oi_checksum = output_checksums out\<rparr>"

definition infoFromGet :: "string \<Rightarrow> s3_output \<Rightarrow> object_info" where
  "infoFromGet key out = \<lparr>oi_key = key, oi_version = to_string (s3_version out), oi_etag = to_string (s3_etag out),
     oi_size = to_int64 (s3_length out), oi_content_type = to_string (s3_content_type out),
     oi_last_modified = to_time (s3_last_modified out), oi_metadata = cloneMetadata (s3_metadata out),
     oi_checksum = output_checksums out\<rparr>"

definition s3_check :: "unicode_tables \<Rightarrow> 'w s3_client \<Rightarrow> 'w \<Rightarrow> unit storage_result \<times> 'w" where
  "s3_check U c = observed_call c ''check'' (\<lambda>r. 0)
     (perform U c ''check'' '''' (Inr (HeadBucket (client_bucket c))) (\<lambda>out w. Inr ()))"

definition stat_plan :: "'w s3_client \<Rightarrow> object_ref \<Rightarrow> s3_call storage_result" where
  "stat_plan c ref = and_then (validateRef (sc_namespace (cl_config c)) ''stat'' ref) (\<lambda>u.
     Inr (HeadObject (client_bucket c) (physicalKey c (or_key ref)) (string_pointer (or_version ref))))"

definition s3_stat :: "unicode_tables \<Rightarrow> 'w s3_client \<Rightarrow> object_ref \<Rightarrow> 'w \<Rightarrow> object_info storage_result \<times> 'w" where
  "s3_stat U c ref = observed_call c ''stat'' (\<lambda>r. 0)
     (perform U c ''stat'' (or_key ref) (stat_plan c ref) (\<lambda>out w. Inr (infoFromHead (or_key ref) out)))"

definition get_plan :: "'w s3_client \<Rightarrow> get_request \<Rightarrow> s3_call storage_result" where
  "get_plan c r = and_then (validateRef (sc_namespace (cl_config c)) ''get'' (gr_object r)) (\<lambda>u.
     and_then (validateRange ''get'' (or_key (gr_object r)) (gr_range r)) (\<lambda>u.
     Inr (GetObject (client_bucket c) (physicalKey c (or_key (gr_object r)))
       (string_pointer (or_version (gr_object r))) (formatRange (gr_range r)))))"

definition s3_get :: "unicode_tables \<Rightarrow> 'w s3_client \<Rightarrow> get_request \<Rightarrow> 'w \<Rightarrow> object_body storage_result \<times> 'w" where
  "s3_get U c r = observed_call c ''get'' (\<lambda>res. case res of Inl e \<Rightarrow> 0 | Inr b \<Rightarrow> oi_size b)
     (perform U c ''get'' (or_key (gr_object r)) (get_plan c r) (\<lambda>out w.
       Inr (object_info.extend (infoFromGet (or_key (gr_object r)) out) (object_body.fields (s3_body out)))))"

section \<open>Writing\<close>

definition checksumAlgorithm :: "header_checksum \<Rightarrow> string" where
  "checksumAlgorithm c =
     (if hc_crc32 c \<noteq> '''' then ''CRC32'' else if hc_crc32c c \<noteq> '''' then ''CRC32C''
      else if hc_sha1 c \<noteq> '''' then ''SHA1'' else if hc_sha256 c \<noteq> '''' then ''SHA256'' else '''')"

definition applyPutChecksums :: "put_input \<Rightarrow> header_checksum \<Rightarrow> put_input" where
  "applyPutChecksums input c = input\<lparr>pi_algorithm := checksumAlgorithm c,
     pi_checksums := map string_pointer [hc_crc32 c, hc_crc32c c, hc_sha1 c, hc_sha256 c]\<rparr>"

definition put_plan :: "'w s3_client \<Rightarrow> put_request \<Rightarrow> s3_call storage_result" where
  "put_plan c r = and_then (validatePutRequest ''put'' (sc_namespace (cl_config c)) r) (\<lambda>u.
     Inr (PutObject (applyPutChecksums
       \<lparr>pi_bucket = client_bucket c, pi_key = physicalKey c (pr_key r), pi_length = pr_size r,
        pi_content_type = string_pointer (pr_content_type r), pi_metadata = cloneMetadata (pr_metadata r),
        pi_if_match = string_pointer (pr_if_match r), pi_if_none_match = string_pointer (pr_if_none_match r),
        pi_algorithm = '''', pi_checksums = []\<rparr> (pr_checksum r)) (pr_body r)))"

definition s3_put :: "unicode_tables \<Rightarrow> 'w s3_client \<Rightarrow> put_request \<Rightarrow> 'w \<Rightarrow> object_info storage_result \<times> 'w" where
  "s3_put U c r = observed_call c ''put'' (\<lambda>res. pr_size r)
     (perform U c ''put'' (pr_key r) (put_plan c r) (\<lambda>out w.
       Inr \<lparr>oi_key = pr_key r, oi_version = to_string (s3_version out), oi_etag = to_string (s3_etag out),
            oi_size = pr_size r, oi_content_type = pr_content_type r, oi_last_modified = to_time None,
            oi_metadata = cloneMetadata (pr_metadata r), oi_checksum = output_checksums out\<rparr>))"

definition delete_plan :: "'w s3_client \<Rightarrow> delete_request \<Rightarrow> s3_call storage_result" where
  "delete_plan c r = and_then (validateRef (sc_namespace (cl_config c)) ''delete'' (dr_object r)) (\<lambda>u.
     Inr (DeleteObject (client_bucket c) (physicalKey c (or_key (dr_object r)))
       (string_pointer (or_version (dr_object r))) (string_pointer (dr_if_match r))))"

definition s3_delete :: "unicode_tables \<Rightarrow> 'w s3_client \<Rightarrow> delete_request \<Rightarrow> 'w \<Rightarrow> unit storage_result \<times> 'w" where
  "s3_delete U c r = observed_call c ''delete'' (\<lambda>res. 0)
     (perform U c ''delete'' (or_key (dr_object r)) (delete_plan c r) (\<lambda>out w. Inr ()))"

section \<open>Presigning\<close>

definition presignedResult :: "'w s3_client \<Rightarrow> int \<Rightarrow> s3_output \<Rightarrow> 'w \<Rightarrow> presigned_request storage_result" where
  "presignedResult c ttl out w = Inr \<lparr>ps_method = s3_method out, ps_url = s3_url out,
     ps_headers = copyHeaders (s3_headers out), ps_expires_at = cl_now c w + ttl\<rparr>"

text \<open>A presigning operation knows the lifetime once it is checked: the plan carries it.\<close>

definition presign ::
  "unicode_tables \<Rightarrow> 'w s3_client \<Rightarrow> string \<Rightarrow> string \<Rightarrow> (s3_call \<times> int) storage_result \<Rightarrow> 'w \<Rightarrow>
   presigned_request storage_result \<times> 'w" where
  "presign U c operation key plan w = (case plan of
     Inl e \<Rightarrow> (Inl e, w)
   | Inr (call, ttl) \<Rightarrow> perform U c operation key (Inr call) (presignedResult c ttl) w)"

definition presign_get_plan :: "'w s3_client \<Rightarrow> presign_get_request \<Rightarrow> (s3_call \<times> int) storage_result" where
  "presign_get_plan c r =
     and_then (validateRef (sc_namespace (cl_config c)) ''presign_get'' (pg_object r)) (\<lambda>u.
     and_then (validateRange ''presign_get'' (or_key (pg_object r)) (pg_range r)) (\<lambda>u.
     and_then (client_ttl c (pg_ttl r) ''presign_get'' (or_key (pg_object r))) (\<lambda>ttl.
     Inr (PresignGetObject (client_bucket c) (physicalKey c (or_key (pg_object r)))
       (string_pointer (or_version (pg_object r))) (formatRange (pg_range r)) ttl, ttl))))"

definition s3_presign_get ::
  "unicode_tables \<Rightarrow> 'w s3_client \<Rightarrow> presign_get_request \<Rightarrow> 'w \<Rightarrow> presigned_request storage_result \<times> 'w" where
  "s3_presign_get U c r = observed_call c ''presign_get'' (\<lambda>res. 0)
     (presign U c ''presign_get'' (or_key (pg_object r)) (presign_get_plan c r))"

definition presign_put_plan :: "'w s3_client \<Rightarrow> presign_put_request \<Rightarrow> (s3_call \<times> int) storage_result" where
  "presign_put_plan c r =
     and_then (validatePresignPutRequest (sc_namespace (cl_config c)) r) (\<lambda>u.
     and_then (client_ttl c (pp_ttl r) ''presign_put'' (pp_key r)) (\<lambda>ttl.
     Inr (PresignPutObject (applyPutChecksums
       \<lparr>pi_bucket = client_bucket c, pi_key = physicalKey c (pp_key r), pi_length = pp_size r,
        pi_content_type = string_pointer (pp_content_type r), pi_metadata = cloneMetadata (pp_metadata r),
        pi_if_match = string_pointer (pp_if_match r), pi_if_none_match = string_pointer (pp_if_none_match r),
        pi_algorithm = '''', pi_checksums = []\<rparr> (pp_checksum r)) ttl, ttl)))"

definition s3_presign_put ::
  "unicode_tables \<Rightarrow> 'w s3_client \<Rightarrow> presign_put_request \<Rightarrow> 'w \<Rightarrow> presigned_request storage_result \<times> 'w" where
  "s3_presign_put U c r = observed_call c ''presign_put'' (\<lambda>res. pp_size r)
     (presign U c ''presign_put'' (pp_key r) (presign_put_plan c r))"

section \<open>Multipart uploads\<close>

definition create_multipart_plan :: "'w s3_client \<Rightarrow> create_multipart_request \<Rightarrow> s3_call storage_result" where
  "create_multipart_plan c r =
     and_then (wrap_checked ''multipart_create'' (cm_key r) (validateKey (sc_namespace (cl_config c)) (cm_key r))) (\<lambda>u.
     and_then (validateUploadFields ''multipart_create'' (cm_key r) (cm_content_type r) (cm_metadata r) (cm_checksum r)) (\<lambda>u.
     Inr (CreateMultipartUpload (client_bucket c) (physicalKey c (cm_key r)) (string_pointer (cm_content_type r))
       (cloneMetadata (cm_metadata r)) (checksumAlgorithm (cm_checksum r)))))"

definition s3_create_multipart ::
  "unicode_tables \<Rightarrow> 'w s3_client \<Rightarrow> create_multipart_request \<Rightarrow> 'w \<Rightarrow> multipart_upload storage_result \<times> 'w" where
  "s3_create_multipart U c r = observed_call c ''multipart_create'' (\<lambda>res. 0)
     (perform U c ''multipart_create'' (cm_key r) (create_multipart_plan c r) (\<lambda>out w.
       if to_string (s3_upload_id out) = ''''
       then Inl (wrapProviderError U ''multipart_create'' (cm_key r)
              \<lparr>pe_error = Plain ''no upload ID'', pe_status = None, pe_code = None\<rparr>)
       else Inr \<lparr>mu_key = cm_key r, mu_upload_id = to_string (s3_upload_id out)\<rparr>))"

definition presign_part_plan :: "'w s3_client \<Rightarrow> presign_part_request \<Rightarrow> (s3_call \<times> int) storage_result" where
  "presign_part_plan c r =
     and_then (wrap_checked ''multipart_presign_part'' (pa_key r) (validateKey (sc_namespace (cl_config c)) (pa_key r))) (\<lambda>u.
     and_then (validateUploadID ''multipart_presign_part'' (pa_key r) (pa_upload_id r)) (\<lambda>u.
     and_then (validatePartNumber ''multipart_presign_part'' (pa_key r) (pa_part_number r)) (\<lambda>u.
     and_then (client_ttl c (pa_ttl r) ''multipart_presign_part'' (pa_key r)) (\<lambda>ttl.
     Inr (PresignUploadPart (client_bucket c) (physicalKey c (pa_key r)) (pa_upload_id r) (pa_part_number r) ttl, ttl)))))"

definition s3_presign_part ::
  "unicode_tables \<Rightarrow> 'w s3_client \<Rightarrow> presign_part_request \<Rightarrow> 'w \<Rightarrow> presigned_request storage_result \<times> 'w" where
  "s3_presign_part U c r = observed_call c ''multipart_presign_part'' (\<lambda>res. 0)
     (presign U c ''multipart_presign_part'' (pa_key r) (presign_part_plan c r))"

definition complete_multipart_plan :: "'w s3_client \<Rightarrow> complete_multipart_request \<Rightarrow> s3_call storage_result" where
  "complete_multipart_plan c r =
     and_then (wrap_checked ''multipart_complete'' (co_key r) (validateKey (sc_namespace (cl_config c)) (co_key r))) (\<lambda>u.
     and_then (validateUploadID ''multipart_complete'' (co_key r) (co_upload_id r)) (\<lambda>u.
     and_then (validateAndSortParts ''multipart_complete'' (co_key r) (co_parts r)) (\<lambda>parts.
     Inr (CompleteMultipartUpload (client_bucket c) (physicalKey c (co_key r)) (co_upload_id r) (completedParts parts)
       (string_pointer (co_if_match r)) (string_pointer (co_if_none_match r))))))"

definition s3_complete_multipart ::
  "unicode_tables \<Rightarrow> 'w s3_client \<Rightarrow> complete_multipart_request \<Rightarrow> 'w \<Rightarrow> object_info storage_result \<times> 'w" where
  "s3_complete_multipart U c r = observed_call c ''multipart_complete'' (\<lambda>res. 0)
     (perform U c ''multipart_complete'' (co_key r) (complete_multipart_plan c r) (\<lambda>out w.
       Inr \<lparr>oi_key = co_key r, oi_version = to_string (s3_version out), oi_etag = to_string (s3_etag out),
            oi_size = 0, oi_content_type = '''', oi_last_modified = to_time None, oi_metadata = None,
            oi_checksum = output_checksums out\<rparr>))"

definition abort_multipart_plan :: "'w s3_client \<Rightarrow> abort_multipart_request \<Rightarrow> s3_call storage_result" where
  "abort_multipart_plan c r =
     and_then (wrap_checked ''multipart_abort'' (am_key r) (validateKey (sc_namespace (cl_config c)) (am_key r))) (\<lambda>u.
     and_then (validateUploadID ''multipart_abort'' (am_key r) (am_upload_id r)) (\<lambda>u.
     Inr (AbortMultipartUpload (client_bucket c) (physicalKey c (am_key r)) (am_upload_id r))))"

definition s3_abort_multipart ::
  "unicode_tables \<Rightarrow> 'w s3_client \<Rightarrow> abort_multipart_request \<Rightarrow> 'w \<Rightarrow> unit storage_result \<times> 'w" where
  "s3_abort_multipart U c r = observed_call c ''multipart_abort'' (\<lambda>res. 0)
     (perform U c ''multipart_abort'' (am_key r) (abort_multipart_plan c r) (\<lambda>out w. Inr ()))"

end
