(* ===== verification/S3Properties.thy ===== *)
theory S3Properties
  imports S3Operations "HOL-Library.Multiset"
begin

text \<open>
  What the S3 client guarantees: every call to the SDK stays in the client's bucket and prefix, errors
  have one of the six public kinds, parts are sent in order.
\<close>

section \<open>Calls\<close>

fun call_bucket :: "s3_call \<Rightarrow> string" where
  "call_bucket (HeadBucket b) = b"
| "call_bucket (HeadObject b k v) = b"
| "call_bucket (GetObject b k v r) = b"
| "call_bucket (PutObject p body) = pi_bucket p"
| "call_bucket (DeleteObject b k v m) = b"
| "call_bucket (CreateMultipartUpload b k t m a) = b"
| "call_bucket (CompleteMultipartUpload b k u ps i n) = b"
| "call_bucket (AbortMultipartUpload b k u) = b"
| "call_bucket (PresignGetObject b k v r t) = b"
| "call_bucket (PresignPutObject p t) = pi_bucket p"
| "call_bucket (PresignUploadPart b k u n t) = b"

fun call_key :: "s3_call \<Rightarrow> string option" where
  "call_key (HeadBucket b) = None"
| "call_key (HeadObject b k v) = Some k"
| "call_key (GetObject b k v r) = Some k"
| "call_key (PutObject p body) = Some (pi_key p)"
| "call_key (DeleteObject b k v m) = Some k"
| "call_key (CreateMultipartUpload b k t m a) = Some k"
| "call_key (CompleteMultipartUpload b k u ps i n) = Some k"
| "call_key (AbortMultipartUpload b k u) = Some k"
| "call_key (PresignGetObject b k v r t) = Some k"
| "call_key (PresignPutObject p t) = Some (pi_key p)"
| "call_key (PresignUploadPart b k u n t) = Some k"

fun call_ttl :: "s3_call \<Rightarrow> int option" where
  "call_ttl (PresignGetObject b k v r t) = Some t"
| "call_ttl (PresignPutObject p t) = Some t"
| "call_ttl (PresignUploadPart b k u n t) = Some t"
| "call_ttl _ = None"

text \<open>The key an operation asks for, below the prefix of the namespace.\<close>

definition confined :: "s3_config \<Rightarrow> string \<Rightarrow> s3_call \<Rightarrow> bool" where
  "confined cfg key call \<longleftrightarrow> call_bucket call = ns_bucket (sc_namespace cfg)
     \<and> (call_key call = None \<or> call_key call = Some (ns_prefix (sc_namespace cfg) @ key)
         \<and> validateKey (sc_namespace cfg) key = Inr ())
     \<and> (case call_ttl call of None \<Rightarrow> True
        | Some t \<Rightarrow> minPresignTTL \<le> t \<and> t \<le> maxPresignTTL \<and> t \<le> sc_max_ttl cfg)"

lemma wrap_checked_Inr [simp]: "wrap_checked operation key r = Inr a \<longleftrightarrow> r = Inr a"
  by (cases r) (simp_all add: wrap_checked_def)

lemma client_ttl_ok:
  "client_ttl c n operation key = Inr t \<Longrightarrow> minPresignTTL \<le> t \<and> t \<le> maxPresignTTL \<and> t \<le> sc_max_ttl (cl_config c)"
  by (auto simp: client_ttl_def and_then_eq_Inr dest!: validate_presign_ttl_ok split: if_splits)

named_theorems plans \<open>the plan of each operation\<close>

declare stat_plan_def [plans] get_plan_def [plans] put_plan_def [plans] delete_plan_def [plans]
  presign_get_plan_def [plans] presign_put_plan_def [plans] create_multipart_plan_def [plans]
  presign_part_plan_def [plans] complete_multipart_plan_def [plans] abort_multipart_plan_def [plans]

lemmas plan_checks = and_then_eq_Inr validateRef_def validatePutRequest_def validatePresignPutRequest_def
  confined_def physicalKey_def client_bucket_def applyPutChecksums_def

lemma plans_confined:
  "stat_plan c ref = Inr call \<Longrightarrow> confined (cl_config c) (or_key ref) call"
  "get_plan c g = Inr call \<Longrightarrow> confined (cl_config c) (or_key (gr_object g)) call"
  "put_plan c p = Inr call \<Longrightarrow> confined (cl_config c) (pr_key p) call"
  "delete_plan c d = Inr call \<Longrightarrow> confined (cl_config c) (or_key (dr_object d)) call"
  "presign_get_plan c pg = Inr (call, ttl) \<Longrightarrow> confined (cl_config c) (or_key (pg_object pg)) call"
  "presign_put_plan c pp = Inr (call, ttl) \<Longrightarrow> confined (cl_config c) (pp_key pp) call"
  "create_multipart_plan c cm = Inr call \<Longrightarrow> confined (cl_config c) (cm_key cm) call"
  "presign_part_plan c pa = Inr (call, ttl) \<Longrightarrow> confined (cl_config c) (pa_key pa) call"
  "complete_multipart_plan c co = Inr call \<Longrightarrow> confined (cl_config c) (co_key co) call"
  "abort_multipart_plan c am = Inr call \<Longrightarrow> confined (cl_config c) (am_key am) call"
  by (auto simp: plans plan_checks dest!: client_ttl_ok split: if_splits)

section \<open>Operations\<close>

datatype storage_op =
    CheckOp | StatOp object_ref | GetOp get_request | PutOp put_request | DeleteOp delete_request
  | PresignGetOp presign_get_request | PresignPutOp presign_put_request
  | CreateMultipartOp create_multipart_request | PresignPartOp presign_part_request
  | CompleteMultipartOp complete_multipart_request | AbortMultipartOp abort_multipart_request

fun op_key :: "storage_op \<Rightarrow> string" where
  "op_key CheckOp = ''''"
| "op_key (StatOp r) = or_key r"
| "op_key (GetOp r) = or_key (gr_object r)"
| "op_key (PutOp r) = pr_key r"
| "op_key (DeleteOp r) = or_key (dr_object r)"
| "op_key (PresignGetOp r) = or_key (pg_object r)"
| "op_key (PresignPutOp r) = pp_key r"
| "op_key (CreateMultipartOp r) = cm_key r"
| "op_key (PresignPartOp r) = pa_key r"
| "op_key (CompleteMultipartOp r) = co_key r"
| "op_key (AbortMultipartOp r) = am_key r"

text \<open>What an operation returns that is not an error is left out: the error, and the world after.\<close>

definition error_of :: "'a storage_result \<times> 'w \<Rightarrow> storage_error option \<times> 'w" where
  "error_of r = map_prod (case_sum Some (\<lambda>a. None)) id r"

fun run_op :: "unicode_tables \<Rightarrow> 'w s3_client \<Rightarrow> storage_op \<Rightarrow> 'w \<Rightarrow> storage_error option \<times> 'w" where
  "run_op U c CheckOp w = error_of (s3_check U c w)"
| "run_op U c (StatOp r) w = error_of (s3_stat U c r w)"
| "run_op U c (GetOp r) w = error_of (s3_get U c r w)"
| "run_op U c (PutOp r) w = error_of (s3_put U c r w)"
| "run_op U c (DeleteOp r) w = error_of (s3_delete U c r w)"
| "run_op U c (PresignGetOp r) w = error_of (s3_presign_get U c r w)"
| "run_op U c (PresignPutOp r) w = error_of (s3_presign_put U c r w)"
| "run_op U c (CreateMultipartOp r) w = error_of (s3_create_multipart U c r w)"
| "run_op U c (PresignPartOp r) w = error_of (s3_presign_part U c r w)"
| "run_op U c (CompleteMultipartOp r) w = error_of (s3_complete_multipart U c r w)"
| "run_op U c (AbortMultipartOp r) w = error_of (s3_abort_multipart U c r w)"

text \<open>A client whose calls and observations are written down.\<close>

type_synonym 'w recorded = "'w \<times> s3_call list \<times> storage_observation list"

definition recording :: "'w s3_client \<Rightarrow> (storage_observation \<Rightarrow> 'w \<Rightarrow> 'w) \<Rightarrow> 'w recorded s3_client" where
  "recording c observer = \<lparr>cl_config = cl_config c,
     cl_api = (\<lambda>call (w, calls, seen). case cl_api c call w of (r, w') \<Rightarrow> (r, (w', calls @ [call], seen))),
     cl_observer = Some (\<lambda>ob (w, calls, seen). (observer ob w, calls, seen @ [ob])),
     cl_now = (\<lambda>(w, calls, seen). cl_now c w)\<rparr>"

lemma recording_config [simp]: "cl_config (recording c observer) = cl_config c"
  by (simp add: recording_def)

lemma recording_plans [simp]:
  "stat_plan (recording c observer) ref = stat_plan c ref"
  "get_plan (recording c observer) g = get_plan c g"
  "put_plan (recording c observer) p = put_plan c p"
  "delete_plan (recording c observer) d = delete_plan c d"
  "presign_get_plan (recording c observer) pg = presign_get_plan c pg"
  "presign_put_plan (recording c observer) pp = presign_put_plan c pp"
  "create_multipart_plan (recording c observer) cm = create_multipart_plan c cm"
  "presign_part_plan (recording c observer) pa = presign_part_plan c pa"
  "complete_multipart_plan (recording c observer) co = complete_multipart_plan c co"
  "abort_multipart_plan (recording c observer) am = abort_multipart_plan c am"
  by (simp_all add: plans client_bucket_def physicalKey_def client_ttl_def)

definition recorded_calls :: "storage_error option \<times> 'w recorded \<Rightarrow> s3_call list" where
  "recorded_calls r = fst (snd (snd r))"

definition recorded_observations :: "storage_error option \<times> 'w recorded \<Rightarrow> storage_observation list" where
  "recorded_observations r = snd (snd (snd r))"

text \<open>One operation from an empty record: at most the planned call, and one observation.\<close>

definition op_record :: "string \<Rightarrow> (s3_call \<Rightarrow> bool) \<Rightarrow> storage_error option \<times> 'w recorded \<Rightarrow> bool" where
  "op_record operation planned r = (case r of (err, w, calls, seen) \<Rightarrow>
     (calls = [] \<or> (\<exists>call. calls = [call] \<and> planned call)) \<and>
     (\<exists>ob. seen = [ob] \<and> so_operation ob = operation
        \<and> so_outcome ob = (if err = None then OutcomeSuccess else OutcomeError)
        \<and> so_error_kind ob = map_option errorKind err))"

lemma op_record_perform:
  "op_record operation (\<lambda>call. plan = Inr call)
     (error_of (observed_call (recording c observer) operation bytes (perform U (recording c observer) operation key plan result) (w, [], [])))"
  by (auto simp: op_record_def error_of_def observed_call_def observe_operation_def perform_def recording_def Let_def
      split: sum.splits prod.splits option.splits)

lemma op_record_weaken: "op_record operation P r \<Longrightarrow> (\<And>call. P call \<Longrightarrow> Q call) \<Longrightarrow> op_record operation Q r"
  unfolding op_record_def by (auto split: prod.splits)

lemma op_record_presign:
  "op_record operation (\<lambda>call. \<exists>ttl. plan = Inr (call, ttl))
     (error_of (observed_call (recording c observer) operation bytes (presign U (recording c observer) operation key plan) (w, [], [])))"
proof (cases plan)
  case (Inl e)
  then show ?thesis
    by (simp add: op_record_def error_of_def observed_call_def observe_operation_def presign_def recording_def)
next
  case (Inr ct)
  obtain call ttl where ct: "ct = (call, ttl)" by fastforce
  have p: "presign U (recording c observer) operation key plan =
      perform U (recording c observer) operation key (Inr call) (presignedResult (recording c observer) ttl)"
    by (rule ext) (simp add: presign_def Inr ct)
  show ?thesis
    unfolding p by (rule op_record_weaken [OF op_record_perform]) (simp add: Inr ct)
qed

fun op_name :: "storage_op \<Rightarrow> string" where
  "op_name CheckOp = ''check''"
| "op_name (StatOp r) = ''stat''"
| "op_name (GetOp r) = ''get''"
| "op_name (PutOp r) = ''put''"
| "op_name (DeleteOp r) = ''delete''"
| "op_name (PresignGetOp r) = ''presign_get''"
| "op_name (PresignPutOp r) = ''presign_put''"
| "op_name (CreateMultipartOp r) = ''multipart_create''"
| "op_name (PresignPartOp r) = ''multipart_presign_part''"
| "op_name (CompleteMultipartOp r) = ''multipart_complete''"
| "op_name (AbortMultipartOp r) = ''multipart_abort''"

lemma check_confined: "Inr (HeadBucket (client_bucket c)) = Inr call \<Longrightarrow> confined (cl_config c) key call"
  by (auto simp: confined_def client_bucket_def)

lemma run_op_record:
  "op_record (op_name op) (confined (cl_config c) (op_key op)) (run_op U (recording c observer) op (w, [], []))"
proof (cases op)
  case CheckOp
  have "client_bucket (recording c observer) = client_bucket c" by (simp add: client_bucket_def)
  then show ?thesis unfolding CheckOp run_op.simps op_name.simps op_key.simps s3_check_def
    by (intro op_record_weaken [OF op_record_perform]) (simp add: check_confined)
next
  case (StatOp r)
  then show ?thesis by (auto simp: s3_stat_def intro!: op_record_weaken [OF op_record_perform] plans_confined)
next
  case (GetOp r)
  then show ?thesis by (auto simp: s3_get_def intro!: op_record_weaken [OF op_record_perform] plans_confined)
next
  case (PutOp r)
  then show ?thesis by (auto simp: s3_put_def intro!: op_record_weaken [OF op_record_perform] plans_confined)
next
  case (DeleteOp r)
  then show ?thesis by (auto simp: s3_delete_def intro!: op_record_weaken [OF op_record_perform] plans_confined)
next
  case (PresignGetOp r)
  then show ?thesis by (auto simp: s3_presign_get_def intro!: op_record_weaken [OF op_record_presign] intro: plans_confined)
next
  case (PresignPutOp r)
  then show ?thesis by (auto simp: s3_presign_put_def intro!: op_record_weaken [OF op_record_presign] intro: plans_confined)
next
  case (CreateMultipartOp r)
  then show ?thesis by (auto simp: s3_create_multipart_def intro!: op_record_weaken [OF op_record_perform] plans_confined)
next
  case (PresignPartOp r)
  then show ?thesis by (auto simp: s3_presign_part_def intro!: op_record_weaken [OF op_record_presign] intro: plans_confined)
next
  case (CompleteMultipartOp r)
  then show ?thesis by (auto simp: s3_complete_multipart_def intro!: op_record_weaken [OF op_record_perform] plans_confined)
next
  case (AbortMultipartOp r)
  then show ?thesis by (auto simp: s3_abort_multipart_def intro!: op_record_weaken [OF op_record_perform] plans_confined)
qed

text \<open>
  C25 Confinement: every operation of an S3 client makes at most one call to the SDK, and that call names
  the client's bucket, the requested key below the client's prefix, a key that passed validation, and a
  lifetime within the limits.
\<close>

theorem s3_calls_confined:
  "let calls = recorded_calls (run_op U (recording c observer) op (w, [], [])) in
   length calls \<le> 1 \<and> list_all (confined (cl_config c) (op_key op)) calls"
proof -
  obtain err w' calls seen where r: "run_op U (recording c observer) op (w, [], []) = (err, w', calls, seen)"
    by (metis prod_cases4)
  have "op_record (op_name op) (confined (cl_config c) (op_key op)) (err, w', calls, seen)"
    using run_op_record [of op c U observer w] by (simp only: r)
  then show ?thesis by (auto simp: op_record_def recorded_calls_def r)
qed

section \<open>Errors\<close>





text \<open>An error of validation: whatever it wraps, it is an invalid argument and no other kind.\<close>

definition invalid_error :: "storage_error \<Rightarrow> bool" where
  "invalid_error e \<longleftrightarrow> se_kind e = errInvalidArgument \<and> (\<forall>t \<in> set error_kinds. se_is e t \<longleftrightarrow> t = errInvalidArgument)"

lemmas error_kind_defs = errNotFound_def errForbidden_def errPreconditionFailed_def errConflict_def
  errInvalidArgument_def errUnavailable_def

lemma invalid_error_invalid [simp, intro]: "invalid_error (invalid operation key msg)"
  by (auto simp: invalid_error_def invalid_def error_kinds_def error_kind_defs)

lemma invalid_error_wrap [intro]: "invalid_error e \<Longrightarrow> invalid_error (wrapInvalid operation key e)"
  by (auto simp: invalid_error_def wrapInvalid_def error_kinds_def error_kind_defs)

definition only_invalid :: "'a storage_result \<Rightarrow> bool" where
  "only_invalid r = (case r of Inl e \<Rightarrow> invalid_error e | Inr a \<Rightarrow> True)"

named_theorems invalids \<open>results whose errors are invalid arguments\<close>

lemma only_invalid_Inr [simp, invalids]: "only_invalid (Inr a)"
  and only_invalid_invalid [simp, invalids]: "only_invalid (Inl (invalid operation key msg))"
  by (simp_all add: only_invalid_def)

lemma only_invalid_then [invalids]: "only_invalid r \<Longrightarrow> (\<And>a. only_invalid (f a)) \<Longrightarrow> only_invalid (and_then r f)"
  by (cases r) (simp_all add: only_invalid_def)

lemma only_invalid_if [invalids]: "only_invalid a \<Longrightarrow> only_invalid b \<Longrightarrow> only_invalid (if p then a else b)"
  by simp

lemma only_invalid_wrap [invalids]: "only_invalid r \<Longrightarrow> only_invalid (wrap_checked operation key r)"
  by (auto simp: only_invalid_def wrap_checked_def split: sum.splits)

lemma only_invalid_option [invalids]:
  "only_invalid a \<Longrightarrow> (\<And>x. only_invalid (f x)) \<Longrightarrow> only_invalid (case x of None \<Rightarrow> a | Some x \<Rightarrow> f x)"
  by (cases x) simp_all

lemma only_invalid_checks [invalids]:
  "only_invalid (validateKey ns key)" "only_invalid (validateRange operation key rg)"
  "only_invalid (validate_presign_ttl ttl d)" "only_invalid (validateUploadID operation key u)"
  "only_invalid (validatePartNumber operation key n)"
  unfolding validateKey_def validateRange_def validate_presign_ttl_def validateUploadID_def validatePartNumber_def Let_def
  by (intro invalids)+

lemma only_invalid_checksums [invalids]: "only_invalid (check_checksums operation key n vs)"
  by (induction vs arbitrary: n) simp_all

lemma only_invalid_upload_fields [invalids]: "only_invalid (validateUploadFields operation key t m c)"
  unfolding validateUploadFields_def validateChecksum_def by (intro invalids)

lemma only_invalid_check_parts [invalids]: "only_invalid (check_parts operation key seen ps)"
  by (induction ps arbitrary: seen) (auto intro!: invalids)

lemma only_invalid_parts [invalids]: "only_invalid (validateAndSortParts operation key ps)"
  unfolding validateAndSortParts_def by (intro invalids)













text \<open>
  Answers with an HTTP status the adapter knows are classified by the status alone; the API code is not
  read. An expired token, which S3 answers with status 400, is reported as an invalid argument.
\<close>

theorem s3_status_shadows_code:
  assumes "\<not> errors_is (pe_error e) ''context canceled''" "\<not> errors_is (pe_error e) ''context deadline exceeded''"
    "pe_status e = Some status" "status \<in> {400, 401, 403, 404, 409, 412}"
  shows "classifyError U e = classifyError U (e\<lparr>pe_code := None\<rparr>) \<and> (status = 400 \<longrightarrow> classifyError U e = errInvalidArgument)"
proof -
  obtain k where k: "status_kind status = Some k" using assms(4) by (auto simp: status_kind_def)
  then have "classifyError U (e\<lparr>pe_code := c\<rparr>) = k" for c using assms(1-3) by (simp add: classifyError_def)
  from this [of "pe_code e"] this [of None] k show ?thesis by (auto simp: status_kind_def)
qed

section \<open>Parts\<close>

definition parts_ok :: "completed_part list \<Rightarrow> bool" where
  "parts_ok parts \<longleftrightarrow> parts \<noteq> [] \<and> distinct (map cp_part_number parts)
     \<and> (\<forall>p \<in> set parts. 1 \<le> cp_part_number p \<and> cp_part_number p \<le> 10000 \<and> trim_space (cp_etag p) \<noteq> '''')"

lemma check_parts_ok:
  "check_parts operation key seen ps = Inr u \<longleftrightarrow> distinct (map cp_part_number ps)
     \<and> cp_part_number ` set ps \<inter> set seen = {}
     \<and> (\<forall>p \<in> set ps. 1 \<le> cp_part_number p \<and> cp_part_number p \<le> 10000 \<and> trim_space (cp_etag p) \<noteq> '''')"
  by (induction ps arbitrary: seen) (auto simp: validatePartNumber_def and_then_eq_Inr)

lemma validateAndSortParts_exact:
  "validateAndSortParts operation key parts = Inr ps \<longleftrightarrow>
     parts_ok parts \<and> mset ps = mset parts \<and> sorted (map cp_part_number ps)"
proof -
  have ok: "validateAndSortParts operation key parts = Inr ps \<longleftrightarrow> parts_ok parts \<and> ps = sort_key cp_part_number parts"
    by (auto simp: validateAndSortParts_def and_then_eq_Inr check_parts_ok parts_ok_def)
  have "ps = sort_key cp_part_number parts" if "parts_ok parts" "mset ps = mset parts" "sorted (map cp_part_number ps)"
  proof -
    have "inj_on cp_part_number (set parts)" using that(1) by (simp add: parts_ok_def distinct_map)
    then show ?thesis using sort_key_inj_key_eq [of parts ps cp_part_number] that by simp
  qed
  then show ?thesis unfolding ok by auto
qed

lemma recorded_perform:
  "recorded_calls (error_of (observed_call (recording c observer) operation bytes
     (perform U (recording c observer) operation key plan result) (w, [], []))) =
   (case plan of Inl e \<Rightarrow> [] | Inr call \<Rightarrow> [call])"
  by (auto simp: recorded_calls_def error_of_def observed_call_def observe_operation_def perform_def recording_def Let_def
      split: sum.splits prod.splits)

lemma sent_parts: "parts_ok parts \<Longrightarrow> mset ps = mset parts \<Longrightarrow>
    completedParts ps = map (\<lambda>p. (Some (cp_etag p), cp_part_number p)) ps"
proof -
  assume "parts_ok parts" "mset ps = mset parts"
  then have "\<forall>p \<in> set ps. cp_etag p \<noteq> ''''" using mset_eq_setD by (fastforce simp: parts_ok_def)
  then show ?thesis by (simp add: completedParts_def string_pointer_def)
qed

text \<open>
  C29 Parts: \<open>CompleteMultipart\<close> sends a request to S3 exactly when the key and the upload identifier are valid,
  there are parts, their numbers are distinct and from 1 to 10000, and no tag is blank. The request names the
  client's bucket, the key below its prefix, the upload and the conditions, and has the given parts, each with
  its tag, in the order of their numbers; there is no other call.
\<close>

theorem multipart_parts_sorted:
  "let ns = sc_namespace (cl_config c); calls = recorded_calls (run_op U (recording c observer) (CompleteMultipartOp r) (w, [], [])) in
   \<exists>ps. mset ps = mset (co_parts r) \<and> sorted (map cp_part_number ps) \<and>
     calls = (if validateKey ns (co_key r) = Inr () \<and> co_upload_id r \<noteq> '''' \<and> valid_string (co_upload_id r)
                 \<and> \<not> contains_control (co_upload_id r) \<and> parts_ok (co_parts r)
       then [CompleteMultipartUpload (ns_bucket ns) (ns_prefix ns @ co_key r) (co_upload_id r)
               (map (\<lambda>p. (Some (cp_etag p), cp_part_number p)) ps)
               (string_pointer (co_if_match r)) (string_pointer (co_if_none_match r))]
       else [])"
proof -
  let ?ns = "sc_namespace (cl_config c)" and ?ps = "sort_key cp_part_number (co_parts r)"
  let ?ok = "validateKey ?ns (co_key r) = Inr () \<and> co_upload_id r \<noteq> '''' \<and> valid_string (co_upload_id r)
    \<and> \<not> contains_control (co_upload_id r) \<and> parts_ok (co_parts r)"
  let ?call = "CompleteMultipartUpload (ns_bucket ?ns) (ns_prefix ?ns @ co_key r) (co_upload_id r)
    (map (\<lambda>p. (Some (cp_etag p), cp_part_number p)) ?ps) (string_pointer (co_if_match r)) (string_pointer (co_if_none_match r))"
  have parts: "validateAndSortParts ''multipart_complete'' (co_key r) (co_parts r) = Inr ps \<longleftrightarrow>
      parts_ok (co_parts r) \<and> ps = ?ps" for ps
    by (auto simp: validateAndSortParts_def and_then_eq_Inr check_parts_ok parts_ok_def)
  have upload: "validateUploadID ''multipart_complete'' (co_key r) (co_upload_id r) = Inr () \<longleftrightarrow>
      co_upload_id r \<noteq> '''' \<and> valid_string (co_upload_id r) \<and> \<not> contains_control (co_upload_id r)"
    by (auto simp: validateUploadID_def)
  have plan: "complete_multipart_plan c r = Inr call \<longleftrightarrow> ?ok \<and> call = ?call" for call
    using sent_parts [of "co_parts r" ?ps]
    by (auto simp: complete_multipart_plan_def and_then_eq_Inr upload parts client_bucket_def physicalKey_def)
  have "recorded_calls (run_op U (recording c observer) (CompleteMultipartOp r) (w, [], [])) =
      (case complete_multipart_plan c r of Inl e \<Rightarrow> [] | Inr call \<Rightarrow> [call])"
    by (simp add: s3_complete_multipart_def recorded_perform)
  also have "\<dots> = (if ?ok then [?call] else [])"
    using plan by (cases "complete_multipart_plan c r") auto
  finally show ?thesis by (auto simp: Let_def intro!: exI [of _ ?ps])
qed

end
