(* ===== verification/StorageService.thy ===== *)
theory StorageService
  imports JsonBody AccessPolicy S3Properties
begin

text \<open>
  The HTTP handlers of the storage service, \<open>services/storage/internal/interfaces/http\<close>, over the
  registry of stores (\<open>services/storage/internal/application/registry.go\<close>). A response is the envelope that is written. A
  store is a record of the operations of \<open>application.Store\<close> the handlers call.
\<close>

section \<open>Responses\<close>

record v1_checksum =
  vc_algorithm :: string
  vc_value :: string

record v1_object_info =
  vi_key :: string
  vi_version :: string
  vi_etag :: string
  vi_size :: int
  vi_content_type :: string
  vi_last_modified :: "int option"
  vi_metadata :: "(string \<times> string) list"
  vi_checksum :: "v1_checksum option"

datatype reply_data =
    NoData
  | EmptyData
  | StatusData string
  | InfoData v1_object_info
  | PresignedData presigned_request
  | UploadData string string

record envelope =
  en_code :: int
  en_message :: string
  en_data :: reply_data

definition writeJSON :: "int \<Rightarrow> reply_data \<Rightarrow> envelope" where
  "writeJSON status data = \<lparr>en_code = status,
     en_message = (if status \<ge> 400 then ''request failed'' else ''ok''), en_data = data\<rparr>"

definition writeError :: "int \<Rightarrow> string \<Rightarrow> envelope" where
  "writeError status message = \<lparr>en_code = status, en_message = message, en_data = NoData\<rparr>"

definition invalid_request :: envelope where
  "invalid_request = writeError 400 ''invalid request''"

definition writeStoreError :: "storage_error \<Rightarrow> envelope" where
  "writeStoreError err =
     (if se_is err errInvalidArgument then writeError 400 ''invalid request''
      else if se_is err errNotFound then writeError 404 ''object not found''
      else if se_is err errConflict then writeError 409 ''storage conflict''
      else if se_is err errPreconditionFailed then writeError 412 ''storage precondition failed''
      else writeError 503 ''storage unavailable'')"

section \<open>Payloads\<close>

record object_request =
  ob_namespace :: string
  ob_key :: string
  ob_version_id :: string

record v1_presign_get =
  vg_namespace :: string
  vg_key :: string
  vg_version_id :: string
  vg_expires_in :: int

record v1_presign_put =
  vp_namespace :: string
  vp_key :: string
  vp_size :: int
  vp_content_type :: string
  vp_metadata :: metadata
  vp_checksum :: "v1_checksum option"
  vp_expires_in :: int

record v1_multipart_create =
  vmc_namespace :: string
  vmc_key :: string
  vmc_content_type :: string
  vmc_metadata :: metadata
  vmc_checksum :: "v1_checksum option"

record v1_multipart_part =
  vmp_namespace :: string
  vmp_key :: string
  vmp_upload_id :: string
  vmp_part_number :: int
  vmp_expires_in :: int

record v1_multipart_complete =
  vmf_namespace :: string
  vmf_key :: string
  vmf_upload_id :: string
  vmf_parts :: "completed_part list"

record v1_multipart_abort =
  vma_namespace :: string
  vma_key :: string
  vma_upload_id :: string

record service_json =
  sj_object :: "object_request json_decoder"
  sj_presign_get :: "v1_presign_get json_decoder"
  sj_presign_put :: "v1_presign_put json_decoder"
  sj_create :: "v1_multipart_create json_decoder"
  sj_part :: "v1_multipart_part json_decoder"
  sj_complete :: "v1_multipart_complete json_decoder"
  sj_abort :: "v1_multipart_abort json_decoder"

definition maxControlBodyBytes :: int where "maxControlBodyBytes = 64 * 1024"

definition decode_payload :: "'a json_decoder \<Rightarrow> string \<Rightarrow> envelope + 'a" where
  "decode_payload dec body =
     (case json_body_decode dec body \<lparr>do_max_bytes = maxControlBodyBytes, do_disallow_unknown = True\<rparr> of
        Inr payload \<Rightarrow> Inr payload
      | Inl err \<Rightarrow>
          if errors_is err (error_text max_bytes_error) then Inl (writeError 413 ''request body too large'')
          else Inl invalid_request)"

section \<open>Mapping\<close>

definition parseChecksum :: "unicode_tables \<Rightarrow> v1_checksum option \<Rightarrow> header_checksum option" where
  "parseChecksum U checksum = (let none = \<lparr>hc_crc32 = '''', hc_crc32c = '''', hc_sha1 = '''', hc_sha256 = ''''\<rparr> in
     case checksum of
       None \<Rightarrow> Some none
     | Some c \<Rightarrow>
         if vc_value c = '''' then None
         else if \<not> std_base64_ok (vc_value c) then None
         else let algorithm = to_upper U (vc_algorithm c) in
           if algorithm = ''CRC32'' then Some (none\<lparr>hc_crc32 := vc_value c\<rparr>)
           else if algorithm = ''CRC32C'' then Some (none\<lparr>hc_crc32c := vc_value c\<rparr>)
           else if algorithm = ''SHA1'' then Some (none\<lparr>hc_sha1 := vc_value c\<rparr>)
           else if algorithm = ''SHA256'' then Some (none\<lparr>hc_sha256 := vc_value c\<rparr>)
           else None)"

definition reply_checksum :: "header_checksum \<Rightarrow> v1_checksum option" where
  "reply_checksum c =
     (if hc_crc32 c \<noteq> '''' then Some \<lparr>vc_algorithm = ''CRC32'', vc_value = hc_crc32 c\<rparr>
      else if hc_crc32c c \<noteq> '''' then Some \<lparr>vc_algorithm = ''CRC32C'', vc_value = hc_crc32c c\<rparr>
      else if hc_sha1 c \<noteq> '''' then Some \<lparr>vc_algorithm = ''SHA1'', vc_value = hc_sha1 c\<rparr>
      else if hc_sha256 c \<noteq> '''' then Some \<lparr>vc_algorithm = ''SHA256'', vc_value = hc_sha256 c\<rparr>
      else None)"

definition objectInfo :: "object_info \<Rightarrow> v1_object_info" where
  "objectInfo info = \<lparr>vi_key = oi_key info, vi_version = oi_version info, vi_etag = oi_etag info,
     vi_size = oi_size info, vi_content_type = oi_content_type info,
     vi_last_modified = (if oi_last_modified info = -62135596800 * second then None else Some (oi_last_modified info)),
     vi_metadata = metadata_entries (oi_metadata info), vi_checksum = reply_checksum (oi_checksum info)\<rparr>"

definition presignedRequest :: "presigned_request \<Rightarrow> reply_data" where
  "presignedRequest r = PresignedData \<lparr>ps_method = ps_method r, ps_url = ps_url r, ps_headers = ps_headers r,
     ps_expires_at = ps_expires_at r\<rparr>"

section \<open>The handler\<close>

type_synonym ('w, 'r, 'a) store_fn = "'r \<Rightarrow> 'w \<Rightarrow> 'a storage_result \<times> 'w"

record 'w object_store =
  os_check :: "'w \<Rightarrow> unit storage_result \<times> 'w"
  os_stat :: "('w, object_ref, object_info) store_fn"
  os_delete :: "('w, delete_request, unit) store_fn"
  os_presign_get :: "('w, presign_get_request, presigned_request) store_fn"
  os_presign_put :: "('w, presign_put_request, presigned_request) store_fn"
  os_create_multipart :: "('w, create_multipart_request, multipart_upload) store_fn"
  os_presign_part :: "('w, presign_part_request, presigned_request) store_fn"
  os_complete_multipart :: "('w, complete_multipart_request, object_info) store_fn"
  os_abort_multipart :: "('w, abort_multipart_request, unit) store_fn"

record 'w storage_handler =
  sh_stores :: "string \<rightharpoonup> 'w object_store"
  sh_policy :: "policy option"
  sh_ready :: "bool option"
  sh_digest :: "string \<Rightarrow> string"
  sh_json :: service_json
  sh_unicode :: unicode_tables

record storage_call =
  sq_token :: string
  sq_body :: string

definition authorize_request ::
  "'w storage_handler \<Rightarrow> storage_call \<Rightarrow> string \<Rightarrow> string \<Rightarrow> envelope + unit" where
  "authorize_request h r namespace capability =
     (if \<not> is_ok (validateNamespaceName namespace) then Inl invalid_request
      else case policy_authorize (sh_digest h) (sh_policy h) (sq_token r) namespace capability of
        DecisionAllowed \<Rightarrow> Inr ()
      | DecisionUnauthenticated \<Rightarrow> Inl (writeError 401 ''invalid storage service token'')
      | DecisionForbidden \<Rightarrow> Inl (writeError 403 ''storage access forbidden''))"

definition storeAndValidate ::
  "'w storage_handler \<Rightarrow> string \<Rightarrow> string \<Rightarrow> string \<Rightarrow> string \<Rightarrow> (string \<times> string) list \<Rightarrow> envelope + 'w object_store" where
  "storeAndValidate h namespace_name key version_id content_type metadata =
     (case (sh_stores h namespace_name, policy_namespace (sh_policy h) namespace_name) of
        (Some store, Some namespace) \<Rightarrow>
          if \<not> validateObjectInput namespace key version_id content_type metadata then Inl invalid_request
          else Inr store
      | _ \<Rightarrow> Inl (writeError 403 ''storage access forbidden''))"

text \<open>The end of every handler: the store's error, or the reply.\<close>

definition store_reply ::
  "('w \<Rightarrow> 'a storage_result \<times> 'w) \<Rightarrow> ('a \<Rightarrow> reply_data) \<Rightarrow> 'w \<Rightarrow> envelope \<times> 'w" where
  "store_reply operation data w = (case operation w of
     (Inl err, w') \<Rightarrow> (writeStoreError err, w')
   | (Inr a, w') \<Rightarrow> (writeJSON 200 (data a), w'))"

text \<open>A handler ends early with an envelope, or with a call of the store.\<close>

definition finish :: "envelope + ('w \<Rightarrow> envelope \<times> 'w) \<Rightarrow> 'w \<Rightarrow> envelope \<times> 'w" where
  "finish r w = (case r of Inl e \<Rightarrow> (e, w) | Inr f \<Rightarrow> f w)"

definition require :: "bool \<Rightarrow> envelope + unit" where
  "require ok = (if ok then Inr () else Inl invalid_request)"

definition request_ttl :: "int \<Rightarrow> envelope + int" where
  "request_ttl seconds = (case presignTTL seconds of Inl e \<Rightarrow> Inl invalid_request | Inr t \<Rightarrow> Inr t)"

definition request_checksum :: "unicode_tables \<Rightarrow> v1_checksum option \<Rightarrow> envelope + header_checksum" where
  "request_checksum U c = (case parseChecksum U c of None \<Rightarrow> Inl invalid_request | Some h \<Rightarrow> Inr h)"

definition handleStat :: "'w storage_handler \<Rightarrow> storage_call \<Rightarrow> 'w \<Rightarrow> envelope \<times> 'w" where
  "handleStat h r = finish (
     and_then (decode_payload (sj_object (sh_json h)) (sq_body r)) (\<lambda>p.
     and_then (authorize_request h r (ob_namespace p) capabilityRead) (\<lambda>u.
     and_then (storeAndValidate h (ob_namespace p) (ob_key p) (ob_version_id p) '''' []) (\<lambda>store.
     Inr (store_reply (os_stat store \<lparr>or_key = ob_key p, or_version = ob_version_id p\<rparr>) (\<lambda>info. InfoData (objectInfo info)))))))"

definition handleDelete :: "'w storage_handler \<Rightarrow> storage_call \<Rightarrow> 'w \<Rightarrow> envelope \<times> 'w" where
  "handleDelete h r = finish (
     and_then (decode_payload (sj_object (sh_json h)) (sq_body r)) (\<lambda>p.
     and_then (authorize_request h r (ob_namespace p) capabilityDelete) (\<lambda>u.
     and_then (storeAndValidate h (ob_namespace p) (ob_key p) (ob_version_id p) '''' []) (\<lambda>store.
     Inr (store_reply (os_delete store \<lparr>dr_object = \<lparr>or_key = ob_key p, or_version = ob_version_id p\<rparr>, dr_if_match = ''''\<rparr>)
       (\<lambda>u. EmptyData))))))"

definition handlePresignGet :: "'w storage_handler \<Rightarrow> storage_call \<Rightarrow> 'w \<Rightarrow> envelope \<times> 'w" where
  "handlePresignGet h r = finish (
     and_then (decode_payload (sj_presign_get (sh_json h)) (sq_body r)) (\<lambda>p.
     and_then (authorize_request h r (vg_namespace p) capabilityRead) (\<lambda>u.
     and_then (storeAndValidate h (vg_namespace p) (vg_key p) (vg_version_id p) '''' []) (\<lambda>store.
     and_then (request_ttl (vg_expires_in p)) (\<lambda>ttl.
     Inr (store_reply (os_presign_get store \<lparr>pg_object = \<lparr>or_key = vg_key p, or_version = vg_version_id p\<rparr>,
       pg_range = None, pg_ttl = ttl\<rparr>) presignedRequest))))))"

definition handlePresignPut :: "'w storage_handler \<Rightarrow> storage_call \<Rightarrow> 'w \<Rightarrow> envelope \<times> 'w" where
  "handlePresignPut h r = finish (
     and_then (decode_payload (sj_presign_put (sh_json h)) (sq_body r)) (\<lambda>p.
     and_then (authorize_request h r (vp_namespace p) capabilityWrite) (\<lambda>u.
     and_then (storeAndValidate h (vp_namespace p) (vp_key p) '''' (vp_content_type p) (metadata_entries (vp_metadata p))) (\<lambda>store.
     and_then (require (0 \<le> vp_size p \<and> vp_size p \<le> maxSinglePutBytes)) (\<lambda>u.
     and_then (request_checksum (sh_unicode h) (vp_checksum p)) (\<lambda>checksum.
     and_then (request_ttl (vp_expires_in p)) (\<lambda>ttl.
     Inr (store_reply (os_presign_put store \<lparr>pp_key = vp_key p, pp_size = vp_size p, pp_content_type = vp_content_type p,
       pp_metadata = vp_metadata p, pp_checksum = checksum, pp_if_match = '''', pp_if_none_match = '''', pp_ttl = ttl\<rparr>)
       presignedRequest))))))))"

definition handleMultipartCreate :: "'w storage_handler \<Rightarrow> storage_call \<Rightarrow> 'w \<Rightarrow> envelope \<times> 'w" where
  "handleMultipartCreate h r = finish (
     and_then (decode_payload (sj_create (sh_json h)) (sq_body r)) (\<lambda>p.
     and_then (authorize_request h r (vmc_namespace p) capabilityWrite) (\<lambda>u.
     and_then (storeAndValidate h (vmc_namespace p) (vmc_key p) '''' (vmc_content_type p) (metadata_entries (vmc_metadata p))) (\<lambda>store.
     and_then (request_checksum (sh_unicode h) (vmc_checksum p)) (\<lambda>checksum.
     Inr (store_reply (os_create_multipart store \<lparr>cm_key = vmc_key p, cm_content_type = vmc_content_type p,
       cm_metadata = vmc_metadata p, cm_checksum = checksum\<rparr>) (\<lambda>up. UploadData (mu_key up) (mu_upload_id up))))))))"

definition handleMultipartPresignPart :: "'w storage_handler \<Rightarrow> storage_call \<Rightarrow> 'w \<Rightarrow> envelope \<times> 'w" where
  "handleMultipartPresignPart h r = finish (
     and_then (decode_payload (sj_part (sh_json h)) (sq_body r)) (\<lambda>p.
     and_then (authorize_request h r (vmp_namespace p) capabilityWrite) (\<lambda>u.
     and_then (storeAndValidate h (vmp_namespace p) (vmp_key p) '''' '''' []) (\<lambda>store.
     and_then (require (vmp_upload_id p \<noteq> '''' \<and> 1 \<le> vmp_part_number p \<and> vmp_part_number p \<le> 10000)) (\<lambda>u.
     and_then (request_ttl (vmp_expires_in p)) (\<lambda>ttl.
     Inr (store_reply (os_presign_part store \<lparr>pa_key = vmp_key p, pa_upload_id = vmp_upload_id p,
       pa_part_number = vmp_part_number p, pa_ttl = ttl\<rparr>) presignedRequest)))))))"

definition handleMultipartComplete :: "'w storage_handler \<Rightarrow> storage_call \<Rightarrow> 'w \<Rightarrow> envelope \<times> 'w" where
  "handleMultipartComplete h r = finish (
     and_then (decode_payload (sj_complete (sh_json h)) (sq_body r)) (\<lambda>p.
     and_then (authorize_request h r (vmf_namespace p) capabilityWrite) (\<lambda>u.
     and_then (storeAndValidate h (vmf_namespace p) (vmf_key p) '''' '''' []) (\<lambda>store.
     and_then (require (vmf_upload_id p \<noteq> '''' \<and> vmf_parts p \<noteq> [])) (\<lambda>u.
     Inr (store_reply (os_complete_multipart store \<lparr>co_key = vmf_key p, co_upload_id = vmf_upload_id p,
       co_parts = vmf_parts p, co_if_match = '''', co_if_none_match = ''''\<rparr>) (\<lambda>info. InfoData (objectInfo info))))))))"

definition handleMultipartAbort :: "'w storage_handler \<Rightarrow> storage_call \<Rightarrow> 'w \<Rightarrow> envelope \<times> 'w" where
  "handleMultipartAbort h r = finish (
     and_then (decode_payload (sj_abort (sh_json h)) (sq_body r)) (\<lambda>p.
     and_then (authorize_request h r (vma_namespace p) capabilityWrite) (\<lambda>u.
     and_then (storeAndValidate h (vma_namespace p) (vma_key p) '''' '''' []) (\<lambda>store.
     and_then (require (vma_upload_id p \<noteq> '''')) (\<lambda>u.
     Inr (store_reply (os_abort_multipart store \<lparr>am_key = vma_key p, am_upload_id = vma_upload_id p\<rparr>) (\<lambda>u. EmptyData)))))))"

section \<open>The router\<close>

datatype storage_route =
    Stat | Delete | PresignGet | PresignPut | MultipartCreate | MultipartPart | MultipartComplete | MultipartAbort

fun route_path :: "storage_route \<Rightarrow> string" where
  "route_path Stat = ''/v1/objects/stat''"
| "route_path Delete = ''/v1/objects/delete''"
| "route_path PresignGet = ''/v1/presign/get''"
| "route_path PresignPut = ''/v1/presign/put''"
| "route_path MultipartCreate = ''/v1/multipart/create''"
| "route_path MultipartPart = ''/v1/multipart/presign-part''"
| "route_path MultipartComplete = ''/v1/multipart/complete''"
| "route_path MultipartAbort = ''/v1/multipart/abort''"

fun route_handler :: "storage_route \<Rightarrow> 'w storage_handler \<Rightarrow> storage_call \<Rightarrow> 'w \<Rightarrow> envelope \<times> 'w" where
  "route_handler Stat = handleStat"
| "route_handler Delete = handleDelete"
| "route_handler PresignGet = handlePresignGet"
| "route_handler PresignPut = handlePresignPut"
| "route_handler MultipartCreate = handleMultipartCreate"
| "route_handler MultipartPart = handleMultipartPresignPart"
| "route_handler MultipartComplete = handleMultipartComplete"
| "route_handler MultipartAbort = handleMultipartAbort"

definition require_token ::
  "('w storage_handler \<Rightarrow> storage_call \<Rightarrow> 'w \<Rightarrow> envelope \<times> 'w) \<Rightarrow> 'w storage_handler \<Rightarrow> storage_call \<Rightarrow> 'w \<Rightarrow> envelope \<times> 'w" where
  "require_token next_handler h r w =
     (if sh_policy h = None \<or> \<not> policy_authenticate (sh_digest h) (sh_policy h) (sq_token r)
      then (writeError 401 ''invalid storage service token'', w)
      else next_handler h r w)"

definition require_ready ::
  "('w storage_handler \<Rightarrow> storage_call \<Rightarrow> 'w \<Rightarrow> envelope \<times> 'w) \<Rightarrow> 'w storage_handler \<Rightarrow> storage_call \<Rightarrow> 'w \<Rightarrow> envelope \<times> 'w" where
  "require_ready next_handler h r w =
     (if sh_ready h \<noteq> Some True then (writeError 503 ''storage unavailable'', w) else next_handler h r w)"

definition handleHealth :: envelope where
  "handleHealth = writeJSON 200 (StatusData ''ok'')"

definition handleReady :: "'w storage_handler \<Rightarrow> envelope" where
  "handleReady h = (if sh_ready h \<noteq> Some True then writeJSON 503 (StatusData ''not_ready'') else writeJSON 200 (StatusData ''ready''))"

text \<open>A protected route of the router, and what the monitoring is told of it.\<close>

definition serve_storage ::
  "storage_route \<Rightarrow> 'w storage_handler \<Rightarrow> storage_call \<Rightarrow> 'w \<Rightarrow> (envelope \<times> string \<times> int) \<times> 'w" where
  "serve_storage route h r w =
     (let (reply, w') = require_token (require_ready (route_handler route)) h r w in
      ((reply, route_path route, en_code reply), w'))"

end
