(* ===== verification/StorageAccess.thy ===== *)
theory StorageAccess
  imports StorageService
begin

text \<open>
  The storage service end to end: the handlers over S3 clients. A call to S3 is only made for a caller
  whose token is granted the capability the route needs on the namespace it names, and stays within that
  namespace.
\<close>

definition s3_object_store :: "unicode_tables \<Rightarrow> 'w s3_client \<Rightarrow> 'w object_store" where
  "s3_object_store U c = \<lparr>os_check = s3_check U c, os_stat = s3_stat U c, os_delete = s3_delete U c,
     os_presign_get = s3_presign_get U c, os_presign_put = s3_presign_put U c,
     os_create_multipart = s3_create_multipart U c, os_presign_part = s3_presign_part U c,
     os_complete_multipart = s3_complete_multipart U c, os_abort_multipart = s3_abort_multipart U c\<rparr>"

fun route_capability :: "storage_route \<Rightarrow> string" where
  "route_capability Stat = capabilityRead"
| "route_capability PresignGet = capabilityRead"
| "route_capability Delete = capabilityDelete"
| "route_capability _ = capabilityWrite"

lemma snd_store_reply: "snd (store_reply operation data w) = snd (error_of (operation w))"
  by (simp add: store_reply_def error_of_def split: prod.splits sum.splits)

lemma storeAndValidate_Inr:
  "storeAndValidate h name key version t m = Inr store \<Longrightarrow>
     sh_stores h name = Some store \<and> (\<exists>ns. policy_namespace (sh_policy h) name = Some ns \<and> validateKey ns key = Inr ())"
proof -
  have "is_ok (validateKey ns key) \<Longrightarrow> validateKey ns key = Inr ()" for ns by (cases "validateKey ns key") simp_all
  then show "storeAndValidate h name key version t m = Inr store \<Longrightarrow>
     sh_stores h name = Some store \<and> (\<exists>ns. policy_namespace (sh_policy h) name = Some ns \<and> validateKey ns key = Inr ())"
    by (auto simp: storeAndValidate_def validateObjectInput_def split: option.splits if_splits)
qed

text \<open>What a handler has established when it reaches the store, and the operation it then runs.\<close>

definition reaches ::
  "unicode_tables \<Rightarrow> 'w storage_handler \<Rightarrow> storage_call \<Rightarrow> string \<Rightarrow> 'w \<Rightarrow> 'w \<Rightarrow> bool" where
  "reaches U h r capability w w' \<longleftrightarrow> (\<exists>name store.
     authorize_request h r name capability = Inr () \<and> sh_stores h name = Some store \<and>
     (\<exists>ns. policy_namespace (sh_policy h) name = Some ns) \<and>
     (\<forall>c. store = s3_object_store U c \<longrightarrow> (\<exists>op. w' = snd (run_op U c op w))))"

lemma finish_cases: "(\<And>f. plan = Inr f \<Longrightarrow> P (snd (f w))) \<Longrightarrow> snd (finish plan w) = w \<or> P (snd (finish plan w))"
  by (cases plan) (simp_all add: finish_def)

lemma reaches_op:
  assumes "authorize_request h r name capability = Inr ()" "storeAndValidate h name key version t m = Inr store"
    "\<And>c. store = s3_object_store U c \<Longrightarrow> w' = snd (run_op U c op w)"
  shows "reaches U h r capability w w'"
  using assms storeAndValidate_Inr [OF assms(2)] unfolding reaches_def by blast

lemma handler_reaches:
  "snd (route_handler route h r w) = w \<or> reaches U h r (route_capability route) w (snd (route_handler route h r w))"
proof (cases route)
  case Stat
  show ?thesis unfolding Stat route_handler.simps route_capability.simps handleStat_def
    by (rule finish_cases) (auto simp: and_then_eq_Inr snd_store_reply s3_object_store_def
        intro!: reaches_op [where op = "StatOp \<lparr>or_key = k, or_version = v\<rparr>" for k v])
next
  case Delete
  show ?thesis unfolding Delete route_handler.simps route_capability.simps handleDelete_def
    by (rule finish_cases) (auto simp: and_then_eq_Inr snd_store_reply s3_object_store_def
        intro!: reaches_op [where op = "DeleteOp d" for d])
next
  case PresignGet
  show ?thesis unfolding PresignGet route_handler.simps route_capability.simps handlePresignGet_def
    by (rule finish_cases) (auto simp: and_then_eq_Inr snd_store_reply s3_object_store_def
        intro!: reaches_op [where op = "PresignGetOp d" for d])
next
  case PresignPut
  show ?thesis unfolding PresignPut route_handler.simps route_capability.simps handlePresignPut_def
    by (rule finish_cases) (auto simp: and_then_eq_Inr snd_store_reply s3_object_store_def
        intro!: reaches_op [where op = "PresignPutOp d" for d])
next
  case MultipartCreate
  show ?thesis unfolding MultipartCreate route_handler.simps route_capability.simps handleMultipartCreate_def
    by (rule finish_cases) (auto simp: and_then_eq_Inr snd_store_reply s3_object_store_def
        intro!: reaches_op [where op = "CreateMultipartOp d" for d])
next
  case MultipartPart
  show ?thesis unfolding MultipartPart route_handler.simps route_capability.simps handleMultipartPresignPart_def
    by (rule finish_cases) (auto simp: and_then_eq_Inr snd_store_reply s3_object_store_def
        intro!: reaches_op [where op = "PresignPartOp d" for d])
next
  case MultipartComplete
  show ?thesis unfolding MultipartComplete route_handler.simps route_capability.simps handleMultipartComplete_def
    by (rule finish_cases) (auto simp: and_then_eq_Inr snd_store_reply s3_object_store_def
        intro!: reaches_op [where op = "CompleteMultipartOp d" for d])
next
  case MultipartAbort
  show ?thesis unfolding MultipartAbort route_handler.simps route_capability.simps handleMultipartAbort_def
    by (rule finish_cases) (auto simp: and_then_eq_Inr snd_store_reply s3_object_store_def
        intro!: reaches_op [where op = "AbortMultipartOp d" for d])
qed

lemma serve_reaches:
  assumes "snd (serve_storage route h r w) \<noteq> w"
  shows "sh_ready h = Some True \<and> reaches U h r (route_capability route) w (snd (serve_storage route h r w))"
  using assms handler_reaches [of route h r w U]
  by (auto simp: serve_storage_def require_token_def require_ready_def Let_def split: prod.splits if_splits)

lemma authorize_request_Inr:
  "authorize_request h r name capability = Inr u \<Longrightarrow>
     policy_authorize (sh_digest h) (sh_policy h) (sq_token r) name capability = DecisionAllowed"
  by (auto simp: authorize_request_def split: decision.splits if_splits)

text \<open>The registry of a policy: every namespace has an S3 client bound to it, as \<open>main\<close> builds it.\<close>

definition bound_stores ::
  "unicode_tables \<Rightarrow> (string \<Rightarrow> 'w s3_client) \<Rightarrow> (storage_observation \<Rightarrow> 'w \<Rightarrow> 'w) \<Rightarrow> 'w recorded storage_handler \<Rightarrow> bool" where
  "bound_stores U clients observer h \<longleftrightarrow> (\<forall>name store. sh_stores h name = Some store \<longrightarrow>
     store = s3_object_store U (recording (clients name) observer)
     \<and> policy_namespace (sh_policy h) name = Some (sc_namespace (cl_config (clients name))))"

text \<open>
  C23 Access control end to end: if serving a request leads to calls to S3, the service is ready, the
  request carries the token of a principal that is granted the capability of the route on a namespace,
  and the calls are a single one, in the bucket and under the prefix the policy binds that namespace to.
\<close>

theorem storage_access_confined:
  assumes "compilePolicy (sh_digest h) config = Inr p" "sh_policy h = Some p"
    "\<forall>np \<in> set (ac_principals config). distinct (map fst (prc_grants (snd np)))"
    "bound_stores U clients observer h"
    "serve_storage route h r (w, [], []) = (answer, w', calls, seen)" "calls \<noteq> []"
  shows "sh_ready h = Some True \<and> (\<exists>name key ns. \<exists>np \<in> set (ac_principals config).
      holds_token (sh_digest h) (sq_token r) (snd np) \<and> granted name (route_capability route) (snd np)
    \<and> po_namespaces p name = Some ns \<and> length calls = 1
    \<and> list_all (\<lambda>call. call_bucket call = ns_bucket ns \<and> (call_key call = None \<or> call_key call = Some (ns_prefix ns @ key))) calls)"
proof -
  have "snd (serve_storage route h r (w, [], [])) \<noteq> (w, [], [])" using assms(5,6) by simp
  from serve_reaches [OF this, of U] obtain name store op where ready: "sh_ready h = Some True"
    and auth: "authorize_request h r name (route_capability route) = Inr ()" and store: "sh_stores h name = Some store"
    and op: "\<forall>c. store = s3_object_store U c \<longrightarrow> (\<exists>op. (w', calls, seen) = snd (run_op U c op (w, [], [])))"
    using assms(5) unfolding reaches_def by (metis snd_conv)
  let ?c = "clients name"
  from assms(4) store have s: "store = s3_object_store U (recording ?c observer)"
    and ns: "po_namespaces p name = Some (sc_namespace (cl_config ?c))"
    using assms(2) by (auto simp: bound_stores_def policy_namespace_def)
  from op s obtain op where run: "(w', calls, seen) = snd (run_op U (recording ?c observer) op (w, [], []))" by blast
  from run_op_record [of op ?c U observer w] have "length calls = 1"
    and confined: "list_all (confined (cl_config ?c) (op_key op)) calls"
    using assms(6) run by (auto simp: op_record_def split: prod.splits)
  moreover have "list_all (\<lambda>call. call_bucket call = ns_bucket (sc_namespace (cl_config ?c))
      \<and> (call_key call = None \<or> call_key call = Some (ns_prefix (sc_namespace (cl_config ?c)) @ op_key op))) calls"
    using confined by (auto simp: list_all_iff confined_def)
  moreover have "policy_authorize (sh_digest h) (Some p) (sq_token r) name (route_capability route) = DecisionAllowed"
    using authorize_request_Inr [OF auth] assms(2) by simp
  then obtain np where "np \<in> set (ac_principals config)" "holds_token (sh_digest h) (sq_token r) (snd np)"
    "granted name (route_capability route) (snd np)"
    using policy_allowed [OF assms(1,3)] by blast
  ultimately show ?thesis using ready ns by blast
qed

end
