(* ===== verification/StorageMonitoring.thy ===== *)
theory StorageMonitoring
  imports StorageAccess
begin

text \<open>
  What the storage service tells its monitoring: the status recorder and the \<open>observe\<close> middleware of
  services/storage/internal/interfaces/http/router.go, and the metrics of
  services/storage/internal/observability/metrics.go. A vector of counters is a function from label
  values to the count, a vector of histograms a function to the list of the observed durations.
\<close>

section \<open>Status recorder\<close>

datatype reply_write = ContentType string | WriteStatus int | WriteEnvelope envelope

definition writeEnvelope :: "envelope \<Rightarrow> reply_write list" where
  "writeEnvelope payload = [ContentType ''application/json'', WriteStatus (en_code payload), WriteEnvelope payload]"

record status_recorder =
  sr_status :: int
  sr_sent :: "reply_write list"

definition recorder_status :: "int \<Rightarrow> status_recorder \<Rightarrow> status_recorder" where
  "recorder_status status r =
     (if sr_status r \<noteq> 0 then r else r\<lparr>sr_status := status, sr_sent := sr_sent r @ [WriteStatus status]\<rparr>)"

fun recorder_write :: "reply_write \<Rightarrow> status_recorder \<Rightarrow> status_recorder" where
  "recorder_write (ContentType t) r = r\<lparr>sr_sent := sr_sent r @ [ContentType t]\<rparr>"
| "recorder_write (WriteStatus status) r = recorder_status status r"
| "recorder_write (WriteEnvelope payload) r =
     (let r' = (if sr_status r = 0 then recorder_status 200 r else r) in
      r'\<lparr>sr_sent := sr_sent r' @ [WriteEnvelope payload]\<rparr>)"

definition recorded_status :: "reply_write list \<Rightarrow> int" where
  "recorded_status writes = (let r = fold recorder_write writes \<lparr>sr_status = 0, sr_sent = []\<rparr> in
     if sr_status r = 0 then 200 else sr_status r)"

section \<open>Metrics\<close>

record metrics =
  me_http :: "string \<times> string \<Rightarrow> nat"
  me_operations :: "string \<times> string \<Rightarrow> nat"
  me_durations :: "string \<times> string \<Rightarrow> int list"
  me_bytes :: "string \<times> string \<Rightarrow> int"

definition newMetrics :: metrics where
  "newMetrics = \<lparr>me_http = (\<lambda>l. 0), me_operations = (\<lambda>l. 0), me_durations = (\<lambda>l. []), me_bytes = (\<lambda>l. 0)\<rparr>"

definition observeHTTPRequest :: "string \<Rightarrow> int \<Rightarrow> metrics \<Rightarrow> metrics" where
  "observeHTTPRequest route status m =
     (let l = (route, format_int status) in m\<lparr>me_http := (me_http m)(l := me_http m l + 1)\<rparr>)"

definition kind_is :: "go_error option \<Rightarrow> go_error \<Rightarrow> bool" where
  "kind_is err t = (case err of None \<Rightarrow> False | Some e \<Rightarrow> errors_is e (error_text t))"

definition errorResult :: "go_error option \<Rightarrow> string" where
  "errorResult err =
     (if kind_is err errNotFound then ''not_found''
      else if kind_is err errForbidden then ''forbidden''
      else if kind_is err errPreconditionFailed then ''precondition_failed''
      else if kind_is err errConflict then ''conflict''
      else if kind_is err errInvalidArgument then ''invalid_argument''
      else ''unavailable'')"

definition observation_label :: "storage_observation \<Rightarrow> string \<times> string" where
  "observation_label ob =
     (so_operation ob, if so_outcome ob = OutcomeError then errorResult (so_error_kind ob) else ''success'')"

definition metrics_observe :: "storage_observation \<Rightarrow> metrics \<Rightarrow> metrics" where
  "metrics_observe ob m =
     (let l = observation_label ob;
          m1 = m\<lparr>me_operations := (me_operations m)(l := me_operations m l + 1)\<rparr>;
          m2 = m1\<lparr>me_durations := (me_durations m1)(l := me_durations m1 l @ [so_duration ob])\<rparr> in
      if so_bytes ob > 0 then m2\<lparr>me_bytes := (me_bytes m2)(l := me_bytes m2 l + so_bytes ob)\<rparr> else m2)"

section \<open>A sequence of requests\<close>

text \<open>The stores observe into the metrics while a handler runs; the middleware adds the route at the end.\<close>

type_synonym 'w monitored = "metrics \<times> 'w"

definition monitored_client :: "'w s3_client \<Rightarrow> 'w monitored s3_client" where
  "monitored_client c = \<lparr>cl_config = cl_config c,
     cl_api = (\<lambda>call (m, w). case cl_api c call w of (r, w') \<Rightarrow> (r, (m, w'))),
     cl_observer = Some (\<lambda>ob (m, w). (metrics_observe ob m, w)),
     cl_now = (\<lambda>(m, w). cl_now c w)\<rparr>"

definition serve_monitored ::
  "'w monitored storage_handler \<Rightarrow> storage_route \<times> storage_call \<Rightarrow> 'w monitored \<Rightarrow> 'w monitored" where
  "serve_monitored h request mw =
     (let (route, call) = request; ((reply, path, code), (m, w)) = serve_storage route h call mw in
      (observeHTTPRequest path (recorded_status (writeEnvelope reply)) m, w))"

definition monitored_stores :: "unicode_tables \<Rightarrow> 'w monitored storage_handler \<Rightarrow> bool" where
  "monitored_stores U h \<longleftrightarrow>
     (\<forall>name store. sh_stores h name = Some store \<longrightarrow> (\<exists>c. store = s3_object_store U (monitored_client c)))"

section \<open>Statuses\<close>

definition reply_codes :: "int set" where
  "reply_codes = {200, 400, 401, 403, 404, 409, 412, 413, 503}"

lemma recorded_status_envelope: "en_code e \<noteq> 0 \<Longrightarrow> recorded_status (writeEnvelope e) = en_code e"
  by (simp add: recorded_status_def writeEnvelope_def recorder_status_def Let_def)

lemma reply_code_simps [simp]:
  "en_code (writeJSON status data) = status" "en_code (writeError status message) = status"
  "en_code invalid_request \<in> reply_codes" "en_code (writeStoreError e) \<in> reply_codes"
  by (simp_all add: writeJSON_def writeError_def invalid_request_def writeStoreError_def reply_codes_def)

lemma store_reply_code: "en_code (fst (store_reply operation data w)) \<in> reply_codes"
proof -
  have "200 \<in> reply_codes" by (simp add: reply_codes_def)
  then show ?thesis by (simp add: store_reply_def split: prod.split sum.split)
qed

lemma finish_code:
  "(\<And>e. plan = Inl e \<Longrightarrow> en_code e \<in> reply_codes) \<Longrightarrow> (\<And>f. plan = Inr f \<Longrightarrow> en_code (fst (f w)) \<in> reply_codes) \<Longrightarrow>
     en_code (fst (finish plan w)) \<in> reply_codes"
  by (cases plan) (simp_all add: finish_def)

lemma decode_payload_code: "decode_payload dec body = Inl e \<Longrightarrow> en_code e \<in> reply_codes"
  by (auto simp: decode_payload_def reply_codes_def invalid_request_def split: sum.split_asm if_split_asm)

lemma refusal_codes:
  "authorize_request h r name capability = Inl e \<Longrightarrow> en_code e \<in> reply_codes"
  "storeAndValidate h name key version t m = Inl e \<Longrightarrow> en_code e \<in> reply_codes"
  "require ok = Inl e \<Longrightarrow> en_code e \<in> reply_codes"
  "request_ttl n = Inl e \<Longrightarrow> en_code e \<in> reply_codes"
  "request_checksum U c = Inl e \<Longrightarrow> en_code e \<in> reply_codes"
  by (auto simp: authorize_request_def storeAndValidate_def require_def request_ttl_def request_checksum_def
      invalid_request_def reply_codes_def split: decision.split_asm option.split_asm sum.split_asm if_split_asm)

lemma route_handler_code: "en_code (fst (route_handler route h r w)) \<in> reply_codes"
  by (cases route)
    (auto simp: handleStat_def handleDelete_def handlePresignGet_def handlePresignPut_def handleMultipartCreate_def
      handleMultipartPresignPart_def handleMultipartComplete_def handleMultipartAbort_def and_then_eq_Inl and_then_eq_Inr
      store_reply_code intro!: finish_code dest: decode_payload_code refusal_codes)

lemma serve_storage_code: "en_code (fst (fst (serve_storage route h r w))) \<in> reply_codes"
  using route_handler_code [of route h r w]
  by (auto simp: serve_storage_def require_token_def require_ready_def reply_codes_def split_beta Let_def)

section \<open>Observations\<close>

definition operation_names :: "string set" where
  "operation_names = {''check'', ''stat'', ''get'', ''put'', ''delete'', ''presign_get'', ''presign_put'', ''multipart_create'',
     ''multipart_presign_part'', ''multipart_complete'', ''multipart_abort''}"

definition result_names :: "string set" where
  "result_names = {''success'', ''not_found'', ''forbidden'', ''precondition_failed'', ''conflict'', ''invalid_argument'', ''unavailable''}"

lemma op_name_bounded: "op_name op \<in> operation_names"
  by (cases op) (simp_all add: operation_names_def)

lemma errorResult_bounded: "errorResult e \<in> result_names"
  by (simp add: errorResult_def result_names_def)

lemma perform_metrics:
  "fst (snd (perform U (monitored_client c) operation key plan result (m, w))) = m"
  by (cases plan) (auto simp: perform_def monitored_client_def split: prod.split sum.split)

lemma presign_metrics:
  "fst (snd (presign U (monitored_client c) operation key plan (m, w))) = m"
  by (cases plan) (auto simp: presign_def perform_metrics)

definition one_observation :: "string \<Rightarrow> metrics \<Rightarrow> metrics \<Rightarrow> bool" where
  "one_observation operation m m' \<longleftrightarrow> (\<exists>ob. so_operation ob = operation \<and> m' = metrics_observe ob m)"

lemma observed_metrics:
  assumes "fst (snd (body (m, w))) = m"
  shows "one_observation operation m (fst (snd (observed_call (monitored_client c) operation bytes body (m, w))))"
proof -
  obtain r w' where "body (m, w) = (r, m, w')" using assms by (metis prod.collapse)
  then show ?thesis
    unfolding one_observation_def observed_call_def observe_operation_def Let_def
    by (intro exI conjI) (rule storage_observation.select_convs(1), simp add: monitored_client_def)
qed

lemma run_op_metrics: "one_observation (op_name op) m (fst (snd (run_op U (monitored_client c) op (m, w))))"
  by (cases op) (auto simp: error_of_def s3_check_def s3_stat_def s3_get_def s3_put_def s3_delete_def s3_presign_get_def
      s3_presign_put_def s3_create_multipart_def s3_presign_part_def s3_complete_multipart_def s3_abort_multipart_def
      intro!: observed_metrics perform_metrics presign_metrics)

text \<open>A request leads to at most one observation.\<close>

lemma serve_storage_metrics:
  fixes h :: "'a monitored storage_handler"
  assumes "monitored_stores U h"
  shows "fst (snd (serve_storage route h r (m, w))) = m
    \<or> (\<exists>op. one_observation (op_name op) m (fst (snd (serve_storage route h r (m, w)))))"
proof (cases "snd (serve_storage route h r (m, w)) = (m, w)")
  case False
  from serve_reaches [OF this, of U] obtain name store where "sh_stores h name = Some store"
    and op: "\<forall>c. store = s3_object_store U c \<longrightarrow> (\<exists>op. snd (serve_storage route h r (m, w)) = snd (run_op U c op (m, w)))"
    unfolding reaches_def by blast
  with assms obtain c :: "'a s3_client" where "store = s3_object_store U (monitored_client c)"
    unfolding monitored_stores_def by blast
  with op obtain op where "snd (serve_storage route h r (m, w)) = snd (run_op U (monitored_client c) op (m, w))" by blast
  then show ?thesis using run_op_metrics by metis
qed simp

section \<open>Bounds\<close>

definition http_labels :: "(string \<times> string) set" where
  "http_labels = range route_path \<times> format_int ` reply_codes"

definition operation_labels :: "(string \<times> string) set" where
  "operation_labels = operation_names \<times> result_names"

lemma finite_labels: "finite http_labels" "finite operation_labels"
proof -
  have "range route_path = route_path ` {Stat, Delete, PresignGet, PresignPut, MultipartCreate, MultipartPart,
      MultipartComplete, MultipartAbort}"
    by (rule arg_cong [of UNIV]) (auto intro: storage_route.exhaust)
  then show "finite http_labels" by (simp add: http_labels_def reply_codes_def)
  show "finite operation_labels" by (simp add: operation_labels_def operation_names_def result_names_def)
qed

lemma sum_count:
  assumes "finite L" "k \<in> L"
  shows "(\<Sum>l \<in> L. (f(k := f k + (1 :: nat))) l) = (\<Sum>l \<in> L. f l) + 1"
proof -
  have "(\<Sum>l \<in> L - {k}. (f(k := f k + 1)) l) = (\<Sum>l \<in> L - {k}. f l)" by (rule sum.cong) auto
  then show ?thesis using sum.remove [OF assms, of "f(k := f k + 1)"] sum.remove [OF assms, of f] by simp
qed

definition http_ok :: "nat \<Rightarrow> metrics \<Rightarrow> bool" where
  "http_ok n m \<longleftrightarrow> (\<forall>l. me_http m l \<noteq> 0 \<longrightarrow> l \<in> http_labels) \<and> (\<Sum>l \<in> http_labels. me_http m l) = n"

definition operations_ok :: "nat \<Rightarrow> metrics \<Rightarrow> bool" where
  "operations_ok n m \<longleftrightarrow> (\<forall>l. me_operations m l \<noteq> 0 \<longrightarrow> l \<in> operation_labels) \<and> (\<Sum>l \<in> operation_labels. me_operations m l) \<le> n
     \<and> (\<forall>l. length (me_durations m l) = me_operations m l) \<and> (\<forall>l. me_bytes m l \<noteq> 0 \<longrightarrow> l \<in> operation_labels)
     \<and> (\<forall>l. 0 \<le> me_bytes m l)"

lemma newMetrics_ok: "http_ok 0 newMetrics" "operations_ok 0 newMetrics"
  by (simp_all add: http_ok_def operations_ok_def newMetrics_def)

lemma observation_label_bounded: "so_operation ob \<in> operation_names \<Longrightarrow> observation_label ob \<in> operation_labels"
  using errorResult_bounded by (simp add: observation_label_def operation_labels_def) (simp add: result_names_def)

lemma metrics_observe_fields:
  "me_http (metrics_observe ob m) = me_http m"
  "me_operations (metrics_observe ob m) = (me_operations m)(observation_label ob := me_operations m (observation_label ob) + 1)"
  "me_durations (metrics_observe ob m) =
     (me_durations m)(observation_label ob := me_durations m (observation_label ob) @ [so_duration ob])"
  "me_bytes (metrics_observe ob m) = (if so_bytes ob > 0
     then (me_bytes m)(observation_label ob := me_bytes m (observation_label ob) + so_bytes ob) else me_bytes m)"
  by (simp_all add: metrics_observe_def Let_def)

text \<open>A request adds one to the HTTP counters and at most one to those of the operations.\<close>

lemma operation_counted:
  assumes "operations_ok n m" "so_operation ob \<in> operation_names"
  shows "operations_ok (n + 1) (metrics_observe ob m)"
proof -
  note l = observation_label_bounded [OF assms(2)]
  show ?thesis
    using assms(1) l sum_count [OF finite_labels(2) l, of "me_operations m"]
    unfolding operations_ok_def metrics_observe_fields by (auto simp: add_nonneg_pos order_less_imp_le simp del: split_paired_All split_paired_Ex)
qed

lemma request_counted:
  assumes "http_ok n m" "operations_ok n m" "m' = m \<or> (\<exists>op. one_observation (op_name op) m m')" "code \<in> reply_codes"
  shows "http_ok (n + 1) (observeHTTPRequest (route_path route) code m') \<and> operations_ok (n + 1) (observeHTTPRequest (route_path route) code m')"
proof -
  let ?l = "(route_path route, format_int code)"
  have m': "me_http m' = me_http m" "operations_ok (n + 1) m'"
  proof -
    have "operations_ok (n + 1) m" using assms(2) by (simp add: operations_ok_def)
    then show "operations_ok (n + 1) m'"
      using assms(3) operation_counted [OF assms(2)] op_name_bounded by (auto simp: one_observation_def)
    show "me_http m' = me_http m" using assms(3) by (auto simp: one_observation_def metrics_observe_fields)
  qed
  have l: "?l \<in> http_labels" using assms(4) by (simp add: http_labels_def)
  have http: "me_http (observeHTTPRequest (route_path route) code m') = (me_http m)(?l := me_http m ?l + 1)"
    by (simp add: observeHTTPRequest_def m'(1) Let_def)
  have "http_ok (n + 1) (observeHTTPRequest (route_path route) code m')"
    unfolding http_ok_def http sum_count [OF finite_labels(1) l] using assms(1) l
    by (auto simp: http_ok_def simp del: split_paired_All)
  moreover have "operations_ok (n + 1) (observeHTTPRequest (route_path route) code m')"
    using m'(2) by (simp add: operations_ok_def observeHTTPRequest_def Let_def)
  ultimately show ?thesis ..
qed

lemma serve_monitored_counted:
  assumes "monitored_stores U h" "http_ok n m" "operations_ok n m"
  shows "http_ok (n + 1) (fst (serve_monitored h request (m, w))) \<and> operations_ok (n + 1) (fst (serve_monitored h request (m, w)))"
proof -
  obtain route call where request: "request = (route, call)" by force
  obtain reply path code m' w' where served: "serve_storage route h call (m, w) = ((reply, path, code), (m', w'))"
    by (metis prod.collapse)
  have "en_code reply \<in> reply_codes" using serve_storage_code [of route h call "(m, w)"] by (simp add: served)
  moreover from this have "recorded_status (writeEnvelope reply) = en_code reply"
    by (intro recorded_status_envelope) (auto simp: reply_codes_def)
  moreover have "path = route_path route" using served by (auto simp: serve_storage_def Let_def split: prod.splits)
  moreover have "m' = m \<or> (\<exists>op. one_observation (op_name op) m m')"
    using serve_storage_metrics [OF assms(1), of route call m w] by (simp add: served)
  ultimately show ?thesis using request_counted [OF assms(2,3)] by (simp add: serve_monitored_def request served)
qed

text \<open>
  Bounded metrics: whatever requests the service answers, it counts each of them once, under one of the
  eight routes and one of nine statuses, and it counts at most one storage operation for each, under one of
  eleven operations and seven results; so the number of time series does not depend on what callers send.
\<close>

theorem storage_metrics_bounded:
  assumes "monitored_stores U h" "fold (serve_monitored h) requests (newMetrics, w) = (m, w')"
  shows "finite http_labels \<and> finite operation_labels
    \<and> (\<forall>l. me_http m l \<noteq> 0 \<longrightarrow> l \<in> http_labels) \<and> (\<Sum>l \<in> http_labels. me_http m l) = length requests
    \<and> (\<forall>l. me_operations m l \<noteq> 0 \<longrightarrow> l \<in> operation_labels) \<and> (\<Sum>l \<in> operation_labels. me_operations m l) \<le> length requests
    \<and> (\<forall>l. length (me_durations m l) = me_operations m l)"
proof -
  have "http_ok (length requests) (fst (fold (serve_monitored h) requests (newMetrics, w)))
      \<and> operations_ok (length requests) (fst (fold (serve_monitored h) requests (newMetrics, w)))"
  proof (induction requests rule: rev_induct)
    case Nil
    show ?case using newMetrics_ok by simp
  next
    case (snoc request requests)
    obtain m w' where run: "fold (serve_monitored h) requests (newMetrics, w) = (m, w')" by force
    with snoc have "http_ok (length requests) m" "operations_ok (length requests) m" by simp_all
    from serve_monitored_counted [OF assms(1) this, of request w'] show ?case by (simp add: run)
  qed
  then show ?thesis using finite_labels unfolding assms(2) fst_conv http_ok_def operations_ok_def by blast
qed

end
