(* ===== verification/S3Config.thy ===== *)
theory S3Config
  imports S3Properties Cors
begin

text \<open>
  The construction of an S3 client, \<open>sdk/go/objectstorage/s3store/config.go\<close>. \<open>net/url.Parse\<close>, the
  loading of the default AWS configuration and the wrapping of credentials are arguments; values of the
  AWS packages are opaque. An error is one of Go's own or one of the object storage package.
\<close>

definition defaultPresignTTL :: int where "defaultPresignTTL = 15 * minute"

type_synonym 'a either_result = "(go_error + storage_error) + 'a"

definition invalid_config :: "string \<Rightarrow> go_error + storage_error" where
  "invalid_config label = Inl (Wrap label [errInvalidArgument])"

section \<open>normalizeConfig\<close>

definition endpoint_ok :: "(string \<Rightarrow> url option) \<Rightarrow> string \<Rightarrow> bool" where
  "endpoint_ok url_parse endpoint \<longleftrightarrow> endpoint = '''' \<or> (case url_parse endpoint of
     None \<Rightarrow> False
   | Some u \<Rightarrow> (url_scheme u = ''http'' \<or> url_scheme u = ''https'') \<and> url_host u \<noteq> '''' \<and> \<not> url_has_user u
       \<and> url_raw_query u = '''' \<and> url_fragment u = '''' \<and> (url_path u = '''' \<or> url_path u = ''/''))"

definition normalizeConfig :: "(string \<Rightarrow> url option) \<Rightarrow> s3_config \<Rightarrow> s3_config either_result" where
  "normalizeConfig url_parse cfg =
     (if trim_space (sc_region cfg) = '''' \<or> sc_region cfg \<noteq> trim_space (sc_region cfg)
      then Inl (invalid_config ''region'')
      else case normalizeNamespace (sc_namespace cfg) of
        Inl e \<Rightarrow> Inl (Inr e)
      | Inr namespace \<Rightarrow>
          if sc_presign_endpoint cfg \<noteq> '''' \<and> sc_endpoint cfg = ''''
          then Inl (invalid_config ''presign endpoint alone'')
          else if \<not> list_all (endpoint_ok url_parse) [sc_endpoint cfg, sc_presign_endpoint cfg]
          then Inl (invalid_config ''endpoint URL'')
          else
            let default_ttl = (if sc_default_ttl cfg = 0 then defaultPresignTTL else sc_default_ttl cfg);
                max_ttl = (if sc_max_ttl cfg = 0 then maxPresignTTL else sc_max_ttl cfg) in
            if max_ttl < minPresignTTL \<or> max_ttl > maxPresignTTL then Inl (invalid_config ''max presign TTL'')
            else if default_ttl < minPresignTTL \<or> default_ttl > max_ttl
            then Inl (invalid_config ''default presign TTL'')
            else Inr (cfg\<lparr>sc_namespace := namespace, sc_default_ttl := default_ttl, sc_max_ttl := max_ttl\<rparr>))"

section \<open>Options\<close>

type_synonym any_interface = "go_any option option"

definition isNil :: "'a option option \<Rightarrow> bool" where
  "isNil v = (case v of Some (Some x) \<Rightarrow> False | _ \<Rightarrow> True)"

record aws_config =
  aw_region :: string
  aw_credentials :: "go_any option"
  aw_http_client :: "go_any option"
  aw_rest :: go_any

datatype s3_option =
    NilOption
  | WithAWSConfig aws_config
  | WithCredentialsProvider any_interface
  | WithHTTPClient any_interface
  | WithObserver any_interface

record option_state =
  os_used :: "string list"
  os_aws_config :: "aws_config option"
  os_credentials :: "go_any option"
  os_http_client :: "go_any option"
  os_observer :: "go_any option"

fun option_name :: "s3_option \<Rightarrow> string" where
  "option_name NilOption = ''''"
| "option_name (WithAWSConfig c) = ''aws-config''"
| "option_name (WithCredentialsProvider p) = ''credentials-provider''"
| "option_name (WithHTTPClient h) = ''http-client''"
| "option_name (WithObserver ob) = ''observer''"

definition interface_of :: "any_interface \<Rightarrow> go_any option" where
  "interface_of v = (case v of Some (Some x) \<Rightarrow> Some x | _ \<Rightarrow> None)"

fun option_fn :: "s3_option \<Rightarrow> option_state \<Rightarrow> option_state either_result" where
  "option_fn NilOption st = Inl (invalid_config ''option nil'')"
| "option_fn (WithAWSConfig c) st = Inr (st\<lparr>os_aws_config := Some c\<rparr>)"
| "option_fn (WithCredentialsProvider p) st =
     (if isNil p then Inl (invalid_config ''credentials provider nil'') else Inr (st\<lparr>os_credentials := interface_of p\<rparr>))"
| "option_fn (WithHTTPClient h) st =
     (if isNil h then Inl (invalid_config ''HTTP client nil'') else Inr (st\<lparr>os_http_client := interface_of h\<rparr>))"
| "option_fn (WithObserver ob) st =
     (if isNil ob then Inl (invalid_config ''observer nil'') else Inr (st\<lparr>os_observer := interface_of ob\<rparr>))"

definition s3_option_apply :: "s3_option \<Rightarrow> option_state \<Rightarrow> option_state either_result" where
  "s3_option_apply opt st =
     (if option_name opt \<in> set (os_used st) then Inl (invalid_config ''option repeated'')
      else option_fn opt (st\<lparr>os_used := option_name opt # os_used st\<rparr>))"

fun apply_s3_options :: "s3_option list \<Rightarrow> option_state \<Rightarrow> option_state either_result" where
  "apply_s3_options [] st = Inr st"
| "apply_s3_options (opt # opts) st =
     (if opt = NilOption then Inl (invalid_config ''option nil'')
      else and_then (s3_option_apply opt st) (apply_s3_options opts))"

section \<open>New\<close>

record aws_loader =
  al_default :: "string \<Rightarrow> go_any option \<Rightarrow> go_any option \<Rightarrow> aws_config result"
  al_cache :: "go_any \<Rightarrow> go_any"

definition loadAWSConfig :: "aws_loader \<Rightarrow> string \<Rightarrow> option_state \<Rightarrow> aws_config result" where
  "loadAWSConfig loader region st =
     and_then (case os_aws_config st of
        Some c \<Rightarrow> Inr c
      | None \<Rightarrow> al_default loader region (os_credentials st) (os_http_client st)) (\<lambda>cfg.
     Inr (let c1 = cfg\<lparr>aw_region := region\<rparr>;
              c2 = (case os_credentials st of None \<Rightarrow> c1 | Some p \<Rightarrow> c1\<lparr>aw_credentials := Some (al_cache loader p)\<rparr>) in
          case os_http_client st of None \<Rightarrow> c2 | Some h \<Rightarrow> c2\<lparr>aw_http_client := Some h\<rparr>))"

record s3_service =
  sv_config :: aws_config
  sv_path_style :: bool
  sv_endpoint :: "string option"

definition newS3Client :: "aws_config \<Rightarrow> string \<Rightarrow> bool \<Rightarrow> s3_service" where
  "newS3Client cfg endpoint path_style =
     \<lparr>sv_config = cfg, sv_path_style = path_style, sv_endpoint = (if endpoint = '''' then None else Some endpoint)\<rparr>"

record s3_parts =
  sp_config :: s3_config
  sp_service :: s3_service
  sp_presigner :: s3_service
  sp_observer :: "go_any option"

definition newS3Store ::
  "(string \<Rightarrow> url option) \<Rightarrow> aws_loader \<Rightarrow> s3_config \<Rightarrow> s3_option list \<Rightarrow> s3_parts either_result" where
  "newS3Store url_parse loader config options =
     and_then (normalizeConfig url_parse config) (\<lambda>cfg.
     and_then (apply_s3_options options
        \<lparr>os_used = [], os_aws_config = None, os_credentials = None, os_http_client = None, os_observer = None\<rparr>) (\<lambda>st.
     case loadAWSConfig loader (sc_region cfg) st of
       Inl e \<Rightarrow> Inl (Inr (StorageError errUnavailable ''configure'' '''' '''' (Some (Inl e))))
     | Inr aws \<Rightarrow>
         (let service = newS3Client aws (sc_endpoint cfg) (sc_path_style cfg);
              presign_endpoint = (if sc_presign_endpoint cfg = '''' then sc_endpoint cfg else sc_presign_endpoint cfg);
              presign_service = (if presign_endpoint \<noteq> sc_endpoint cfg
                then newS3Client aws presign_endpoint (sc_path_style cfg) else service) in
          Inr \<lparr>sp_config = cfg, sp_service = service, sp_presigner = presign_service, sp_observer = os_observer st\<rparr>)))"

section \<open>What construction establishes\<close>

lemma normalizeConfig_ok:
  assumes "normalizeConfig url_parse cfg = Inr cfg'"
  shows "normal_namespace (sc_namespace cfg') \<and> ns_bucket (sc_namespace cfg') = ns_bucket (sc_namespace cfg)
    \<and> minPresignTTL \<le> sc_default_ttl cfg' \<and> sc_default_ttl cfg' \<le> sc_max_ttl cfg' \<and> sc_max_ttl cfg' \<le> maxPresignTTL
    \<and> (sc_presign_endpoint cfg' \<noteq> '''' \<longrightarrow> sc_endpoint cfg' \<noteq> '''')
    \<and> endpoint_ok url_parse (sc_endpoint cfg') \<and> endpoint_ok url_parse (sc_presign_endpoint cfg')
    \<and> sc_endpoint cfg' = sc_endpoint cfg \<and> sc_presign_endpoint cfg' = sc_presign_endpoint cfg
    \<and> sc_region cfg' = sc_region cfg \<and> sc_region cfg \<noteq> ''''"
proof -
  obtain ns where ns: "normalizeNamespace (sc_namespace cfg) = Inr ns"
    using assms by (auto simp: normalizeConfig_def split: if_splits sum.split_asm)
  define d where "d = (if sc_default_ttl cfg = 0 then defaultPresignTTL else sc_default_ttl cfg)"
  define m where "m = (if sc_max_ttl cfg = 0 then maxPresignTTL else sc_max_ttl cfg)"
  have r: "trim_space (sc_region cfg) \<noteq> []" using assms by (auto simp: normalizeConfig_def split: if_splits)
  then have "sc_region cfg \<noteq> []" by auto
  moreover have "cfg' = cfg\<lparr>sc_namespace := ns, sc_default_ttl := d, sc_max_ttl := m\<rparr>"
    "\<not> (sc_presign_endpoint cfg \<noteq> '''' \<and> sc_endpoint cfg = '''')"
    "endpoint_ok url_parse (sc_endpoint cfg)" "endpoint_ok url_parse (sc_presign_endpoint cfg)"
    "minPresignTTL \<le> d" "d \<le> m" "m \<le> maxPresignTTL"
    using assms unfolding normalizeConfig_def ns Let_def d_def [symmetric] m_def [symmetric]
    by (auto split: if_splits)
  ultimately show ?thesis using normalizeNamespace_normal [OF ns] by auto
qed

lemma s3_option_applied:
  "s3_option_apply opt st = Inr st' \<Longrightarrow> os_used st' = option_name opt # os_used st \<and> option_name opt \<notin> set (os_used st)"
  by (cases opt) (auto simp: s3_option_apply_def split: if_splits)

lemma apply_s3_options_distinct:
  "apply_s3_options opts st = Inr st' \<Longrightarrow> distinct (map option_name opts) \<and> NilOption \<notin> set opts
     \<and> option_name ` set opts \<inter> set (os_used st) = {}"
proof (induction opts arbitrary: st)
  case (Cons opt opts)
  then obtain st1 where "opt \<noteq> NilOption" "s3_option_apply opt st = Inr st1" "apply_s3_options opts st1 = Inr st'"
    by (auto simp: and_then_eq_Inr split: if_splits)
  with Cons.IH [of st1] s3_option_applied [of opt st st1] show ?case by auto
qed simp

text \<open>
  Construction: a client is only built from a configuration whose namespace is in normal form, whose
  lifetimes satisfy one minute \<open>\<le>\<close> default \<open>\<le>\<close> maximum \<open>\<le>\<close> one hour and whose endpoints are plain HTTP(S)
  addresses, and from options that are neither nil nor repeated; the region of the AWS configuration is
  the configured one, and presigned URLs use the presign endpoint when there is one and the endpoint
  otherwise.
\<close>

theorem s3_construction:
  assumes "newS3Store url_parse loader config options = Inr c"
  shows "normal_namespace (sc_namespace (sp_config c))
    \<and> minPresignTTL \<le> sc_default_ttl (sp_config c) \<and> sc_default_ttl (sp_config c) \<le> sc_max_ttl (sp_config c)
    \<and> sc_max_ttl (sp_config c) \<le> maxPresignTTL
    \<and> endpoint_ok url_parse (sc_endpoint config) \<and> endpoint_ok url_parse (sc_presign_endpoint config)
    \<and> distinct (map option_name options) \<and> NilOption \<notin> set options
    \<and> aw_region (sv_config (sp_service c)) = sc_region config
    \<and> sv_endpoint (sp_service c) = string_pointer (sc_endpoint config)
    \<and> sv_endpoint (sp_presigner c) = string_pointer
        (if sc_presign_endpoint config = '''' then sc_endpoint config else sc_presign_endpoint config)"
proof -
  let ?st0 = "\<lparr>os_used = [], os_aws_config = None, os_credentials = None, os_http_client = None, os_observer = None\<rparr>"
  obtain cfg where cfg: "normalizeConfig url_parse config = Inr cfg"
    using assms by (cases "normalizeConfig url_parse config") (simp_all add: newS3Store_def)
  obtain st where st: "apply_s3_options options ?st0 = Inr st"
    using assms by (cases "apply_s3_options options ?st0") (simp_all add: newS3Store_def cfg)
  obtain aws where aws: "loadAWSConfig loader (sc_region cfg) st = Inr aws"
    using assms by (cases "loadAWSConfig loader (sc_region cfg) st") (simp_all add: newS3Store_def cfg st)
  have "aw_region aws = sc_region cfg"
    using aws by (auto simp: loadAWSConfig_def and_then_eq_Inr Let_def split: option.splits)
  moreover have "sp_config c = cfg" "sp_service c = newS3Client aws (sc_endpoint cfg) (sc_path_style cfg)"
    "sp_presigner c = newS3Client aws
       (if sc_presign_endpoint cfg = '''' then sc_endpoint cfg else sc_presign_endpoint cfg) (sc_path_style cfg)"
    using assms by (auto simp: newS3Store_def cfg st aws Let_def)
  ultimately show ?thesis
    using normalizeConfig_ok [OF cfg] apply_s3_options_distinct [OF st]
    by (auto simp: newS3Client_def string_pointer_def)
qed

end
