(* ===== verification/StorageHealth.thy ===== *)
theory StorageHealth
  imports StorageService "HOL-Library.AList"
begin

text \<open>
  The readiness of the storage service (services/storage/internal/application/registry.go) and the life of
  the process around it (services/storage/cmd/server/main.go): the registry of stores, the concurrent
  check of every namespace, the refreshing loop \<open>Run\<close>, and the shutdown. The goroutines are a step
  relation over the state of the process; a store is the S3 store or any other implementation, so what a
  check returns depends on an outside world that may change at every moment.
\<close>

subsection \<open>Registry and health flag\<close>

record 'w registry =
  rg_stores :: "(string \<times> 'w object_store) list"

definition newRegistry :: "(string \<times> 'w object_store) list \<Rightarrow> 'w registry" where
  "newRegistry stores = \<lparr>rg_stores = fold (\<lambda>(name, store). AList.update name store) stores []\<rparr>"

definition registry_store :: "'w registry \<Rightarrow> string \<Rightarrow> 'w object_store option" where
  "registry_store registry namespace = map_of (rg_stores registry) namespace"

record 'w health =
  he_registry :: "'w registry option"
  he_ready :: bool

definition newHealth :: "'w registry option \<Rightarrow> 'w health" where
  "newHealth registry = \<lparr>he_registry = registry, he_ready = False\<rparr>"

definition health_ready :: "'w health option \<Rightarrow> bool" where
  "health_ready health = (case health of None \<Rightarrow> False | Some h \<Rightarrow> he_ready h)"

definition setReady :: "bool \<Rightarrow> 'w health option \<Rightarrow> 'w health option" where
  "setReady ready health = map_option (\<lambda>h. h\<lparr>he_ready := ready\<rparr>) health"

text \<open>The stores a check visits; with none it answers false and leaves the flag alone.\<close>

definition health_stores :: "'w health \<Rightarrow> (string \<times> 'w object_store) list" where
  "health_stores h = (case he_registry h of None \<Rightarrow> [] | Some registry \<Rightarrow> rg_stores registry)"

text \<open>
  One round when nothing else happens meanwhile; the list is the order in which the goroutines get to
  their store.
\<close>

fun check_each :: "(string \<times> 'w object_store) list \<Rightarrow> 'w \<Rightarrow> bool list \<times> 'w" where
  "check_each [] w = ([], w)"
| "check_each ((name, store) # stores) w =
     (let (result, w') = os_check store w; (results, w'') = check_each stores w' in (is_ok result # results, w''))"

definition checkAll :: "'w health \<Rightarrow> 'w \<Rightarrow> bool \<times> 'w health \<times> 'w" where
  "checkAll h w =
     (if health_stores h = [] then (False, h, w)
      else let (results, w') = check_each (health_stores h) w; allReady = list_all id results in
        (allReady, h\<lparr>he_ready := allReady\<rparr>, w'))"

subsection \<open>The process\<close>

text \<open>
  A goroutine of a round derives its context with a deadline, is in the call of its store, has the value to
  send, and has sent it and is about to call \<open>wait.Done\<close>. The goroutine that runs \<open>CheckAll\<close> starts them
  in any order (the registry is a map), waits for the group, and then closes the channel and reads it.
\<close>

datatype check_phase = Starting | Calling int | Sending bool | Leaving

datatype 'w collecting = Spawning "(string \<times> 'w object_store) list" | Waiting | Reading bool

text \<open>The goroutines that are not over, the buffer and the capacity of the channel, and the group's counter.\<close>

record 'w check_round =
  cr_collecting :: "'w collecting"
  cr_tasks :: "((string \<times> 'w object_store) \<times> check_phase) list"
  cr_channel :: "bool list"
  cr_capacity :: nat
  cr_wait :: int

text \<open>
  \<open>Run\<close> is inside \<open>CheckAll\<close>, in its select statement, or gone. The main goroutine serves, waits for
  \<open>Shutdown\<close>, waits for \<open>healthDone\<close>, or has returned.
\<close>

datatype 'w run_state = Checking "'w check_round" | Selecting | Stopped

datatype main_state = Serving | Draining | Joining | Exited

record 'w process =
  pr_world :: 'w
  pr_now :: int
  pr_timeout :: int
  pr_health :: "'w health"
  pr_run :: "'w run_state"
  pr_main :: main_state
  pr_cancelled :: bool
  pr_errors :: "go_error list"

definition new_round :: "(string \<times> 'w object_store) list \<Rightarrow> 'w check_round" where
  "new_round stores = \<lparr>cr_collecting = Spawning stores, cr_tasks = [], cr_channel = [],
     cr_capacity = length stores, cr_wait = 0\<rparr>"

definition enter_check :: "'w health \<Rightarrow> 'w run_state" where
  "enter_check h = (if health_stores h = [] then Selecting else Checking (new_round (health_stores h)))"

definition start_process :: "'w registry \<Rightarrow> int \<Rightarrow> int \<Rightarrow> 'w \<Rightarrow> 'w process" where
  "start_process registry timeout now w =
     (let h = newHealth (Some registry) in
      \<lparr>pr_world = w, pr_now = now, pr_timeout = timeout, pr_health = h, pr_run = enter_check h, pr_main = Serving,
       pr_cancelled = False, pr_errors = []\<rparr>)"

definition store_ready :: "bool \<Rightarrow> 'w process \<Rightarrow> 'w process" where
  "store_ready ready p = p\<lparr>pr_health := (pr_health p)\<lparr>he_ready := ready\<rparr>\<rparr>"

text \<open>
  What the goroutines of a round do without the help of a store. A send needs room in the channel; the wait
  ends when the counter is zero. A store's call may take as long as it likes, until its context is done:
  that it then returns, with an error, is what \<open>Check\<close> is relied on to do with the context it is given.
\<close>

inductive own_step :: "'w process \<Rightarrow> 'w check_round \<Rightarrow> 'w check_round \<Rightarrow> bool" where
  Spawned: "cr_collecting c = Spawning (before @ x # after) \<Longrightarrow>
    own_step p c (c\<lparr>cr_collecting := Spawning (before @ after), cr_wait := cr_wait c + 1, cr_tasks := (x, Starting) # cr_tasks c\<rparr>)"
| AllSpawned: "cr_collecting c = Spawning [] \<Longrightarrow> own_step p c (c\<lparr>cr_collecting := Waiting\<rparr>)"
| Begun: "cr_tasks c = before @ (x, Starting) # after \<Longrightarrow>
    own_step p c (c\<lparr>cr_tasks := before @ (x, Calling (pr_now p + pr_timeout p)) # after\<rparr>)"
| Expired: "cr_tasks c = before @ (x, Calling deadline) # after \<Longrightarrow> deadline \<le> pr_now p \<or> pr_cancelled p \<Longrightarrow>
    own_step p c (c\<lparr>cr_tasks := before @ (x, Sending False) # after\<rparr>)"
| Sent: "cr_tasks c = before @ (x, Sending ready) # after \<Longrightarrow> length (cr_channel c) < cr_capacity c \<Longrightarrow>
    own_step p c (c\<lparr>cr_tasks := before @ (x, Leaving) # after, cr_channel := cr_channel c @ [ready]\<rparr>)"
| Left: "cr_tasks c = before @ (x, Leaving) # after \<Longrightarrow>
    own_step p c (c\<lparr>cr_tasks := before @ after, cr_wait := cr_wait c - 1\<rparr>)"
| Waited: "cr_collecting c = Waiting \<Longrightarrow> cr_wait c = 0 \<Longrightarrow> own_step p c (c\<lparr>cr_collecting := Reading True\<rparr>)"
| Received: "cr_collecting c = Reading allReady \<Longrightarrow> cr_channel c = ready # rest \<Longrightarrow>
    own_step p c (c\<lparr>cr_collecting := Reading (allReady \<and> ready), cr_channel := rest\<rparr>)"

text \<open>\<open>Run\<close>: the steps of a round, an answer of a store, the end of the round, and the branches of the select statement.\<close>

inductive run_step :: "'w process \<Rightarrow> 'w process \<Rightarrow> bool" where
  Own: "pr_run p = Checking c \<Longrightarrow> own_step p c c' \<Longrightarrow> run_step p (p\<lparr>pr_run := Checking c'\<rparr>)"
| Answered: "pr_run p = Checking c \<Longrightarrow> cr_tasks c = before @ ((name, store), Calling deadline) # after \<Longrightarrow>
    os_check store (pr_world p) = (result, w) \<Longrightarrow>
    run_step p (p\<lparr>pr_run := Checking (c\<lparr>cr_tasks := before @ ((name, store), Sending (is_ok result)) # after\<rparr>), pr_world := w\<rparr>)"
| Published: "pr_run p = Checking c \<Longrightarrow> cr_collecting c = Reading allReady \<Longrightarrow> cr_channel c = [] \<Longrightarrow>
    run_step p (store_ready allReady (p\<lparr>pr_run := Selecting\<rparr>))"
| Tick: "pr_run p = Selecting \<Longrightarrow> run_step p (p\<lparr>pr_run := enter_check (pr_health p)\<rparr>)"
| Cancelled: "pr_run p = Selecting \<Longrightarrow> pr_cancelled p \<Longrightarrow> run_step p (store_ready False (p\<lparr>pr_run := Stopped\<rparr>))"

text \<open>
  The main goroutine after it has started the others: a signal or the end of the server, which is an error
  unless it was closed; the return of \<open>Shutdown\<close> and the cancellation that follows it; and the end of \<open>Run\<close> or
  the deadline. \<open>pr_errors\<close> are the errors \<open>run\<close> joins into its result, which is nil when there are none.
\<close>

definition serve_error :: "go_error \<Rightarrow> go_error" where
  "serve_error e = Wrap (''serve storage API: '' @ error_text e) [e]"

inductive main_step :: "'w process \<Rightarrow> 'w process \<Rightarrow> bool" where
  StopServing: "pr_main p = Serving \<Longrightarrow> main_step p (store_ready False (p\<lparr>pr_main := Draining\<rparr>))"
| ServeFailed: "pr_main p = Serving \<Longrightarrow> \<not> errors_is e ''http: Server closed'' \<Longrightarrow>
    main_step p (store_ready False (p\<lparr>pr_main := Draining, pr_errors := [serve_error e]\<rparr>))"
| ShutdownReturned: "pr_main p = Draining \<Longrightarrow> main_step p (p\<lparr>pr_main := Joining, pr_cancelled := True\<rparr>)"
| ShutdownFailed: "pr_main p = Draining \<Longrightarrow>
    main_step p (p\<lparr>pr_main := Joining, pr_cancelled := True, pr_errors := pr_errors p @ [e]\<rparr>)"
| HealthDone: "pr_main p = Joining \<Longrightarrow> pr_run p = Stopped \<Longrightarrow> main_step p (p\<lparr>pr_main := Exited\<rparr>)"
| TimedOut: "pr_main p = Joining \<Longrightarrow>
    main_step p (p\<lparr>pr_main := Exited, pr_errors := pr_errors p @ [Sentinel ''context deadline exceeded'']\<rparr>)"

inductive process_step :: "'w process \<Rightarrow> 'w process \<Rightarrow> bool" where
  World: "pr_now p \<le> t \<Longrightarrow> process_step p (p\<lparr>pr_world := w, pr_now := t\<rparr>)"
| RunStep: "run_step p p' \<Longrightarrow> process_step p p'"
| MainStep: "main_step p p' \<Longrightarrow> process_step p p'"

lemmas own_process_step = Own [THEN RunStep]
lemmas answered_step = Answered [THEN RunStep]
lemmas published_step = Published [THEN RunStep]
lemmas tick_step = Tick [THEN RunStep]
lemmas cancelled_step = Cancelled [THEN RunStep]
lemmas stop_serving_step = StopServing [THEN MainStep]
lemmas shutdown_returned_step = ShutdownReturned [THEN MainStep]
lemmas health_done_step = HealthDone [THEN MainStep]

abbreviation process_steps :: "'w process \<Rightarrow> 'w process \<Rightarrow> bool" where
  "process_steps \<equiv> rtranclp process_step"

inductive_cases process_stepE: "process_step p p'"
inductive_cases own_stepE: "own_step p c c'"
inductive_cases run_stepE: "run_step p p'"
inductive_cases main_stepE: "main_step p p'"

subsection \<open>Invariant\<close>

lemma store_ready_simps [simp]:
  "pr_world (store_ready b p) = pr_world p" "pr_run (store_ready b p) = pr_run p"
  "pr_main (store_ready b p) = pr_main p" "pr_cancelled (store_ready b p) = pr_cancelled p"
  "pr_errors (store_ready b p) = pr_errors p" "pr_now (store_ready b p) = pr_now p" "pr_timeout (store_ready b p) = pr_timeout p"
  "he_ready (pr_health (store_ready b p)) = b" "he_registry (pr_health (store_ready b p)) = he_registry (pr_health p)"
  by (simp_all add: store_ready_def)

text \<open>
  What holds of a round: the group's counter is the number of goroutines that are not over; while they run
  each store has one that is to be started, one that has not sent, or a value in the channel, whose capacity
  is the number of stores; and the channel is only read when all are over. A call's deadline is never
  further away than the timeout.
\<close>

definition unsent :: "(string \<times> 'w object_store) \<times> check_phase \<Rightarrow> bool" where
  "unsent task \<longleftrightarrow> snd task \<noteq> Leaving"

definition before_deadline :: "int \<Rightarrow> (string \<times> 'w object_store) \<times> check_phase \<Rightarrow> bool" where
  "before_deadline latest task = (case snd task of Calling deadline \<Rightarrow> deadline \<le> latest | _ \<Rightarrow> True)"

definition round_ok :: "nat \<Rightarrow> int \<Rightarrow> 'w check_round \<Rightarrow> bool" where
  "round_ok n latest c \<longleftrightarrow>
     cr_capacity c = n \<and> cr_wait c = int (length (cr_tasks c)) \<and> list_all (before_deadline latest) (cr_tasks c)
     \<and> (case cr_collecting c of
          Spawning stores \<Rightarrow> length stores + length (filter unsent (cr_tasks c)) + length (cr_channel c) = n
            \<and> length (cr_tasks c) \<le> length (filter unsent (cr_tasks c)) + length (cr_channel c)
        | Waiting \<Rightarrow> length (filter unsent (cr_tasks c)) + length (cr_channel c) = n
            \<and> length (cr_tasks c) \<le> n
        | Reading allReady \<Rightarrow> cr_tasks c = [] \<and> length (cr_channel c) \<le> n)"

lemma new_round_ok: "round_ok (length stores) latest (new_round stores)"
  by (simp add: round_ok_def new_round_def)

lemma round_ok_later: "round_ok n latest c \<Longrightarrow> latest \<le> latest' \<Longrightarrow> round_ok n latest' c"
  by (auto simp: round_ok_def before_deadline_def list_all_iff split: check_phase.splits)

lemma round_ok_tasks:
  "round_ok n latest c \<Longrightarrow> cr_tasks c = before @ task # after \<Longrightarrow> unsent task \<Longrightarrow> unsent task' \<Longrightarrow>
     before_deadline latest task' \<Longrightarrow> round_ok n latest (c\<lparr>cr_tasks := before @ task' # after\<rparr>)"
  by (auto simp: round_ok_def split: collecting.splits)

lemma own_step_ok:
  assumes "own_step p c c'" "round_ok n latest c" "pr_now p + pr_timeout p \<le> latest"
  shows "round_ok n latest c'"
  using assms(1)
proof cases
  case (Begun before x after)
  then show ?thesis
    using round_ok_tasks [OF assms(2), of before "(x, Starting)" after "(x, Calling (pr_now p + pr_timeout p))"] assms(3)
    by (simp add: unsent_def before_deadline_def)
next
  case (Expired before x deadline after)
  then show ?thesis
    using round_ok_tasks [OF assms(2), of before "(x, Calling deadline)" after "(x, Sending False)"]
    by (simp add: unsent_def before_deadline_def)
qed (use assms(2) in \<open>auto simp: round_ok_def unsent_def before_deadline_def split: collecting.splits\<close>)

text \<open>
  What holds of every state: the registry is the one the process began with; \<open>Run\<close> is gone only after the
  cancellation that follows the shutdown; once it is gone the process is not ready; and \<open>run\<close> returns nil only
  after \<open>Run\<close> has ended.
\<close>

definition process_ok :: "'w registry \<Rightarrow> int \<Rightarrow> 'w process \<Rightarrow> bool" where
  "process_ok registry timeout p \<longleftrightarrow>
     he_registry (pr_health p) = Some registry \<and> pr_timeout p = timeout
     \<and> (pr_cancelled p \<longleftrightarrow> pr_main p = Joining \<or> pr_main p = Exited)
     \<and> (case pr_run p of
          Checking c \<Rightarrow> rg_stores registry \<noteq> [] \<and> round_ok (length (rg_stores registry)) (pr_now p + timeout) c
        | Selecting \<Rightarrow> True
        | Stopped \<Rightarrow> pr_cancelled p \<and> \<not> he_ready (pr_health p))
     \<and> (rg_stores registry = [] \<longrightarrow> \<not> he_ready (pr_health p))
     \<and> (pr_main p = Exited \<and> pr_errors p = [] \<longrightarrow> pr_run p = Stopped)"

lemma start_process_ok: "process_ok registry timeout (start_process registry timeout now w)"
  by (simp add: process_ok_def start_process_def Let_def enter_check_def newHealth_def health_stores_def new_round_ok)

lemma run_step_ok: "run_step p p' \<Longrightarrow> process_ok registry timeout p \<Longrightarrow> process_ok registry timeout p'"
proof (erule run_stepE, goal_cases)
  case (1 c c')
  then show ?case using own_step_ok [OF 1(4)] by (simp add: process_ok_def)
next
  case (2 c before name store deadline after result w')
  then have "round_ok (length (rg_stores registry)) (pr_now p + timeout)
      (c\<lparr>cr_tasks := before @ ((name, store), Sending (is_ok result)) # after\<rparr>)"
    by (intro round_ok_tasks) (auto simp: process_ok_def unsent_def before_deadline_def)
  with 2 show ?case by (simp add: process_ok_def)
qed (auto simp: process_ok_def enter_check_def health_stores_def new_round_ok split: run_state.splits)

lemma main_step_ok: "main_step p p' \<Longrightarrow> process_ok registry timeout p \<Longrightarrow> process_ok registry timeout p'"
  by (erule main_stepE) (auto simp: process_ok_def split: run_state.splits)

lemma process_step_ok: "process_step p p' \<Longrightarrow> process_ok registry timeout p \<Longrightarrow> process_ok registry timeout p'"
proof (erule process_stepE, goal_cases)
  case (1 t w)
  then show ?case by (auto simp: process_ok_def split: run_state.splits intro: round_ok_later)
qed (auto intro: run_step_ok main_step_ok)

lemma process_steps_ok: "process_steps p p' \<Longrightarrow> process_ok registry timeout p \<Longrightarrow> process_ok registry timeout p'"
  by (induction rule: rtranclp_induct) (auto intro: process_step_ok)

lemma stopped_is_final: "process_step p p' \<Longrightarrow> pr_run p = Stopped \<Longrightarrow> pr_run p' = Stopped"
  by (auto elim!: process_stepE run_stepE main_stepE)

lemma stopped_stays: "process_steps p p' \<Longrightarrow> pr_run p = Stopped \<Longrightarrow> pr_run p' = Stopped"
  by (induction rule: rtranclp_induct) (auto intro: stopped_is_final)

subsection \<open>Rounds\<close>

text \<open>A round's steps do not look at what its process keeps besides the round.\<close>

lemma own_step_cong:
  "own_step p c c' \<Longrightarrow> pr_now q = pr_now p \<Longrightarrow> pr_timeout q = pr_timeout p \<Longrightarrow> pr_cancelled q = pr_cancelled p \<Longrightarrow>
     own_step q c c'"
  by (erule own_stepE) (metis own_step.intros)+

lemma own_steps:
  "rtranclp (own_step p) c c' \<Longrightarrow> pr_run p = Checking c \<Longrightarrow> process_steps p (p\<lparr>pr_run := Checking c'\<rparr>)"
proof (induction rule: rtranclp_induct)
  case base
  then have "p\<lparr>pr_run := Checking c\<rparr> = p" by simp
  then show ?case by simp
next
  case (step d d')
  let ?p = "p\<lparr>pr_run := Checking d\<rparr>"
  have "own_step ?p d d'" using step.hyps(2) by (rule own_step_cong) simp_all
  then have "process_step ?p (?p\<lparr>pr_run := Checking d'\<rparr>)" by (intro own_process_step) simp_all
  with step show ?case by (auto intro: rtranclp.rtrancl_into_rtrancl)
qed

text \<open>The goroutines may run one after the other with nothing in between: then a round is \<open>checkAll\<close>.\<close>

definition spawning :: "(string \<times> 'w object_store) list \<Rightarrow> ((string \<times> 'w object_store) \<times> check_phase) list \<Rightarrow>
    bool list \<Rightarrow> nat \<Rightarrow> 'w check_round" where
  "spawning stores tasks channel n = \<lparr>cr_collecting = Spawning stores, cr_tasks = tasks, cr_channel = channel,
     cr_capacity = n, cr_wait = int (length tasks)\<rparr>"

lemma world_run: "(p :: 'w process)\<lparr>pr_world := w, pr_run := r\<rparr> = p\<lparr>pr_run := r, pr_world := w\<rparr>"
  by (cases p) simp

lemma one_check:
  assumes "pr_run p = Checking (spawning ((name, store) # rest) [] bs n)" "length bs < n"
    "os_check store (pr_world p) = (result, w)"
  shows "process_steps p (p\<lparr>pr_run := Checking (spawning rest [] (bs @ [is_ok result]) n), pr_world := w\<rparr>)"
proof -
  let ?x = "(name, store)" and ?d = "pr_now p + pr_timeout p"
  let ?c = "spawning rest [(?x, Calling ?d)] bs n"
  have "own_step p (spawning (?x # rest) [] bs n) (spawning rest [(?x, Starting)] bs n)"
    using Spawned [of "spawning (?x # rest) [] bs n" "[]" ?x rest p] by (simp add: spawning_def)
  moreover have "own_step p (spawning rest [(?x, Starting)] bs n) ?c"
    using Begun [of "spawning rest [(?x, Starting)] bs n" "[]" ?x "[]" p] by (simp add: spawning_def)
  ultimately have "rtranclp (own_step p) (spawning (?x # rest) [] bs n) ?c" by simp
  then have called: "process_steps p (p\<lparr>pr_run := Checking ?c\<rparr>)" by (rule own_steps) (rule assms(1))
  define q where "q = p\<lparr>pr_run := Checking (spawning rest [(?x, Sending (is_ok result))] bs n), pr_world := w\<rparr>"
  have answer: "process_step (p\<lparr>pr_run := Checking ?c\<rparr>) q"
    using answered_step [of "p\<lparr>pr_run := Checking ?c\<rparr>" ?c "[]" name store ?d "[]" result w] assms(3)
    by (simp add: spawning_def q_def)
  have "own_step q (spawning rest [(?x, Sending (is_ok result))] bs n) (spawning rest [(?x, Leaving)] (bs @ [is_ok result]) n)"
    using Sent [of "spawning rest [(?x, Sending (is_ok result))] bs n" "[]" ?x "is_ok result" "[]" q] assms(2)
    by (simp add: spawning_def)
  moreover have "own_step q (spawning rest [(?x, Leaving)] (bs @ [is_ok result]) n) (spawning rest [] (bs @ [is_ok result]) n)"
    using Left [of "spawning rest [(?x, Leaving)] (bs @ [is_ok result]) n" "[]" ?x "[]" q] by (simp add: spawning_def)
  ultimately have "rtranclp (own_step q) (spawning rest [(?x, Sending (is_ok result))] bs n) (spawning rest [] (bs @ [is_ok result]) n)"
    by simp
  then have "process_steps q (q\<lparr>pr_run := Checking (spawning rest [] (bs @ [is_ok result]) n)\<rparr>)"
    by (rule own_steps) (simp add: q_def)
  with called answer have "process_steps p (q\<lparr>pr_run := Checking (spawning rest [] (bs @ [is_ok result]) n)\<rparr>)"
    by (meson rtranclp.rtrancl_into_rtrancl rtranclp_trans)
  then show ?thesis by (simp add: q_def world_run)
qed

lemma all_checks:
  "pr_run p = Checking (spawning stores [] bs n) \<Longrightarrow> length stores + length bs \<le> n \<Longrightarrow>
   check_each stores (pr_world p) = (rs, w) \<Longrightarrow>
     process_steps p (p\<lparr>pr_run := Checking (spawning [] [] (bs @ rs) n), pr_world := w\<rparr>)"
proof (induction stores arbitrary: p bs rs)
  case Nil
  then have "p\<lparr>pr_run := Checking (spawning [] [] (bs @ rs) n), pr_world := w\<rparr> = p" by simp
  then show ?case by simp
next
  case (Cons entry stores)
  obtain name store where entry: "entry = (name, store)" by force
  obtain r w1 where r: "os_check store (pr_world p) = (r, w1)" by force
  obtain rs' where rs: "rs = is_ok r # rs'" "check_each stores w1 = (rs', w)"
    using Cons.prems(3) by (auto simp: entry r split: prod.splits)
  let ?q = "p\<lparr>pr_run := Checking (spawning stores [] (bs @ [is_ok r]) n), pr_world := w1\<rparr>"
  have "process_steps p ?q" using Cons.prems entry r by (intro one_check) simp_all
  moreover have "process_steps ?q (?q\<lparr>pr_run := Checking (spawning [] [] ((bs @ [is_ok r]) @ rs') n), pr_world := w\<rparr>)"
    using Cons.prems(2) rs(2) by (intro Cons.IH) simp_all
  ultimately show ?case by (simp add: rs(1))
qed

lemma all_received:
  "rtranclp (own_step p) \<lparr>cr_collecting = Reading b, cr_tasks = [], cr_channel = bs, cr_capacity = n, cr_wait = 0\<rparr>
     \<lparr>cr_collecting = Reading (b \<and> list_all id bs), cr_tasks = [], cr_channel = [], cr_capacity = n, cr_wait = 0\<rparr>"
proof (induction bs arbitrary: b)
  case (Cons x bs)
  let ?c = "\<lparr>cr_collecting = Reading b, cr_tasks = [], cr_channel = x # bs, cr_capacity = n, cr_wait = 0\<rparr>"
  have "own_step p ?c \<lparr>cr_collecting = Reading (b \<and> x), cr_tasks = [], cr_channel = bs, cr_capacity = n, cr_wait = 0\<rparr>"
    using Received [of ?c b x bs p] by simp
  with Cons.IH [of "b \<and> x"] show ?case by (simp add: converse_rtranclp_into_rtranclp)
qed simp

lemma round_steps:
  assumes "pr_run p = Checking (new_round stores)" "check_each stores (pr_world p) = (rs, w)"
  shows "process_steps p (store_ready (list_all id rs) (p\<lparr>pr_run := Selecting, pr_world := w\<rparr>))"
proof -
  let ?n = "length stores" and ?all = "list_all id rs"
  let ?read = "\<lambda>b bs. \<lparr>cr_collecting = Reading b, cr_tasks = [], cr_channel = bs, cr_capacity = ?n, cr_wait = 0\<rparr> :: 'a check_round"
  let ?wait = "(spawning [] [] rs ?n)\<lparr>cr_collecting := Waiting\<rparr>"
  have new: "new_round stores = spawning stores [] [] ?n" by (simp add: new_round_def spawning_def)
  define q where "q = p\<lparr>pr_run := Checking (spawning [] [] rs ?n), pr_world := w\<rparr>"
  have "process_steps p q"
    using all_checks [of p stores "[]" ?n rs w] assms by (simp add: new q_def)
  moreover have "own_step q (spawning [] [] rs ?n) ?wait"
    using AllSpawned [of "spawning [] [] rs ?n" q] by (simp add: spawning_def)
  moreover have "own_step q ?wait (?read True rs)" using Waited [of ?wait q] by (simp add: spawning_def)
  moreover have "rtranclp (own_step q) (?read True rs) (?read ?all [])" using all_received [of q True rs ?n] by simp
  ultimately have "process_steps p (q\<lparr>pr_run := Checking (?read ?all [])\<rparr>)"
    using own_steps [of q "spawning [] [] rs ?n" "?read ?all []"]
    by (simp add: q_def converse_rtranclp_into_rtranclp)
  moreover have "process_step (q\<lparr>pr_run := Checking (?read ?all [])\<rparr>) (store_ready ?all (q\<lparr>pr_run := Selecting\<rparr>))"
    using published_step [of "q\<lparr>pr_run := Checking (?read ?all [])\<rparr>" "?read ?all []" ?all] by simp
  ultimately show ?thesis by (simp add: q_def rtranclp.rtrancl_into_rtrancl world_run)
qed

lemma round_from_select:
  assumes "pr_run p = Selecting" "checkAll (pr_health p) (pr_world p) = (b, h, w)"
  shows "process_steps p (p\<lparr>pr_health := h, pr_world := w\<rparr>)"
proof (cases "health_stores (pr_health p) = []")
  case True
  with assms(2) have "p\<lparr>pr_health := h, pr_world := w\<rparr> = p" by (auto simp: checkAll_def)
  then show ?thesis by simp
next
  case False
  then have enter: "enter_check (pr_health p) = Checking (new_round (health_stores (pr_health p)))" by (simp add: enter_check_def)
  obtain rs where rs: "check_each (health_stores (pr_health p)) (pr_world p) = (rs, w)" "h = (pr_health p)\<lparr>he_ready := list_all id rs\<rparr>"
    using assms(2) False by (auto simp: checkAll_def Let_def split: prod.splits)
  let ?p = "p\<lparr>pr_run := enter_check (pr_health p)\<rparr>"
  have "process_steps ?p (store_ready (list_all id rs) (?p\<lparr>pr_run := Selecting, pr_world := w\<rparr>))"
    by (rule round_steps [where stores = "health_stores (pr_health p)"]) (simp_all add: enter rs(1))
  moreover have "store_ready (list_all id rs) (?p\<lparr>pr_run := Selecting, pr_world := w\<rparr>) = p\<lparr>pr_health := h, pr_world := w\<rparr>"
    using assms(1) rs(2) by (simp add: store_ready_def)
  ultimately show ?thesis using tick_step [of p] assms(1) by (auto intro: converse_rtranclp_into_rtranclp)
qed

subsection \<open>The length of a round\<close>

text \<open>How many steps a round has before it; a store that has not been started stands for six.\<close>

fun task_left :: "check_phase \<Rightarrow> nat" where
  "task_left Starting = 5"
| "task_left (Calling deadline) = 4"
| "task_left (Sending ready) = 3"
| "task_left Leaving = 1"

definition round_left :: "'w check_round \<Rightarrow> nat" where
  "round_left c = (\<Sum>task \<leftarrow> cr_tasks c. task_left (snd task)) + length (cr_channel c)
     + (case cr_collecting c of Spawning stores \<Rightarrow> 6 * length stores + 3 | Waiting \<Rightarrow> 2 | Reading allReady \<Rightarrow> 1)"

lemma own_step_left: "own_step p c c' \<Longrightarrow> round_left c' < round_left c"
  by (erule own_stepE) (simp_all add: round_left_def)

lemma tasks_left:
  "(\<Sum>task \<leftarrow> tasks. task_left (snd task)) + length (filter unsent tasks) \<le> length tasks + 5 * length (filter unsent tasks)"
proof (induction tasks)
  case (Cons task tasks)
  then show ?case by (cases "snd task") (simp_all add: unsent_def)
qed simp

lemma round_left_bound: "round_ok n latest c \<Longrightarrow> round_left c \<le> 6 * n + 3"
  using tasks_left [of "cr_tasks c"] by (simp add: round_left_def round_ok_def split: collecting.splits)

text \<open>Only steps of a round change it, and each leaves fewer before it.\<close>

lemma round_step_left:
  assumes "process_step p p'" "pr_run p = Checking c" "pr_run p' = Checking c'"
  shows "c' = c \<or> round_left c' < round_left c"
  using assms
  by (auto simp: round_left_def elim!: process_stepE run_stepE main_stepE intro: own_step_left [unfolded round_left_def])

text \<open>The channel is closed and has been read: what is left is to store the result.\<close>

definition all_read :: "'w check_round \<Rightarrow> bool" where
  "all_read c = (case cr_collecting c of Reading allReady \<Rightarrow> cr_channel c = [] | _ \<Rightarrow> False)"

text \<open>
  A round that can do nothing without a store's answer: it waits for calls whose deadlines are ahead.
\<close>

lemma round_waits:
  assumes ok: "round_ok n latest c" and stuck: "\<nexists>c'. own_step p c c'" "\<not> all_read c" and n: "0 < n"
  shows "cr_collecting c = Waiting \<and> cr_tasks c \<noteq> []
    \<and> list_all (\<lambda>task. \<exists>deadline. snd task = Calling deadline \<and> pr_now p < deadline \<and> deadline \<le> latest) (cr_tasks c)"
proof -
  have waiting: "cr_collecting c = Waiting"
  proof (cases "cr_collecting c")
    case (Spawning stores)
    then show ?thesis
      using stuck Spawned [of c "[]" "hd stores" "tl stores" p] AllSpawned [of c p] by (cases stores) auto
  next
    case (Reading b)
    with ok stuck Received [of c b "hd (cr_channel c)" "tl (cr_channel c)" p] show ?thesis
      by (cases "cr_channel c") (auto simp: round_ok_def all_read_def)
  qed simp
  have "cr_tasks c \<noteq> []" using stuck Waited [OF waiting, of p] ok by (auto simp: round_ok_def)
  moreover have "\<exists>deadline. snd task = Calling deadline \<and> pr_now p < deadline \<and> deadline \<le> latest" if task: "task \<in> set (cr_tasks c)" for task
  proof -
    obtain before after where split: "cr_tasks c = before @ task # after" using task by (meson split_list)
    obtain x phase where task_is: "task = (x, phase)" by (cases task)
    show ?thesis
    proof (cases phase)
      case Starting
      with Begun [of c before x after p] split task_is stuck show ?thesis by auto
    next
      case (Calling deadline)
      with Expired [of c before x deadline after p] split task_is stuck have "pr_now p < deadline" by fastforce
      moreover have "before_deadline latest task" using ok task by (auto simp: round_ok_def list_all_iff)
      ultimately show ?thesis using Calling task_is by (simp add: before_deadline_def)
    next
      case (Sending b)
      then have "length (cr_channel c) < n" using ok waiting split task_is by (auto simp: round_ok_def unsent_def)
      with Sent [of c before x b after p] ok Sending split task_is stuck show ?thesis by (auto simp: round_ok_def)
    next
      case Leaving
      with Left [of c before x after p] split task_is stuck show ?thesis by auto
    qed
  qed
  ultimately show ?thesis using waiting by (simp add: list_all_iff)
qed

lemma round_reads_all: "round_ok n latest c \<Longrightarrow> cr_collecting c = Reading b \<Longrightarrow> cr_tasks c = []"
  by (simp add: round_ok_def)

text \<open>As a store's call may return at any time, every round can come to its end.\<close>

lemma round_can_end:
  "process_ok registry timeout p \<Longrightarrow> pr_run p = Checking c \<Longrightarrow>
     \<exists>p'. process_steps p p' \<and> pr_main p' = pr_main p \<and> pr_run p' = Selecting"
proof (induction "round_left c" arbitrary: p c rule: less_induct)
  case less
  let ?n = "length (rg_stores registry)"
  have ok: "round_ok ?n (pr_now p + timeout) c" "0 < ?n" using less.prems by (auto simp: process_ok_def)
  show ?case
  proof (cases "all_read c")
    case True
    then obtain b where "cr_collecting c = Reading b" "cr_channel c = []" by (auto simp: all_read_def split: collecting.splits)
    with less.prems(2) have "process_step p (store_ready b (p\<lparr>pr_run := Selecting\<rparr>))" by (intro published_step)
    then have "process_steps p (store_ready b (p\<lparr>pr_run := Selecting\<rparr>))" by (rule r_into_rtranclp)
    moreover have "pr_main (store_ready b (p\<lparr>pr_run := Selecting\<rparr>)) = pr_main p" "pr_run (store_ready b (p\<lparr>pr_run := Selecting\<rparr>)) = Selecting"
      by simp_all
    ultimately show ?thesis by blast
  next
    case not_read: False
    obtain p1 c1 where first: "process_step p p1" "pr_run p1 = Checking c1" "pr_main p1 = pr_main p" "round_left c1 < round_left c"
    proof (cases "\<exists>c'. own_step p c c'")
      case True
      then obtain c' where c': "own_step p c c'" by blast
      show ?thesis
        by (rule that [of "p\<lparr>pr_run := Checking c'\<rparr>" c'])
          (use c' less.prems(2) own_step_left [OF c'] in \<open>simp_all add: own_process_step\<close>)
    next
      case False
      from round_waits [OF ok(1) False not_read ok(2)] obtain x deadline rest where task: "cr_tasks c = (x, Calling deadline) # rest"
        by (cases "cr_tasks c") auto
      obtain name store where x: "x = (name, store)" by force
      obtain r w where r: "os_check store (pr_world p) = (r, w)" by force
      let ?c = "c\<lparr>cr_tasks := [] @ ((name, store), Sending (is_ok r)) # rest\<rparr>"
      have "process_step p (p\<lparr>pr_run := Checking ?c, pr_world := w\<rparr>)"
        using task less.prems(2) r by (intro answered_step) (simp_all add: x)
      moreover have "round_left ?c < round_left c" using task by (simp add: round_left_def)
      ultimately show ?thesis by (intro that) (assumption, simp_all)
    qed
    have "process_ok registry timeout p1" using first(1) less.prems(1) by (rule process_step_ok)
    from less.hyps [OF first(4) this first(2)] first(1,3) show ?thesis
      by (metis converse_rtranclp_into_rtranclp)
  qed
qed

lemma reach_select:
  "process_ok registry timeout p \<Longrightarrow> \<exists>p'. process_steps p p' \<and> pr_main p' = pr_main p \<and> pr_run p' \<in> {Selecting, Stopped}"
  using round_can_end by (cases "pr_run p") blast+

subsection \<open>What the stores answered\<close>

text \<open>
  An execution of the process, and a step in which the goroutine of a store gets nil from its call. A store is
  outstanding in a round when its call has not returned, and the round is lost when some call gave an error.
\<close>

definition execution :: "'w registry \<Rightarrow> int \<Rightarrow> nat \<Rightarrow> (nat \<Rightarrow> 'w process) \<Rightarrow> bool" where
  "execution registry timeout n e \<longleftrightarrow>
     (\<exists>now w. e 0 = start_process registry timeout now w) \<and> (\<forall>i. i < n \<longrightarrow> process_step (e i) (e (Suc i)))"

definition in_round :: "'w process \<Rightarrow> bool" where
  "in_round p = (case pr_run p of Checking c \<Rightarrow> True | _ \<Rightarrow> False)"

definition answered_nil :: "string \<times> 'w object_store \<Rightarrow> 'w process \<Rightarrow> 'w process \<Rightarrow> bool" where
  "answered_nil x p p' \<longleftrightarrow> (\<exists>c before deadline after.
     pr_run p = Checking c \<and> cr_tasks c = before @ (x, Calling deadline) # after
     \<and> os_check (snd x) (pr_world p) = (Inr (), pr_world p')
     \<and> pr_run p' = Checking (c\<lparr>cr_tasks := before @ (x, Sending True) # after\<rparr>))"

definition outstanding :: "'w check_round \<Rightarrow> string \<times> 'w object_store \<Rightarrow> bool" where
  "outstanding c x \<longleftrightarrow> (case cr_collecting c of Spawning stores \<Rightarrow> x \<in> set stores | _ \<Rightarrow> False)
     \<or> (x, Starting) \<in> set (cr_tasks c) \<or> (\<exists>deadline. (x, Calling deadline) \<in> set (cr_tasks c))"

definition lost :: "'w check_round \<Rightarrow> bool" where
  "lost c \<longleftrightarrow> Sending False \<in> snd ` set (cr_tasks c) \<or> False \<in> set (cr_channel c) \<or> cr_collecting c = Reading False"

lemma own_step_lost: "own_step p c c' \<Longrightarrow> lost c \<Longrightarrow> lost c'"
  by (erule own_stepE) (auto simp: lost_def)

lemma own_step_outstanding: "own_step p c c' \<Longrightarrow> outstanding c x \<Longrightarrow> outstanding c' x \<or> lost c'"
  by (erule own_stepE) (auto simp: outstanding_def lost_def split: collecting.splits)

lemma is_ok_unit: "is_ok (r :: 'e + unit) \<longleftrightarrow> r = Inr ()"
  by (cases r) simp_all

lemma round_entered:
  "process_step p p' \<Longrightarrow> pr_run p = Selecting \<Longrightarrow> pr_run p' = Checking c \<Longrightarrow> enter_check (pr_health p) = Checking c"
  by (auto elim!: process_stepE run_stepE main_stepE)

text \<open>The flag is only raised by the end of a round that has read nothing but true.\<close>

lemma raised_by_round:
  "process_step p p' \<Longrightarrow> \<not> he_ready (pr_health p) \<Longrightarrow> he_ready (pr_health p') \<Longrightarrow>
     \<exists>c. pr_run p = Checking c \<and> cr_collecting c = Reading True \<and> cr_channel c = []"
  by (auto elim!: process_stepE run_stepE main_stepE)

lemma round_step_outstanding:
  assumes "process_step p p'" "pr_run p = Checking c" "pr_run p' = Checking c'" "outstanding c x \<or> lost c"
  shows "outstanding c' x \<or> lost c' \<or> answered_nil x p p'"
  using assms(1)
proof (cases rule: process_step.cases)
  case RunStep
  then show ?thesis
  proof (cases rule: run_step.cases)
    case (Own d d')
    then have "own_step p c c'" using assms(2,3) by simp
    then show ?thesis using assms(4) own_step_lost own_step_outstanding by blast
  next
    case (Answered d before name store deadline after result w)
    let ?y = "(name, store)"
    have c: "d = c" "c' = c\<lparr>cr_tasks := before @ (?y, Sending (is_ok result)) # after\<rparr>" "pr_world p' = w"
      using Answered assms(2,3) by simp_all
    show ?thesis
    proof (cases "is_ok result \<and> x = ?y")
      case True
      then have nil: "x = ?y" "result = Inr ()" by (simp_all add: is_ok_unit)
      have "answered_nil x p p'"
        unfolding answered_nil_def using Answered assms(2,3) c nil
        by (intro exI [of _ c] exI [of _ before] exI [of _ deadline] exI [of _ after]) simp
      then show ?thesis by blast
    next
      case False
      then have "result \<noteq> Inr () \<or> x \<noteq> ?y" by (simp add: is_ok_unit)
      have "\<not> is_ok result \<Longrightarrow> lost c'" using c by (simp add: lost_def)
      moreover have "lost c \<Longrightarrow> lost c'" using c Answered(3) by (auto simp: lost_def)
      moreover have "x \<noteq> ?y \<Longrightarrow> outstanding c x \<Longrightarrow> outstanding c' x" using c Answered(3) by (auto simp: outstanding_def)
      ultimately show ?thesis using assms(4) False by blast
    qed
  qed (use assms(2,3) in simp_all)
qed (use assms in \<open>auto elim!: main_stepE\<close>)

lemma execution_start: "execution registry timeout n e \<Longrightarrow> \<exists>now w. e 0 = start_process registry timeout now w"
  unfolding execution_def by blast

lemma execution_step: "execution registry timeout n e \<Longrightarrow> i < n \<Longrightarrow> process_step (e i) (e (Suc i))"
  unfolding execution_def by blast

lemma execution_prefix: "execution registry timeout (Suc n) e \<Longrightarrow> execution registry timeout n e"
  unfolding execution_def using less_SucI by blast

lemma execution_ok: "execution registry timeout n e \<Longrightarrow> k \<le> n \<Longrightarrow> process_ok registry timeout (e k)"
proof (induction k)
  case 0
  then obtain now w where "e 0 = start_process registry timeout now w" using execution_start by blast
  with start_process_ok show ?case by metis
next
  case (Suc k)
  then have "process_ok registry timeout (e k)" by simp
  moreover have "process_step (e k) (e (Suc k))" by (rule execution_step [OF Suc.prems(1)]) (use Suc.prems(2) in simp)
  ultimately show ?case by (rule process_step_ok [rotated])
qed

text \<open>In a round of an execution every store is outstanding or has answered nil in that round, or the round is lost.\<close>

lemma round_history:
  assumes "execution registry timeout n e" "pr_run (e n) = Checking c"
  shows "\<exists>m \<le> n. pr_run (e m) = Checking (new_round (rg_stores registry)) \<and> (\<forall>k. m \<le> k \<and> k \<le> n \<longrightarrow> in_round (e k))
    \<and> (\<forall>x \<in> set (rg_stores registry). outstanding c x \<or> lost c \<or> (\<exists>k. m \<le> k \<and> k < n \<and> answered_nil x (e k) (e (Suc k))))"
  using assms
proof (induction n arbitrary: c)
  case 0
  then obtain now w where "e 0 = start_process registry timeout now w" using execution_start by blast
  with 0(2) have "c = new_round (rg_stores registry)"
    by (auto simp: start_process_def Let_def enter_check_def newHealth_def health_stores_def split: if_splits)
  with 0(2) show ?case by (auto simp: outstanding_def new_round_def in_round_def)
next
  case (Suc n)
  have exec: "execution registry timeout n e" and step: "process_step (e n) (e (Suc n))"
    using execution_prefix [OF Suc.prems(1)] execution_step [OF Suc.prems(1)] by simp_all
  have ok: "process_ok registry timeout (e n)" using execution_ok [OF exec order_refl] .
  show ?case
  proof (cases "pr_run (e n)")
    case (Checking d)
    from Suc.IH [OF exec Checking] obtain m where m: "m \<le> n" "pr_run (e m) = Checking (new_round (rg_stores registry))"
      "\<forall>k. m \<le> k \<and> k \<le> n \<longrightarrow> in_round (e k)"
      "\<forall>x \<in> set (rg_stores registry). outstanding d x \<or> lost d \<or> (\<exists>k. m \<le> k \<and> k < n \<and> answered_nil x (e k) (e (Suc k)))"
      by blast
    have "outstanding c x \<or> lost c \<or> (\<exists>k. m \<le> k \<and> k < Suc n \<and> answered_nil x (e k) (e (Suc k)))"
      if "x \<in> set (rg_stores registry)" for x
    proof (cases "outstanding d x \<or> lost d")
      case True
      from round_step_outstanding [OF step Checking Suc.prems(2) this] m(1) show ?thesis by blast
    next
      case False
      with m(4) that obtain k where "m \<le> k" "k < n" "answered_nil x (e k) (e (Suc k))" by blast
      then show ?thesis using less_SucI by blast
    qed
    moreover have "\<forall>k. m \<le> k \<and> k \<le> Suc n \<longrightarrow> in_round (e k)"
      using m(3) Suc.prems(2) by (auto simp: le_Suc_eq in_round_def)
    moreover have "m \<le> Suc n" using m(1) by simp
    ultimately show ?thesis using m(2) by blast
  next
    case Selecting
    have "he_registry (pr_health (e n)) = Some registry" using ok by (simp add: process_ok_def)
    with round_entered [OF step Selecting Suc.prems(2)] have c: "c = new_round (rg_stores registry)"
      by (simp add: enter_check_def health_stores_def split: if_splits)
    have "in_round (e (Suc n))" using Suc.prems(2) by (simp add: in_round_def)
    then have "\<forall>k. Suc n \<le> k \<and> k \<le> Suc n \<longrightarrow> in_round (e k)" using le_antisym by metis
    moreover have "\<forall>x \<in> set (rg_stores registry). outstanding c x" by (simp add: c outstanding_def new_round_def)
    ultimately show ?thesis using Suc.prems(2) c by blast
  next
    case Stopped
    with stopped_is_final [OF step] Suc.prems(2) show ?thesis by simp
  qed
qed

subsection \<open>Properties\<close>

text \<open>
  C27 Fail-closed readiness: when a step of an execution raises the flag, the registry is not empty, and the
  step ends a round in which every store's goroutine got nil from its call of the store, that is, the check
  of the store in the world of that moment gave no error. From the moment \<open>Run\<close> has ended the process is
  never ready again.
\<close>

theorem readiness_fail_closed:
  assumes "execution registry timeout (Suc n) e"
  shows "(\<not> he_ready (pr_health (e n)) \<and> he_ready (pr_health (e (Suc n))) \<longrightarrow>
      rg_stores registry \<noteq> [] \<and>
      (\<exists>m \<le> n. pr_run (e m) = Checking (new_round (rg_stores registry)) \<and> (\<forall>k. m \<le> k \<and> k \<le> n \<longrightarrow> in_round (e k))
        \<and> (\<forall>x \<in> set (rg_stores registry). \<exists>k. m \<le> k \<and> k < n \<and> answered_nil x (e k) (e (Suc k)))))
    \<and> (pr_run (e n) = Stopped \<longrightarrow>
        \<not> he_ready (pr_health (e n)) \<and> pr_run (e (Suc n)) = Stopped \<and> \<not> he_ready (pr_health (e (Suc n))))"
proof -
  have exec: "execution registry timeout n e" and step: "process_step (e n) (e (Suc n))"
    using execution_prefix [OF assms] execution_step [OF assms] by simp_all
  have ok: "process_ok registry timeout (e n)" "process_ok registry timeout (e (Suc n))"
    using execution_ok [OF assms] by simp_all
  have "rg_stores registry \<noteq> [] \<and> (\<exists>m \<le> n. pr_run (e m) = Checking (new_round (rg_stores registry))
      \<and> (\<forall>k. m \<le> k \<and> k \<le> n \<longrightarrow> in_round (e k))
      \<and> (\<forall>x \<in> set (rg_stores registry). \<exists>k. m \<le> k \<and> k < n \<and> answered_nil x (e k) (e (Suc k))))"
    if raised: "\<not> he_ready (pr_health (e n))" "he_ready (pr_health (e (Suc n)))"
  proof -
    obtain c where c: "pr_run (e n) = Checking c" "cr_collecting c = Reading True" "cr_channel c = []"
      using raised_by_round [OF step raised] by blast
    then have ok: "rg_stores registry \<noteq> []" "round_ok (length (rg_stores registry)) (pr_now (e n) + timeout) c"
      using ok(1) by (auto simp: process_ok_def)
    have "\<not> outstanding c x" "\<not> lost c" for x
      using c round_reads_all [OF ok(2) c(2)] by (simp_all add: outstanding_def lost_def)
    with round_history [OF exec c(1)] ok(1) show ?thesis by blast
  qed
  then show ?thesis
    using stopped_is_final [OF step] ok by (simp add: process_ok_def split: run_state.splits)
qed

text \<open>
  Readiness during shutdown: the step that begins the shutdown makes the process not ready, but as \<open>Run\<close>
  is cancelled only after \<open>Shutdown\<close> has returned, a round of checks that succeeds makes it ready again
  while the server is being drained.
\<close>

theorem readiness_revived:
  assumes "rg_stores registry \<noteq> []" "check_each (rg_stores registry) w = (results, w')" "list_all id results"
  shows "\<exists>p0 p1 p2. process_steps (start_process registry timeout now w) p0 \<and> pr_main p0 = Serving
    \<and> process_step p0 p1 \<and> pr_main p1 = Draining \<and> \<not> he_ready (pr_health p1)
    \<and> process_steps p1 p2 \<and> pr_main p2 = Draining \<and> he_ready (pr_health p2)"
proof -
  let ?p0 = "start_process registry timeout now w"
  let ?p1 = "store_ready False (?p0\<lparr>pr_main := Draining\<rparr>)"
  have run: "pr_main ?p0 = Serving" "pr_run ?p0 = Checking (new_round (rg_stores registry))" "pr_world ?p0 = w"
    using assms(1) by (simp_all add: start_process_def Let_def enter_check_def newHealth_def health_stores_def)
  have "process_step ?p0 ?p1" by (rule stop_serving_step) (rule run(1))
  moreover have "process_steps ?p1 (store_ready (list_all id results) (?p1\<lparr>pr_run := Selecting, pr_world := w'\<rparr>))"
    by (rule round_steps [where stores = "rg_stores registry"]) (simp_all add: run assms(2))
  moreover have "pr_main ?p1 = Draining" "\<not> he_ready (pr_health ?p1)" by simp_all
  ultimately show ?thesis using run(1) assms(3) by (intro exI conjI) (rule rtranclp.rtrancl_refl, assumption+, simp_all)
qed

text \<open>
  C28 Rounds end. In every state the process can get into during a round: the round has at most six steps
  and three left for each of its stores, and whatever step is taken next leaves fewer or is not one of the
  round; a goroutine with a result can send it at once; and the round can go on by itself, unless all its
  goroutines that are not over are in the call of their store, with a deadline that is ahead but not further
  than the timeout. So it is never deadlocked, by its channel or its wait group, and a round with stores that
  honour the deadline of their context ends.
\<close>

theorem check_round_terminates:
  assumes "process_steps (start_process registry timeout now w) p" "pr_run p = Checking c"
  shows "round_left c \<le> 6 * length (rg_stores registry) + 3
    \<and> (\<forall>p' c'. process_step p p' \<and> pr_run p' = Checking c' \<longrightarrow> c' = c \<or> round_left c' < round_left c)
    \<and> (\<forall>x ready. (x, Sending ready) \<in> set (cr_tasks c) \<longrightarrow> length (cr_channel c) < cr_capacity c)
    \<and> ((\<exists>c'. own_step p c c') \<or> all_read c
       \<or> cr_tasks c \<noteq> [] \<and> list_all (\<lambda>task. \<exists>deadline. snd task = Calling deadline
            \<and> pr_now p < deadline \<and> deadline \<le> pr_now p + timeout) (cr_tasks c))"
proof -
  have ok: "round_ok (length (rg_stores registry)) (pr_now p + timeout) c" "0 < length (rg_stores registry)"
    using process_steps_ok [OF assms(1) start_process_ok] assms(2) by (auto simp: process_ok_def)
  have "length (cr_channel c) < cr_capacity c" if "(x, Sending ready) \<in> set (cr_tasks c)" for x ready
  proof -
    have "(x, Sending ready) \<in> set (filter unsent (cr_tasks c))" using that by (simp add: unsent_def)
    then have "0 < length (filter unsent (cr_tasks c))" by (rule length_pos_if_in_set)
    then show ?thesis
      using ok(1) that by (auto simp: round_ok_def simp del: length_greater_0_conv split: collecting.splits)
  qed
  then show ?thesis
    using round_left_bound [OF ok(1)] round_step_left [OF _ assms(2)] round_waits [OF ok(1) _ _ ok(2)] by blast
qed

text \<open>
  Shutdown: from every state the process can get into, it can still come to its end with the checks
  stopped and the process not ready, and without waiting for the shutdown deadline unless it had passed
  before.
\<close>

theorem shutdown_completes:
  assumes "process_steps (start_process registry timeout now w) p"
  shows "\<exists>p'. process_steps p p' \<and> pr_main p' = Exited \<and> pr_run p' = Stopped \<and> \<not> he_ready (pr_health p')"
proof -
  have ok: "process_ok registry timeout p" using assms by (rule process_steps_ok) (rule start_process_ok)
  obtain q where q: "process_steps p q" "pr_main q \<in> {Joining, Exited}"
  proof (cases "pr_main p")
    case Serving
    let ?q = "store_ready False (p\<lparr>pr_main := Draining\<rparr>)"
    have "process_step p ?q" using Serving by (rule stop_serving_step)
    moreover have "process_step ?q (?q\<lparr>pr_main := Joining, pr_cancelled := True\<rparr>)" by (rule shutdown_returned_step) simp
    ultimately show ?thesis by (intro that) (rule converse_rtranclp_into_rtranclp, assumption, rule r_into_rtranclp, assumption, simp)
  next
    case Draining
    then show ?thesis using shutdown_returned_step [of p] by (intro that) (rule r_into_rtranclp, assumption, simp)
  qed (use that in auto)
  obtain r where r: "process_steps q r" "pr_main r = pr_main q" "pr_run r \<in> {Selecting, Stopped}" using reach_select [OF process_steps_ok [OF q(1) ok]] by blast
  have r_ok: "process_ok registry timeout r" using process_steps_ok [OF r(1) process_steps_ok [OF q(1) ok]] .
  obtain s where s: "process_steps r s" "pr_main s = pr_main r" "pr_run s = Stopped" "process_ok registry timeout s"
  proof (cases "pr_run r = Stopped")
    case False
    then have "process_step r (store_ready False (r\<lparr>pr_run := Stopped\<rparr>))"
      using r(2,3) q(2) r_ok by (intro cancelled_step) (auto simp: process_ok_def)
    then show ?thesis using process_step_ok [OF _ r_ok] by (intro that) (rule r_into_rtranclp, assumption, simp_all)
  qed (use r_ok that in auto)
  have "\<exists>p'. process_steps s p' \<and> pr_main p' = Exited \<and> pr_run p' = Stopped \<and> he_ready (pr_health p') = he_ready (pr_health s)"
  proof (cases "pr_main s = Exited")
    case False
    then have "process_step s (s\<lparr>pr_main := Exited\<rparr>)" using s(2,3) r(2) q(2) by (intro health_done_step) auto
    then show ?thesis using s(3) by (intro exI conjI) (rule r_into_rtranclp, assumption, simp_all)
  qed (use s(3) in blast)
  moreover have "process_steps p s" using q(1) r(1) s(1) by simp
  ultimately show ?thesis using s(3,4) by (auto simp: process_ok_def intro: rtranclp_trans)
qed

text \<open>
  A process whose \<open>run\<close> returns nil, so that it exits with status zero, was stopped in order: the checks had
  ended and it was not ready. After a failure of the server or of \<open>Shutdown\<close>, or a timeout, there is an error.
\<close>

theorem clean_exit_stopped:
  assumes "process_steps (start_process registry timeout now w) p" "pr_main p = Exited" "pr_errors p = []"
  shows "pr_run p = Stopped \<and> \<not> he_ready (pr_health p)"
  using process_steps_ok [OF assms(1) start_process_ok] assms(2,3) by (auto simp: process_ok_def split: run_state.splits)

text \<open>No error is forgotten.\<close>

theorem exit_errors_kept:
  "process_steps p p' \<Longrightarrow> pr_main p \<noteq> Serving \<Longrightarrow> pr_main p' \<noteq> Serving \<and> (\<exists>es. pr_errors p' = pr_errors p @ es)"
proof (induction rule: rtranclp_induct)
  case (step q r)
  then have "pr_main q \<noteq> Serving" "\<exists>es. pr_errors q = pr_errors p @ es" by simp_all
  moreover have "pr_main r \<noteq> Serving \<and> (\<exists>es. pr_errors r = pr_errors q @ es)"
    using step.hyps(2) \<open>pr_main q \<noteq> Serving\<close> by (auto elim!: process_stepE run_stepE main_stepE)
  ultimately show ?case by auto
qed simp

end
