(* ===== verification/StorageExamples.thy ===== *)
theory StorageExamples
  imports StorageMonitoring S3Config StorageHealth
begin

text \<open>Concrete configurations of the storage service, and the properties applied to them.\<close>

definition ex_token :: string where "ex_token = replicate 32 CHR ''t''"

definition ex_access :: access_config where
  "ex_access = \<lparr>ac_namespaces = [(''docs'', \<lparr>nc_bucket = ''bucket'', nc_prefix = ''docs''\<rparr>)],
     ac_principals = [(''app'', \<lparr>prc_tokens = [ex_token], prc_grants = [(''docs'', [''read''])]\<rparr>)]\<rparr>"

definition ex_policy :: policy where
  "ex_policy = \<lparr>po_namespaces = [''docs'' \<mapsto> \<lparr>ns_bucket = ''bucket'', ns_prefix = ''docs/''\<rparr>],
     po_principals = [\<lparr>cpr_tokens = [ex_token], cpr_grants = [''docs'' \<mapsto> [''read'']]\<rparr>]\<rparr>"

lemmas ascii_text = valid_string_ascii is_ascii_def runes_ascii rune_count_def contains_control_def is_control_def
  trim_space_visible

lemma ex_token_ok: "valid_string ex_token" "rune_count ex_token = 32" "\<not> contains_control ex_token" "ex_token \<noteq> ''''"
  by (simp_all add: ex_token_def ascii_text numeral_eq_Suc)

lemma ex_normal:
  "normalizeNamespace \<lparr>ns_bucket = ''bucket'', ns_prefix = ''docs''\<rparr> = Inr \<lparr>ns_bucket = ''bucket'', ns_prefix = ''docs/''\<rparr>"
  by (simp add: normalizeNamespace_def trim_right_slashes_def maxObjectKeyBytes_def ascii_text)

lemma ex_compiles: "compilePolicy id ex_access = Inr ex_policy"
proof -
  have ns: "namespacePattern ''docs''" by (simp add: namespacePattern_def lower_letter_def name_char_def)
  have name: "trim_space ''app'' = ''app''" "valid_string ''app''" "\<not> contains_control ''app''"
    by (simp_all add: ascii_text)
  show ?thesis
    by (simp add: compilePolicy_def ex_access_def ex_policy_def ns ex_normal name ex_token_ok minTokenRunes_def
        capabilityRead_def capabilityWrite_def capabilityDelete_def)
qed

lemma ex_grants: "\<forall>np \<in> set (ac_principals ex_access). distinct (map fst (prc_grants (snd np)))"
  by (simp add: ex_access_def)

theorem policy_authorize_exact_witness:
  "policy_authorize id (Some ex_policy) ex_token ''docs'' ''read'' = DecisionAllowed
   \<and> policy_authorize id (Some ex_policy) ex_token ''docs'' ''write'' \<noteq> DecisionAllowed
   \<and> policy_authorize id (Some ex_policy) ''other'' ''docs'' ''read'' = DecisionUnauthenticated"
proof -
  note exact = policy_authorize_exact [OF ex_compiles ex_grants]
  have "''other'' \<noteq> ex_token" by (simp add: ex_token_def numeral_eq_Suc)
  then show ?thesis
    using exact [of ex_token "''docs''" "''read''"] exact [of ex_token "''docs''" "''write''"] exact [of "''other''" "''docs''" "''read''"]
    by (simp add: ex_access_def holds_token_def granted_def ex_token_ok)
qed

section \<open>S3\<close>

definition ex_output :: s3_output where
  "ex_output = \<lparr>s3_version = None, s3_etag = Some ''e'', s3_length = Some 3, s3_content_type = None, s3_last_modified = Some 0,
     s3_metadata = None, s3_crc32 = None, s3_crc32c = None, s3_sha1 = None, s3_sha256 = None, s3_upload_id = None,
     s3_body = ''abc'', s3_method = ''GET'', s3_url = ''https://s3/bucket'', s3_headers = []\<rparr>"

definition ex_expired :: provider_error where
  "ex_expired = \<lparr>pe_error = Plain ''api error ExpiredToken'', pe_status = Some 400, pe_code = Some ''ExpiredToken''\<rparr>"

definition ex_config :: s3_config where
  "ex_config = \<lparr>sc_region = ''eu'', sc_namespace = \<lparr>ns_bucket = ''bucket'', ns_prefix = ''docs/''\<rparr>, sc_endpoint = '''',
     sc_presign_endpoint = '''', sc_path_style = False, sc_default_ttl = defaultPresignTTL, sc_max_ttl = maxPresignTTL\<rparr>"

text \<open>An S3 that knows every object, and one that refuses every call.\<close>

definition ex_client :: "unit s3_client" where
  "ex_client = \<lparr>cl_config = ex_config, cl_api = (\<lambda>call w. (Inr ex_output, w)), cl_observer = None, cl_now = (\<lambda>w. 0)\<rparr>"


lemma ex_key: "validateKey \<lparr>ns_bucket = ''bucket'', ns_prefix = ''docs/''\<rparr> ''a'' = Inr ()"
  by (simp add: validateKey_def maxObjectKeyBytes_def ascii_text)


theorem s3_status_shadows_code_witness:
  "classifyError ascii_tables ex_expired = errInvalidArgument
   \<and> classifyError ascii_tables (ex_expired\<lparr>pe_status := None\<rparr>) = errForbidden"
proof -
  have "classifyError ascii_tables ex_expired = errInvalidArgument"
    by (rule s3_status_shadows_code [of ex_expired 400, THEN conjunct2, THEN mp]) (simp_all add: ex_expired_def)
  moreover have "classifyError ascii_tables (ex_expired\<lparr>pe_status := None\<rparr>) = errForbidden"
  proof -
    have ex_ascii: "is_ascii ''ExpiredToken''" by (simp add: is_ascii_def)
    have "to_lower ascii_tables ''ExpiredToken'' = ''expiredtoken''"
      unfolding to_lower_ascii [OF ex_ascii] by code_simp
    then show ?thesis by (simp add: classifyError_def ex_expired_def code_kind_def)
  qed
  ultimately show ?thesis ..
qed

text \<open>A store with the AWS configuration handed in and its own endpoint.\<close>

definition ex_endpoint :: string where "ex_endpoint = ''http://minio:9000''"

definition ex_aws :: aws_config where
  "ex_aws = \<lparr>aw_region = ''us'', aw_credentials = None, aw_http_client = None, aw_rest = undefined\<rparr>"

definition ex_loader :: aws_loader where
  "ex_loader = \<lparr>al_default = (\<lambda>region credentials client. Inl (Plain ''no profile'')), al_cache = id\<rparr>"

definition ex_url_parse :: "string \<Rightarrow> url option" where
  "ex_url_parse s = (if s = ex_endpoint then Some \<lparr>url_scheme = ''http'', url_has_user = False, url_host = ''minio:9000'',
     url_path = '''', url_raw_path = '''', url_raw_query = '''', url_fragment = ''''\<rparr> else None)"

definition ex_raw_config :: s3_config where
  "ex_raw_config = \<lparr>sc_region = ''eu'', sc_namespace = \<lparr>ns_bucket = ''bucket'', ns_prefix = ''docs''\<rparr>, sc_endpoint = ex_endpoint,
     sc_presign_endpoint = '''', sc_path_style = True, sc_default_ttl = 0, sc_max_ttl = 0\<rparr>"

theorem s3_construction_witness:
  "\<exists>c. newS3Store ex_url_parse ex_loader ex_raw_config [WithAWSConfig ex_aws] = Inr c
     \<and> aw_region (sv_config (sp_service c)) = ''eu'' \<and> sv_endpoint (sp_presigner c) = Some ex_endpoint"
proof -
  have url: "endpoint_ok ex_url_parse ex_endpoint" "endpoint_ok ex_url_parse ''''" "ex_endpoint \<noteq> ''''"
    by (simp_all add: endpoint_ok_def ex_url_parse_def ex_endpoint_def)
  have region: "trim_space ''eu'' = ''eu''" by (simp add: ascii_text)
  obtain c where "newS3Store ex_url_parse ex_loader ex_raw_config [WithAWSConfig ex_aws] = Inr c"
    using url by (simp add: newS3Store_def normalizeConfig_def ex_raw_config_def region ex_normal defaultPresignTTL_def
        maxPresignTTL_def minPresignTTL_def hour_def minute_def second_def Let_def s3_option_apply_def loadAWSConfig_def)
  with s3_construction [OF this] url show ?thesis by (auto simp: ex_raw_config_def string_pointer_def)
qed

section \<open>The service\<close>

definition unused_decoder :: "'a json_decoder" where
  "unused_decoder = \<lparr>jd_value = (\<lambda>strict r. Inl (Plain ''unused'')), jd_raw = (\<lambda>r. Inl eof)\<rparr>"

text \<open>A decoder that finds the same object in every body and consumes the body.\<close>

definition ex_object_decoder :: "object_request json_decoder" where
  "ex_object_decoder = \<lparr>jd_value = (\<lambda>strict r. Inr (\<lparr>ob_namespace = ''docs'', ob_key = ''a'', ob_version_id = ''''\<rparr>, ([], snd r))),
     jd_raw = (\<lambda>r. Inl eof)\<rparr>"

definition ex_handler :: "unit recorded storage_handler" where
  "ex_handler = \<lparr>sh_stores = [''docs'' \<mapsto> s3_object_store ascii_tables (recording ex_client (\<lambda>ob w. w))],
     sh_policy = Some ex_policy, sh_ready = Some True, sh_digest = id,
     sh_json = \<lparr>sj_object = ex_object_decoder, sj_presign_get = unused_decoder, sj_presign_put = unused_decoder,
       sj_create = unused_decoder, sj_part = unused_decoder, sj_complete = unused_decoder, sj_abort = unused_decoder\<rparr>,
     sh_unicode = ascii_tables\<rparr>"

definition ex_stat :: storage_call where "ex_stat = \<lparr>sq_token = ex_token, sq_body = ''{}''\<rparr>"

lemma ex_handler_fields [simp]:
  "sh_digest ex_handler = id" "sh_policy ex_handler = Some ex_policy" "sh_ready ex_handler = Some True"
  "sj_object (sh_json ex_handler) = ex_object_decoder" "sq_token ex_stat = ex_token"
  by (simp_all add: ex_handler_def ex_stat_def)

lemma ex_token_matches: "policy_match id (Some ex_policy) ex_token = 0"
  by (simp add: policy_match_def ex_policy_def ex_token_ok)

lemma ex_authorized: "authorize_request ex_handler ex_stat ''docs'' capabilityRead = Inr ()"
  by (simp add: authorize_request_def validateNamespaceName_def namespacePattern_def lower_letter_def name_char_def
      ex_handler_def ex_stat_def policy_authorize_def ex_token_matches)
     (simp add: ex_policy_def capabilityRead_def)

lemma ex_validated:
  "storeAndValidate ex_handler ''docs'' ''a'' '''' '''' [] = Inr (s3_object_store ascii_tables (recording ex_client (\<lambda>ob w. w)))"
  by (simp add: storeAndValidate_def ex_handler_def policy_namespace_def ex_policy_def validateObjectInput_def ex_key
      maxContentTypeBytes_def maxMetadataItems_def maxMetadataBytes_def metadata_bytes_def ascii_text)

lemma ex_decoded: "decode_payload ex_object_decoder body = Inr \<lparr>ob_namespace = ''docs'', ob_key = ''a'', ob_version_id = ''''\<rparr>"
  by (simp add: decode_payload_def json_body_decode_def ex_object_decoder_def eof_def)

lemma ex_calls: "fst (snd (snd (serve_storage Stat ex_handler ex_stat ((), [], [])))) = [HeadObject ''bucket'' ''docs/a'' None]"
proof -
  have run: "snd (handleStat ex_handler ex_stat ((), [], [])) =
      snd (s3_stat ascii_tables (recording ex_client (\<lambda>ob w. w)) \<lparr>or_key = ''a'', or_version = ''''\<rparr> ((), [], []))"
    by (simp add: handleStat_def finish_def ex_decoded ex_authorized ex_validated store_reply_def s3_object_store_def
        split: prod.split sum.split)
  have "fst (snd (snd (handleStat ex_handler ex_stat ((), [], [])))) = [HeadObject ''bucket'' ''docs/a'' None]"
    unfolding run
    by (simp add: s3_stat_def stat_plan_def validateRef_def wrap_checked_def ex_key observed_call_def perform_def
        recording_def ex_client_def ex_config_def observe_operation_def string_pointer_def client_bucket_def physicalKey_def Let_def)
  moreover have "policy_authenticate id (Some ex_policy) ex_token" by (simp add: policy_authenticate_def ex_token_matches)
  ultimately show ?thesis
    by (simp add: serve_storage_def require_token_def require_ready_def Let_def split_beta)
qed

theorem storage_access_confined_witness:
  "\<exists>name key ns. \<exists>np \<in> set (ac_principals ex_access).
      holds_token id ex_token (snd np) \<and> granted name ''read'' (snd np) \<and> po_namespaces ex_policy name = Some ns
    \<and> list_all (\<lambda>call. call_bucket call = ns_bucket ns \<and> (call_key call = None \<or> call_key call = Some (ns_prefix ns @ key)))
        (fst (snd (snd (serve_storage Stat ex_handler ex_stat ((), [], [])))))"
proof -
  obtain answer w' calls seen where served: "serve_storage Stat ex_handler ex_stat ((), [], []) = (answer, w', calls, seen)"
    by (metis prod_cases4)
  have "fst (snd (snd (serve_storage Stat ex_handler ex_stat ((), [], [])))) \<noteq> []"
    by (simp add: ex_calls)
  then have calls: "calls \<noteq> []" by (simp add: served)
  have bound: "bound_stores ascii_tables (\<lambda>name. ex_client) (\<lambda>ob w. w) ex_handler"
    by (simp add: bound_stores_def ex_handler_def policy_namespace_def ex_policy_def ex_client_def ex_config_def)
  have "compilePolicy (sh_digest ex_handler) ex_access = Inr ex_policy" "sh_policy ex_handler = Some ex_policy"
    using ex_compiles by simp_all
  from storage_access_confined [OF this ex_grants bound served calls] show ?thesis
    unfolding served snd_conv fst_conv ex_handler_fields route_capability.simps capabilityRead_def by blast
qed

section \<open>Monitoring\<close>

definition ex_monitored :: "unit monitored storage_handler" where
  "ex_monitored = \<lparr>sh_stores = [''docs'' \<mapsto> s3_object_store ascii_tables (monitored_client ex_client)],
     sh_policy = Some ex_policy, sh_ready = Some True, sh_digest = id, sh_json = sh_json ex_handler, sh_unicode = ascii_tables\<rparr>"

theorem storage_metrics_bounded_witness:
  "(\<Sum>l \<in> http_labels. me_http (fst (fold (serve_monitored ex_monitored) [(Stat, ex_stat), (Delete, ex_stat)] (newMetrics, ()))) l) = 2"
proof -
  have "monitored_stores ascii_tables ex_monitored"
    by (auto simp: monitored_stores_def ex_monitored_def split: if_split_asm)
  moreover obtain m w' where "fold (serve_monitored ex_monitored) [(Stat, ex_stat), (Delete, ex_stat)] (newMetrics, ()) = (m, w')"
    by (metis prod.collapse)
  ultimately show ?thesis using storage_metrics_bounded by (metis fst_conv length_Cons list.size(3) numeral_2_eq_2)
qed

section \<open>Readiness\<close>

definition ex_registry :: "unit registry" where
  "ex_registry = newRegistry [(''docs'', s3_object_store ascii_tables ex_client)]"

lemma ex_round: "rg_stores ex_registry \<noteq> []" "check_each (rg_stores ex_registry) () = ([True], ())" "list_all id [True]"
proof -
  have "rg_stores ex_registry = [(''docs'', s3_object_store ascii_tables ex_client)]"
    by (simp add: ex_registry_def newRegistry_def)
  moreover have "s3_check ascii_tables ex_client () = (Inr (), ())"
    by (simp add: s3_check_def observed_call_def perform_def observe_operation_def ex_client_def)
  ultimately show "rg_stores ex_registry \<noteq> []" "check_each (rg_stores ex_registry) () = ([True], ())"
    by (simp_all add: s3_object_store_def)
qed simp

theorem readiness_revived_witness:
  "\<exists>p1 p2 :: unit process. pr_main p1 = Draining \<and> \<not> he_ready (pr_health p1) \<and> process_steps p1 p2
     \<and> pr_main p2 = Draining \<and> he_ready (pr_health p2) \<and> he_registry (pr_health (start_process ex_registry 5 0 ())) = Some ex_registry"
proof -
  have "he_registry (pr_health (start_process ex_registry 5 0 ())) = Some ex_registry"
    by (simp add: start_process_def Let_def newHealth_def)
  moreover from readiness_revived [OF ex_round] obtain p1 p2 :: "unit process" where "pr_main p1 = Draining"
    "\<not> he_ready (pr_health p1)" "process_steps p1 p2" "pr_main p2 = Draining" "he_ready (pr_health p2)" by blast
  ultimately show ?thesis by blast
qed

lemma execution_of_steps:
  assumes "process_steps (start_process registry timeout now w) p"
  shows "\<exists>n e. execution registry timeout n e \<and> e 0 = start_process registry timeout now w \<and> e n = p"
proof -
  obtain n where "(process_step ^^ n) (start_process registry timeout now w) p"
    using assms rtranclp_imp_relpowp by metis
  then obtain e where "e 0 = start_process registry timeout now w" "e n = p" "\<forall>i<n. process_step (e i) (e (Suc i))"
    unfolding relpowp_fun_conv by blast
  then show ?thesis unfolding execution_def by blast
qed

lemma ex_start: "pr_run (start_process ex_registry 5 0 ()) = Checking (new_round (rg_stores ex_registry))"
  using ex_round(1) by (simp add: start_process_def Let_def enter_check_def health_stores_def newHealth_def)

text \<open>An execution that raises the flag, with the answer it needed.\<close>

theorem readiness_fail_closed_witness:
  "\<exists>n e. execution ex_registry 5 (Suc n) e \<and> \<not> he_ready (pr_health (e n)) \<and> he_ready (pr_health (e (Suc n)))
     \<and> (\<exists>k < n. answered_nil (''docs'', s3_object_store ascii_tables ex_client) (e k) (e (Suc k)))"
proof -
  let ?p = "start_process ex_registry 5 0 ()"
  let ?ready = "\<lambda>q :: unit process. he_ready (pr_health q)"
  have "process_steps ?p (store_ready True (?p\<lparr>pr_run := Selecting, pr_world := ()\<rparr>))"
    using round_steps [OF ex_start, of "[True]" "()"] ex_round(2) by (simp add: start_process_def Let_def)
  from execution_of_steps [OF this] obtain l e where e: "execution ex_registry 5 l e" "e 0 = ?p" "?ready (e l)" by auto
  define m where "m = (LEAST k. ?ready (e k))"
  have m: "?ready (e m)" "m \<le> l" using e(3) by (auto simp: m_def intro: LeastI Least_le)
  have "\<not> ?ready (e 0)" by (simp add: e(2) start_process_def Let_def newHealth_def)
  with m(1) have "m \<noteq> 0" by metis
  then obtain n where n: "m = Suc n" by (cases m) simp_all
  have down: "\<not> ?ready (e n)" using not_less_Least [of n "\<lambda>k. ?ready (e k)"] n by (simp add: m_def)
  have exec: "execution ex_registry 5 (Suc n) e" using e(1) m(2) n by (auto simp: execution_def)
  have "(''docs'', s3_object_store ascii_tables ex_client) \<in> set (rg_stores ex_registry)"
    by (simp add: ex_registry_def newRegistry_def)
  with readiness_fail_closed [OF exec] down m(1) n exec show ?thesis by blast
qed

theorem check_round_terminates_witness:
  "round_left (new_round (rg_stores ex_registry)) \<le> 9 \<and> (\<exists>c'. own_step (start_process ex_registry 5 0 ()) (new_round (rg_stores ex_registry)) c')"
proof -
  have "rg_stores ex_registry = [(''docs'', s3_object_store ascii_tables ex_client)]"
    by (simp add: ex_registry_def newRegistry_def)
  then show ?thesis
    using check_round_terminates [OF rtranclp.rtrancl_refl ex_start] by (simp add: new_round_def all_read_def)
qed

theorem shutdown_completes_witness:
  "\<exists>p'. process_steps (start_process ex_registry 5 0 ()) p' \<and> pr_main p' = Exited \<and> pr_run p' = Stopped \<and> \<not> he_ready (pr_health p')"
  by (rule shutdown_completes) (rule rtranclp.rtrancl_refl)

end
