(* ===== verification/EnvConfig.thy ===== *)
theory EnvConfig
  imports GoStrings
begin

text \<open>
  Environment variables, \<open>sdk/go/envconfig/env.go\<close>. The environment is the function \<open>os.LookupEnv\<close>. A
  parser returns its value and its error, as the Go function does: with an error the value is the
  fallback. \<open>time.ParseDuration\<close> is written out; the one product of floating-point numbers in it, the
  nanoseconds of a decimal fraction, is an argument.
\<close>

type_synonym env = "string \<Rightarrow> string option"

definition getenv :: "env \<Rightarrow> string \<Rightarrow> string" where
  "getenv m key = (case m key of None \<Rightarrow> '''' | Some v \<Rightarrow> v)"

type_synonym 'a parsed = "'a \<times> go_error option"

text \<open>The parsers that swallow the error.\<close>

definition or_fallback :: "'a \<Rightarrow> 'a parsed \<Rightarrow> 'a" where
  "or_fallback fallback p = (case snd p of None \<Rightarrow> fst p | Some err \<Rightarrow> fallback)"

text \<open>The value to parse: set, and not blank.\<close>

definition explicit :: "env \<Rightarrow> string \<Rightarrow> string option" where
  "explicit m key = (case m key of None \<Rightarrow> None | Some raw \<Rightarrow> if trim_space raw = '''' then None else Some (trim_space raw))"

section \<open>Strings\<close>

definition env_string :: "env \<Rightarrow> string \<Rightarrow> string \<Rightarrow> string" where
  "env_string m key fallback = (let v = trim_space (getenv m key) in if v = '''' then fallback else v)"

definition requiredString :: "env \<Rightarrow> string \<Rightarrow> string \<times> bool" where
  "requiredString m key = (let v = trim_space (getenv m key) in (v, v \<noteq> ''''))"

section \<open>time.ParseDuration\<close>

definition is_digit :: "char \<Rightarrow> bool" where
  "is_digit c \<longleftrightarrow> 48 \<le> byte c \<and> byte c \<le> 57"

definition two63 :: nat where "two63 = 2 ^ 63"

text \<open>\<open>leadingInt\<close> on the digits at the front; \<open>None\<close> is an overflow.\<close>

fun leadingInt :: "nat \<Rightarrow> string \<Rightarrow> nat option" where
  "leadingInt x [] = Some x"
| "leadingInt x (c # s) =
     (if x > two63 div 10 then None
      else let y = x * 10 + (byte c - 48) in if y > two63 then None else leadingInt y s)"

text \<open>\<open>leadingFraction\<close>: the digits that fit, and how many they are.\<close>

fun leadingFraction :: "nat \<Rightarrow> nat \<Rightarrow> string \<Rightarrow> nat \<times> nat" where
  "leadingFraction x k [] = (x, k)"
| "leadingFraction x k (c # s) =
     (if x > (two63 - 1) div 10 then (x, k)
      else let y = x * 10 + (byte c - 48) in if y > two63 then (x, k) else leadingFraction y (Suc k) s)"

definition unit_map :: "string \<Rightarrow> nat option" where
  "unit_map u =
     (if u = ''ns'' then Some 1
      else if u = ''us'' \<or> u = [CHR 0xC2, CHR 0xB5, CHR ''s''] \<or> u = [CHR 0xCE, CHR 0xBC, CHR ''s''] then Some 1000
      else if u = ''ms'' then Some 1000000
      else if u = ''s'' then Some 1000000000
      else if u = ''m'' then Some 60000000000
      else if u = ''h'' then Some 3600000000000
      else None)"

definition number_char :: "char \<Rightarrow> bool" where
  "number_char c \<longleftrightarrow> c = CHR ''.'' \<or> is_digit c"

text \<open>One number with its unit: the nanoseconds, and the rest of the string.\<close>

definition duration_item :: "(nat \<Rightarrow> nat \<Rightarrow> nat \<Rightarrow> nat) \<Rightarrow> string \<Rightarrow> (nat \<times> string) option" where
  "duration_item product s =
     (if s = [] \<or> \<not> number_char (hd s) then None
      else case leadingInt 0 (takeWhile is_digit s) of
        None \<Rightarrow> None
      | Some v \<Rightarrow>
          let after = dropWhile is_digit s;
              point = (after \<noteq> [] \<and> hd after = CHR ''.'');
              fraction = (if point then takeWhile is_digit (tl after) else []);
              rest = (if point then dropWhile is_digit (tl after) else after);
              (f, k) = leadingFraction 0 0 fraction;
              u = takeWhile (\<lambda>c. \<not> number_char c) rest in
          if takeWhile is_digit s = [] \<and> fraction = [] then None
          else if u = [] then None
          else case unit_map u of
            None \<Rightarrow> None
          | Some unit \<Rightarrow>
              if v > two63 div unit then None
              else let n = (if f > 0 then v * unit + product f unit k else v * unit) in
                if n > two63 then None else Some (n, drop (length u) rest))"

lemma duration_item_shorter: "duration_item product s = Some (n, rest) \<Longrightarrow> length rest < length s"
proof -
  assume item: "duration_item product s = Some (n, rest)"
  define after where "after = dropWhile is_digit s"
  define tail where "tail = (if after \<noteq> [] \<and> hd after = CHR ''.'' then dropWhile is_digit (tl after) else after)"
  define u where "u = takeWhile (\<lambda>c. \<not> number_char c) tail"
  have u: "u \<noteq> []" and rest: "rest = drop (length u) tail"
    using item unfolding duration_item_def Let_def after_def [symmetric] tail_def [symmetric] u_def [symmetric]
    by (auto split: if_split_asm option.split_asm prod.split_asm)
  have "length tail \<le> length after"
    using length_dropWhile_le [of is_digit "tl after"] by (auto simp: tail_def)
  moreover have "length after \<le> length s" using length_dropWhile_le by (simp add: after_def)
  moreover have "length u \<le> length tail" by (simp add: u_def length_takeWhile_le)
  ultimately show "length rest < length s" using u by (cases u) (auto simp: rest)
qed

function duration_items :: "(nat \<Rightarrow> nat \<Rightarrow> nat \<Rightarrow> nat) \<Rightarrow> nat \<Rightarrow> string \<Rightarrow> nat option" where
  "duration_items product d s =
     (if s = [] then Some d
      else case duration_item product s of
        None \<Rightarrow> None
      | Some (n, rest) \<Rightarrow> if d + n > two63 then None else duration_items product (d + n) rest)"
  by pat_completeness auto
termination
  by (relation "measure (\<lambda>(product, d, s). length s)") (auto dest: duration_item_shorter)

declare duration_items.simps [simp del]

definition parse_duration :: "(nat \<Rightarrow> nat \<Rightarrow> nat \<Rightarrow> nat) \<Rightarrow> string \<Rightarrow> int option" where
  "parse_duration product s =
     (let (neg, body) = (case s of c # t \<Rightarrow> if c = CHR ''-'' \<or> c = CHR ''+'' then (c = CHR ''-'', t) else (False, s)
          | [] \<Rightarrow> (False, [])) in
      if body = ''0'' then Some 0
      else if body = [] then None
      else case duration_items product 0 body of
        None \<Rightarrow> None
      | Some d \<Rightarrow> if neg then Some (- int d) else if d > two63 - 1 then None else Some (int d))"

section \<open>Durations\<close>

definition positive_seconds :: "string \<Rightarrow> int option" where
  "positive_seconds v = (case parse_int v of None \<Rightarrow> None
     | Some n \<Rightarrow> if n > 0 \<and> n \<le> max_int64 div second then Some (n * second) else None)"

definition positive_duration :: "(nat \<Rightarrow> nat \<Rightarrow> nat \<Rightarrow> nat) \<Rightarrow> string \<Rightarrow> int option" where
  "positive_duration product v = (case parse_duration product v of
     Some d \<Rightarrow> if d > 0 then Some d else positive_seconds v
   | None \<Rightarrow> positive_seconds v)"

definition durationStrict :: "(nat \<Rightarrow> nat \<Rightarrow> nat \<Rightarrow> nat) \<Rightarrow> env \<Rightarrow> string \<Rightarrow> int \<Rightarrow> int parsed" where
  "durationStrict product m key fallback = (case explicit m key of
     None \<Rightarrow> (fallback, None)
   | Some v \<Rightarrow> (case positive_duration product v of
       Some d \<Rightarrow> (d, None)
     | None \<Rightarrow> (fallback, Some (Plain (key @ '' must be a positive duration or integer seconds'')))))"

definition env_duration :: "(nat \<Rightarrow> nat \<Rightarrow> nat \<Rightarrow> nat) \<Rightarrow> env \<Rightarrow> string \<Rightarrow> int \<Rightarrow> int" where
  "env_duration product m key fallback = or_fallback fallback (durationStrict product m key fallback)"

section \<open>Integers\<close>

text \<open>The error wraps the one of \<open>strconv.Atoi\<close>, whose text is left out.\<close>

definition intStrict :: "env \<Rightarrow> string \<Rightarrow> int \<Rightarrow> int parsed" where
  "intStrict m key fallback = (case explicit m key of
     None \<Rightarrow> (fallback, None)
   | Some v \<Rightarrow> (case parse_int v of
       None \<Rightarrow> (fallback, Some (Wrap (key @ '' must be an integer'') []))
     | Some n \<Rightarrow> (n, None)))"

definition env_int :: "env \<Rightarrow> string \<Rightarrow> int \<Rightarrow> int" where
  "env_int m key fallback = or_fallback fallback (intStrict m key fallback)"

definition env_int64 :: "env \<Rightarrow> string \<Rightarrow> int \<Rightarrow> int" where
  "env_int64 m key fallback = (let v = trim_space (getenv m key) in
     if v = '''' then fallback
     else case parse_int v of None \<Rightarrow> fallback | Some n \<Rightarrow> if n \<le> 0 then fallback else n)"

section \<open>Byte sizes\<close>

definition multipliers :: "(string \<times> int) list" where
  "multipliers = [(''GIB'', 2 ^ 30), (''MIB'', 2 ^ 20), (''KIB'', 2 ^ 10), (''GB'', 1000000000), (''MB'', 1000000),
     (''KB'', 1000), (''B'', 1)]"

definition size_parts :: "string \<Rightarrow> string \<times> int" where
  "size_parts upper = (case find (\<lambda>(suffix, k). has_suffix upper suffix) multipliers of
     Some (suffix, k) \<Rightarrow> (trim_space (take (length upper - length suffix) upper), k)
   | None \<Rightarrow> (upper, 1))"

definition byteSizeStrict :: "unicode_tables \<Rightarrow> env \<Rightarrow> string \<Rightarrow> int \<Rightarrow> int parsed" where
  "byteSizeStrict U m key fallback = (case explicit m key of
     None \<Rightarrow> (fallback, None)
   | Some v \<Rightarrow>
       (let (number, k) = size_parts (to_upper U v);
            failed = (fallback, Some (Plain (key @ '' must be a positive, non-overflowing byte size''))) in
        case parse_int number of
          None \<Rightarrow> failed
        | Some n \<Rightarrow> if n \<le> 0 \<or> n > max_int64 div k then failed else (n * k, None)))"

definition env_byte_size :: "unicode_tables \<Rightarrow> env \<Rightarrow> string \<Rightarrow> int \<Rightarrow> int" where
  "env_byte_size U m key fallback = or_fallback fallback (byteSizeStrict U m key fallback)"

section \<open>Booleans and lists\<close>

definition boolStrict :: "unicode_tables \<Rightarrow> env \<Rightarrow> string \<Rightarrow> bool \<Rightarrow> bool parsed" where
  "boolStrict U m key fallback = (case m key of
     None \<Rightarrow> (fallback, None)
   | Some raw \<Rightarrow> (let v = trim_space (to_lower U raw) in
       if v = '''' then (fallback, None)
       else if v \<in> {''1'', ''true'', ''yes'', ''on''} then (True, None)
       else if v \<in> {''0'', ''false'', ''no'', ''off''} then (False, None)
       else (fallback, Some (Plain (key @ '' must be a boolean'')))))"

definition env_bool :: "unicode_tables \<Rightarrow> env \<Rightarrow> string \<Rightarrow> bool \<Rightarrow> bool" where
  "env_bool U m key fallback = or_fallback fallback (boolStrict U m key fallback)"

definition parseCSV :: "string \<Rightarrow> string list" where
  "parseCSV raw = filter (\<lambda>v. v \<noteq> '''') (map trim_space (split_on (CHR '','') raw))"

definition env_csv :: "env \<Rightarrow> string \<Rightarrow> string \<Rightarrow> string list" where
  "env_csv m key fallback = parseCSV (env_string m key fallback)"

definition csvStrict :: "env \<Rightarrow> string \<Rightarrow> string \<Rightarrow> string list parsed" where
  "csvStrict m key fallback =
     (let raw = (case m key of None \<Rightarrow> fallback | Some v \<Rightarrow> v) in
      if m key \<noteq> None \<and> parseCSV raw = []
      then (parseCSV fallback, Some (Plain (key @ '' must contain at least one value'')))
      else (parseCSV raw, None))"

definition csvAllowEmpty :: "env \<Rightarrow> string \<Rightarrow> string \<Rightarrow> string list" where
  "csvAllowEmpty m key fallback = parseCSV (case m key of None \<Rightarrow> fallback | Some v \<Rightarrow> v)"

section \<open>The strict loader\<close>

record strict_loader =
  sl_err :: "go_error option"

definition newStrictLoader :: strict_loader where
  "newStrictLoader = \<lparr>sl_err = None\<rparr>"

definition record_error :: "go_error option \<Rightarrow> strict_loader \<Rightarrow> strict_loader" where
  "record_error err loader = (if sl_err loader = None \<and> err \<noteq> None then loader\<lparr>sl_err := err\<rparr> else loader)"

text \<open>Every method of the loader runs a strict parser and records its error.\<close>

definition loader_load :: "'a parsed \<Rightarrow> strict_loader \<Rightarrow> 'a \<times> strict_loader" where
  "loader_load p loader = (fst p, record_error (snd p) loader)"

section \<open>Properties\<close>

lemma max_int64_div:
  fixes k :: int
  assumes "0 < k"
  shows "n \<le> max_int64 div k \<longleftrightarrow> n * k \<le> max_int64"
proof
  assume "n \<le> max_int64 div k"
  then have "n * k \<le> max_int64 div k * k" using assms by (intro mult_right_mono) simp_all
  also have "\<dots> \<le> max_int64" using pos_mod_sign [OF assms, of max_int64] div_mult_mod_eq [of max_int64 k] by linarith
  finally show "n * k \<le> max_int64" .
next
  assume "n * k \<le> max_int64"
  from zdiv_mono1 [OF this assms] assms show "n \<le> max_int64 div k" by simp
qed

text \<open>What a strict parser returns without an error is in range, when the fallback is.\<close>

lemma parse_duration_range: "parse_duration product v = Some d \<Longrightarrow> d \<le> max_int64"
  by (auto simp: parse_duration_def two63_def max_int64_def Let_def split: list.split_asm if_split_asm option.split_asm)

lemma durationStrict_range:
  assumes "durationStrict product m key fallback = (d, e)" "0 < fallback" "fallback \<le> max_int64"
  shows "0 < d \<and> d \<le> max_int64"
proof -
  have "0 < n * second \<and> n * second \<le> max_int64" if "positive_seconds v = Some (n * second)" for v n
    using that by (auto simp: positive_seconds_def max_int64_div second_def split: option.split_asm if_split_asm)
  then have "0 < x \<and> x \<le> max_int64" if "positive_seconds v = Some x" for v x
    using that by (auto simp: positive_seconds_def max_int64_div second_def split: option.split_asm if_split_asm)
  moreover have "0 < x \<and> x \<le> max_int64 \<or> positive_seconds v = Some x" if "positive_duration product v = Some x" for v x
    using that parse_duration_range by (auto simp: positive_duration_def split: option.split_asm if_split_asm)
  ultimately show ?thesis
    using assms by (fastforce simp: durationStrict_def split: option.split_asm)
qed

lemma byteSizeStrict_range:
  assumes "byteSizeStrict U m key fallback = (n, e)" "0 < fallback" "fallback \<le> max_int64"
  shows "0 < n \<and> n \<le> max_int64"
proof -
  have k: "snd (size_parts s) > 0" for s
  proof -
    have "find (\<lambda>(suffix, k). has_suffix s suffix) multipliers = Some (suffix, k) \<Longrightarrow> k > 0" for suffix k
      by (auto simp: multipliers_def split: if_split_asm)
    then show ?thesis by (auto simp: size_parts_def split: option.split prod.split)
  qed
  have "0 < x * snd (size_parts s) \<and> x * snd (size_parts s) \<le> max_int64"
    if "\<not> x \<le> 0" "\<not> x > max_int64 div snd (size_parts s)" for x s
    using that max_int64_div [OF k [of s], of x] k [of s] by simp
  with assms show ?thesis
    unfolding byteSizeStrict_def Let_def split_beta by (auto split: option.split_asm if_split_asm)
qed

lemma has_suffix_iff: "has_suffix s p \<longleftrightarrow> (\<exists>t. s = t @ p)"
  unfolding has_suffix_def has_prefix_iff by (metis rev_append rev_rev_ident)

text \<open>A suffix without digits of digits and a unit is a suffix of the unit.\<close>

lemma digits_suffix:
  assumes "\<forall>c \<in> set ds. is_digit c" "\<forall>c \<in> set p. \<not> is_digit c"
  shows "has_suffix (ds @ u) p \<longleftrightarrow> has_suffix u p"
proof
  assume "has_suffix (ds @ u) p"
  then obtain t where "ds @ u = t @ p" by (auto simp: has_suffix_iff)
  then obtain us where "ds = t @ us \<and> us @ u = p \<or> ds @ us = t \<and> u = us @ p" by (auto simp: append_eq_append_conv2)
  then show "has_suffix u p"
  proof (elim disjE conjE)
    assume "ds = t @ us" "us @ u = p"
    with assms have "us = []" by (cases us) auto
    with \<open>us @ u = p\<close> show ?thesis by (auto simp: has_suffix_iff)
  qed (auto simp: has_suffix_iff)
qed (auto simp: has_suffix_iff)

lemma is_digit_nat_string: "c \<in> set (nat_string n) \<Longrightarrow> is_digit c"
  using nat_string_digits by (simp add: is_digit_def)

lemma digit_upper: "is_digit c \<Longrightarrow> ascii_upper c = c"
  by (simp add: is_digit_def ascii_upper_def)

lemma digits_visible: "\<forall>c \<in> set ds. is_digit c \<Longrightarrow> \<forall>c \<in> set ds. 33 \<le> byte c \<and> byte c \<le> 126"
  by (auto simp: is_digit_def)

lemma parse_int_nat_string: "parse_int (nat_string n) = (if int n \<le> max_int64 then Some (int n) else None)"
proof -
  obtain c t where ct: "nat_string n = c # t" by (meson list.exhaust nat_string_nonempty)
  then have "48 \<le> byte c" using nat_string_digits [of c n] by simp
  then have "c \<noteq> CHR ''-''" "c \<noteq> CHR ''+''" by auto
  then show ?thesis
    using ct parse_digits_nat_string [of n] by (simp add: parse_int_def in_int64_def min_int64_def)
qed

lemma blank_unit: "\<forall>x \<in> set (('''', 1) # multipliers). fst x = '''' \<longrightarrow> snd x = 1"
  by (simp add: multipliers_def)

lemma unit_found: "\<forall>x \<in> set (('''', 1) # multipliers).
    find (\<lambda>(p, j). has_suffix (fst x) p) multipliers = (if fst x = '''' then None else Some x)"
  by (simp add: multipliers_def has_suffix_def)

text \<open>How the upper-case text of a size is taken apart.\<close>

lemma size_parts_unit:
  assumes "\<forall>c \<in> set ds. is_digit c" "(u, k) \<in> set (('''', 1) # multipliers)"
  shows "size_parts (ds @ u) = (ds, k)"
proof -
  have letters: "\<forall>c \<in> set p. \<not> is_digit c" if "(p, j) \<in> set multipliers" for p j
    using that by (auto simp: multipliers_def is_digit_def)
  have find: "find (\<lambda>(p, j). has_suffix (ds @ u) p) ms = find (\<lambda>(p, j). has_suffix u p) ms"
    if "set ms \<subseteq> set multipliers" for ms
    using that
  proof (induction ms)
    case (Cons m ms)
    obtain p j where m: "m = (p, j)" by force
    have "has_suffix (ds @ u) p \<longleftrightarrow> has_suffix u p"
      by (rule digits_suffix [OF assms(1)]) (use Cons.prems letters m in auto)
    with Cons m show ?case by simp
  qed simp
  have "find (\<lambda>(p, j). has_suffix u p) multipliers = (if u = '''' then None else Some (u, k))"
    using bspec [OF unit_found assms(2)] by simp
  moreover have "trim_space ds = ds" by (rule trim_space_visible [OF digits_visible [OF assms(1)]])
  moreover have "u = '''' \<Longrightarrow> k = 1" using bspec [OF blank_unit assms(2)] by simp
  ultimately show ?thesis using find [of multipliers] by (simp add: size_parts_def)
qed

lemma upper_visible: "33 \<le> byte (ascii_upper c) \<and> byte (ascii_upper c) \<le> 96 \<Longrightarrow> 33 \<le> byte c \<and> byte c \<le> 126"
  by (simp add: byte_ascii_upper split: if_split_asm)

lemma unit_visible:
  assumes "(map ascii_upper u, k) \<in> set (('''', 1) # multipliers)" "c \<in> set u"
  shows "33 \<le> byte c \<and> byte c \<le> 126"
proof -
  have "\<forall>x \<in> set (('''', 1) # multipliers). \<forall>c \<in> set (fst x). 33 \<le> byte c \<and> byte c \<le> 96"
    by (simp add: multipliers_def)
  from bspec [OF this assms(1)] assms(2) show ?thesis by (intro upper_visible) simp
qed

text \<open>
  C32 Byte sizes: a positive number followed by one of the units in any mixture of cases, or by nothing, is
  read as the number of bytes it stands for exactly when that fits in 63 bits; otherwise the value is
  refused with an error that names the variable, and the fallback is kept.
\<close>

theorem byte_size_roundtrip:
  assumes "m key = Some (nat_string n @ u)" "0 < n" "(map ascii_upper u, k) \<in> set (('''', 1) # multipliers)"
  shows "byteSizeStrict U m key fallback = (if int n * k \<le> max_int64 then (int n * k, None)
     else (fallback, Some (Plain (key @ '' must be a positive, non-overflowing byte size''))))"
proof -
  let ?ds = "nat_string n"
  have ds: "\<forall>c \<in> set ?ds. is_digit c" using is_digit_nat_string by blast
  have visible: "\<forall>c \<in> set (?ds @ u). 33 \<le> byte c \<and> byte c \<le> 126"
    using digits_visible [OF ds] unit_visible [OF assms(3)] by auto
  have explicit: "explicit m key = Some (?ds @ u)"
    using trim_space_visible [OF visible] by (simp add: explicit_def assms(1))
  have "is_ascii (?ds @ u)" using visible by (force simp: is_ascii_def)
  then have "to_upper U (?ds @ u) = map ascii_upper (?ds @ u)" by (rule to_upper_ascii)
  also have "\<dots> = ?ds @ map ascii_upper u" using ds by (simp add: digit_upper map_idI)
  finally have parts: "size_parts (to_upper U (?ds @ u)) = (?ds, k)" using size_parts_unit [OF ds assms(3)] by simp
  have k: "0 < k" using assms(3) by (auto simp: multipliers_def)
  have n: "parse_int ?ds = (if int n \<le> max_int64 then Some (int n) else None)"
    by (rule parse_int_nat_string)
  have "int n \<le> max_int64" if "int n * k \<le> max_int64"
    using that k mult_left_mono [of 1 k "int n"] by simp
  then show ?thesis
    using k assms(2) max_int64_div [OF k, of "int n"]
    by (auto simp: byteSizeStrict_def explicit parts n)
qed

end
