(* ===== verification/StorageConfig.thy ===== *)
theory StorageConfig
  imports EnvConfig S3Config
begin

text \<open>
  The settings of the storage service, \<open>services/storage/internal/config/config.go\<close>, and how
  \<open>main\<close> hands them to the S3 client and the HTTP server.
\<close>

definition maxRuntimeDuration :: int where "maxRuntimeDuration = 24 * hour"

record service_config =
  sv_addr :: string
  sv_access_file :: string
  sv_region :: string
  sv_s3_endpoint :: string
  sv_presign_endpoint :: string
  sv_use_path_style :: bool
  sv_default_ttl :: int
  sv_max_ttl :: int
  sv_read_header_timeout :: int
  sv_read_timeout :: int
  sv_write_timeout :: int
  sv_idle_timeout :: int
  sv_shutdown_timeout :: int
  sv_check_timeout :: int
  sv_check_interval :: int

definition variable :: "string \<Rightarrow> string" where
  "variable name = ''STELLARMESH_STORAGE_'' @ name"

definition aws_region :: "env \<Rightarrow> string" where
  "aws_region m = (let region = trim_space (getenv m ''AWS_REGION'') in
     if region = '''' then trim_space (getenv m ''AWS_DEFAULT_REGION'') else region)"

text \<open>The fields, in the order in which the literal evaluates them, through one strict loader.\<close>

definition read_config ::
  "(nat \<Rightarrow> nat \<Rightarrow> nat \<Rightarrow> nat) \<Rightarrow> unicode_tables \<Rightarrow> env \<Rightarrow> service_config \<times> strict_loader" where
  "read_config product U m =
     (let region = aws_region m;
          addr = env_string m (variable ''ADDR'') '':8090'';
          access_file = env_string m (variable ''ACCESS_FILE'') '''';
          endpoint = env_string m (variable ''ENDPOINT'') '''';
          presign_endpoint = env_string m (variable ''PRESIGN_ENDPOINT'') '''';
          duration = (\<lambda>name fallback. loader_load (durationStrict product m (variable name) fallback));
          (path_style, l) = loader_load (boolStrict U m (variable ''USE_PATH_STYLE'') False) newStrictLoader;
          (default_ttl, l) = duration ''DEFAULT_PRESIGN_TTL'' (15 * minute) l;
          (max_ttl, l) = duration ''MAX_PRESIGN_TTL'' hour l;
          (read_header, l) = duration ''READ_HEADER_TIMEOUT'' (5 * second) l;
          (read_timeout, l) = duration ''READ_TIMEOUT'' (10 * second) l;
          (write_timeout, l) = duration ''WRITE_TIMEOUT'' (15 * second) l;
          (idle_timeout, l) = duration ''IDLE_TIMEOUT'' (60 * second) l;
          (shutdown_timeout, l) = duration ''SHUTDOWN_TIMEOUT'' (10 * second) l;
          (check_timeout, l) = duration ''S3_CHECK_TIMEOUT'' (5 * second) l;
          (check_interval, l) = duration ''S3_CHECK_INTERVAL'' (30 * second) l in
      (\<lparr>sv_addr = addr, sv_access_file = access_file, sv_region = region, sv_s3_endpoint = endpoint,
        sv_presign_endpoint = presign_endpoint, sv_use_path_style = path_style, sv_default_ttl = default_ttl,
        sv_max_ttl = max_ttl, sv_read_header_timeout = read_header, sv_read_timeout = read_timeout,
        sv_write_timeout = write_timeout, sv_idle_timeout = idle_timeout, sv_shutdown_timeout = shutdown_timeout,
        sv_check_timeout = check_timeout, sv_check_interval = check_interval\<rparr>, l))"

definition runtime_settings :: "service_config \<Rightarrow> (string \<times> int) list" where
  "runtime_settings cfg = [(''read header timeout'', sv_read_header_timeout cfg), (''read timeout'', sv_read_timeout cfg),
     (''write timeout'', sv_write_timeout cfg), (''idle timeout'', sv_idle_timeout cfg),
     (''shutdown timeout'', sv_shutdown_timeout cfg), (''S3 check timeout'', sv_check_timeout cfg),
     (''S3 check interval'', sv_check_interval cfg)]"

fun check_settings :: "(string \<times> int) list \<Rightarrow> unit result" where
  "check_settings [] = Inr ()"
| "check_settings ((name, v) # settings) =
     (if v \<le> 0 \<or> v > maxRuntimeDuration then Inl (Plain (''storage '' @ name @ '' is outside supported bounds''))
      else check_settings settings)"

definition loadConfig ::
  "(nat \<Rightarrow> nat \<Rightarrow> nat \<Rightarrow> nat) \<Rightarrow> unicode_tables \<Rightarrow> env \<Rightarrow> service_config result" where
  "loadConfig product U m =
     (let (cfg, loader) = read_config product U m in
      case sl_err loader of
        Some err \<Rightarrow> Inl err
      | None \<Rightarrow>
          if sv_access_file cfg = '''' then Inl (Plain ''STELLARMESH_STORAGE_ACCESS_FILE is required'')
          else if sv_region cfg = '''' then Inl (Plain ''AWS_REGION or AWS_DEFAULT_REGION is required'')
          else if sv_presign_endpoint cfg \<noteq> '''' \<and> sv_s3_endpoint cfg = ''''
          then Inl (Plain ''STELLARMESH_STORAGE_PRESIGN_ENDPOINT requires STELLARMESH_STORAGE_ENDPOINT'')
          else if sv_default_ttl cfg < minPresignTTL \<or> sv_default_ttl cfg > maxPresignTTL
              \<or> sv_max_ttl cfg < minPresignTTL \<or> sv_max_ttl cfg > maxPresignTTL \<or> sv_default_ttl cfg > sv_max_ttl cfg
          then Inl (Plain ''storage presign TTL settings are outside supported bounds'')
          else and_then (check_settings (runtime_settings cfg)) (\<lambda>u. Inr cfg))"

text \<open>\<open>HTTPServerConfig\<close> and \<open>server.New\<close>: the limits of the HTTP server.\<close>

record http_server =
  hs_addr :: string
  hs_read_header_timeout :: int
  hs_read_timeout :: int
  hs_write_timeout :: int
  hs_idle_timeout :: int

definition httpServerConfig :: "service_config \<Rightarrow> http_server" where
  "httpServerConfig cfg = \<lparr>hs_addr = sv_addr cfg, hs_read_header_timeout = sv_read_header_timeout cfg,
     hs_read_timeout = sv_read_timeout cfg, hs_write_timeout = sv_write_timeout cfg, hs_idle_timeout = sv_idle_timeout cfg\<rparr>"

definition newHTTPServer :: "http_server \<Rightarrow> 'h \<Rightarrow> http_server \<times> 'h" where
  "newHTTPServer cfg handler = (\<lparr>hs_addr = hs_addr cfg, hs_read_header_timeout = hs_read_header_timeout cfg,
     hs_read_timeout = hs_read_timeout cfg, hs_write_timeout = hs_write_timeout cfg, hs_idle_timeout = hs_idle_timeout cfg\<rparr>,
     handler)"

text \<open>The configuration \<open>main\<close> gives to the S3 client of a namespace.\<close>

definition namespace_s3_config :: "service_config \<Rightarrow> bucket_namespace \<Rightarrow> s3_config" where
  "namespace_s3_config cfg namespace = \<lparr>sc_region = sv_region cfg, sc_namespace = namespace, sc_endpoint = sv_s3_endpoint cfg,
     sc_presign_endpoint = sv_presign_endpoint cfg, sc_path_style = sv_use_path_style cfg,
     sc_default_ttl = sv_default_ttl cfg, sc_max_ttl = sv_max_ttl cfg\<rparr>"

section \<open>Properties\<close>

lemma check_settings_ok:
  "check_settings settings = Inr u \<longleftrightarrow> (\<forall>(name, v) \<in> set settings. 0 < v \<and> v \<le> maxRuntimeDuration)"
  by (induction settings rule: check_settings.induct) auto

lemma record_error_None: "sl_err (record_error e l) = None \<longleftrightarrow> sl_err l = None \<and> e = None"
  by (auto simp: record_error_def)

text \<open>
  Without an error of the loader, no variable the service reads through it was set to a value its parser
  refuses: every field is the parsed variable.
\<close>

definition parsed_ok :: "'a parsed \<Rightarrow> 'a \<Rightarrow> bool" where
  "parsed_ok p v \<longleftrightarrow> p = (v, None)"

lemma parsed_ok_load: "loader_load p l = (v, l') \<Longrightarrow> sl_err l' = None \<Longrightarrow> parsed_ok p v \<and> sl_err l = None"
  by (cases p) (auto simp: loader_load_def parsed_ok_def record_error_None)

definition duration_setting ::
  "(nat \<Rightarrow> nat \<Rightarrow> nat \<Rightarrow> nat) \<Rightarrow> env \<Rightarrow> string \<Rightarrow> int \<Rightarrow> int \<Rightarrow> bool" where
  "duration_setting product m name fallback v \<longleftrightarrow> parsed_ok (durationStrict product m (variable name) fallback) v"

lemma read_config_ok:
  assumes "read_config product U m = (cfg, l)" "sl_err l = None"
  shows "parsed_ok (boolStrict U m (variable ''USE_PATH_STYLE'') False) (sv_use_path_style cfg)
    \<and> duration_setting product m ''DEFAULT_PRESIGN_TTL'' (15 * minute) (sv_default_ttl cfg)
    \<and> duration_setting product m ''MAX_PRESIGN_TTL'' hour (sv_max_ttl cfg)
    \<and> duration_setting product m ''READ_HEADER_TIMEOUT'' (5 * second) (sv_read_header_timeout cfg)
    \<and> duration_setting product m ''READ_TIMEOUT'' (10 * second) (sv_read_timeout cfg)
    \<and> duration_setting product m ''WRITE_TIMEOUT'' (15 * second) (sv_write_timeout cfg)
    \<and> duration_setting product m ''IDLE_TIMEOUT'' (60 * second) (sv_idle_timeout cfg)
    \<and> duration_setting product m ''SHUTDOWN_TIMEOUT'' (10 * second) (sv_shutdown_timeout cfg)
    \<and> duration_setting product m ''S3_CHECK_TIMEOUT'' (5 * second) (sv_check_timeout cfg)
    \<and> duration_setting product m ''S3_CHECK_INTERVAL'' (30 * second) (sv_check_interval cfg)"
  using assms unfolding read_config_def Let_def loader_load_def duration_setting_def parsed_ok_def
  by (simp add: record_error_None split_beta prod_eq_iff) (auto simp: record_error_None)

text \<open>
  Start-up: settings that load are complete and within their bounds, no variable that was read was set to
  a value its parser refuses, the HTTP server has no unlimited timeout, and an S3 client can be configured
  with them for every namespace: what can still be wrong is the namespace, an endpoint or a region with
  white space inside its trimmed ends.
\<close>

theorem storage_config_sound:
  assumes "loadConfig product U m = Inr cfg"
  shows "sv_access_file cfg \<noteq> '''' \<and> (\<forall>(name, v) \<in> set (runtime_settings cfg). 0 < v \<and> v \<le> 24 * hour)
    \<and> duration_setting product m ''MAX_PRESIGN_TTL'' hour (sv_max_ttl cfg)
    \<and> duration_setting product m ''DEFAULT_PRESIGN_TTL'' (15 * minute) (sv_default_ttl cfg)
    \<and> (let server = fst (newHTTPServer (httpServerConfig cfg) h) in
        0 < hs_read_header_timeout server \<and> 0 < hs_read_timeout server \<and> 0 < hs_write_timeout server \<and> 0 < hs_idle_timeout server)
    \<and> (\<forall>ns ns'. normalizeNamespace ns = Inr ns' \<and> trim_space (sv_region cfg) = sv_region cfg
        \<and> endpoint_ok url_parse (sv_s3_endpoint cfg) \<and> endpoint_ok url_parse (sv_presign_endpoint cfg)
        \<longrightarrow> normalizeConfig url_parse (namespace_s3_config cfg ns) = Inr (namespace_s3_config cfg ns'))"
proof -
  obtain l where read: "read_config product U m = (cfg, l)" "sl_err l = None"
    and checks: "sv_access_file cfg \<noteq> ''''" "sv_region cfg \<noteq> ''''" "\<not> (sv_presign_endpoint cfg \<noteq> '''' \<and> sv_s3_endpoint cfg = '''')"
      "minPresignTTL \<le> sv_default_ttl cfg" "sv_default_ttl cfg \<le> sv_max_ttl cfg" "sv_max_ttl cfg \<le> maxPresignTTL"
      "check_settings (runtime_settings cfg) = Inr ()"
    using assms unfolding loadConfig_def Let_def
    by (auto simp: and_then_eq_Inr split: prod.split_asm option.split_asm if_split_asm)
  have settings: "\<forall>(name, v) \<in> set (runtime_settings cfg). 0 < v \<and> v \<le> 24 * hour"
    using checks(7) unfolding check_settings_ok maxRuntimeDuration_def .
  moreover have "let server = fst (newHTTPServer (httpServerConfig cfg) h) in
        0 < hs_read_header_timeout server \<and> 0 < hs_read_timeout server \<and> 0 < hs_write_timeout server \<and> 0 < hs_idle_timeout server"
    using settings by (simp add: runtime_settings_def newHTTPServer_def httpServerConfig_def)
  moreover have "normalizeConfig url_parse (namespace_s3_config cfg ns) = Inr (namespace_s3_config cfg ns')"
    if "normalizeNamespace ns = Inr ns'" "trim_space (sv_region cfg) = sv_region cfg"
      "endpoint_ok url_parse (sv_s3_endpoint cfg)" "endpoint_ok url_parse (sv_presign_endpoint cfg)" for ns ns'
    using that checks by (auto simp: normalizeConfig_def namespace_s3_config_def Let_def minPresignTTL_def minute_def second_def)
  ultimately show ?thesis using read_config_ok [OF read] checks(1) by blast
qed

end
