(* ===== verification/StorageStart.thy ===== *)
theory StorageStart
  imports StorageConfig AccessPolicy
begin

text \<open>
  The start of the storage service: \<open>run\<close> of \<open>services/storage/cmd/server/main.go\<close> up to the registry. The
  configuration is loaded, the access file decoded, the AWS configuration loaded, and one S3 client built
  per namespace of the policy, in the order in which the map of namespaces is visited; the first failure
  ends the start. The file system, the JSON decoder and the AWS loader are arguments.
  Messages that the source writes in Chinese are given in English.
\<close>

section \<open>Starting\<close>

datatype start_failure = Failed go_error | StoreFailed "go_error + storage_error"

text \<open>\<open>errors.Join\<close> of the errors that are not nil.\<close>

definition errors_join :: "go_error option list \<Rightarrow> go_error option" where
  "errors_join errs = (case concat (map (\<lambda>e. case e of None \<Rightarrow> [] | Some x \<Rightarrow> [x]) errs) of
     [] \<Rightarrow> None
   | es \<Rightarrow> Some (Wrap (join [CHR 0x0A] (map error_text es)) es))"

text \<open>An opened file: what it holds and the error of closing it.\<close>

definition read_policy ::
  "(string \<Rightarrow> policy result) \<Rightarrow> (string \<Rightarrow> (string \<times> go_error option) result) \<Rightarrow> string \<Rightarrow> start_failure + policy" where
  "read_policy decode open_file path = (case open_file path of
     Inl err \<Rightarrow> Inl (Failed (Wrap (''open storage access file: '' @ error_text err) [err]))
   | Inr (contents, close_err) \<Rightarrow> (case decode contents of
       Inl err \<Rightarrow> Inl (Failed (the (errors_join [Some err, close_err])))
     | Inr policy \<Rightarrow> (case close_err of
         Some err \<Rightarrow> Inl (Failed (the (errors_join [None, Some err])))
       | None \<Rightarrow> Inr policy)))"

fun build_stores ::
  "(string \<Rightarrow> url option) \<Rightarrow> aws_loader \<Rightarrow> s3_option list \<Rightarrow> service_config \<Rightarrow> policy \<Rightarrow> string list \<Rightarrow>
   start_failure + (string \<times> s3_parts) list" where
  "build_stores url_parse loader options cfg p [] = Inr []"
| "build_stores url_parse loader options cfg p (name # names) = (case po_namespaces p name of
     None \<Rightarrow> build_stores url_parse loader options cfg p names
   | Some ns \<Rightarrow> (case newS3Store url_parse loader (namespace_s3_config cfg ns) options of
       Inl err \<Rightarrow> Inl (StoreFailed err)
     | Inr store \<Rightarrow> and_then (build_stores url_parse loader options cfg p names) (\<lambda>stores. Inr ((name, store) # stores))))"

record start_env =
  sx_product :: "nat \<Rightarrow> nat \<Rightarrow> nat \<Rightarrow> nat"
  sx_unicode :: unicode_tables
  sx_open :: "string \<Rightarrow> (string \<times> go_error option) result"
  sx_decode :: "string \<Rightarrow> policy result"
  sx_loader :: aws_loader
  sx_url_parse :: "string \<Rightarrow> url option"
  sx_metrics :: go_any

definition start_service ::
  "start_env \<Rightarrow> env \<Rightarrow> string list \<Rightarrow> start_failure + (service_config \<times> policy \<times> (string \<times> s3_parts) list)" where
  "start_service X m names = (case loadConfig (sx_product X) (sx_unicode X) m of
     Inl err \<Rightarrow> Inl (Failed err)
   | Inr cfg \<Rightarrow> and_then (read_policy (sx_decode X) (sx_open X) (sv_access_file cfg)) (\<lambda>p.
       case al_default (sx_loader X) (sv_region cfg) None None of
         Inl err \<Rightarrow> Inl (Failed (Wrap (''load AWS configuration: '' @ error_text err) [err]))
       | Inr aws \<Rightarrow>
           and_then (build_stores (sx_url_parse X) (sx_loader X) [WithAWSConfig aws, WithObserver (Some (Some (sx_metrics X)))] cfg p names)
             (\<lambda>stores. Inr (cfg, p, stores))))"

section \<open>The process\<close>

text \<open>
  \<open>main\<close>: the error records it logs and the exit status, from the error of the logger and the outcome of
  \<open>run\<close>, which is not called when the logging configuration is invalid.
\<close>

definition storage_main :: "go_error option \<Rightarrow> go_error option \<Rightarrow> (string \<times> go_error) list \<times> int" where
  "storage_main logger_err run_err = (case logger_err of
     Some err \<Rightarrow> ([(''invalid logging configuration'', err)], 1)
   | None \<Rightarrow> (case run_err of
       Some err \<Rightarrow> ([(''storage service failed'', err)], 1)
     | None \<Rightarrow> ([], 0)))"

lemma storage_main_status:
  "snd (storage_main logger_err run_err) = 0 \<longleftrightarrow> logger_err = None \<and> run_err = None"
  "snd (storage_main logger_err run_err) = 0 \<longleftrightarrow> fst (storage_main logger_err run_err) = []"
  by (auto simp: storage_main_def split: option.split)

section \<open>What a started service has\<close>

lemma case_eq_Inr: "(case r of Inl e \<Rightarrow> Inl (f e) | Inr a \<Rightarrow> g a) = Inr b \<longleftrightarrow> (\<exists>a. r = Inr a \<and> g a = Inr b)"
  by (cases r) auto

lemma normal_namespace_kept:
  assumes "normalizeNamespace ns = Inr ns'" "normal_namespace ns"
  shows "ns' = ns"
proof (cases "ns_prefix ns = ''''")
  case True
  with assms(1) show ?thesis
    by (cases ns) (auto simp: normalizeNamespace_def Let_def trim_right_slashes_def split: if_split_asm)
next
  case False
  then obtain p where p: "ns_prefix ns = p @ ''/''" "p \<noteq> []" "last p \<noteq> CHR ''/''"
    using assms(2) by (auto simp: normal_namespace_def)
  then have "trim_right_slashes (ns_prefix ns) = p"
    by (cases p rule: rev_cases) (simp_all add: trim_right_slashes_def)
  with assms(1) p(1,2) show ?thesis
    by (cases ns) (auto simp: normalizeNamespace_def Let_def split: if_split_asm)
qed

lemma compile_namespaces_normal:
  "compile_namespaces es m = Inr m' \<Longrightarrow> \<forall>name ns. m name = Some ns \<longrightarrow> normal_namespace ns \<Longrightarrow>
     m' name = Some ns \<Longrightarrow> normal_namespace ns"
  by (induction es m rule: compile_namespaces.induct)
    (auto dest: normalizeNamespace_normal split: if_split_asm sum.split_asm)

lemma compilePolicy_normal:
  "compilePolicy digest config = Inr p \<Longrightarrow> po_namespaces p name = Some ns \<Longrightarrow> normal_namespace ns"
  using compile_namespaces_normal [of "ac_namespaces config" Map.empty] by (auto simp: compilePolicy_def and_then_eq_Inr split: if_split_asm)

lemma newS3Store_namespace:
  assumes "newS3Store url_parse loader (namespace_s3_config cfg ns) options = Inr store" "normal_namespace ns"
  shows "sc_namespace (sp_config store) = ns \<and> sc_region (sp_config store) = sv_region cfg
    \<and> sc_endpoint (sp_config store) = sv_s3_endpoint cfg \<and> sc_path_style (sp_config store) = sv_use_path_style cfg"
proof -
  obtain c where c: "normalizeConfig url_parse (namespace_s3_config cfg ns) = Inr c" "sp_config store = c"
    using assms(1) by (auto simp: newS3Store_def and_then_eq_Inr case_eq_Inr Let_def)
  obtain ns' where ns': "normalizeNamespace ns = Inr ns'"
    using c(1) by (auto simp: normalizeConfig_def namespace_s3_config_def split: if_split_asm sum.split_asm)
  have "sc_namespace c = ns \<and> sc_region c = sv_region cfg \<and> sc_endpoint c = sv_s3_endpoint cfg \<and> sc_path_style c = sv_use_path_style cfg"
    using c(1) ns' normal_namespace_kept [OF ns' assms(2)]
    by (auto simp: normalizeConfig_def namespace_s3_config_def Let_def split: if_split_asm)
  then show ?thesis by (simp add: c(2))
qed

lemma build_stores_ok:
  "build_stores url_parse loader options cfg p names = Inr stores \<Longrightarrow>
     (\<forall>name ns. po_namespaces p name = Some ns \<longrightarrow> normal_namespace ns) \<Longrightarrow>
     map fst stores = filter (\<lambda>name. po_namespaces p name \<noteq> None) names
     \<and> (\<forall>(name, store) \<in> set stores. po_namespaces p name = Some (sc_namespace (sp_config store)) \<and> sc_region (sp_config store) = sv_region cfg)"
proof (induction names arbitrary: stores)
  case (Cons name names)
  show ?case
  proof (cases "po_namespaces p name")
    case (Some ns)
    with Cons.prems(1) obtain store rest where s: "newS3Store url_parse loader (namespace_s3_config cfg ns) options = Inr store"
        "build_stores url_parse loader options cfg p names = Inr rest" "stores = (name, store) # rest"
      by (auto simp: and_then_eq_Inr split: sum.split_asm)
    have "normal_namespace ns" using Cons.prems(2) Some by blast
    with newS3Store_namespace [OF s(1)] Cons.IH [OF s(2) Cons.prems(2)] Some s(3) show ?thesis by simp
  qed (use Cons in auto)
qed simp

text \<open>
  C40 Start: the service starts only with a sound configuration, a policy that compiles, and one S3 client for
  every namespace of the policy, bound to exactly the bucket and prefix the policy gives that namespace; any
  failure before that, the closing of the access file included, ends the start.
\<close>

theorem service_start_sound:
  assumes "start_service X m names = Inr (cfg, p, stores)"
    "sx_decode X = decodePolicy json_decode json_next digest" "set names = dom (po_namespaces p)"
  shows "fst ` set stores = dom (po_namespaces p)
    \<and> (\<forall>(name, store) \<in> set stores. po_namespaces p name = Some (sc_namespace (sp_config store))
        \<and> normal_namespace (sc_namespace (sp_config store)) \<and> sc_region (sp_config store) = sv_region cfg)
    \<and> (\<exists>config. compilePolicy digest config = Inr p) \<and> (\<exists>contents. sx_open X (sv_access_file cfg) = Inr (contents, None))
    \<and> loadConfig (sx_product X) (sx_unicode X) m = Inr cfg"
proof -
  obtain aws where start: "loadConfig (sx_product X) (sx_unicode X) m = Inr cfg"
      "read_policy (sx_decode X) (sx_open X) (sv_access_file cfg) = Inr p"
      "build_stores (sx_url_parse X) (sx_loader X) [WithAWSConfig aws, WithObserver (Some (Some (sx_metrics X)))] cfg p names = Inr stores"
    using assms(1) by (auto simp: start_service_def and_then_eq_Inr case_eq_Inr)
  obtain contents where opened: "sx_open X (sv_access_file cfg) = Inr (contents, None)" "sx_decode X contents = Inr p"
    using start(2) by (auto simp: read_policy_def split: sum.split_asm option.split_asm)
  obtain config where config: "compilePolicy digest config = Inr p"
    using opened(2) unfolding assms(2) by (auto simp: decodePolicy_def split: sum.split_asm json_tail.split_asm)
  note stores = build_stores_ok [OF start(3)] compilePolicy_normal [OF config]
  have "fst ` set stores = dom (po_namespaces p)"
    using stores assms(3) by (auto simp flip: list.set_map)
  moreover have "po_namespaces p name = Some (sc_namespace (sp_config store)) \<and> normal_namespace (sc_namespace (sp_config store))
      \<and> sc_region (sp_config store) = sv_region cfg" if "(name, store) \<in> set stores" for name store
    using stores that by blast
  ultimately show ?thesis using config opened start(1) by blast
qed

end
