(* ===== verification/ConfigExamples.thy ===== *)
theory ConfigExamples
  imports StorageConfig
begin

text \<open>The environment properties at concrete variables.\<close>

lemma nat_string_16: "nat_string 16 = ''16''"
  by code_simp

definition size_env :: env where "size_env = [''LIMIT'' \<mapsto> ''16MiB'']"

theorem byte_size_roundtrip_witness: "byteSizeStrict ascii_tables size_env ''LIMIT'' 1 = (16777216, None)"
proof -
  have "size_env ''LIMIT'' = Some (nat_string 16 @ ''MiB'')" by (simp add: size_env_def nat_string_16)
  moreover have "map ascii_upper ''MiB'' = ''MIB''" by code_simp
  then have "(map ascii_upper ''MiB'', 2 ^ 20) \<in> set (('''', 1) # multipliers)" unfolding multipliers_def by simp
  ultimately show ?thesis
    using byte_size_roundtrip [of size_env "''LIMIT''" 16 "''MiB''" "2 ^ 20" ascii_tables 1] by (simp add: max_int64_def)
qed

definition start_env :: env where
  "start_env = [''STELLARMESH_STORAGE_ACCESS_FILE'' \<mapsto> ''/etc/access.json'', ''AWS_REGION'' \<mapsto> ''eu'',
     ''STELLARMESH_STORAGE_MAX_PRESIGN_TTL'' \<mapsto> ''30m'']"

definition no_fraction :: "nat \<Rightarrow> nat \<Rightarrow> nat \<Rightarrow> nat" where "no_fraction f unit k = 0"

lemma thirty_minutes: "parse_duration no_fraction ''30m'' = Some (30 * minute)"
  by (simp add: parse_duration_def duration_items.simps duration_item_def number_char_def is_digit_def two63_def unit_map_def
      minute_def second_def)

lemma demo_explicit:
  "explicit start_env (variable ''MAX_PRESIGN_TTL'') = Some ''30m''"
  "name \<in> {''DEFAULT_PRESIGN_TTL'', ''READ_HEADER_TIMEOUT'', ''READ_TIMEOUT'', ''WRITE_TIMEOUT'', ''IDLE_TIMEOUT'',
     ''SHUTDOWN_TIMEOUT'', ''S3_CHECK_TIMEOUT'', ''S3_CHECK_INTERVAL''} \<Longrightarrow> explicit start_env (variable name) = None"
  by (auto simp: explicit_def start_env_def variable_def trim_space_visible)

lemma demo_strings:
  "aws_region start_env = ''eu''" "env_string start_env (variable ''ACCESS_FILE'') fallback = ''/etc/access.json''"
  "env_string start_env (variable ''ADDR'') fallback = fallback" "env_string start_env (variable ''ENDPOINT'') fallback = fallback"
  "env_string start_env (variable ''PRESIGN_ENDPOINT'') fallback = fallback" "start_env (variable ''USE_PATH_STYLE'') = None"
  by (simp_all add: aws_region_def env_string_def getenv_def start_env_def variable_def trim_space_visible)

lemma demo_loads: "\<exists>cfg. loadConfig no_fraction ascii_tables start_env = Inr cfg \<and> sv_max_ttl cfg = 30 * minute"
  by (simp add: loadConfig_def read_config_def loader_load_def durationStrict_def demo_explicit demo_strings boolStrict_def
      positive_duration_def thirty_minutes record_error_def newStrictLoader_def runtime_settings_def maxRuntimeDuration_def
      minPresignTTL_def maxPresignTTL_def hour_def minute_def second_def)

theorem storage_config_sound_witness:
  "\<exists>cfg. loadConfig no_fraction ascii_tables start_env = Inr cfg
     \<and> 0 < hs_write_timeout (fst (newHTTPServer (httpServerConfig cfg) ()))"
proof -
  obtain cfg where cfg: "loadConfig no_fraction ascii_tables start_env = Inr cfg" using demo_loads by blast
  from storage_config_sound [OF this, of "()" "\<lambda>s. None"] have "0 < hs_write_timeout (fst (newHTTPServer (httpServerConfig cfg) ()))"
    unfolding Let_def by blast
  with cfg show ?thesis by blast
qed

end
