(* ===== verification/StartExamples.thy ===== *)
theory StartExamples
  imports StorageStart ConfigExamples StorageExamples
begin

text \<open>A start of the storage service with one namespace.\<close>

definition start_loader :: aws_loader where
  "start_loader = \<lparr>al_default = (\<lambda>region credentials client. Inr ex_aws), al_cache = id\<rparr>"

definition ex_start :: start_env where
  "ex_start = \<lparr>sx_product = no_fraction, sx_unicode = ascii_tables, sx_open = (\<lambda>path. Inr (''{}'', None)),
     sx_decode = decodePolicy (\<lambda>s. Inr (ex_access, '''')) (\<lambda>s. TailEOF) id, sx_loader = start_loader,
     sx_url_parse = (\<lambda>s. None), sx_metrics = undefined\<rparr>"

lemma ex_normal_again:
  "normalizeNamespace \<lparr>ns_bucket = ''bucket'', ns_prefix = ''docs/''\<rparr> = Inr \<lparr>ns_bucket = ''bucket'', ns_prefix = ''docs/''\<rparr>"
  by (simp add: normalizeNamespace_def trim_right_slashes_def maxObjectKeyBytes_def ascii_text)

lemma start_config:
  "\<exists>cfg. loadConfig no_fraction ascii_tables start_env = Inr cfg \<and> sv_region cfg = ''eu'' \<and> sv_s3_endpoint cfg = ''''
     \<and> sv_presign_endpoint cfg = '''' \<and> sv_default_ttl cfg = 15 * minute \<and> sv_max_ttl cfg = 30 * minute"
  by (simp add: loadConfig_def read_config_def loader_load_def durationStrict_def demo_explicit demo_strings boolStrict_def
      positive_duration_def thirty_minutes record_error_def newStrictLoader_def runtime_settings_def maxRuntimeDuration_def
      minPresignTTL_def maxPresignTTL_def hour_def minute_def second_def)

lemma ex_options:
  "apply_s3_options [WithAWSConfig aws, WithObserver (Some (Some metrics))]
     \<lparr>os_used = [], os_aws_config = None, os_credentials = None, os_http_client = None, os_observer = None\<rparr>
   = Inr \<lparr>os_used = [''observer'', ''aws-config''], os_aws_config = Some aws, os_credentials = None, os_http_client = None,
       os_observer = Some metrics\<rparr>"
  by (simp add: s3_option_apply_def isNil_def interface_of_def)

lemma ex_store_built:
  assumes "sv_region cfg = ''eu''" "sv_s3_endpoint cfg = ''''" "sv_presign_endpoint cfg = ''''" "sv_default_ttl cfg = 15 * minute"
    "sv_max_ttl cfg = 30 * minute"
  shows "\<exists>store. newS3Store (\<lambda>s. None) start_loader (namespace_s3_config cfg \<lparr>ns_bucket = ''bucket'', ns_prefix = ''docs/''\<rparr>)
    [WithAWSConfig aws, WithObserver (Some (Some metrics))] = Inr store"
proof -
  have region: "trim_space ''eu'' = ''eu''" by (simp add: trim_space_visible)
  have "normalizeConfig (\<lambda>s. None) (namespace_s3_config cfg \<lparr>ns_bucket = ''bucket'', ns_prefix = ''docs/''\<rparr>)
      = Inr (namespace_s3_config cfg \<lparr>ns_bucket = ''bucket'', ns_prefix = ''docs/''\<rparr>)"
    by (simp add: normalizeConfig_def namespace_s3_config_def assms region ex_normal_again endpoint_ok_def minPresignTTL_def
        maxPresignTTL_def hour_def minute_def second_def)
  then show ?thesis unfolding newS3Store_def by (simp add: ex_options loadAWSConfig_def Let_def namespace_s3_config_def assms del: apply_s3_options.simps)
qed

theorem service_start_sound_witness:
  "\<exists>cfg store. start_service ex_start start_env [''docs''] = Inr (cfg, ex_policy, [(''docs'', store)])
     \<and> sc_namespace (sp_config store) = \<lparr>ns_bucket = ''bucket'', ns_prefix = ''docs/''\<rparr>"
proof -
  obtain cfg where cfg: "loadConfig no_fraction ascii_tables start_env = Inr cfg" and parts: "sv_region cfg = ''eu''"
      "sv_s3_endpoint cfg = ''''" "sv_presign_endpoint cfg = ''''" "sv_default_ttl cfg = 15 * minute" "sv_max_ttl cfg = 30 * minute"
    using start_config by blast
  obtain store where store: "newS3Store (\<lambda>s. None) start_loader (namespace_s3_config cfg \<lparr>ns_bucket = ''bucket'', ns_prefix = ''docs/''\<rparr>)
    [WithAWSConfig ex_aws, WithObserver (Some (Some undefined))] = Inr store" using ex_store_built [OF parts] by blast
  have start: "start_service ex_start start_env [''docs''] = Inr (cfg, ex_policy, [(''docs'', store)])"
    using cfg store
    by (simp add: start_service_def ex_start_def read_policy_def decodePolicy_def ex_compiles start_loader_def ex_policy_def)
  have "set [''docs''] = dom (po_namespaces ex_policy)" by (simp add: ex_policy_def)
  from service_start_sound [OF start _ this, of "\<lambda>s. Inr (ex_access, '''')" "\<lambda>s. TailEOF" id]
  have "po_namespaces ex_policy ''docs'' = Some (sc_namespace (sp_config store))" by (simp add: ex_start_def)
  with start show ?thesis by (auto simp: ex_policy_def)
qed

end
