(* ===== verification/RedisScript.thy ===== *)
theory RedisScript
  imports Complex_Main Prelude
begin

text \<open>
  The Lua token bucket of \<open>sdk/go/gateway/redislimit/limiter.go\<close> (\<open>tokenBucketScript\<close>) on the Redis keys
  it touches. A script runs atomically at one instant of Redis's clock, in milliseconds; a key whose
  expiry has passed is gone when it starts. Lua's numbers are doubles: every operation is the exact one
  followed by \<open>rnd\<close>, the rounding of the machine, which is an argument. The text of a number, in which
  it is stored in the hash, is read back as the same number (Redis writes 17 digits).
\<close>

section \<open>Redis\<close>

text \<open>The two fields of the hash, each \<open>None\<close> when it is missing or no number, or a key of another type.\<close>

datatype limit_value = Bucket "rat option" "rat option" | OtherType

type_synonym limit_db = "string \<rightharpoonup> limit_value \<times> int option"

definition drop_expired :: "int \<Rightarrow> string \<Rightarrow> limit_db \<Rightarrow> limit_db" where
  "drop_expired clock key db = (case db key of
     Some (v, Some e) \<Rightarrow> if e < clock then db(key := None) else db
   | other \<Rightarrow> db)"

definition hset_bucket :: "string \<Rightarrow> rat \<Rightarrow> rat \<Rightarrow> limit_db \<Rightarrow> limit_db" where
  "hset_bucket key tokens updated db =
     db(key \<mapsto> (Bucket (Some tokens) (Some updated), case db key of None \<Rightarrow> None | Some (v, e) \<Rightarrow> e))"

text \<open>\<open>PEXPIRE\<close> with a time that is not positive deletes the key.\<close>

definition pexpire :: "int \<Rightarrow> string \<Rightarrow> int \<Rightarrow> limit_db \<Rightarrow> limit_db" where
  "pexpire clock key ttl db = (case db key of
     None \<Rightarrow> db
   | Some (v, e) \<Rightarrow> if ttl \<le> 0 then db(key := None) else db(key \<mapsto> (v, Some (clock + ttl))))"

section \<open>The script\<close>

text \<open>The tokens and the instant that are read, a full bucket where one of them is missing.\<close>

definition stored_bucket :: "rat \<Rightarrow> rat \<Rightarrow> string \<Rightarrow> limit_db \<Rightarrow> rat \<times> rat" where
  "stored_bucket burst now key db = (case db key of
     Some (Bucket (Some tokens) (Some updated), e) \<Rightarrow> (tokens, updated)
   | other \<Rightarrow> (burst, now))"

definition refill :: "(rat \<Rightarrow> rat) \<Rightarrow> rat \<Rightarrow> rat \<Rightarrow> rat \<Rightarrow> rat \<times> rat \<Rightarrow> rat" where
  "refill rnd rate burst now stored =
     (let (tokens, updated) = stored; elapsed = max 0 (rnd (now - updated)) in
      min burst (rnd (tokens + rnd (rnd (elapsed / 1000) * rate))))"

text \<open>The reply: the flag, the tokens and the milliseconds to wait.\<close>

record script_reply =
  sr_allowed :: int
  sr_tokens :: rat
  sr_retry :: int

definition consume :: "(rat \<Rightarrow> rat) \<Rightarrow> rat \<Rightarrow> rat \<Rightarrow> script_reply" where
  "consume rnd rate tokens =
     (if tokens \<ge> 1 then \<lparr>sr_allowed = 1, sr_tokens = rnd (tokens - 1), sr_retry = 0\<rparr>
      else \<lparr>sr_allowed = 0, sr_tokens = tokens,
             sr_retry = ceiling (rnd (rnd (rnd (1 - tokens) / rate) * 1000))\<rparr>)"

definition token_bucket_script ::
  "(rat \<Rightarrow> rat) \<Rightarrow> string \<Rightarrow> int \<Rightarrow> rat \<Rightarrow> int \<Rightarrow> int \<Rightarrow> int \<Rightarrow> limit_db \<Rightarrow> script_reply result \<times> limit_db" where
  "token_bucket_script rnd key now_ms rate burst ttl_ms clock db0 =
     (let db = drop_expired clock key db0; now = rnd (of_int now_ms); cap = rnd (of_int burst) in
      case db key of
        Some (OtherType, e) \<Rightarrow>
          (Inl (Plain ''WRONGTYPE Operation against a key holding the wrong kind of value''), db)
      | other \<Rightarrow>
          let reply = consume rnd rate (refill rnd rate cap now (stored_bucket cap now key db)) in
          (Inr reply, pexpire clock key ttl_ms (hset_bucket key (sr_tokens reply) now db)))"

section \<open>Rounding\<close>

text \<open>
  What is known of the machine's rounding: a relative error of at most \<open>u\<close>, and integers up to \<open>2 ^ 53\<close> are
  exact. For doubles \<open>u\<close> is \<open>2 ^ -53\<close>, as long as no result is subnormal or infinite.
\<close>

definition rounding :: "(rat \<Rightarrow> rat) \<Rightarrow> rat \<Rightarrow> bool" where
  "rounding rnd u \<longleftrightarrow> 0 \<le> u \<and> u \<le> 1 \<and> (\<forall>x. \<bar>rnd x - x\<bar> \<le> u * \<bar>x\<bar>)
     \<and> (\<forall>n. \<bar>n\<bar> \<le> 2 ^ 53 \<longrightarrow> rnd (of_int n) = of_int n)"

lemma rounding_id: "rounding (\<lambda>x. x) 0"
  by (simp add: rounding_def)

lemma round_le: "rounding rnd u \<Longrightarrow> 0 \<le> x \<Longrightarrow> rnd x \<le> x + u * x"
  by (auto simp: rounding_def abs_if split: if_splits dest!: spec [of _ x])

lemma round_ge: "rounding rnd u \<Longrightarrow> 0 \<le> x \<Longrightarrow> x - u * x \<le> rnd x"
  by (auto simp: rounding_def abs_if split: if_splits dest!: spec [of _ x])

lemma round_nonneg:
  assumes "rounding rnd u" "0 \<le> x"
  shows "0 \<le> rnd x"
proof -
  have "u * x \<le> 1 * x" using assms by (intro mult_right_mono) (auto simp: rounding_def)
  with round_ge [OF assms] show ?thesis by simp
qed

lemma round_int: "rounding rnd u \<Longrightarrow> \<bar>n\<bar> \<le> 2 ^ 53 \<Longrightarrow> rnd (of_int n) = of_int n"
  by (simp add: rounding_def)

lemma round_zero [simp]: "rounding rnd u \<Longrightarrow> rnd 0 = 0"
  using round_int [of rnd u 0] by simp

end
