(* ===== verification/RedisLimit.thy ===== *)
theory RedisLimit
  imports RedisScript GatewayState
begin

text \<open>
  The Redis rate limiter of \<open>sdk/go/gateway/redislimit/limiter.go\<close>: \<open>New\<close>, \<open>Allow\<close>, the reading of the
  script's reply, and the limiter on the model of Redis. A \<open>float64\<close> is a rational number, infinite or no
  number; rounding, the parser of numbers and the conversion of a float that does not fit in an \<open>int64\<close>
  (left open by Go) are fields of \<open>float_lib\<close>. SHA-256 is an argument.
\<close>

section \<open>Numbers and replies\<close>

datatype f64 = F64 rat | F64Inf bool | F64NaN

record float_lib =
  fl_round :: "rat \<Rightarrow> rat"
  fl_parse :: "string \<Rightarrow> f64 option"
  fl_outside :: "rat \<Rightarrow> int"

definition float_to_int64 :: "float_lib \<Rightarrow> rat \<Rightarrow> int" where
  "float_to_int64 F x =
     (let n = (if x < 0 then ceiling x else floor x) in if in_int64 n then n else fl_outside F x)"

text \<open>A value of type \<open>any\<close>; \<open>AnyOther\<close> holds its text under \<open>fmt.Sprint\<close>.\<close>

datatype redis_any =
    AnyInt64 int | AnyInt int | AnyString string | AnyBytes string
  | AnyArray "redis_any list" | AnyOther string

definition spaced :: "string list \<Rightarrow> string" where
  "spaced xs = ''['' @ (case xs of [] \<Rightarrow> '''' | x # ys \<Rightarrow> x @ concat (map (\<lambda>y. '' '' @ y) ys)) @ '']''"

fun sprint :: "redis_any \<Rightarrow> string" where
  "sprint (AnyInt64 n) = format_int n"
| "sprint (AnyInt n) = format_int n"
| "sprint (AnyString s) = s"
| "sprint (AnyBytes s) = spaced (map (\<lambda>c. nat_string (byte c)) s)"
| "sprint (AnyArray xs) = spaced (map sprint xs)"
| "sprint (AnyOther s) = s"

fun asInt64 :: "redis_any \<Rightarrow> int option" where
  "asInt64 (AnyInt64 n) = Some n"
| "asInt64 (AnyInt n) = Some n"
| "asInt64 (AnyString s) = parse_int s"
| "asInt64 (AnyBytes s) = parse_int s"
| "asInt64 v = None"

text \<open>The message of the first error shows the reply as a Go expression; here it stands for itself.\<close>

definition remaining_value :: "float_lib \<Rightarrow> redis_any \<Rightarrow> rat option" where
  "remaining_value F v = (case fl_parse F (sprint v) of
     Some (F64 x) \<Rightarrow> if x < 0 then None else Some x
   | other \<Rightarrow> None)"

definition parseDecision :: "float_lib \<Rightarrow> redis_any \<Rightarrow> rate_limit_decision result" where
  "parseDecision F raw = (case raw of
     AnyArray [v0, v1, v2] \<Rightarrow> (case asInt64 v0 of
       None \<Rightarrow> Inl (Plain ''invalid Redis token bucket allowed flag'')
     | Some allowed \<Rightarrow>
         if allowed \<noteq> 0 \<and> allowed \<noteq> 1 then Inl (Plain ''invalid Redis token bucket allowed flag'')
         else case remaining_value F v1 of
           None \<Rightarrow> Inl (Plain ''invalid Redis token bucket remaining value'')
         | Some x \<Rightarrow> (case asInt64 v2 of
             None \<Rightarrow> Inl (Plain ''invalid Redis token bucket retry value'')
           | Some retry \<Rightarrow>
               if retry < 0 \<or> retry > max_int64 div millisecond
               then Inl (Plain ''invalid Redis token bucket retry value'')
               else Inr \<lparr>rd_allowed = (allowed = 1), rd_remaining = float_to_int64 F (of_int (floor x)),
                      rd_retry_after = retry * millisecond,
                      rd_reason = (if allowed = 1 then '''' else ''rate limit exceeded'')\<rparr>))
   | other \<Rightarrow> Inl (Plain (''unexpected Redis token bucket result '' @ sprint raw)))"

section \<open>The limiter\<close>

record limit_call =
  ic_key :: string
  ic_now :: int
  ic_rate :: rat
  ic_burst :: int
  ic_ttl :: int

type_synonym 'w script_fn = "limit_call \<Rightarrow> 'w \<Rightarrow> redis_any result \<times> 'w"

datatype 'w script_runner = NilRunner | NilPointerRunner | Runner "'w script_fn"

text \<open>\<open>isNilScriptRunner\<close>: the clients without a function.\<close>

definition runner_fn :: "'w script_runner \<Rightarrow> 'w script_fn option" where
  "runner_fn r = (case r of NilRunner \<Rightarrow> None | NilPointerRunner \<Rightarrow> None | Runner f \<Rightarrow> Some f)"

record 'w limiter_config =
  li_client :: "'w script_runner"
  li_scope :: string
  li_prefix :: string
  li_rate :: f64
  li_burst :: int
  li_now :: "('w \<Rightarrow> int) option"

record 'w redis_limiter =
  lm_client :: "'w script_fn"
  lm_scope :: string
  lm_prefix :: string
  lm_rate :: rat
  lm_burst :: int
  lm_ttl :: int
  lm_now :: "'w \<Rightarrow> int"

definition validScope :: "string \<Rightarrow> bool" where
  "validScope scope \<longleftrightarrow> scope = scopeClientIP \<or> scope = scopeUserID \<or> scope = scopeUpstream"

definition valid_rate :: "f64 \<Rightarrow> rat option" where
  "valid_rate r = (case r of F64 x \<Rightarrow> if x \<le> 0 then None else Some x | other \<Rightarrow> None)"

definition ttl_seconds :: "(rat \<Rightarrow> rat) \<Rightarrow> int \<Rightarrow> rat \<Rightarrow> rat" where
  "ttl_seconds rnd burst rate = max 1 (rnd (rnd (2 * rnd (of_int burst)) / rate))"

definition newLimiter :: "float_lib \<Rightarrow> ('w \<Rightarrow> int) \<Rightarrow> 'w limiter_config \<Rightarrow> 'w redis_limiter result" where
  "newLimiter F time_now c = (case runner_fn (li_client c) of
     None \<Rightarrow> Inl (Plain ''Redis rate limiter client is required'')
   | Some client \<Rightarrow>
     if \<not> validScope (li_scope c) then Inl (Plain ''Redis rate limiter scope is invalid'')
     else let prefix = trim_space (li_prefix c); rnd = fl_round F in
     if prefix = '''' \<or> length prefix > 128 \<or> list_ex (\<lambda>ch. byte ch \<in> {9, 10, 13, 32}) prefix
     then Inl (Plain ''Redis rate limiter key prefix is invalid'')
     else case valid_rate (li_rate c) of
       None \<Rightarrow> Inl (Plain ''Redis rate limiter rate must be finite and positive'')
     | Some rate \<Rightarrow>
       if li_burst c \<le> 0 then Inl (Plain ''Redis rate limiter burst must be positive'')
       else let seconds = ttl_seconds rnd (li_burst c) rate in
       if seconds > rnd (rnd (of_int max_int64) / 1000000000)
       then Inl (Plain ''Redis rate limiter token refill duration is too large'')
       else Inr \<lparr>lm_client = client, lm_scope = li_scope c, lm_prefix = prefix, lm_rate = rate, lm_burst = li_burst c,
              lm_ttl = float_to_int64 F (rnd (seconds * 1000000000)),
              lm_now = (case li_now c of None \<Rightarrow> time_now | Some now \<Rightarrow> now)\<rparr>)"

definition redisKey :: "(string \<Rightarrow> string) \<Rightarrow> 'w redis_limiter \<Rightarrow> string \<Rightarrow> string" where
  "redisKey sha256 l key = lm_prefix l @ '':'' @ lm_scope l @ '':'' @ hex_encode (sha256 (trim_space key))"

definition limit_call_of :: "(string \<Rightarrow> string) \<Rightarrow> 'w redis_limiter \<Rightarrow> string \<Rightarrow> 'w \<Rightarrow> limit_call" where
  "limit_call_of sha256 l key w =
     \<lparr>ic_key = redisKey sha256 l key, ic_now = lm_now l w div millisecond, ic_rate = lm_rate l,
      ic_burst = lm_burst l, ic_ttl = milliseconds (lm_ttl l)\<rparr>"

definition limiter_allow ::
  "float_lib \<Rightarrow> (string \<Rightarrow> string) \<Rightarrow> 'w redis_limiter \<Rightarrow> rate_limit_request \<Rightarrow> 'w \<Rightarrow> rate_limit_decision result \<times> 'w" where
  "limiter_allow F sha256 l request w =
     (if rl_scope request \<noteq> lm_scope l then (Inl (Plain ''Redis rate limiter scope mismatch''), w)
      else if trim_space (rl_key request) = '''' then (Inl (Plain ''Redis rate limiter key is empty''), w)
      else let (answer, w') = lm_client l (limit_call_of sha256 l (rl_key request) w) w in
        (case answer of Inl err \<Rightarrow> Inl err | Inr raw \<Rightarrow> parseDecision F raw, w'))"

section \<open>The limiter on Redis\<close>

text \<open>The clock of the limiter's process (nanoseconds), the clock of Redis (milliseconds) and its keys.\<close>

record limit_world =
  lw_now :: int
  lw_redis_clock :: int
  lw_db :: limit_db

text \<open>
  \<open>Eval\<close> of the script: integers arrive as \<open>int64\<close>, the text of the tokens (\<open>tostring\<close>, an argument) as a
  string. A client without a clock of its own reads \<open>time.Now\<close>.
\<close>

definition eval_script :: "(rat \<Rightarrow> rat) \<Rightarrow> (rat \<Rightarrow> string) \<Rightarrow> limit_world script_fn" where
  "eval_script rnd tostring call w =
     (let (answer, db) = token_bucket_script rnd (ic_key call) (ic_now call) (ic_rate call) (ic_burst call)
            (ic_ttl call) (lw_redis_clock w) (lw_db w) in
      (case answer of
         Inl err \<Rightarrow> Inl err
       | Inr reply \<Rightarrow>
           Inr (AnyArray [AnyInt64 (sr_allowed reply), AnyString (tostring (sr_tokens reply)), AnyInt64 (sr_retry reply)]),
       w\<lparr>lw_db := db\<rparr>))"

end
