(* ===== verification/RedisLimitProperties.thy ===== *)
theory RedisLimitProperties
  imports RedisLimit
begin

text \<open>
  What the limiter promises: how many requests of one key pass, whatever the other keys do and however the
  machine rounds; that waiting as long as it says is enough; and what happens when clocks go backwards.
\<close>

section \<open>One step of a bucket\<close>

lemma refill_bounds:
  assumes r: "rounding rnd u" and t: "0 \<le> t" and rate: "0 < rate"
    and ints: "\<bar>now - updated\<bar> \<le> 2 ^ 53" "0 \<le> burst"
  defines "t' \<equiv> refill rnd rate (of_int burst) (of_int now) (t, of_int updated)"
  shows "0 \<le> t'" "t' \<le> of_int burst"
    "t' \<le> t + (1 + u)\<^sup>2 * rate * of_int (max 0 (now - updated)) / 1000 + u * of_int burst"
proof -
  define e :: rat where "e = of_int (max 0 (now - updated))"
  define s where "s = rnd (rnd (e / 1000) * rate)"
  have u: "0 \<le> u" using r by (simp add: rounding_def)
  have e0: "0 \<le> e" by (simp add: e_def)
  have e: "max 0 (rnd (of_int now - of_int updated)) = e"
    using round_int [OF r ints(1)] by (simp add: e_def max_def)
  have t': "t' = min (of_int burst) (rnd (t + s))" by (simp add: t'_def refill_def e s_def)
  have s1: "0 \<le> rnd (e / 1000)" "rnd (e / 1000) \<le> (1 + u) * (e / 1000)"
    using round_nonneg [OF r, of "e / 1000"] round_le [OF r, of "e / 1000"] e0 by (simp_all add: algebra_simps)
  have "s \<le> (1 + u) * (rnd (e / 1000) * rate)"
    using round_le [OF r, of "rnd (e / 1000) * rate"] s1 rate by (simp add: s_def algebra_simps)
  also have "\<dots> \<le> (1 + u) * ((1 + u) * (e / 1000) * rate)"
    using s1(2) rate u by (intro mult_left_mono mult_right_mono) auto
  also have "\<dots> = (1 + u)\<^sup>2 * rate * e / 1000" by (simp add: power2_eq_square)
  finally have s: "s \<le> (1 + u)\<^sup>2 * rate * e / 1000" .
  have s0: "0 \<le> s" using s1 rate round_nonneg [OF r] by (simp add: s_def)
  show "0 \<le> t'" using round_nonneg [OF r, of "t + s"] t s0 ints by (simp add: t')
  show "t' \<le> of_int burst" by (simp add: t')
  have "t' \<le> t + s + u * of_int burst"
  proof (cases "t + s \<le> of_int burst")
    case True
    then have "u * (t + s) \<le> u * of_int burst" using u by (rule mult_left_mono)
    then show ?thesis using round_le [OF r, of "t + s"] t s0 by (simp add: t')
  next
    case False
    moreover have "0 \<le> u * of_int burst" using u ints by simp
    moreover have "t' \<le> of_int burst" by (simp add: t')
    ultimately show ?thesis by linarith
  qed
  with s show "t' \<le> t + (1 + u)\<^sup>2 * rate * of_int (max 0 (now - updated)) / 1000 + u * of_int burst"
    by (simp add: e_def)
qed

text \<open>Consuming: the tokens and the requests let through together grow only by the rounding.\<close>

lemma consume_bounds:
  assumes r: "rounding rnd u" and t: "0 \<le> t" "t \<le> b"
  shows "0 \<le> sr_tokens (consume rnd rate t)"
    "of_int (sr_allowed (consume rnd rate t)) + sr_tokens (consume rnd rate t) \<le> t + u * b"
    "sr_allowed (consume rnd rate t) \<in> {0, 1}"
proof -
  have u: "0 \<le> u" using r by (simp add: rounding_def)
  have ub: "0 \<le> u * b" using u t by simp
  have *: "rnd (t - 1) \<le> t - 1 + u * b" if "1 \<le> t"
  proof -
    have "u * (t - 1) \<le> u * b" using u t by (intro mult_left_mono) auto
    then show ?thesis using round_le [OF r, of "t - 1"] that by simp
  qed
  show "0 \<le> sr_tokens (consume rnd rate t)" using round_nonneg [OF r, of "t - 1"] t by (simp add: consume_def)
  show "of_int (sr_allowed (consume rnd rate t)) + sr_tokens (consume rnd rate t) \<le> t + u * b"
    using * t ub by (auto simp: consume_def)
  show "sr_allowed (consume rnd rate t) \<in> {0, 1}" by (simp add: consume_def)
qed

section \<open>Runs\<close>

text \<open>
  A run of a limiter: each event sets both clocks and asks for a decision. An event reaches the bucket at
  \<open>k\<close> when its key is not refused and hashes to \<open>k\<close>.
\<close>

record limit_event =
  le_now :: int
  le_redis_clock :: int
  le_request :: rate_limit_request

definition event_ms :: "limit_event \<Rightarrow> int" where
  "event_ms e = le_now e div millisecond"

definition reaches :: "(string \<Rightarrow> string) \<Rightarrow> limit_world redis_limiter \<Rightarrow> string \<Rightarrow> limit_event \<Rightarrow> bool" where
  "reaches sha256 l k e \<longleftrightarrow> rl_scope (le_request e) = lm_scope l \<and> trim_space (rl_key (le_request e)) \<noteq> ''''
     \<and> redisKey sha256 l (rl_key (le_request e)) = k"

definition limit_step ::
  "float_lib \<Rightarrow> (string \<Rightarrow> string) \<Rightarrow> limit_world redis_limiter \<Rightarrow> limit_event \<Rightarrow> limit_world \<Rightarrow>
   rate_limit_decision result \<times> limit_world" where
  "limit_step F sha256 l e w =
     limiter_allow F sha256 l (le_request e) (w\<lparr>lw_now := le_now e, lw_redis_clock := le_redis_clock e\<rparr>)"

definition lets_through :: "rate_limit_decision result \<Rightarrow> bool" where
  "lets_through r = (case r of Inl err \<Rightarrow> False | Inr d \<Rightarrow> rd_allowed d)"

fun allowed_count ::
  "float_lib \<Rightarrow> (string \<Rightarrow> string) \<Rightarrow> limit_world redis_limiter \<Rightarrow> string \<Rightarrow> limit_event list \<Rightarrow> limit_world \<Rightarrow> nat" where
  "allowed_count F sha256 l k [] w = 0"
| "allowed_count F sha256 l k (e # es) w =
     (let (decision, w') = limit_step F sha256 l e w in
      (if reaches sha256 l k e \<and> lets_through decision then 1 else 0) + allowed_count F sha256 l k es w')"

text \<open>The way the clock of the limiter moves forward in total, and clocks that agree on long pauses.\<close>

fun forward_ms :: "int list \<Rightarrow> int" where
  "forward_ms (n # n' # ns) = max 0 (n' - n) + forward_ms (n' # ns)"
| "forward_ms ns = 0"

fun clocks_agree :: "int \<Rightarrow> (int \<times> int) list \<Rightarrow> bool" where
  "clocks_agree ttl ((n, a) # (n', a') # cs) =
     ((a' - a > ttl \<longrightarrow> a' - a \<le> 2 * (n' - n)) \<and> clocks_agree ttl ((n', a') # cs))"
| "clocks_agree ttl cs = True"

text \<open>The limiters that are considered: they read the clock of the run and evaluate the script on its keys.\<close>

definition on_redis :: "float_lib \<Rightarrow> (rat \<Rightarrow> string) \<Rightarrow> limit_world redis_limiter \<Rightarrow> bool" where
  "on_redis F tostring l \<longleftrightarrow> lm_client l = eval_script (fl_round F) tostring \<and> lm_now l = lw_now"

lemma script_other_key:
  "key \<noteq> k \<Longrightarrow> snd (token_bucket_script rnd key now rate burst ttl clock db) k = db k"
  by (simp add: token_bucket_script_def Let_def pexpire_def hset_bucket_def drop_expired_def split: option.split limit_value.split)

lemma parse_allowed:
  "lets_through (parseDecision F (AnyArray [AnyInt64 n, v, v'])) \<Longrightarrow> n = 1"
  by (auto simp: parseDecision_def lets_through_def split: if_split_asm option.split_asm)

lemma step_elsewhere:
  assumes "on_redis F tostring l" "\<not> reaches sha256 l k e"
  shows "lw_db (snd (limit_step F sha256 l e w)) k = lw_db w k"
  using assms
  by (auto simp: limit_step_def limiter_allow_def reaches_def on_redis_def eval_script_def limit_call_of_def
      script_other_key split_beta)

text \<open>A step on the bucket itself.\<close>

lemma step_bucket:
  assumes l: "on_redis F tostring l" and e: "reaches sha256 l k e"
    and r: "rounding (fl_round F) u" and ints: "\<bar>event_ms e\<bar> \<le> 2 ^ 53" "\<bar>lm_burst l\<bar> \<le> 2 ^ 53"
    and ttl: "0 < milliseconds (lm_ttl l)"
    and stored: "(\<exists>old. drop_expired (le_redis_clock e) k (lw_db w) k = Some (Bucket (Some t) (Some n), old))
      \<or> drop_expired (le_redis_clock e) k (lw_db w) k = None \<and> (t, n) = (of_int (lm_burst l), of_int (event_ms e))"
  defines "reply \<equiv> consume (fl_round F) (lm_rate l) (refill (fl_round F) (lm_rate l) (of_int (lm_burst l)) (of_int (event_ms e)) (t, n))"
  shows "lw_db (snd (limit_step F sha256 l e w)) k = Some (Bucket (Some (sr_tokens reply)) (Some (of_int (event_ms e))),
           Some (le_redis_clock e + milliseconds (lm_ttl l)))"
    "fst (limit_step F sha256 l e w) = parseDecision F (AnyArray [AnyInt64 (sr_allowed reply),
       AnyString (tostring (sr_tokens reply)), AnyInt64 (sr_retry reply)])"
proof -
  let ?script = "token_bucket_script (fl_round F) k (event_ms e) (lm_rate l) (lm_burst l) (milliseconds (lm_ttl l))
    (le_redis_clock e) (lw_db w)"
  have script: "?script = (Inr reply, (drop_expired (le_redis_clock e) k (lw_db w))(k \<mapsto>
      (Bucket (Some (sr_tokens reply)) (Some (of_int (event_ms e))), Some (le_redis_clock e + milliseconds (lm_ttl l)))))"
    using stored ttl round_int [OF r ints(1)] round_int [OF r ints(2)]
    by (auto simp: token_bucket_script_def Let_def reply_def stored_bucket_def pexpire_def hset_bucket_def)
  have step: "limit_step F sha256 l e w = (parseDecision F (AnyArray [AnyInt64 (sr_allowed reply),
      AnyString (tostring (sr_tokens reply)), AnyInt64 (sr_retry reply)]),
      w\<lparr>lw_now := le_now e, lw_redis_clock := le_redis_clock e, lw_db := snd ?script\<rparr>)"
    using l e script
    by (simp add: limit_step_def limiter_allow_def reaches_def on_redis_def eval_script_def limit_call_of_def event_ms_def)
  show "lw_db (snd (limit_step F sha256 l e w)) k = Some (Bucket (Some (sr_tokens reply)) (Some (of_int (event_ms e))),
           Some (le_redis_clock e + milliseconds (lm_ttl l)))"
    by (simp add: step script)
  show "fst (limit_step F sha256 l e w) = parseDecision F (AnyArray [AnyInt64 (sr_allowed reply),
       AnyString (tostring (sr_tokens reply)), AnyInt64 (sr_retry reply)])"
    by (simp add: step)
qed

section \<open>The bound\<close>

text \<open>
  What the bound needs of a limiter: burst and rate are positive, and the expiry of a key, which is set at
  twice the time a bucket takes to fill, was not cut short by the conversions.
\<close>

definition well_paced :: "rat \<Rightarrow> limit_world redis_limiter \<Rightarrow> bool" where
  "well_paced u l \<longleftrightarrow> 0 < lm_rate l \<and> 0 < lm_burst l \<and> lm_burst l \<le> 2 ^ 53 \<and> 0 < milliseconds (lm_ttl l)
     \<and> of_int (lm_burst l) \<le> (1 + u)\<^sup>2 * lm_rate l * of_int (milliseconds (lm_ttl l) + 1) / 2000 + u * of_int (lm_burst l)"

abbreviation per_ms :: "rat \<Rightarrow> limit_world redis_limiter \<Rightarrow> rat" where
  "per_ms u l \<equiv> (1 + u)\<^sup>2 * lm_rate l / 1000"

abbreviation slack :: "rat \<Rightarrow> limit_world redis_limiter \<Rightarrow> rat" where
  "slack u l \<equiv> 2 * u * of_int (lm_burst l)"

definition in_clock_range :: "limit_event \<Rightarrow> bool" where
  "in_clock_range e \<longleftrightarrow> 0 \<le> event_ms e \<and> event_ms e \<le> 2 ^ 53"

lemma step_potential:
  assumes l: "on_redis F tostring l" and e: "reaches sha256 l k e"
    and r: "rounding (fl_round F) u" and paced: "well_paced u l"
    and clock: "in_clock_range e" "0 \<le> n" "n \<le> 2 ^ 53"
      "le_redis_clock e - a > milliseconds (lm_ttl l) \<Longrightarrow> le_redis_clock e - a \<le> 2 * (event_ms e - n)"
    and stored: "lw_db w k = Some (Bucket (Some t) (Some (of_int n)), Some (a + milliseconds (lm_ttl l)))" "0 \<le> t"
  shows "\<exists>t'. lw_db (snd (limit_step F sha256 l e w)) k = Some (Bucket (Some t') (Some (of_int (event_ms e))),
            Some (le_redis_clock e + milliseconds (lm_ttl l))) \<and> 0 \<le> t'
     \<and> (if lets_through (fst (limit_step F sha256 l e w)) then 1 else 0) + t'
        \<le> t + per_ms u l * of_int (max 0 (event_ms e - n)) + slack u l"
proof -
  let ?b = "of_int (lm_burst l) :: rat" and ?ttl = "milliseconds (lm_ttl l)" and ?m = "event_ms e"
  let ?gone = "a + ?ttl < le_redis_clock e"
  let ?old = "if ?gone then (?b, ?m) else (t, n)"
  let ?level = "refill (fl_round F) (lm_rate l) ?b (of_int ?m) (fst ?old, of_int (snd ?old))"
  let ?reply = "consume (fl_round F) (lm_rate l) ?level"
  have p: "0 < lm_rate l" "0 < lm_burst l" "lm_burst l \<le> 2 ^ 53" "0 < ?ttl"
    "?b \<le> per_ms u l * of_int (?ttl + 1) / 2 + u * ?b" using paced by (simp_all add: well_paced_def)
  have m: "0 \<le> ?m" "?m \<le> 2 ^ 53" using clock(1) by (simp_all add: in_clock_range_def)
  have b: "0 \<le> ?b" using p by simp
  have u: "0 \<le> u" using r by (simp add: rounding_def)
  have c: "0 \<le> per_ms u l" using p(1) by simp
  note level = refill_bounds [OF r _ p(1), of "fst ?old" ?m "snd ?old" "lm_burst l"]
  have level1: "0 \<le> ?level" "?level \<le> ?b" using level stored(2) b m clock p by auto
  have found: "(\<exists>old. drop_expired (le_redis_clock e) k (lw_db w) k = Some (Bucket (Some (fst ?old)) (Some (of_int (snd ?old))), old))
      \<or> drop_expired (le_redis_clock e) k (lw_db w) k = None \<and> (fst ?old, of_int (snd ?old)) = (?b, of_int ?m)"
    using stored by (simp add: drop_expired_def)
  note step = step_bucket [OF l e r _ _ p(4) found]
  note used = consume_bounds [OF r level1, where rate = "lm_rate l"]
  have "fst (limit_step F sha256 l e w) = parseDecision F (AnyArray [AnyInt64 (sr_allowed ?reply),
      AnyString (tostring (sr_tokens ?reply)), AnyInt64 (sr_retry ?reply)])"
    by (rule step(2)) (use m p in auto)
  then have "lets_through (fst (limit_step F sha256 l e w)) \<Longrightarrow> sr_allowed ?reply = 1"
    using parse_allowed by metis
  then have count: "(if lets_through (fst (limit_step F sha256 l e w)) then 1 else 0) \<le> (of_int (sr_allowed ?reply) :: rat)"
    using used(3) by (cases "lets_through (fst (limit_step F sha256 l e w))") (simp, auto)
  have "?level + u * ?b \<le> t + per_ms u l * of_int (max 0 (?m - n)) + slack u l"
  proof (cases ?gone)
    case True
    then have "le_redis_clock e - a \<le> 2 * (?m - n)" by (intro clock(4)) simp
    then have "?ttl + 1 \<le> 2 * max 0 (?m - n)" using True by (simp add: max_def)
    then have "of_int (?ttl + 1) \<le> (2 * of_int (max 0 (?m - n)) :: rat)"
      by (metis of_int_le_iff of_int_mult of_int_numeral)
    then have "per_ms u l * of_int (?ttl + 1) \<le> per_ms u l * (2 * of_int (max 0 (?m - n)))"
      using c by (rule mult_left_mono)
    then show ?thesis using p(5) level1(2) stored(2) by linarith
  next
    case False
    moreover have "\<bar>?m - n\<bar> \<le> 2 ^ 53" using m clock(2,3) by (simp add: abs_le_iff)
    ultimately have "?level \<le> t + per_ms u l * of_int (max 0 (?m - n)) + u * ?b"
      using level(3) stored(2) p(2) by simp
    then show ?thesis by simp
  qed
  then have "(if lets_through (fst (limit_step F sha256 l e w)) then 1 else 0) + sr_tokens ?reply
      \<le> t + per_ms u l * of_int (max 0 (?m - n)) + slack u l"
    using count used(2) by linarith
  then show ?thesis using step(1) m p used(1) by auto
qed

lemma run_from_bucket:
  assumes l: "on_redis F tostring l" and r: "rounding (fl_round F) u" and paced: "well_paced u l"
  shows "\<forall>e \<in> set es. in_clock_range e \<Longrightarrow> 0 \<le> n \<Longrightarrow> n \<le> 2 ^ 53 \<Longrightarrow> 0 \<le> t \<Longrightarrow>
    clocks_agree (milliseconds (lm_ttl l)) ((n, a) # map (\<lambda>e. (event_ms e, le_redis_clock e)) (filter (reaches sha256 l k) es)) \<Longrightarrow>
    lw_db w k = Some (Bucket (Some t) (Some (of_int n)), Some (a + milliseconds (lm_ttl l))) \<Longrightarrow>
    of_nat (allowed_count F sha256 l k es w)
      \<le> t + per_ms u l * of_int (forward_ms (n # map event_ms (filter (reaches sha256 l k) es)))
         + slack u l * of_nat (length (filter (reaches sha256 l k) es))"
proof (induction es arbitrary: w n t a)
  case (Cons e es)
  show ?case
  proof (cases "reaches sha256 l k e")
    case True
    obtain t' where step: "lw_db (snd (limit_step F sha256 l e w)) k = Some (Bucket (Some t') (Some (of_int (event_ms e))),
            Some (le_redis_clock e + milliseconds (lm_ttl l)))" "0 \<le> t'"
        "(if lets_through (fst (limit_step F sha256 l e w)) then 1 else 0) + t'
          \<le> t + per_ms u l * of_int (max 0 (event_ms e - n)) + slack u l"
      using step_potential [OF l True r paced, of n a w t] Cons.prems True by auto
    have "of_nat (allowed_count F sha256 l k es (snd (limit_step F sha256 l e w)))
      \<le> t' + per_ms u l * of_int (forward_ms (event_ms e # map event_ms (filter (reaches sha256 l k) es)))
         + slack u l * of_nat (length (filter (reaches sha256 l k) es))"
      using Cons.prems True step by (intro Cons.IH) (auto simp: in_clock_range_def)
    with True step(3) show ?thesis by (auto simp: split_beta algebra_simps add_divide_distrib split: if_split_asm)
  next
    case False
    with Cons.IH [of n t a "snd (limit_step F sha256 l e w)"] Cons.prems step_elsewhere [OF l False] show ?thesis
      by (simp add: split_beta)
  qed
qed simp

lemma div_bounds: "d = n div 1000000 \<Longrightarrow> 990000000 \<le> n \<Longrightarrow> n < 1000000 * (d + 1) \<and> 0 < d" for n d :: int
  by (simp add: pos_imp_zdiv_pos_iff)

text \<open>The conversion of seconds to a duration and to milliseconds loses at most the rounding and a millisecond.\<close>

lemma expiry_converted:
  assumes r: "rounding (fl_round F) u" "u \<le> 1 / 100" and s1: "1 \<le> seconds" "seconds \<le> 3000000000"
  defines "d \<equiv> milliseconds (float_to_int64 F (fl_round F (seconds * 1000000000)))"
  shows "(1 - u) * (seconds * 1000) \<le> of_int (d + 1)" "0 < d"
proof -
  define x where "x = fl_round F (seconds * 1000000000)"
  have u: "0 \<le> u" "u \<le> 1 / 100" using r by (simp_all add: rounding_def)
  have us: "u * (seconds * 1000000000) \<le> 1 / 100 * (seconds * 1000000000)" using u s1 by (intro mult_right_mono) auto
  have xs: "seconds * 1000000000 - u * (seconds * 1000000000) \<le> x" "x \<le> seconds * 1000000000 + u * (seconds * 1000000000)"
    using round_ge [OF r(1), of "seconds * 1000000000"] round_le [OF r(1), of "seconds * 1000000000"] s1 by (simp_all add: x_def)
  then have x: "(1 - u) * (seconds * 1000000000) \<le> x" "x \<le> 4000000000000000000" "990000000 \<le> x"
    using us s1 by (simp add: left_diff_distrib, linarith, linarith)
  have "floor x \<le> 4000000000000000000" "0 \<le> floor x" using x by (linarith, simp)
  then have "d = floor x div 1000000"
    using x by (simp add: d_def x_def [symmetric] float_to_int64_def in_int64_def min_int64_def max_int64_def
        milliseconds_def millisecond_def)
  moreover have "990000000 \<le> floor x" using x by (simp add: le_floor_iff)
  ultimately have d: "floor x < 1000000 * (d + 1)" "0 < d" using div_bounds [of d "floor x"] by auto
  have "floor x + 1 \<le> 1000000 * (d + 1)" using d(1) by simp
  then have "x \<le> 1000000 * of_int (d + 1)" by linarith
  with x(1) show "(1 - u) * (seconds * 1000) \<le> of_int (d + 1)" by (simp add: algebra_simps)
  show "0 < d" by (fact d(2))
qed

lemma square_margin:
  fixes u :: rat
  assumes "0 \<le> u" "u \<le> 1 / 100"
  shows "1 - u \<le> (1 - u\<^sup>2)\<^sup>2"
proof -
  have "u * u \<le> 1 / 100 * u" using assms by (intro mult_right_mono) auto
  moreover have "0 \<le> u * u * (u * u)" by simp
  moreover have "(1 - u\<^sup>2)\<^sup>2 = 1 - 2 * (u * u) + u * u * (u * u)" by (simp add: power2_eq_square algebra_simps)
  ultimately show ?thesis using assms(1) by linarith
qed

lemma well_paced_new:
  assumes new: "newLimiter F time_now c = Inr l" and r: "rounding (fl_round F) u" "u \<le> 1 / 100"
    and size: "lm_burst l \<le> 2 ^ 52" "of_int (lm_burst l) \<le> 1000000000 * lm_rate l"
  shows "well_paced u l"
proof -
  let ?rnd = "fl_round F" and ?b = "of_int (lm_burst l) :: rat" and ?rate = "lm_rate l"
  define seconds where "seconds = ttl_seconds ?rnd (lm_burst l) ?rate"
  define d where "d = milliseconds (lm_ttl l)"
  have l: "0 < ?rate" "0 < lm_burst l" "lm_ttl l = float_to_int64 F (?rnd (seconds * 1000000000))"
    using new by (auto simp: newLimiter_def Let_def valid_rate_def seconds_def split: option.split_asm if_split_asm f64.split_asm)
  have u: "0 \<le> u" "u \<le> 1 / 100" using r by (simp_all add: rounding_def)
  have b: "0 \<le> ?b" using l by simp
  have "?rnd (2 * ?rnd ?b) = 2 * ?b"
    using round_int [OF r(1), of "lm_burst l"] round_int [OF r(1), of "2 * lm_burst l"] size(1) l(2) by simp
  moreover define q where "q = 2 * ?b / ?rate"
  ultimately have s: "seconds = max 1 (?rnd q)" by (simp add: seconds_def ttl_seconds_def)
  have q: "0 \<le> q" "q \<le> 2000000000" "?rate * q = 2 * ?b" using l size(2) b by (simp_all add: q_def field_simps)
  have uq: "u * q \<le> 1 / 100 * 2000000000" using u q by (intro mult_mono) auto
  have s1: "1 \<le> seconds" "(1 - u) * q \<le> seconds" "seconds \<le> 3000000000"
    using round_ge [OF r(1) q(1)] round_le [OF r(1) q(1)] q(2) uq by (auto simp: s algebra_simps)
  note d = expiry_converted [OF r s1(1,3), folded l(3) d_def]
  have "(1 - u) * ((1 - u) * q * 1000) \<le> (1 - u) * (seconds * 1000)"
    using s1(2) u by (intro mult_left_mono) auto
  then have "(1 - u) * ((1 - u) * q * 1000) \<le> of_int (d + 1)" using d(1) by (rule order_trans)
  then have "(1 + u)\<^sup>2 * ?rate / 2000 * ((1 - u) * ((1 - u) * q * 1000))
      \<le> (1 + u)\<^sup>2 * ?rate / 2000 * of_int (d + 1)"
    using l(1) by (intro mult_left_mono) auto
  moreover have "(1 + u)\<^sup>2 * ?rate / 2000 * ((1 - u) * ((1 - u) * q * 1000)) = (1 - u\<^sup>2)\<^sup>2 * (?rate * q) / 2"
    by (simp add: power2_eq_square field_simps)
  moreover have "(1 - u) * ?b \<le> (1 - u\<^sup>2)\<^sup>2 * ?b" using square_margin [OF u] b by (rule mult_right_mono)
  ultimately have "?b \<le> (1 + u)\<^sup>2 * ?rate * of_int (d + 1) / 2000 + u * ?b" by (simp add: q(3) left_diff_distrib)
  then show ?thesis using l(1,2) d(2) size(1) unfolding well_paced_def d_def by simp
qed

lemma run_fresh:
  assumes l: "on_redis F tostring l" and r: "rounding (fl_round F) u" and paced: "well_paced u l"
  shows "\<forall>e \<in> set es. in_clock_range e \<Longrightarrow>
    clocks_agree (milliseconds (lm_ttl l)) (map (\<lambda>e. (event_ms e, le_redis_clock e)) (filter (reaches sha256 l k) es)) \<Longrightarrow>
    lw_db w k = None \<Longrightarrow>
    of_nat (allowed_count F sha256 l k es w)
      \<le> of_int (lm_burst l) + per_ms u l * of_int (forward_ms (map event_ms (filter (reaches sha256 l k) es)))
         + slack u l * of_nat (length (filter (reaches sha256 l k) es))"
proof (induction es arbitrary: w)
  case Nil
  show ?case using paced by (simp add: well_paced_def)
next
  case (Cons e es)
  show ?case
  proof (cases "reaches sha256 l k e")
    case True
    let ?b = "of_int (lm_burst l) :: rat" and ?m = "event_ms e" and ?ttl = "milliseconds (lm_ttl l)"
    let ?w = "w\<lparr>lw_db := (lw_db w)(k \<mapsto> (Bucket (Some ?b) (Some (of_int ?m)), Some (le_redis_clock e + ?ttl)))\<rparr>"
    have p: "0 < lm_rate l" "0 < lm_burst l" "lm_burst l \<le> 2 ^ 53" "0 < ?ttl" using paced by (simp_all add: well_paced_def)
    have m: "0 \<le> ?m" "?m \<le> 2 ^ 53" using Cons.prems(1) by (simp_all add: in_clock_range_def)
    have w: "(\<exists>old. drop_expired (le_redis_clock e) k (lw_db ?w) k = Some (Bucket (Some ?b) (Some (of_int ?m)), old))
      \<or> drop_expired (le_redis_clock e) k (lw_db ?w) k = None \<and> (?b, of_int ?m) = (?b, of_int ?m)"
      "(\<exists>old. drop_expired (le_redis_clock e) k (lw_db w) k = Some (Bucket (Some ?b) (Some (of_int ?m)), old))
      \<or> drop_expired (le_redis_clock e) k (lw_db w) k = None \<and> (?b, of_int ?m) = (?b, of_int ?m)"
      using Cons.prems(3) by (simp_all add: drop_expired_def)
    have same: "fst (limit_step F sha256 l e ?w) = fst (limit_step F sha256 l e w)"
      "lw_db (snd (limit_step F sha256 l e ?w)) k = lw_db (snd (limit_step F sha256 l e w)) k"
      using step_bucket [OF l True r _ _ p(4) w(1)] step_bucket [OF l True r _ _ p(4) w(2)] m p by simp_all
    obtain t' where step: "lw_db (snd (limit_step F sha256 l e w)) k = Some (Bucket (Some t') (Some (of_int ?m)),
            Some (le_redis_clock e + ?ttl))" "0 \<le> t'"
        "(if lets_through (fst (limit_step F sha256 l e w)) then 1 else 0) + t' \<le> ?b + slack u l"
      using step_potential [OF l True r paced, of ?m "le_redis_clock e" ?w ?b] Cons.prems(1) m p same by auto
    have "of_nat (allowed_count F sha256 l k es (snd (limit_step F sha256 l e w)))
      \<le> t' + per_ms u l * of_int (forward_ms (?m # map event_ms (filter (reaches sha256 l k) es)))
         + slack u l * of_nat (length (filter (reaches sha256 l k) es))"
      using Cons.prems True step m by (intro run_from_bucket [OF l r paced]) auto
    with True step(3) show ?thesis by (auto simp: split_beta algebra_simps split: if_split_asm)
  next
    case False
    with Cons.IH [of "snd (limit_step F sha256 l e w)"] Cons.prems step_elsewhere [OF l False] show ?thesis
      by (simp add: split_beta)
  qed
qed

text \<open>
  C33 The rate: of the requests of one key, on a key that Redis does not hold yet, the limiter lets at most the
  burst pass, plus the rate times the way its clock moves forward, whatever other keys are asked for in
  between. Rounding with relative error \<open>u\<close> adds at most \<open>2 u\<close> bursts per request and a factor \<open>(1 + u)\<^sup>2\<close>.
  The clocks of the limiter and of Redis need to agree only on pauses that let the key expire, and there
  only up to a factor of two.
\<close>

theorem token_bucket_rate:
  assumes "newLimiter F time_now config = Inr l" "on_redis F tostring l"
    "rounding (fl_round F) u" "u \<le> 1 / 100"
    "lm_burst l \<le> 2 ^ 52" "of_int (lm_burst l) \<le> 1000000000 * lm_rate l"
    "\<forall>e \<in> set es. in_clock_range e" "hits = filter (reaches sha256 l k) es"
    "clocks_agree (milliseconds (lm_ttl l)) (map (\<lambda>e. (event_ms e, le_redis_clock e)) hits)"
    "lw_db w k = None"
  shows "of_nat (allowed_count F sha256 l k es w)
    \<le> of_int (lm_burst l) + (1 + u)\<^sup>2 * lm_rate l * of_int (forward_ms (map event_ms hits)) / 1000
       + 2 * u * of_int (lm_burst l) * of_nat (length hits)"
proof -
  have "well_paced u l" using assms by (intro well_paced_new)
  then show ?thesis using run_fresh [OF assms(2,3), of es sha256 k w] assms by simp
qed

section \<open>Waiting and clocks\<close>

text \<open>A step on a bucket in any state, whatever the rounding is.\<close>

definition reply_at :: "(rat \<Rightarrow> rat) \<Rightarrow> limit_world redis_limiter \<Rightarrow> rat \<times> rat \<Rightarrow> limit_event \<Rightarrow> script_reply" where
  "reply_at rnd l stored e =
     consume rnd (lm_rate l) (refill rnd (lm_rate l) (rnd (of_int (lm_burst l))) (rnd (of_int (event_ms e))) stored)"

definition stored_at :: "(rat \<Rightarrow> rat) \<Rightarrow> limit_world redis_limiter \<Rightarrow> string \<Rightarrow> limit_event \<Rightarrow> limit_world \<Rightarrow> rat \<times> rat" where
  "stored_at rnd l k e w =
     stored_bucket (rnd (of_int (lm_burst l))) (rnd (of_int (event_ms e))) k (drop_expired (le_redis_clock e) k (lw_db w))"

lemma limiter_step:
  assumes "on_redis F tostring l" "reaches sha256 l k e"
    "\<And>ex. drop_expired (le_redis_clock e) k (lw_db w) k \<noteq> Some (OtherType, ex)"
  defines "reply \<equiv> reply_at (fl_round F) l (stored_at (fl_round F) l k e w) e"
  shows "fst (limit_step F sha256 l e w) = parseDecision F (AnyArray [AnyInt64 (sr_allowed reply),
       AnyString (tostring (sr_tokens reply)), AnyInt64 (sr_retry reply)])"
    "lw_db (snd (limit_step F sha256 l e w)) k = (if milliseconds (lm_ttl l) \<le> 0 then None
       else Some (Bucket (Some (sr_tokens reply)) (Some (fl_round F (of_int (event_ms e)))),
              Some (le_redis_clock e + milliseconds (lm_ttl l))))"
proof -
  let ?db = "drop_expired (le_redis_clock e) k (lw_db w)" and ?ms = "fl_round F (of_int (event_ms e))"
  have script: "token_bucket_script (fl_round F) k (event_ms e) (lm_rate l) (lm_burst l) (milliseconds (lm_ttl l))
      (le_redis_clock e) (lw_db w) = (Inr reply, pexpire (le_redis_clock e) k (milliseconds (lm_ttl l))
        (hset_bucket k (sr_tokens reply) ?ms ?db))"
    using assms(3) by (auto simp: token_bucket_script_def Let_def reply_def reply_at_def stored_at_def
        split: option.split limit_value.split)
  have "limit_step F sha256 l e w = (parseDecision F (AnyArray [AnyInt64 (sr_allowed reply),
       AnyString (tostring (sr_tokens reply)), AnyInt64 (sr_retry reply)]),
     w\<lparr>lw_now := le_now e, lw_redis_clock := le_redis_clock e, lw_db := pexpire (le_redis_clock e) k (milliseconds (lm_ttl l))
        (hset_bucket k (sr_tokens reply) ?ms ?db)\<rparr>)"
    using assms(1,2) script
    by (simp add: limit_step_def limiter_allow_def reaches_def on_redis_def eval_script_def limit_call_of_def event_ms_def)
  then show "fst (limit_step F sha256 l e w) = parseDecision F (AnyArray [AnyInt64 (sr_allowed reply),
       AnyString (tostring (sr_tokens reply)), AnyInt64 (sr_retry reply)])"
    "lw_db (snd (limit_step F sha256 l e w)) k = (if milliseconds (lm_ttl l) \<le> 0 then None
       else Some (Bucket (Some (sr_tokens reply)) (Some ?ms), Some (le_redis_clock e + milliseconds (lm_ttl l))))"
    by (simp_all add: pexpire_def hset_bucket_def)
qed

lemma wrong_type_step:
  assumes "on_redis F tostring l" "reaches sha256 l k e" "drop_expired (le_redis_clock e) k (lw_db w) k = Some (OtherType, ex)"
  shows "\<exists>err. fst (limit_step F sha256 l e w) = Inl err"
  using assms
  by (simp add: limit_step_def limiter_allow_def reaches_def on_redis_def eval_script_def limit_call_of_def event_ms_def
      token_bucket_script_def)

text \<open>Numbers that Lua prints are read back as numbers that are not negative.\<close>

definition readable :: "float_lib \<Rightarrow> (rat \<Rightarrow> string) \<Rightarrow> bool" where
  "readable F tostring \<longleftrightarrow> (\<forall>x \<ge> 0. \<exists>y \<ge> 0. fl_parse F (tostring x) = Some (F64 y))"

lemma readable_value: "readable F tostring \<Longrightarrow> 0 \<le> x \<Longrightarrow> \<exists>y. remaining_value F (AnyString (tostring x)) = Some y"
  by (force simp: readable_def remaining_value_def split: option.split f64.split)

lemma full_token_allowed:
  assumes "readable F tostring" "rounding rnd u" "1 \<le> t" "reply = consume rnd rate t"
  shows "\<exists>d. parseDecision F (AnyArray [AnyInt64 (sr_allowed reply), AnyString (tostring (sr_tokens reply)), AnyInt64 (sr_retry reply)]) = Inr d
     \<and> rd_allowed d"
  using readable_value [OF assms(1), of "rnd (t - 1)"] round_nonneg [OF assms(2), of "t - 1"] assms(3,4)
  by (auto simp: consume_def parseDecision_def max_int64_def millisecond_def)

lemma refused_reply:
  assumes "parseDecision F (AnyArray [AnyInt64 (sr_allowed reply), v, AnyInt64 (sr_retry reply)]) = Inr d" "\<not> rd_allowed d"
    "reply = consume rnd rate t"
  shows "t < 1" "rd_retry_after d = ceiling (rnd (rnd (rnd (1 - t) / rate) * 1000)) * millisecond" "sr_tokens reply = t"
  using assms by (auto simp: parseDecision_def consume_def split: if_split_asm option.split_asm)

text \<open>A bucket that is filled by the wait reaches a whole token; one that starts full has one.\<close>

lemma refill_reaches_one:
  assumes r: "rounding rnd u" "mono rnd" and cap: "1 \<le> cap" and ints: "\<bar>m - n\<bar> \<le> 2 ^ 53"
    and s: "1 - t \<le> rnd (rnd (of_int (max 0 (m - n)) / 1000) * rate)"
  shows "1 \<le> refill rnd rate cap (of_int m) (t, of_int n)"
proof -
  have "max 0 (rnd (of_int m - of_int n)) = of_int (max 0 (m - n))"
    using round_int [OF r(1) ints] by (simp add: max_def)
  moreover have "rnd 1 \<le> rnd (t + rnd (rnd (of_int (max 0 (m - n)) / 1000) * rate))"
    using s by (intro monoD [OF r(2)]) simp
  moreover have "rnd 1 = 1" using round_int [OF r(1), of 1] by simp
  ultimately show ?thesis using cap by (simp add: refill_def)
qed

lemma power_margin: "0 \<le> u \<Longrightarrow> u \<le> 1 \<Longrightarrow> 1 - of_nat n * u \<le> (1 - u) ^ n" for u :: rat
proof (induction n)
  case (Suc n)
  have "1 - of_nat (Suc n) * u \<le> (1 - of_nat n * u) * (1 - u)" using Suc.prems by (simp add: algebra_simps)
  also have "\<dots> \<le> (1 - u) ^ n * (1 - u)" using Suc by (intro mult_right_mono) auto
  finally show ?case by (simp add: mult.commute)
qed simp

lemma waited_enough:
  assumes r: "rounding rnd u" and rate: "0 < rate" "5000 * u \<le> (1 - 2 * u) * rate" and missing: "0 \<le> missing" "missing \<le> 1"
    and wait: "ceiling (rnd (rnd (rnd missing / rate) * 1000)) + 1 \<le> wait"
  shows "missing \<le> rnd (rnd (of_int wait / 1000) * rate)"
proof -
  have u: "0 \<le> u" "u \<le> 1" using r by (simp_all add: rounding_def)
  have ge: "(1 - u) * x \<le> rnd x" "0 \<le> rnd x" if "0 \<le> x" for x
    using round_ge [OF r that] round_nonneg [OF r that] by (simp_all add: left_diff_distrib)
  define a where "a = rnd (rnd (rnd missing / rate) * 1000)"
  have "(1 - u) * missing / rate \<le> rnd missing / rate" using ge(1) [OF missing(1)] rate(1) by (simp add: divide_right_mono)
  then have "(1 - u) * ((1 - u) * missing / rate) \<le> (1 - u) * (rnd missing / rate)" using u by (intro mult_left_mono) auto
  also have "\<dots> \<le> rnd (rnd missing / rate)" using ge(2) [OF missing(1)] rate(1) by (intro ge(1)) simp
  finally have "(1 - u) * ((1 - u) * ((1 - u) * missing / rate) * 1000) \<le> (1 - u) * (rnd (rnd missing / rate) * 1000)"
    using u by (intro mult_left_mono mult_right_mono) auto
  also have "\<dots> \<le> a" unfolding a_def using ge missing(1) rate(1) by simp
  finally have "(1 - u) ^ 3 * missing / rate * 1000 \<le> a" by (simp add: power3_eq_cube mult.assoc)
  moreover have "a + 1 \<le> of_int wait" using wait unfolding a_def [symmetric] by linarith
  ultimately have w: "(1 - u) ^ 3 * missing / rate * 1000 + 1 \<le> of_int wait" by simp
  have "0 \<le> (1 - u) ^ 3 * missing / rate * 1000" using u missing(1) rate(1) by simp
  with w have w0: "0 \<le> (of_int wait :: rat)" by linarith
  have "(1 - u) ^ 2 * rate / 1000 * ((1 - u) ^ 3 * missing / rate * 1000 + 1) \<le> (1 - u) ^ 2 * rate / 1000 * of_int wait"
    using w rate(1) by (intro mult_left_mono) auto
  also have "\<dots> = (1 - u) * ((1 - u) * (of_int wait / 1000) * rate)" by (simp add: power2_eq_square)
  also have "\<dots> \<le> (1 - u) * (rnd (of_int wait / 1000) * rate)"
    using ge(1) [of "of_int wait / 1000"] w0 rate(1) u by (intro mult_left_mono mult_right_mono) auto
  also have "\<dots> \<le> rnd (rnd (of_int wait / 1000) * rate)" using ge w0 rate(1) by simp
  finally have main: "(1 - u) ^ 2 * rate / 1000 * ((1 - u) ^ 3 * missing / rate * 1000 + 1) \<le> rnd (rnd (of_int wait / 1000) * rate)" .
  have "(1 - u) ^ 2 * rate / 1000 * ((1 - u) ^ 3 * missing / rate * 1000 + 1) = (1 - u) ^ 5 * missing + (1 - u) ^ 2 * rate / 1000"
    using rate(1) by (simp add: field_simps flip: power_add)
  moreover have "(1 - 5 * u) * missing \<le> (1 - u) ^ 5 * missing"
    using power_margin [OF u, of 5] missing(1) by (intro mult_right_mono) simp_all
  moreover have "(1 - 2 * u) * rate \<le> (1 - u) ^ 2 * rate" using power_margin [OF u, of 2] rate(1) by simp
  moreover have "u * missing \<le> u * 1" using u missing(2) by (intro mult_left_mono) auto
  ultimately show ?thesis using main rate(2) by (simp add: left_diff_distrib)
qed

text \<open>Buckets as the script writes them: with tokens that are not negative.\<close>

definition sound_bucket :: "limit_world \<Rightarrow> string \<Rightarrow> bool" where
  "sound_bucket w k \<longleftrightarrow> (case lw_db w k of Some (Bucket (Some t) (Some n), ex) \<Rightarrow> 0 \<le> t | _ \<Rightarrow> True)"

lemma refill_nonneg:
  assumes r: "rounding rnd u" and "0 \<le> cap" "0 < rate" "0 \<le> fst stored"
  shows "0 \<le> refill rnd rate cap now stored"
proof -
  have "0 \<le> rnd (rnd (max 0 e / 1000) * rate)" for e
    using assms by (intro round_nonneg [OF r] mult_nonneg_nonneg) simp_all
  then show ?thesis
    using assms(2,4) by (simp add: refill_def split_beta Let_def round_nonneg [OF r])
qed

lemma consume_nonneg: "rounding rnd u \<Longrightarrow> 0 \<le> t \<Longrightarrow> 0 \<le> sr_tokens (consume rnd rate t)"
  by (simp add: consume_def round_nonneg)

lemma new_limiter_positive:
  assumes "newLimiter F time_now config = Inr l"
  shows "0 < lm_rate l" "0 < lm_burst l"
  using assms by (auto simp: newLimiter_def Let_def valid_rate_def split: option.split_asm if_split_asm f64.split_asm)

lemma burst_rounded:
  assumes "rounding rnd u" "mono rnd" "0 < b"
  shows "1 \<le> rnd (of_int b)"
proof -
  have "(1 :: rat) \<le> of_int b" using assms(3) by simp
  then have "rnd 1 \<le> rnd (of_int b)" by (rule monoD [OF assms(2)])
  then show ?thesis using round_int [OF assms(1), of 1] by simp
qed

text \<open>What a request finds in the bucket another of the same key left, or Redis has expired.\<close>

lemma stored_after:
  assumes "lw_db w k = None \<or> (\<exists>ex. lw_db w k = Some (Bucket (Some t) (Some n), ex))"
  shows "stored_at rnd l k e w \<in> {(t, n), (rnd (of_int (lm_burst l)), rnd (of_int (event_ms e)))}"
    "drop_expired (le_redis_clock e) k (lw_db w) k \<noteq> Some (OtherType, ex)"
  using assms by (auto simp: stored_at_def stored_bucket_def drop_expired_def split: option.split)

lemma request_allowed:
  assumes l: "newLimiter F time_now config = Inr l" "on_redis F tostring l"
    and r: "rounding (fl_round F) u" "mono (fl_round F)" and s: "readable F tostring"
    and e: "reaches sha256 l k e" "in_clock_range e" "0 \<le> n" "n \<le> 2 ^ 53"
    and db: "lw_db w k = None \<or> (\<exists>ex. lw_db w k = Some (Bucket (Some t) (Some (of_int n)), ex))"
    and enough: "1 - t \<le> fl_round F (fl_round F (of_int (max 0 (event_ms e - n)) / 1000) * lm_rate l)"
  shows "\<exists>d'. fst (limit_step F sha256 l e w) = Inr d' \<and> rd_allowed d'"
proof -
  let ?rnd = "fl_round F" and ?m = "event_ms e"
  let ?cap = "?rnd (of_int (lm_burst l))"
  have cap: "1 \<le> ?cap" using burst_rounded [OF r new_limiter_positive(2) [OF l(1)]] .
  have m: "\<bar>?m\<bar> \<le> 2 ^ 53" "\<bar>?m - n\<bar> \<le> 2 ^ 53" using e(2-4) by (auto simp: in_clock_range_def)
  have ms: "?rnd (of_int ?m) = of_int ?m" using round_int [OF r(1) m(1)] .
  have "1 - ?cap \<le> ?rnd (?rnd (of_int (max 0 (?m - ?m)) / 1000) * lm_rate l)" using cap r(1) by simp
  then have "1 \<le> refill ?rnd (lm_rate l) ?cap (of_int ?m) (?cap, of_int ?m)"
    by (intro refill_reaches_one [OF r cap]) simp_all
  moreover have "1 \<le> refill ?rnd (lm_rate l) ?cap (of_int ?m) (t, of_int n)"
    by (rule refill_reaches_one [OF r cap m(2) enough])
  ultimately have "1 \<le> refill ?rnd (lm_rate l) ?cap (of_int ?m) (stored_at ?rnd l k e w)"
    using stored_after(1) [OF db, of ?rnd l e] by (auto simp: ms)
  from full_token_allowed [OF s r(1) this refl, of "lm_rate l"] limiter_step(1) [OF l(2) e(1) stored_after(2) [OF db]]
  show ?thesis by (simp add: reply_at_def ms)
qed

text \<open>
  C34 Waiting: after a refused request, a request of the same key that comes at least one millisecond later than
  the limiter said is allowed when no other request of that key comes in between, whatever tokens that are not
  negative the bucket held and whether or not Redis has expired it. The arithmetic may round, monotonically
  and with relative error \<open>u\<close>, where the rate is at least about \<open>5000 u\<close> tokens per second: for doubles, at
  least one token in fifty thousand years. Instants are between 0 and \<open>2 ^ 53\<close> milliseconds.
\<close>

theorem retry_after_suffices:
  assumes "newLimiter F time_now config = Inr l" "on_redis F tostring l"
    "rounding (fl_round F) u" "mono (fl_round F)" "5000 * u \<le> (1 - 2 * u) * lm_rate l" "readable F tostring"
    "reaches sha256 l k e" "reaches sha256 l k e'" "in_clock_range e" "in_clock_range e'" "sound_bucket w k"
    "limit_step F sha256 l e w = (Inr d, w')" "\<not> rd_allowed d"
    "le_now e + rd_retry_after d + millisecond \<le> le_now e'"
  shows "\<exists>d'. fst (limit_step F sha256 l e' w') = Inr d' \<and> rd_allowed d'"
proof -
  let ?rnd = "fl_round F" and ?rate = "lm_rate l"
  note l = new_limiter_positive [OF assms(1)]
  define t where "t = refill ?rnd ?rate (?rnd (of_int (lm_burst l))) (?rnd (of_int (event_ms e))) (stored_at ?rnd l k e w)"
  have ok: "drop_expired (le_redis_clock e) k (lw_db w) k \<noteq> Some (OtherType, ex)" for ex
    using wrong_type_step [OF assms(2,7), of w ex] assms(12) by auto
  note first = limiter_step [OF assms(2,7) ok]
  have "parseDecision F (AnyArray [AnyInt64 (sr_allowed (consume ?rnd ?rate t)),
      AnyString (tostring (sr_tokens (consume ?rnd ?rate t))), AnyInt64 (sr_retry (consume ?rnd ?rate t))]) = Inr d"
    using first(1) assms(12) by (simp add: reply_at_def t_def)
  note refused = refused_reply [OF this assms(13) refl]
  have cap: "0 \<le> ?rnd (of_int (lm_burst l))" using burst_rounded [OF assms(3,4) l(2)] by simp
  then have "0 \<le> fst (stored_at ?rnd l k e w)"
    using assms(11)
    by (auto simp: stored_at_def stored_bucket_def drop_expired_def sound_bucket_def split: option.splits limit_value.splits)
  then have t: "0 \<le> t" unfolding t_def by (intro refill_nonneg [OF assms(3) cap l(1)])
  have ms: "?rnd (of_int (event_ms e)) = of_int (event_ms e)"
    using round_int [OF assms(3), of "event_ms e"] assms(9) by (simp add: in_clock_range_def)
  have db: "lw_db w' k = None \<or> (\<exists>ex. lw_db w' k = Some (Bucket (Some t) (Some (of_int (event_ms e))), ex))"
    using first(2) assms(12) refused(3) by (auto simp: reply_at_def t_def ms)
  let ?retry = "ceiling (?rnd (?rnd (?rnd (1 - t) / ?rate) * 1000))"
  have "(le_now e + (?retry + 1) * millisecond) div millisecond \<le> event_ms e'"
    using assms(14) refused(2) unfolding event_ms_def by (intro zdiv_mono1) (simp_all add: millisecond_def)
  then have "?retry + 1 \<le> event_ms e' - event_ms e" by (simp add: event_ms_def millisecond_def)
  then have wait: "?retry + 1 \<le> max 0 (event_ms e' - event_ms e)" by simp
  have "1 - t \<le> ?rnd (?rnd (of_int (max 0 (event_ms e' - event_ms e)) / 1000) * ?rate)"
    by (rule waited_enough [OF assms(3) l(1) assms(5) _ _ wait]) (use refused(1) t in simp_all)
  with request_allowed [OF assms(1-4,6,8,10) _ _ db] assms(9) show ?thesis by (simp add: in_clock_range_def)
qed

text \<open>A request of a process whose clock is ahead, and one of a process whose clock is behind; Redis's stands still.\<close>

definition skewed_pair :: "int \<Rightarrow> int \<Rightarrow> int \<Rightarrow> rate_limit_request \<Rightarrow> limit_event list" where
  "skewed_pair ahead behind clock request = [\<lparr>le_now = ahead, le_redis_clock = clock, le_request = request\<rparr>,
     \<lparr>le_now = behind, le_redis_clock = clock, le_request = request\<rparr>]"

text \<open>
  C35 Clocks that go backwards: the script stores the instant of each request even when it lies before the one
  it replaces. So for every limiter \<open>New\<close> accepts, two processes whose clocks differ by so much that a token
  flows in between, asking in turn for a key Redis does not hold yet, are given that token again and again,
  though Redis's clock stands still: of \<open>n\<close> pairs of requests at least \<open>n\<close> get through, however small the burst is.
\<close>

theorem skewed_clocks_refill:
  assumes "newLimiter F time_now config = Inr l" "on_redis F tostring l"
    "rounding (fl_round F) u" "mono (fl_round F)" "readable F tostring" "0 < milliseconds (lm_ttl l)"
    "0 \<le> behind div millisecond" "behind \<le> ahead" "ahead div millisecond \<le> 2 ^ 53"
    "1 \<le> fl_round F (fl_round F (of_int (ahead div millisecond - behind div millisecond) / 1000) * lm_rate l)"
    "reaches sha256 l k \<lparr>le_now = ahead, le_redis_clock = clock, le_request = request\<rparr>"
    "lw_db w k = None"
  shows "n \<le> allowed_count F sha256 l k (concat (replicate n (skewed_pair ahead behind clock request))) w"
proof -
  let ?e1 = "\<lparr>le_now = ahead, le_redis_clock = clock, le_request = request\<rparr>"
  let ?e2 = "\<lparr>le_now = behind, le_redis_clock = clock, le_request = request\<rparr>"
  let ?m1 = "ahead div millisecond" and ?m2 = "behind div millisecond" and ?rnd = "fl_round F"
  note l = new_limiter_positive [OF assms(1)]
  have order: "?m2 \<le> ?m1" using assms(8) by (intro zdiv_mono1) (simp_all add: millisecond_def)
  have r: "reaches sha256 l k ?e1" "reaches sha256 l k ?e2" using assms(11) by (simp_all add: reaches_def)
  have ms: "event_ms ?e1 = ?m1" "event_ms ?e2 = ?m2" by (simp_all add: event_ms_def)
  have range_ok: "in_clock_range ?e1" "in_clock_range ?e2" using assms(7,9) order by (simp_all add: in_clock_range_def ms)
  have kept: "\<exists>t' \<ge> 0. lw_db (snd (limit_step F sha256 l e w)) k =
      Some (Bucket (Some t') (Some (of_int (event_ms e))), Some (le_redis_clock e + milliseconds (lm_ttl l)))"
    if "reaches sha256 l k e" "in_clock_range e"
      "lw_db w k = None \<or> (\<exists>ex. lw_db w k = Some (Bucket (Some t) (Some x), ex))" "0 \<le> t" for e w t x
  proof -
    have cap: "0 \<le> ?rnd (of_int (lm_burst l))" using burst_rounded [OF assms(3,4) l(2)] by simp
    then have "0 \<le> fst (stored_at ?rnd l k e w)" using stored_after(1) [OF that(3), of ?rnd l e] that(4) by auto
    then have "0 \<le> sr_tokens (reply_at ?rnd l (stored_at ?rnd l k e w) e)"
      unfolding reply_at_def by (intro consume_nonneg [OF assms(3)] refill_nonneg [OF assms(3) cap l(1)])
    moreover have "?rnd (of_int (event_ms e)) = of_int (event_ms e)"
      using round_int [OF assms(3), of "event_ms e"] that(2) by (simp add: in_clock_range_def)
    ultimately show ?thesis
      using limiter_step(2) [OF assms(2) that(1) stored_after(2) [OF that(3)]] assms(6) by auto
  qed
  have "n \<le> allowed_count F sha256 l k (concat (replicate n (skewed_pair ahead behind clock request))) w"
    if "lw_db w k = None \<or> (\<exists>t ex. 0 \<le> t \<and> lw_db w k = Some (Bucket (Some t) (Some (of_int ?m2)), ex))" for w
    using that
  proof (induction n arbitrary: w)
    case (Suc n)
    then obtain t where t: "0 \<le> t" "lw_db w k = None \<or> (\<exists>ex. lw_db w k = Some (Bucket (Some t) (Some (of_int ?m2)), ex))"
      by (metis order_refl)
    have "1 - t \<le> ?rnd (?rnd (of_int (max 0 (?m1 - ?m2)) / 1000) * lm_rate l)"
      using t(1) order assms(10) by (simp add: max_def)
    then obtain d where d: "fst (limit_step F sha256 l ?e1 w) = Inr d" "rd_allowed d"
      using request_allowed [OF assms(1-5) r(1) range_ok(1) _ _ t(2)] range_ok(2) by (auto simp: ms in_clock_range_def)
    let ?w1 = "snd (limit_step F sha256 l ?e1 w)"
    let ?w2 = "snd (limit_step F sha256 l ?e2 ?w1)"
    obtain t1 where t1: "0 \<le> t1" "lw_db ?w1 k = Some (Bucket (Some t1) (Some (of_int ?m1)), Some (clock + milliseconds (lm_ttl l)))"
      using kept [OF r(1) range_ok(1) t(2,1)] by (auto simp: ms)
    then have "lw_db ?w1 k = None \<or> (\<exists>ex. lw_db ?w1 k = Some (Bucket (Some t1) (Some (of_int ?m1)), ex))" by simp
    from kept [OF r(2) range_ok(2) this t1(1)] have "\<exists>t ex. 0 \<le> t \<and> lw_db ?w2 k = Some (Bucket (Some t) (Some (of_int ?m2)), ex)"
      by (auto simp: ms)
    then have "n \<le> allowed_count F sha256 l k (concat (replicate n (skewed_pair ahead behind clock request))) ?w2"
      by (intro Suc.IH) simp
    with r(1) d show ?case by (simp add: skewed_pair_def split_beta lets_through_def)
  qed simp
  with assms(12) show ?thesis by blast
qed

end
