(* ===== verification/LimitExamples.thy ===== *)
theory LimitExamples
  imports RedisLimitProperties
begin

text \<open>The properties of the Redis limiter at concrete limiters and runs.\<close>

definition exact_lib :: float_lib where
  "exact_lib = \<lparr>fl_round = (\<lambda>x. x), fl_parse = (\<lambda>s. map_option (\<lambda>n. F64 (of_nat n)) (parse_digits 0 s)), fl_outside = (\<lambda>x. min_int64)\<rparr>"

definition whole :: "rat \<Rightarrow> string" where
  "whole x = nat_string (nat (floor x))"

lemma whole_readable: "readable exact_lib whole"
  by (simp add: readable_def exact_lib_def whole_def parse_digits_nat_string)

definition one_per_second :: "limit_world limiter_config" where
  "one_per_second = \<lparr>li_client = Runner (eval_script (\<lambda>x. x) whole), li_scope = scopeUserID, li_prefix = ''gw'',
     li_rate = F64 1, li_burst = 1, li_now = Some lw_now\<rparr>"

definition one_limiter :: "limit_world redis_limiter" where
  "one_limiter = \<lparr>lm_client = eval_script (\<lambda>x. x) whole, lm_scope = scopeUserID, lm_prefix = ''gw'', lm_rate = 1, lm_burst = 1,
     lm_ttl = 2 * second, lm_now = lw_now\<rparr>"

lemma one_made: "newLimiter exact_lib lw_now one_per_second = Inr one_limiter"
  by (simp add: newLimiter_def one_per_second_def runner_fn_def validScope_def scopeUserID_def scopeClientIP_def scopeUpstream_def
      valid_rate_def ttl_seconds_def exact_lib_def float_to_int64_def in_int64_def min_int64_def max_int64_def one_limiter_def second_def Let_def
      trim_space_visible)

lemma one_on_redis: "on_redis exact_lib whole one_limiter"
  by (simp add: on_redis_def exact_lib_def one_limiter_def)

definition alice :: rate_limit_request where
  "alice = \<lparr>rl_scope = scopeUserID, rl_key = ''alice'', rl_route = ''r'', rl_upstream = ''u''\<rparr>"

definition alice_key :: string where
  "alice_key = redisKey (\<lambda>s. s) one_limiter ''alice''"

definition asked :: "int \<Rightarrow> limit_event" where
  "asked ms = \<lparr>le_now = ms * millisecond, le_redis_clock = ms, le_request = alice\<rparr>"

lemma asked_reaches: "reaches (\<lambda>s. s) one_limiter alice_key (e\<lparr>le_request := alice\<rparr>)"
  by (simp add: reaches_def alice_def alice_key_def one_limiter_def trim_space_visible)

lemma asked_ms_reaches [simp]: "reaches (\<lambda>s. s) one_limiter alice_key (asked ms)"
  using asked_reaches [of "asked ms"] by (simp add: asked_def)

lemma asked_ms [simp]: "event_ms (asked ms) = ms" "le_redis_clock (asked ms) = ms"
  by (simp_all add: asked_def event_ms_def millisecond_def)

lemma one_facts [simp]: "lm_rate one_limiter = 1" "lm_burst one_limiter = 1" "milliseconds (lm_ttl one_limiter) = 2000"
  by (simp_all add: one_limiter_def milliseconds_def second_def millisecond_def)

definition empty_world :: limit_world where
  "empty_world = \<lparr>lw_now = 0, lw_redis_clock = 0, lw_db = Map.empty\<rparr>"

theorem token_bucket_rate_witness:
  "int (allowed_count exact_lib (\<lambda>s. s) one_limiter alice_key [asked 0, asked 10, asked 20, asked 500] empty_world) \<le> 1"
proof -
  have "of_nat (allowed_count exact_lib (\<lambda>s. s) one_limiter alice_key [asked 0, asked 10, asked 20, asked 500] empty_world)
    \<le> (of_int (lm_burst one_limiter) + (1 + 0)\<^sup>2 * lm_rate one_limiter * of_int (forward_ms (map event_ms
        [asked 0, asked 10, asked 20, asked 500])) / 1000 + 2 * 0 * of_int (lm_burst one_limiter) * of_nat (length
        [asked 0, asked 10, asked 20, asked 500]) :: rat)"
    by (rule token_bucket_rate [OF one_made one_on_redis])
      (simp_all add: rounding_def exact_lib_def in_clock_range_def empty_world_def)
  then have "(of_nat (allowed_count exact_lib (\<lambda>s. s) one_limiter alice_key [asked 0, asked 10, asked 20, asked 500] empty_world) :: rat)
    < of_nat 2"
    by simp
  then show ?thesis by (simp only: of_nat_less_iff)
qed

lemma exact_rounding: "rounding (fl_round exact_lib) 0" "mono (fl_round exact_lib)" "fl_round exact_lib x = x"
  by (simp_all add: exact_lib_def rounding_id mono_def)

lemma asked_in_range [simp]: "0 \<le> ms \<Longrightarrow> ms \<le> 2 ^ 53 \<Longrightarrow> in_clock_range (asked ms)"
  by (simp add: in_clock_range_def)

theorem retry_after_suffices_witness:
  "\<exists>d w' d'. limit_step exact_lib (\<lambda>s. s) one_limiter (asked 10)
      (snd (limit_step exact_lib (\<lambda>s. s) one_limiter (asked 0) empty_world)) = (Inr d, w') \<and> rd_retry_after d = 990 * millisecond
    \<and> fst (limit_step exact_lib (\<lambda>s. s) one_limiter (asked 1001) w') = Inr d' \<and> rd_allowed d'"
proof -
  let ?w = "snd (limit_step exact_lib (\<lambda>s. s) one_limiter (asked 0) empty_world)"
  have w: "lw_db ?w alice_key = Some (Bucket (Some 0) (Some 0), Some 2000)"
    using limiter_step(2) [OF one_on_redis asked_ms_reaches, where w = empty_world and ms1 = 0]
    by (simp add: empty_world_def drop_expired_def reply_at_def stored_at_def stored_bucket_def refill_def consume_def exact_rounding)
  have "fst (limit_step exact_lib (\<lambda>s. s) one_limiter (asked 10) ?w)
      = parseDecision exact_lib (AnyArray [AnyInt64 0, AnyString (whole (1 / 100)), AnyInt64 990])"
    using limiter_step(1) [OF one_on_redis asked_ms_reaches, where w = ?w and ms1 = 10] w
    by (simp add: drop_expired_def reply_at_def stored_at_def stored_bucket_def refill_def consume_def exact_rounding)
  then obtain d where d: "fst (limit_step exact_lib (\<lambda>s. s) one_limiter (asked 10) ?w) = Inr d" "\<not> rd_allowed d"
      "rd_retry_after d = 990 * millisecond"
    using readable_value [OF whole_readable, of "1 / 100"]
    by (auto simp: parseDecision_def max_int64_def millisecond_def)
  obtain w' where step: "limit_step exact_lib (\<lambda>s. s) one_limiter (asked 10) ?w = (Inr d, w')"
    using d(1) by (metis prod.collapse)
  have wait: "le_now (asked 10) + rd_retry_after d + millisecond \<le> le_now (asked 1001)" by (simp add: d asked_def millisecond_def)
  have rate: "5000 * 0 \<le> (1 - 2 * 0) * lm_rate one_limiter" by simp
  have sound: "sound_bucket ?w alice_key" by (simp add: sound_bucket_def w)
  have clocks: "in_clock_range (asked 10)" "in_clock_range (asked 1001)" by simp_all
  from retry_after_suffices [OF one_made one_on_redis exact_rounding(1,2) rate whole_readable asked_ms_reaches asked_ms_reaches
      clocks sound step d(2) wait] step d(3)
  show ?thesis by blast
qed

theorem skewed_clocks_refill_witness:
  "1000 \<le> allowed_count exact_lib (\<lambda>s. s) one_limiter alice_key (concat (replicate 1000 (skewed_pair second 0 0 alice))) empty_world"
proof -
  have "reaches (\<lambda>s. s) one_limiter alice_key \<lparr>le_now = second, le_redis_clock = 0, le_request = alice\<rparr>"
    using asked_reaches [of "\<lparr>le_now = second, le_redis_clock = 0, le_request = alice\<rparr>"] by simp
  from skewed_clocks_refill [OF one_made one_on_redis exact_rounding(1,2) whole_readable _ _ _ _ _ this]
  show ?thesis by (simp add: second_def millisecond_def exact_rounding empty_world_def)
qed

section \<open>The wait in doubles\<close>

text \<open>Rounding to a nearest number with 53 binary digits, to the even one of two, below \<open>2 ^ 53\<close>.\<close>

definition nearest :: "(rat \<Rightarrow> rat) \<Rightarrow> bool" where
  "nearest rnd \<longleftrightarrow> (\<forall>k n x. 2 ^ 52 < k \<and> k < 2 ^ 53 \<and> n \<le> 1000
     \<and> (\<bar>x * 2 ^ n - of_int k\<bar> < 1 / 2 \<or> \<bar>x * 2 ^ n - of_int k\<bar> = 1 / 2 \<and> even k) \<longrightarrow> rnd x = of_int k / 2 ^ n)"

lemma nearestD:
  "nearest rnd \<Longrightarrow> 2 ^ 52 < k \<Longrightarrow> k < 2 ^ 53 \<Longrightarrow> n \<le> 1000 \<Longrightarrow>
     \<bar>x * 2 ^ n - of_int k\<bar> < 1 / 2 \<or> \<bar>x * 2 ^ n - of_int k\<bar> = 1 / 2 \<and> even k \<Longrightarrow> rnd x = of_int k / 2 ^ n"
  unfolding nearest_def by blast

text \<open>
  Without the extra millisecond the wait may be too short: with a rate of ten tokens per second, a bucket that
  is empty at instant 0 refuses a request at 10 and asks for 90 milliseconds, and at 100 it still has less
  than a token.
\<close>

theorem advised_wait_too_short:
  assumes n: "nearest rnd" and ints: "\<And>n. \<bar>n\<bar> \<le> 2 ^ 53 \<Longrightarrow> rnd (of_int n) = of_int n"
  shows "\<exists>t. consume rnd 10 (refill rnd 10 1 10 (0, 0)) = \<lparr>sr_allowed = 0, sr_tokens = t, sr_retry = 90\<rparr>
    \<and> sr_allowed (consume rnd 10 (refill rnd 10 1 100 (t, 10))) = 0"
proof -
  let ?t = "3602879701896397 / 36028797018963968 :: rat"
  have small: "rnd 10 = 10" "rnd 90 = 90" "rnd 0 = 0" using ints [of 10] ints [of 90] ints [of 0] by simp_all
  have r1: "rnd (1 / 100) = 5764607523034235 / 576460752303423488"
    using nearestD [OF n, of 5764607523034235 59 "1 / 100"] by simp
  have r2: "rnd (28823037615171175 / 288230376151711744) = 3602879701896397 / 36028797018963968"
    using nearestD [OF n, of 7205759403792794 56 "28823037615171175 / 288230376151711744"] by simp
  have r3: "rnd (3602879701896397 / 36028797018963968) = 3602879701896397 / 36028797018963968"
    using nearestD [OF n, of 7205759403792794 56 "3602879701896397 / 36028797018963968"] by simp
  have w1: "rnd (32425917317067571 / 36028797018963968) = 8106479329266893 / 9007199254740992"
    using nearestD [OF n, of 8106479329266893 53 "32425917317067571 / 36028797018963968"] by simp
  have w2: "rnd (8106479329266893 / 90071992547409920) = 3242591731706757 / 36028797018963968"
    using nearestD [OF n, of 6485183463413514 56 "8106479329266893 / 90071992547409920"] by simp
  have w3: "rnd (405323966463344625 / 4503599627370496) = 90"
    using nearestD [OF n, of 6333186975989760 46 "405323966463344625 / 4503599627370496"] by simp
  have s1: "rnd (9 / 100) = 3242591731706757 / 36028797018963968"
    using nearestD [OF n, of 6485183463413514 56 "9 / 100"] by simp
  have s2: "rnd (16212958658533785 / 18014398509481984) = 2026619832316723 / 2251799813685248"
    using nearestD [OF n, of 8106479329266892 53 "16212958658533785 / 18014398509481984"] by simp
  have s3: "rnd (36028797018963965 / 36028797018963968) = 9007199254740991 / 9007199254740992"
    using nearestD [OF n, of 9007199254740991 53 "36028797018963965 / 36028797018963968"] by simp
  have t: "refill rnd 10 1 10 (0, 0) = ?t" by (simp add: refill_def small r1 r2 r3)
  have "consume rnd 10 ?t = \<lparr>sr_allowed = 0, sr_tokens = ?t, sr_retry = 90\<rparr>" by (simp add: consume_def w1 w2 w3)
  moreover have "refill rnd 10 1 100 (?t, 10) = 9007199254740991 / 9007199254740992" by (simp add: refill_def small s1 s2 s3)
  then have "sr_allowed (consume rnd 10 (refill rnd 10 1 100 (?t, 10))) = 0" by (simp add: consume_def)
  ultimately show ?thesis unfolding t by blast
qed

end
