(* ===== verification/JwtAuth.thy ===== *)
theory JwtAuth
  imports GatewayState
begin

text \<open>
  The HS256 authenticator of \<open>sdk/go/gateway/jwtauth/authenticator.go\<close>. The parser of golang-jwt is an
  argument (\<open>jwt_lib\<close>); what it promises for a token it accepts under its options is \<open>parser_contract\<close>. The claims
  factory and the identity mapper are functions of the project that may panic; \<open>'c\<close> are its own claims.
\<close>

section \<open>The parser\<close>

text \<open>Claims: nil, a nil pointer, the package's \<open>Claims\<close> with its registered part, or those of the project.\<close>

record default_claims =
  dc_roles :: "string list"
  dc_subject :: string
  dc_issuer :: string
  dc_audience :: "string list"
  dc_expires :: "int option"

datatype 'c jwt_claims = NilClaims | NilPointerClaims | DefaultClaims default_claims | CustomClaims 'c

definition isNilClaims :: "'c jwt_claims \<Rightarrow> bool" where
  "isNilClaims c = (case c of NilClaims \<Rightarrow> True | NilPointerClaims \<Rightarrow> True | other \<Rightarrow> False)"

record parser_options =
  po_methods :: "string list"
  po_issuer :: string
  po_audience :: string
  po_expiration_required :: bool
  po_leeway :: int

record jwt_token =
  jt_method :: string
  jt_valid :: bool

text \<open>
  \<open>jl_parse\<close> is \<open>ParseWithClaims\<close>: options, the instant its clock reads, the raw token, the claims to fill
  and the key function; it returns the token, the error and the filled claims. The other fields read the
  project's claims, and say whether a raw token carries a signature under a method and a key.
\<close>

record 'c jwt_lib =
  jl_parse :: "parser_options \<Rightarrow> int \<Rightarrow> string \<Rightarrow> 'c jwt_claims \<Rightarrow> (string \<Rightarrow> string result) \<Rightarrow>
    jwt_token option \<times> go_error option \<times> 'c jwt_claims"
  jl_subject :: "'c \<Rightarrow> string result"
  jl_issuer :: "'c \<Rightarrow> string"
  jl_audience :: "'c \<Rightarrow> string list"
  jl_expires :: "'c \<Rightarrow> int option"
  jl_signed :: "string \<Rightarrow> string \<Rightarrow> string \<Rightarrow> bool"

definition getSubject :: "'c jwt_lib \<Rightarrow> 'c jwt_claims \<Rightarrow> string result" where
  "getSubject J c = (case c of DefaultClaims d \<Rightarrow> Inr (dc_subject d) | CustomClaims x \<Rightarrow> jl_subject J x | other \<Rightarrow> Inl (Plain ''nil claims''))"

definition claims_issuer :: "'c jwt_lib \<Rightarrow> 'c jwt_claims \<Rightarrow> string" where
  "claims_issuer J c = (case c of DefaultClaims d \<Rightarrow> dc_issuer d | CustomClaims x \<Rightarrow> jl_issuer J x | other \<Rightarrow> '''')"

definition claims_audience :: "'c jwt_lib \<Rightarrow> 'c jwt_claims \<Rightarrow> string list" where
  "claims_audience J c = (case c of DefaultClaims d \<Rightarrow> dc_audience d | CustomClaims x \<Rightarrow> jl_audience J x | other \<Rightarrow> [])"

definition claims_expires :: "'c jwt_lib \<Rightarrow> 'c jwt_claims \<Rightarrow> int option" where
  "claims_expires J c = (case c of DefaultClaims d \<Rightarrow> dc_expires d | CustomClaims x \<Rightarrow> jl_expires J x | other \<Rightarrow> None)"

text \<open>
  The documented behaviour of the parser: a token it accepts as valid uses one of the methods, is signed under
  the key the key function returns for its method, has the issuer and the audience, and, where expiration is
  required, an expiry that has not passed by more than the leeway.
\<close>

definition parser_contract :: "'c jwt_lib \<Rightarrow> bool" where
  "parser_contract J \<longleftrightarrow> (\<forall>opts now raw claims keyfunc token filled.
     jl_parse J opts now raw claims keyfunc = (Some token, None, filled) \<and> jt_valid token \<longrightarrow>
       jt_method token \<in> set (po_methods opts)
       \<and> (\<exists>key. keyfunc (jt_method token) = Inr key \<and> jl_signed J (jt_method token) key raw)
       \<and> claims_issuer J filled = po_issuer opts \<and> po_audience opts \<in> set (claims_audience J filled)
       \<and> (po_expiration_required opts \<longrightarrow> (\<exists>e. claims_expires J filled = Some e \<and> now < e + po_leeway opts)))"

section \<open>Configuration\<close>

type_synonym ('c, 'w) claims_factory = "'w \<Rightarrow> 'c jwt_claims ext \<times> 'w"
type_synonym ('c, 'w) identity_mapper = "'c jwt_claims \<Rightarrow> 'w \<Rightarrow> identity result ext \<times> 'w"

record ('c, 'w) jwt_config =
  jc_secret :: string
  jc_issuer :: string
  jc_audience :: string
  jc_leeway :: int
  jc_now :: "('w \<Rightarrow> int) option"
  jc_factory :: "('c, 'w) claims_factory option"
  jc_mapper :: "('c, 'w) identity_mapper option"

record ('c, 'w) jwt_authenticator =
  ja_secret :: string
  ja_parser :: parser_options
  ja_now :: "'w \<Rightarrow> int"
  ja_factory :: "('c, 'w) claims_factory"
  ja_mapper :: "('c, 'w) identity_mapper"

definition minimumHMACSecretBytes :: nat where "minimumHMACSecretBytes = 32"

definition signing_method :: string where "signing_method = ''HS256''"

definition empty_identity :: identity where
  "empty_identity = \<lparr>id_user = '''', id_roles = [], id_attributes = None\<rparr>"

definition default_factory :: "('c, 'w) claims_factory" where
  "default_factory w = (Ret (DefaultClaims \<lparr>dc_roles = [], dc_subject = '''', dc_issuer = '''', dc_audience = [], dc_expires = None\<rparr>), w)"

definition defaultIdentityMapper :: "('c, 'w) identity_mapper" where
  "defaultIdentityMapper c w = (Ret (case c of
     DefaultClaims d \<Rightarrow> Inr (empty_identity\<lparr>id_user := dc_subject d, id_roles := dc_roles d\<rparr>)
   | other \<Rightarrow> Inl (Plain ''default JWT mapper requires jwtauth.Claims'')), w)"

text \<open>\<open>New\<close>, up to the call of the factory, and the authenticator it builds.\<close>

definition check_jwt_config :: "('c, 'w) jwt_config \<Rightarrow> unit result" where
  "check_jwt_config c =
     and_then (reject_if (length (jc_secret c) < minimumHMACSecretBytes) ''JWT HS256 secret must contain at least 32 bytes'') (\<lambda>u.
     and_then (reject_if (trim_space (jc_issuer c) = '''') ''JWT issuer is required'') (\<lambda>u.
     and_then (reject_if (trim_space (jc_audience c) = '''') ''JWT audience is required'') (\<lambda>u.
     reject_if (jc_leeway c < 0) ''JWT leeway cannot be negative'')))"

definition jwt_authenticator_of :: "('w \<Rightarrow> int) \<Rightarrow> ('c, 'w) jwt_config \<Rightarrow> ('c, 'w) jwt_authenticator" where
  "jwt_authenticator_of time_now c =
     \<lparr>ja_secret = jc_secret c,
      ja_parser = \<lparr>po_methods = [signing_method], po_issuer = trim_space (jc_issuer c), po_audience = trim_space (jc_audience c),
        po_expiration_required = True, po_leeway = (if jc_leeway c = 0 then 30 * second else jc_leeway c)\<rparr>,
      ja_now = (case jc_now c of None \<Rightarrow> time_now | Some now \<Rightarrow> now),
      ja_factory = (case jc_factory c of None \<Rightarrow> default_factory | Some f \<Rightarrow> f),
      ja_mapper = (case jc_mapper c of None \<Rightarrow> defaultIdentityMapper | Some f \<Rightarrow> f)\<rparr>"

definition newJWT :: "('w \<Rightarrow> int) \<Rightarrow> ('c, 'w) jwt_config \<Rightarrow> 'w \<Rightarrow> ('c, 'w) jwt_authenticator result ext \<times> 'w" where
  "newJWT time_now c w = (case check_jwt_config c of
     Inl err \<Rightarrow> (Ret (Inl err), w)
   | Inr u \<Rightarrow> let a = jwt_authenticator_of time_now c in
       (case ja_factory a w of
          (Panics p, w') \<Rightarrow> (Panics p, w')
        | (Ret claims, w') \<Rightarrow>
            (Ret (if isNilClaims claims then Inl (Plain ''JWT claims factory returned nil'') else Inr a), w')))"

section \<open>Authentication\<close>

definition rejectedDecision :: auth_decision where
  "rejectedDecision = \<lparr>ad_authenticated = False, ad_identity = empty_identity, ad_reason = ''invalid bearer token''\<rparr>"

fun normalize_roles :: "string list \<Rightarrow> string list \<Rightarrow> string list" where
  "normalize_roles seen [] = []"
| "normalize_roles seen (raw # roles) =
     (let role = trim_space raw in
      if role = '''' \<or> role \<in> set seen then normalize_roles seen roles
      else role # normalize_roles (role # seen) roles)"

definition normalizeRoles :: "string list \<Rightarrow> string list" where
  "normalizeRoles roles = normalize_roles [] roles"

definition key_function :: "('c, 'w) jwt_authenticator \<Rightarrow> string \<Rightarrow> string result" where
  "key_function a method =
     (if method \<noteq> signing_method then Inl (Plain ''unexpected JWT signing method'') else Inr (ja_secret a))"

text \<open>What is done with the identity of a valid token.\<close>

definition decide_identity :: "identity result \<Rightarrow> auth_decision" where
  "decide_identity mapped = (case mapped of
     Inl err \<Rightarrow> rejectedDecision
   | Inr i \<Rightarrow>
       if trim_space (id_user i) = '''' then rejectedDecision
       else \<lparr>ad_authenticated = True,
              ad_identity = i\<lparr>id_user := trim_space (id_user i), id_roles := normalizeRoles (id_roles i)\<rparr>, ad_reason = ''''\<rparr>)"

definition jwt_authenticate :: "'c jwt_lib \<Rightarrow> ('c, 'w) jwt_authenticator \<Rightarrow> 'w authenticator_fn" where
  "jwt_authenticate J a raw w =
     (if trim_space raw = '''' then (Ret (Inr rejectedDecision), w)
      else case ja_factory a w of
        (Panics p, w1) \<Rightarrow> (Panics p, w1)
      | (Ret claims, w1) \<Rightarrow>
          if isNilClaims claims then (Ret (Inl (Plain ''JWT claims factory returned nil'')), w1)
          else case jl_parse J (ja_parser a) (ja_now a w1) raw claims (key_function a) of
            (Some token, None, filled) \<Rightarrow>
              if \<not> jt_valid token then (Ret (Inr rejectedDecision), w1)
              else (case getSubject J filled of
                 Inl err \<Rightarrow> (Ret (Inr rejectedDecision), w1)
               | Inr subject \<Rightarrow>
                   if trim_space subject = '''' then (Ret (Inr rejectedDecision), w1)
                   else (case ja_mapper a filled w1 of
                      (Panics p, w2) \<Rightarrow> (Panics p, w2)
                    | (Ret mapped, w2) \<Rightarrow> (Ret (Inr (decide_identity mapped)), w2)))
          | other \<Rightarrow> (Ret (Inr rejectedDecision), w1))"

section \<open>Properties\<close>

lemma normalize_roles_spec:
  "normalize_roles seen roles = rev (remdups (rev (filter (\<lambda>r. r \<noteq> '''' \<and> r \<notin> set seen) (map trim_space roles))))"
proof (induction seen roles rule: normalize_roles.induct)
  case (2 seen raw roles)
  have drop: "rev (remdups (rev (x # xs))) = x # rev (remdups (rev (filter (\<lambda>y. y \<noteq> x) xs)))" for x :: string and xs
  proof (induction xs rule: rev_induct)
    case (snoc y ys)
    then show ?case by (cases "y = x") (auto)
  qed simp
  show ?case
  proof (cases "trim_space raw = '''' \<or> trim_space raw \<in> set seen")
    case True
    with 2 show ?thesis by (auto simp: Let_def)
  next
    case False
    then have "normalize_roles seen (raw # roles) = trim_space raw # normalize_roles (trim_space raw # seen) roles"
      by (simp add: Let_def)
    also have "\<dots> = rev (remdups (rev (trim_space raw # filter (\<lambda>r. r \<noteq> '''' \<and> r \<notin> set seen) (map trim_space roles))))"
      using 2(2) [OF refl False] unfolding drop by (simp add: filter_filter conj_ac insert_commute)
    finally show ?thesis using False by simp
  qed
qed simp

text \<open>
  The roles of an identity are those of the token, trimmed: none is blank, each occurs once, at its first
  place.
\<close>

theorem normalize_roles_exact:
  "normalizeRoles roles = rev (remdups (rev (filter (\<lambda>r. r \<noteq> '''') (map trim_space roles))))
   \<and> distinct (normalizeRoles roles) \<and> '''' \<notin> set (normalizeRoles roles)
   \<and> set (normalizeRoles roles) = trim_space ` set roles - {''''}"
  by (auto simp: normalizeRoles_def normalize_roles_spec)

text \<open>What a run that authenticates went through.\<close>

lemma jwt_accepts:
  assumes "newJWT time_now config w0 = (Ret (Inr a), w1)" "parser_contract J"
    "jwt_authenticate J a raw w = (Ret (Inr d), w')" "ad_authenticated d"
  obtains filled w2 e i where "32 \<le> length (jc_secret config)" "jl_signed J ''HS256'' (jc_secret config) raw"
    "claims_issuer J filled = trim_space (jc_issuer config)" "trim_space (jc_issuer config) \<noteq> ''''"
    "trim_space (jc_audience config) \<in> set (claims_audience J filled)"
    "claims_expires J filled = Some e" "ja_now a w2 < e + po_leeway (ja_parser a)"
    "ja_mapper a filled w2 = (Ret (Inr i), w')" "trim_space (id_user i) \<noteq> ''''"
    "ad_identity d = i\<lparr>id_user := trim_space (id_user i), id_roles := normalizeRoles (id_roles i)\<rparr>"
proof -
  have a: "a = jwt_authenticator_of time_now config" "check_jwt_config config = Inr ()"
    using assms(1) by (auto simp: newJWT_def Let_def split: sum.split_asm prod.split_asm ext.split_asm if_split_asm)
  have config: "32 \<le> length (jc_secret config)" "trim_space (jc_issuer config) \<noteq> ''''"
    using a(2) by (auto simp: check_jwt_config_def and_then_eq_Inr minimumHMACSecretBytes_def)
  have no: "\<not> ad_authenticated rejectedDecision" by (simp add: rejectedDecision_def)
  obtain claims w2 token filled i where run: "ja_factory a w = (Ret claims, w2)"
      "jl_parse J (ja_parser a) (ja_now a w2) raw claims (key_function a) = (Some token, None, filled)" "jt_valid token"
      "ja_mapper a filled w2 = (Ret (Inr i), w')" "d = decide_identity (Inr i)" "trim_space (id_user i) \<noteq> ''''"
    using assms(3,4) no unfolding jwt_authenticate_def
    by (auto simp: decide_identity_def split: if_split_asm prod.split_asm ext.split_asm option.split_asm sum.split_asm)
  from assms(2) run(2,3) obtain key e where parsed: "jt_method token = signing_method" "key_function a (jt_method token) = Inr key"
      "jl_signed J (jt_method token) key raw" "claims_issuer J filled = trim_space (jc_issuer config)"
      "trim_space (jc_audience config) \<in> set (claims_audience J filled)" "claims_expires J filled = Some e"
      "ja_now a w2 < e + po_leeway (ja_parser a)"
    unfolding parser_contract_def a(1) by (force simp: jwt_authenticator_of_def)
  have key: "key = jc_secret config" using parsed(2) by (simp add: key_function_def parsed(1) a(1) jwt_authenticator_of_def)
  have "jl_signed J ''HS256'' (jc_secret config) raw" using parsed(1,3) by (simp add: key signing_method_def)
  moreover have "ad_identity d = i\<lparr>id_user := trim_space (id_user i), id_roles := normalizeRoles (id_roles i)\<rparr>"
    using run(5,6) by (simp add: decide_identity_def)
  ultimately show thesis using that config parsed(4-7) run(4,6) by blast
qed

text \<open>
  C36 Authentication: with an authenticator that \<open>New\<close> made, a token is authenticated only when it is signed with
  HS256 under the configured secret, which has at least 32 bytes, names the configured issuer and audience,
  and has an expiry that has not passed by more than the leeway; the identity is the one the mapper made of
  its claims, with a user ID that is trimmed and not blank.
\<close>

theorem jwt_authenticated:
  assumes "newJWT time_now config w0 = (Ret (Inr a), w1)" "parser_contract J"
    "jwt_authenticate J a raw w = (Ret (Inr d), w')" "ad_authenticated d"
  shows "32 \<le> length (jc_secret config) \<and> jl_signed J ''HS256'' (jc_secret config) raw
    \<and> (\<exists>filled w2 e i. claims_issuer J filled = trim_space (jc_issuer config) \<and> trim_space (jc_issuer config) \<noteq> ''''
      \<and> trim_space (jc_audience config) \<in> set (claims_audience J filled)
      \<and> claims_expires J filled = Some e \<and> ja_now a w2 < e + po_leeway (ja_parser a)
      \<and> ja_mapper a filled w2 = (Ret (Inr i), w')
      \<and> ad_identity d = i\<lparr>id_user := trim_space (id_user i), id_roles := normalizeRoles (id_roles i)\<rparr>
      \<and> trim_space (id_user i) \<noteq> '''')"
proof (rule jwt_accepts [OF assms], goal_cases)
  case (1 filled w2 e i)
  from 1(1,2) show ?case
    by (intro conjI exI [of _ filled] exI [of _ w2] exI [of _ e] exI [of _ i]) (rule 1)+
qed

text \<open>
  Rejection: with the package's own claims and mapping every credential gets a decision, never an error or a
  panic; it authenticates or is the one rejection that says nothing about the token.
\<close>

theorem jwt_decided:
  assumes "newJWT time_now config w0 = (Ret (Inr a), w1)" "jc_factory config = None" "jc_mapper config = None"
  shows "\<exists>d. jwt_authenticate J a raw w = (Ret (Inr d), w) \<and> (ad_authenticated d \<or> d = rejectedDecision)"
proof -
  have a: "a = jwt_authenticator_of time_now config"
    using assms(1) by (auto simp: newJWT_def Let_def split: sum.split_asm prod.split_asm ext.split_asm if_split_asm)
  have parts: "ja_factory a = default_factory" "ja_mapper a = defaultIdentityMapper"
    by (simp_all add: a jwt_authenticator_of_def assms(2,3))
  have decided: "ad_authenticated (decide_identity r) \<or> decide_identity r = rejectedDecision" for r
    by (simp add: decide_identity_def split: sum.split)
  show ?thesis
    using decided
    by (auto simp: jwt_authenticate_def parts default_factory_def isNilClaims_def defaultIdentityMapper_def
        split: prod.split option.split sum.split)
qed

end
