(* ===== verification/JwtExamples.thy ===== *)
theory JwtExamples
  imports JwtAuth
begin

text \<open>The properties of the JWT authenticator at a concrete configuration, with a parser that keeps its contract.\<close>

text \<open>A token of this parser is its key followed by a mark.\<close>

definition marked :: "string \<Rightarrow> string" where
  "marked key = key @ ''.signed''"

definition demo_jwt :: "unit jwt_lib" where
  "demo_jwt = \<lparr>
     jl_parse = (\<lambda>opts now raw claims keyfunc. case keyfunc ''HS256'' of
        Inl err \<Rightarrow> (None, Some err, claims)
      | Inr key \<Rightarrow>
          if raw = marked key \<and> ''HS256'' \<in> set (po_methods opts) \<and> 0 \<le> po_leeway opts
          then (Some \<lparr>jt_method = ''HS256'', jt_valid = True\<rparr>, None,
            DefaultClaims \<lparr>dc_roles = ['' admin'', ''admin'', ''''], dc_subject = ''alice'', dc_issuer = po_issuer opts,
              dc_audience = [po_audience opts], dc_expires = Some (now + 1)\<rparr>)
          else (None, Some (Plain ''token is malformed''), claims)),
     jl_subject = (\<lambda>c. Inl (Plain ''no claims'')), jl_issuer = (\<lambda>c. ''''), jl_audience = (\<lambda>c. []), jl_expires = (\<lambda>c. None),
     jl_signed = (\<lambda>method key raw. raw = marked key)\<rparr>"

lemma demo_contract: "parser_contract demo_jwt"
  by (auto simp: parser_contract_def demo_jwt_def claims_issuer_def claims_audience_def claims_expires_def
      split: sum.split_asm if_split_asm)

definition demo_secret :: string where
  "demo_secret = replicate 32 (CHR ''k'')"

definition demo_config :: "(unit, int) jwt_config" where
  "demo_config = \<lparr>jc_secret = demo_secret, jc_issuer = ''issuer'', jc_audience = ''api'', jc_leeway = 0, jc_now = Some (\<lambda>w. w),
     jc_factory = None, jc_mapper = None\<rparr>"

definition demo_authenticator :: "(unit, int) jwt_authenticator" where
  "demo_authenticator = jwt_authenticator_of (\<lambda>w. 0) demo_config"

lemma demo_trims: "trim_space ''issuer'' = ''issuer''" "trim_space ''api'' = ''api''" "trim_space ''alice'' = ''alice''"
    "trim_space ''admin'' = ''admin''"
  by (simp_all add: trim_space_visible)

lemma demo_secret_marked: "trim_space (marked demo_secret) = marked demo_secret" "marked demo_secret \<noteq> ''''"
  by (simp_all add: marked_def demo_secret_def trim_space_visible)

lemma demo_jwt_made: "newJWT (\<lambda>w. 0) demo_config 5 = (Ret (Inr demo_authenticator), 5)"
  by (simp add: newJWT_def check_jwt_config_def and_then_eq_Inr demo_authenticator_def demo_config_def Let_def
      jwt_authenticator_of_def default_factory_def isNilClaims_def minimumHMACSecretBytes_def demo_secret_def demo_trims reject_if_def)

lemma demo_run:
  "\<exists>d. jwt_authenticate demo_jwt demo_authenticator (marked demo_secret) 5 = (Ret (Inr d), 5) \<and> ad_authenticated d
     \<and> id_user (ad_identity d) = ''alice''"
  by (simp add: jwt_authenticate_def demo_trims demo_secret_marked demo_authenticator_def jwt_authenticator_of_def demo_config_def default_factory_def
      isNilClaims_def demo_jwt_def key_function_def signing_method_def getSubject_def defaultIdentityMapper_def empty_identity_def
      decide_identity_def second_def)

theorem jwt_authenticated_witness:
  "\<exists>d i. jwt_authenticate demo_jwt demo_authenticator (marked demo_secret) 5 = (Ret (Inr d), 5)
     \<and> jl_signed demo_jwt ''HS256'' demo_secret (marked demo_secret)
     \<and> ad_identity d = i\<lparr>id_user := trim_space (id_user i), id_roles := normalizeRoles (id_roles i)\<rparr>"
proof -
  obtain d where d: "jwt_authenticate demo_jwt demo_authenticator (marked demo_secret) 5 = (Ret (Inr d), 5)" "ad_authenticated d"
    using demo_run by blast
  from jwt_authenticated [OF demo_jwt_made demo_contract d] d(1) show ?thesis by (auto simp: demo_config_def)
qed

theorem jwt_decided_witness:
  "\<exists>d. jwt_authenticate demo_jwt demo_authenticator ''x'' 5 = (Ret (Inr d), 5) \<and> (ad_authenticated d \<or> d = rejectedDecision)"
proof -
  have parts: "jc_factory demo_config = None" "jc_mapper demo_config = None" by (simp_all add: demo_config_def)
  show ?thesis by (rule jwt_decided [OF demo_jwt_made parts])
qed

end
