(* ===== verification/KafkaPublisher.thy ===== *)
theory KafkaPublisher
  imports Prelude GoStrings
begin

text \<open>
  The Kafka connection and publisher of \<open>sdk/go/mq/kafka\<close>: \<open>security.go\<close> and \<open>publisher.go\<close>. Files, certificate
  pools, key pairs and SCRAM are fields of \<open>kafka_env\<close>; the writer, the transport and the broker connections of
  kafka-go are functions of the world or observed results. \<open>fmt\<close>'s quoting of a string is an argument too.
\<close>

section \<open>Security settings (\<open>security.go\<close>)\<close>

record connection_config =
  kc_client_id :: string
  kc_protocol :: string
  kc_mechanism :: string
  kc_username :: string
  kc_password :: string
  kc_ca_file :: string
  kc_cert_file :: string
  kc_key_file :: string
  kc_server_name :: string
  kc_dial_timeout :: int

text \<open>A pool of root certificates is the list of its certificates; \<open>tls_skip_verify\<close> is the field no code sets.\<close>

record tls_config =
  tls_min_version :: nat
  tls_server_name :: string
  tls_roots :: "string list option"
  tls_certificates :: "(string \<times> string) list"
  tls_skip_verify :: bool

datatype sasl_mechanism = PlainMechanism string string | ScramMechanism string string string

text \<open>
  \<open>ke_read_file\<close> is \<open>os.ReadFile\<close>, \<open>ke_system_pool\<close> is \<open>x509.SystemCertPool\<close>, \<open>ke_append\<close> the certificates a PEM
  file adds, \<open>ke_key_pair\<close> is \<open>tls.LoadX509KeyPair\<close> and \<open>ke_scram\<close> whether \<open>scram.Mechanism\<close> accepts the credentials.
\<close>

record kafka_env =
  ke_read_file :: "string \<Rightarrow> string result"
  ke_system_pool :: "string list option result"
  ke_pem :: "string \<Rightarrow> string list"
  ke_key_pair :: "string \<Rightarrow> string \<Rightarrow> (string \<times> string) result"
  ke_scram :: "string \<Rightarrow> string \<Rightarrow> string \<Rightarrow> go_error option"
  ke_quote :: "string \<Rightarrow> string"

record kafka_connection =
  kn_client_id :: string
  kn_dial_timeout :: int
  kn_tls :: "tls_config option"
  kn_mechanism :: "sasl_mechanism option"

definition protocolPlaintext :: string where "protocolPlaintext = ''PLAINTEXT''"
definition protocolTLS :: string where "protocolTLS = ''TLS''"
definition protocolSASLPlaintext :: string where "protocolSASLPlaintext = ''SASL_PLAINTEXT''"
definition protocolSASLTLS :: string where "protocolSASLTLS = ''SASL_TLS''"

definition mechanismPlain :: string where "mechanismPlain = ''PLAIN''"
definition mechanismSCRAM256 :: string where "mechanismSCRAM256 = ''SCRAM-SHA-256''"
definition mechanismSCRAM512 :: string where "mechanismSCRAM512 = ''SCRAM-SHA-512''"

lemmas kafka_names = protocolPlaintext_def protocolTLS_def protocolSASLPlaintext_def protocolSASLTLS_def
  mechanismPlain_def mechanismSCRAM256_def mechanismSCRAM512_def

definition wrap_error :: "string \<Rightarrow> go_error \<Rightarrow> go_error" where
  "wrap_error prefix err = Wrap (prefix @ '': '' @ error_text err) [err]"

text \<open>\<open>loadTLSConfig\<close>: the roots of the CA file, and the client certificate.\<close>

definition load_roots :: "kafka_env \<Rightarrow> string \<Rightarrow> string list option result" where
  "load_roots E file =
     (if file = '''' then Inr None
      else case ke_read_file E file of
        Inl err \<Rightarrow> Inl (wrap_error ''read Kafka TLS CA file'' err)
      | Inr payload \<Rightarrow>
          let pool = (case ke_system_pool E of Inr (Some certs) \<Rightarrow> certs | other \<Rightarrow> []) in
          if ke_pem E payload = [] then Inl (Plain ''Kafka TLS CA file contains no certificates'')
          else Inr (Some (pool @ ke_pem E payload)))"

definition load_certificates :: "kafka_env \<Rightarrow> string \<Rightarrow> string \<Rightarrow> (string \<times> string) list result" where
  "load_certificates E cert key_file =
     (if (cert = '''') \<noteq> (key_file = '''')
      then Inl (Plain ''Kafka TLS client certificate and key must be configured together'')
      else if cert = '''' then Inr []
      else case ke_key_pair E cert key_file of
        Inl err \<Rightarrow> Inl (wrap_error ''load Kafka TLS client certificate'' err)
      | Inr pair \<Rightarrow> Inr [pair])"

definition loadTLSConfig :: "kafka_env \<Rightarrow> connection_config \<Rightarrow> tls_config result" where
  "loadTLSConfig E c =
     and_then (load_roots E (kc_ca_file c)) (\<lambda>roots.
     and_then (load_certificates E (kc_cert_file c) (kc_key_file c)) (\<lambda>certificates.
       Inr \<lparr>tls_min_version = 12, tls_server_name = trim_space (kc_server_name c), tls_roots = roots,
         tls_certificates = certificates, tls_skip_verify = False\<rparr>))"

definition scram_mechanism :: "kafka_env \<Rightarrow> string \<Rightarrow> connection_config \<Rightarrow> sasl_mechanism result" where
  "scram_mechanism E algorithm c = (case ke_scram E algorithm (kc_username c) (kc_password c) of
     Some err \<Rightarrow> Inl err
   | None \<Rightarrow> Inr (ScramMechanism algorithm (kc_username c) (kc_password c)))"

definition loadSASLMechanism :: "kafka_env \<Rightarrow> connection_config \<Rightarrow> sasl_mechanism result" where
  "loadSASLMechanism E c =
     (if trim_space (kc_username c) = '''' \<or> kc_password c = ''''
      then Inl (Plain ''Kafka SASL username and password are required'')
      else if kc_mechanism c = mechanismPlain then Inr (PlainMechanism (kc_username c) (kc_password c))
      else if kc_mechanism c = mechanismSCRAM256 then scram_mechanism E ''SHA-256'' c
      else if kc_mechanism c = mechanismSCRAM512 then scram_mechanism E ''SHA-512'' c
      else Inl (Plain (''unsupported Kafka SASL mechanism '' @ ke_quote E (kc_mechanism c))))"

definition connection_tls :: "kafka_env \<Rightarrow> bool \<Rightarrow> connection_config \<Rightarrow> tls_config option result" where
  "connection_tls E use_tls c =
     (if use_tls then and_then (loadTLSConfig E c) (\<lambda>t. Inr (Some t))
      else if kc_ca_file c \<noteq> '''' \<or> kc_cert_file c \<noteq> '''' \<or> kc_key_file c \<noteq> '''' \<or> kc_server_name c \<noteq> ''''
      then Inl (Plain ''Kafka TLS files require TLS or SASL_TLS security protocol'')
      else Inr None)"

definition connection_sasl :: "kafka_env \<Rightarrow> bool \<Rightarrow> connection_config \<Rightarrow> sasl_mechanism option result" where
  "connection_sasl E use_sasl c =
     (if use_sasl then and_then (loadSASLMechanism E c) (\<lambda>m. Inr (Some m))
      else if kc_mechanism c \<noteq> '''' \<or> kc_username c \<noteq> '''' \<or> kc_password c \<noteq> ''''
      then Inl (Plain ''Kafka SASL credentials require a SASL security protocol'')
      else Inr None)"

definition newConnection :: "kafka_env \<Rightarrow> connection_config \<Rightarrow> kafka_connection result" where
  "newConnection E c =
     (let protocol = (if kc_protocol c = '''' then protocolPlaintext else kc_protocol c);
          timeout = (if kc_dial_timeout c = 0 then 10 * second else kc_dial_timeout c);
          use_tls = (protocol = protocolTLS \<or> protocol = protocolSASLTLS);
          use_sasl = (protocol = protocolSASLPlaintext \<or> protocol = protocolSASLTLS) in
      and_then (reject_if (timeout < 0) ''Kafka dial timeout must not be negative'') (\<lambda>u.
      and_then (reject_if (\<not> use_tls \<and> \<not> use_sasl \<and> protocol \<noteq> protocolPlaintext)
                  (''unsupported Kafka security protocol '' @ ke_quote E protocol)) (\<lambda>u.
      and_then (connection_tls E use_tls c) (\<lambda>tls.
      and_then (connection_sasl E use_sasl c) (\<lambda>mechanism.
        Inr \<lparr>kn_client_id = trim_space (kc_client_id c), kn_dial_timeout = timeout, kn_tls = tls, kn_mechanism = mechanism\<rparr>)))))"

text \<open>\<open>Dialer\<close> and \<open>Transport\<close> copy the settings; \<open>cloneTLSConfig\<close> copies a value.\<close>

record kafka_dialer =
  kd_client_id :: string
  kd_timeout :: int
  kd_dual_stack :: bool
  kd_tls :: "tls_config option"
  kd_mechanism :: "sasl_mechanism option"

record kafka_transport =
  kt_client_id :: string
  kt_timeout :: int
  kt_tls :: "tls_config option"
  kt_mechanism :: "sasl_mechanism option"

definition cloneTLSConfig :: "tls_config option \<Rightarrow> tls_config option" where
  "cloneTLSConfig t = (case t of None \<Rightarrow> None | Some c \<Rightarrow> Some c)"

definition connection_dialer :: "kafka_connection \<Rightarrow> kafka_dialer" where
  "connection_dialer n = \<lparr>kd_client_id = kn_client_id n, kd_timeout = kn_dial_timeout n, kd_dual_stack = True,
     kd_tls = cloneTLSConfig (kn_tls n), kd_mechanism = kn_mechanism n\<rparr>"

definition connection_transport :: "kafka_connection \<Rightarrow> kafka_transport" where
  "connection_transport n = \<lparr>kt_client_id = kn_client_id n, kt_timeout = kn_dial_timeout n,
     kt_tls = cloneTLSConfig (kn_tls n), kt_mechanism = kn_mechanism n\<rparr>"

section \<open>The publisher (\<open>publisher.go\<close>)\<close>

record kafka_config =
  kp_brokers :: "string list"
  kp_topic :: string
  kp_batch_timeout :: int
  kp_batch_bytes :: int
  kp_connection :: connection_config

record kafka_message =
  km_key :: string
  km_value :: string
  km_time :: int

datatype required_acks = RequireNone | RequireOne | RequireAll
datatype balancer = HashBalancer | OtherBalancer

record kafka_writer =
  kw_addresses :: "string list"
  kw_topic :: string
  kw_acks :: required_acks
  kw_balancer :: balancer
  kw_batch_timeout :: int
  kw_batch_bytes :: int
  kw_transport :: kafka_transport

record publisher =
  pu_brokers :: "string list"
  pu_topic :: string
  pu_dialer :: kafka_dialer
  pu_transport :: kafka_transport
  pu_writer :: kafka_writer

definition newPublisher :: "kafka_env \<Rightarrow> kafka_config \<Rightarrow> publisher result" where
  "newPublisher E c =
     and_then (reject_if (kp_batch_bytes c < 0) ''Kafka publisher batch bytes must not be negative'') (\<lambda>u.
     and_then (newConnection E (kp_connection c)) (\<lambda>n.
       let transport = connection_transport n in
       Inr \<lparr>pu_brokers = kp_brokers c, pu_topic = kp_topic c, pu_dialer = connection_dialer n, pu_transport = transport,
         pu_writer = \<lparr>kw_addresses = kp_brokers c, kw_topic = kp_topic c, kw_acks = RequireAll, kw_balancer = HashBalancer,
           kw_batch_timeout = (if kp_batch_timeout c \<le> 0 then 100 * millisecond else kp_batch_timeout c),
           kw_batch_bytes = kp_batch_bytes c, kw_transport = transport\<rparr>\<rparr>))"

text \<open>The calls to kafka-go's writer and transport are functions of the world.\<close>

record 'w kafka_runtime =
  kr_write :: "kafka_writer \<Rightarrow> kafka_message list \<Rightarrow> 'w \<Rightarrow> go_error option \<times> 'w"
  kr_close :: "kafka_writer \<Rightarrow> 'w \<Rightarrow> go_error option \<times> 'w"
  kr_close_idle :: "kafka_transport \<Rightarrow> 'w \<Rightarrow> 'w"

definition copy_message :: "kafka_message \<Rightarrow> kafka_message" where
  "copy_message m = \<lparr>km_key = km_key m, km_value = km_value m, km_time = km_time m\<rparr>"

definition publish :: "'w kafka_runtime \<Rightarrow> publisher \<Rightarrow> kafka_message list \<Rightarrow> 'w \<Rightarrow> go_error option \<times> 'w" where
  "publish R p messages w =
     (if messages = [] then (None, w) else kr_write R (pu_writer p) (map copy_message messages) w)"

definition close_publisher :: "'w kafka_runtime \<Rightarrow> publisher \<Rightarrow> 'w \<Rightarrow> go_error option \<times> 'w" where
  "close_publisher R p w = (let (err, w1) = kr_close R (pu_writer p) w in (err, kr_close_idle R (pu_transport p) w1))"

end
