(* ===== verification/KafkaTopic.thy ===== *)
theory KafkaTopic
  imports KafkaPublisher HttpHeader "HOL-Library.Multiset"
begin

text \<open>
  The rest of \<open>sdk/go/mq/kafka/publisher.go\<close>: \<open>IsMessageTooLarge\<close> and the check of a topic. The probes of a
  check run concurrently; what the loop sees is the order in which it selects their results or the end of
  the context, and what \<open>ctx.Err()\<close> returns each time it looks. A probe is what its connection answers.
\<close>

section \<open>Errors of the writer\<close>

text \<open>
  Errors as \<open>errors.As\<close> and \<open>errors.Is\<close> tell them apart: kafka-go's \<open>MessageTooLargeError\<close>, its code
  \<open>MessageSizeTooLarge\<close>, \<open>WriteErrors\<close> with one entry per message, errors that wrap others, and any other.
\<close>

datatype kafka_error =
    MessageTooLarge | MessageSizeTooLarge | WriteErrors "kafka_error option list"
  | Wraps "kafka_error list" | OtherKafkaError string

fun found_too_large :: "kafka_error \<Rightarrow> bool" where
  "found_too_large MessageTooLarge = True"
| "found_too_large MessageSizeTooLarge = True"
| "found_too_large (Wraps es) = list_ex found_too_large es"
| "found_too_large e = False"

text \<open>\<open>errors.As\<close> finds the first \<open>WriteErrors\<close>, depth first; it does not look into its entries.\<close>

fun first_write_errors :: "kafka_error \<Rightarrow> kafka_error option list option"
  and first_of :: "kafka_error list \<Rightarrow> kafka_error option list option" where
  "first_write_errors (WriteErrors es) = Some es"
| "first_write_errors (Wraps es) = first_of es"
| "first_write_errors e = None"
| "first_of [] = None"
| "first_of (e # es) = (case first_write_errors e of None \<Rightarrow> first_of es | Some ws \<Rightarrow> Some ws)"

lemma first_smaller:
  "first_write_errors e = Some ws \<Longrightarrow> size_list (size_option size) ws < size e"
  "first_of es = Some ws \<Longrightarrow> size_list (size_option size) ws < size_list size es"
  by (induction e and es arbitrary: ws and ws rule: first_write_errors_first_of.induct) (auto split: option.split_asm)

lemma entry_smaller: "Some e \<in> set ws \<Longrightarrow> size e < size_list (size_option size) ws"
  by (induction ws) auto

function isMessageTooLarge :: "kafka_error option \<Rightarrow> bool" where
  "isMessageTooLarge None = False"
| "isMessageTooLarge (Some e) =
     (found_too_large e \<or> (case first_write_errors e of None \<Rightarrow> False | Some ws \<Rightarrow> \<exists>w \<in> set ws. isMessageTooLarge w))"
  by pat_completeness auto
termination
proof (relation "measure (size_option size)", goal_cases)
  case (2 e ws w)
  then show ?case using first_smaller(1) [of e ws] entry_smaller [of _ ws] by (cases w) (fastforce)+
qed simp

text \<open>The errors inside an error, at every depth, entries of \<open>WriteErrors\<close> included.\<close>

fun contains_too_large :: "kafka_error \<Rightarrow> bool" where
  "contains_too_large MessageTooLarge = True"
| "contains_too_large MessageSizeTooLarge = True"
| "contains_too_large (Wraps es) = (\<exists>e \<in> set es. contains_too_large e)"
| "contains_too_large (WriteErrors ws) = (\<exists>w \<in> set ws. case w of None \<Rightarrow> False | Some e \<Rightarrow> contains_too_large e)"
| "contains_too_large (OtherKafkaError m) = False"

text \<open>An error whose wrappers each wrap one error, as \<open>fmt.Errorf\<close> with one \<open>%w\<close> makes them.\<close>

fun single_wrapped :: "kafka_error \<Rightarrow> bool" where
  "single_wrapped (Wraps es) = (length es \<le> 1 \<and> (\<forall>e \<in> set es. single_wrapped e))"
| "single_wrapped (WriteErrors ws) = (\<forall>w \<in> set ws. case w of None \<Rightarrow> True | Some e \<Rightarrow> single_wrapped e)"
| "single_wrapped e = True"

section \<open>Probing one broker\<close>

record probe_answers =
  pa_dial :: "go_error option"
  pa_deadline :: "int option"
  pa_set_deadline :: "go_error option"
  pa_cancelled :: bool
  pa_read :: "nat result"
  pa_close :: "go_error option"

datatype conn_call = SetDeadline int | ReadPartitions string | CloseConn

text \<open>
  The result of a probe and its calls on the connection, in the order in which they end. When the context ends
  while the partitions are read, the watching goroutine closes the connection under the read; \<open>closeOnce\<close>
  makes the second close a no-op that returns the first one's error.
\<close>

definition probe_read :: "(string \<Rightarrow> string) \<Rightarrow> string \<Rightarrow> probe_answers \<Rightarrow> go_error option" where
  "probe_read quote topic p = (case pa_read p of
     Inl err \<Rightarrow> Some (wrap_error (''read topic '' @ quote topic @ '' partitions'') err)
   | Inr partitions \<Rightarrow> (case pa_close p of
       Some err \<Rightarrow> Some (wrap_error ''close topic probe'' err)
     | None \<Rightarrow> if partitions = 0 then Some (Plain (''topic '' @ quote topic @ '' has no partitions'')) else None))"

definition read_calls :: "string \<Rightarrow> probe_answers \<Rightarrow> conn_call list" where
  "read_calls topic p = (if pa_cancelled p then [CloseConn, ReadPartitions topic] else [ReadPartitions topic, CloseConn])"

definition probeTopic :: "(string \<Rightarrow> string) \<Rightarrow> string \<Rightarrow> probe_answers \<Rightarrow> go_error option \<times> conn_call list" where
  "probeTopic quote topic p = (case pa_dial p of
     Some err \<Rightarrow> (Some err, [])
   | None \<Rightarrow> (case pa_deadline p of
       None \<Rightarrow> (probe_read quote topic p, read_calls topic p)
     | Some d \<Rightarrow> (case pa_set_deadline p of
         Some err \<Rightarrow> (Some (wrap_error ''set topic probe deadline'' err), [SetDeadline d, CloseConn])
       | None \<Rightarrow> (probe_read quote topic p, SetDeadline d # read_calls topic p))))"

section \<open>Checking a topic\<close>

fun unique_brokers :: "string list \<Rightarrow> string list \<Rightarrow> string list" where
  "unique_brokers seen [] = []"
| "unique_brokers seen (raw # brokers) =
     (let broker = trim_space raw in
      if broker = '''' \<or> broker \<in> set seen then unique_brokers seen brokers
      else broker # unique_brokers (broker # seen) brokers)"

type_synonym probe_result = "string \<times> go_error option"

text \<open>What a \<open>select\<close> of the loop takes: the result of a probe, or the end of the context.\<close>

datatype selection = ProbeDone probe_result | ContextDone

definition failure_message :: "probe_result \<Rightarrow> string" where
  "failure_message f = (case f of (broker, err) \<Rightarrow> broker @ '': '' @ (case err of None \<Rightarrow> ''<nil>'' | Some e \<Rightarrow> error_text e))"

definition check_failed :: "(string \<Rightarrow> string) \<Rightarrow> string \<Rightarrow> probe_result list \<Rightarrow> go_error" where
  "check_failed quote topic failures =
     Plain (''kafka startup check failed for topic '' @ quote topic @ '': ''
       @ join ''; '' (map failure_message (sort_key fst failures)))"

text \<open>\<open>ctx i\<close> is what \<open>ctx.Err()\<close> returns the \<open>i\<close>-th time the loop looks.\<close>

fun check_loop ::
  "(string \<Rightarrow> string) \<Rightarrow> string \<Rightarrow> (nat \<Rightarrow> go_error option) \<Rightarrow> nat \<Rightarrow> selection list \<Rightarrow> probe_result list \<Rightarrow> go_error option" where
  "check_loop quote topic ctx i [] failures = (case ctx i of Some err \<Rightarrow> Some err | None \<Rightarrow> Some (check_failed quote topic failures))"
| "check_loop quote topic ctx i (s # ss) failures = (case ctx i of
     Some err \<Rightarrow> Some err
   | None \<Rightarrow> (case s of
       ContextDone \<Rightarrow> ctx (Suc i)
     | ProbeDone (broker, None) \<Rightarrow> ctx (Suc i)
     | ProbeDone (broker, Some err) \<Rightarrow> check_loop quote topic ctx (Suc i) ss (failures @ [(broker, Some err)])))"

text \<open>\<open>checkTopic\<close> with a probe, which may be nil; the probe gives the loop one selection per broker.\<close>

definition checkTopic ::
  "(string \<Rightarrow> string) \<Rightarrow> (nat \<Rightarrow> go_error option) \<Rightarrow> string list \<Rightarrow> string \<Rightarrow> (string list \<Rightarrow> selection list) option \<Rightarrow> go_error option" where
  "checkTopic quote ctx brokers topic probe =
     (let unique = unique_brokers [] brokers in
      if unique = [] then Some (Plain ''kafka brokers are required'')
      else if trim_space topic = '''' then Some (Plain ''kafka topic is required'')
      else case probe of
        None \<Rightarrow> Some (Plain ''kafka topic probe is required'')
      | Some selections \<Rightarrow> check_loop quote topic ctx 0 (take (length unique) (selections unique)) [])"

text \<open>\<open>CheckTopic\<close>: a nil dialer is refused; \<open>Check\<close> passes the publisher's.\<close>

definition check_topic_with ::
  "(string \<Rightarrow> string) \<Rightarrow> (nat \<Rightarrow> go_error option) \<Rightarrow> kafka_dialer option \<Rightarrow> string list \<Rightarrow> string \<Rightarrow>
   (kafka_dialer \<Rightarrow> string list \<Rightarrow> selection list) \<Rightarrow> go_error option" where
  "check_topic_with quote ctx dialer brokers topic selections =
     (if \<not> list_ex (\<lambda>b. trim_space b \<noteq> '''') brokers then Some (Plain ''kafka brokers are required'')
      else if trim_space topic = '''' then Some (Plain ''kafka topic is required'')
      else case dialer of
        None \<Rightarrow> Some (Plain ''Kafka dialer is required'')
      | Some d \<Rightarrow> checkTopic quote ctx brokers topic (Some (selections d)))"

definition publisher_check ::
  "(string \<Rightarrow> string) \<Rightarrow> (nat \<Rightarrow> go_error option) \<Rightarrow> publisher \<Rightarrow> (kafka_dialer \<Rightarrow> string list \<Rightarrow> selection list) \<Rightarrow> go_error option" where
  "publisher_check quote ctx p selections =
     check_topic_with quote ctx (Some (pu_dialer p)) (pu_brokers p) (pu_topic p) selections"

end
