(* ===== verification/KafkaProperties.thy ===== *)
theory KafkaProperties
  imports KafkaTopic
begin

text \<open>
  Kafka: security settings are applied and never ignored; the check of a topic does not depend on the order
  in which the brokers answer, and passes only when one of them serves the topic; connections are closed;
  oversized messages are recognised through the wrappers the writer uses.
\<close>

section \<open>Security\<close>

lemma connection_tls_cases:
  "connection_tls E use_tls c = Inr t \<longleftrightarrow>
     (if use_tls then \<exists>x. loadTLSConfig E c = Inr x \<and> t = Some x
      else t = None \<and> kc_ca_file c = '''' \<and> kc_cert_file c = '''' \<and> kc_key_file c = '''' \<and> kc_server_name c = '''')"
  by (auto simp: connection_tls_def and_then_eq_Inr)

lemma connection_sasl_cases:
  "connection_sasl E use_sasl c = Inr m \<longleftrightarrow>
     (if use_sasl then \<exists>x. loadSASLMechanism E c = Inr x \<and> m = Some x
      else m = None \<and> kc_mechanism c = '''' \<and> kc_username c = '''' \<and> kc_password c = '''')"
  by (auto simp: connection_sasl_def and_then_eq_Inr)

lemma newConnection_cases:
  assumes "newConnection E c = Inr n"
  obtains "kn_client_id n = trim_space (kc_client_id c)" "0 < kn_dial_timeout n"
    "kc_protocol c \<in> {'''', protocolPlaintext, protocolTLS, protocolSASLPlaintext, protocolSASLTLS}"
    "connection_tls E (kc_protocol c \<in> {protocolTLS, protocolSASLTLS}) c = Inr (kn_tls n)"
    "connection_sasl E (kc_protocol c \<in> {protocolSASLPlaintext, protocolSASLTLS}) c = Inr (kn_mechanism n)"
proof -
  have "0 < kn_dial_timeout n \<and> kn_client_id n = trim_space (kc_client_id c)
    \<and> kc_protocol c \<in> {'''', protocolPlaintext, protocolTLS, protocolSASLPlaintext, protocolSASLTLS}
    \<and> connection_tls E (kc_protocol c \<in> {protocolTLS, protocolSASLTLS}) c = Inr (kn_tls n)
    \<and> connection_sasl E (kc_protocol c \<in> {protocolSASLPlaintext, protocolSASLTLS}) c = Inr (kn_mechanism n)"
    using assms by (auto simp: newConnection_def Let_def and_then_eq_Inr kafka_names second_def split: if_split_asm)
  with that show thesis by blast
qed

text \<open>What a configuration asks of TLS: the roots it trusts and the certificate it shows.\<close>

definition roots_configured :: "kafka_env \<Rightarrow> connection_config \<Rightarrow> string list option \<Rightarrow> bool" where
  "roots_configured E c roots \<longleftrightarrow>
     (if kc_ca_file c = '''' then roots = None
      else \<exists>payload. ke_read_file E (kc_ca_file c) = Inr payload \<and> ke_pem E payload \<noteq> []
        \<and> roots = Some ((case ke_system_pool E of Inr (Some certs) \<Rightarrow> certs | other \<Rightarrow> []) @ ke_pem E payload))"

definition certificate_configured :: "kafka_env \<Rightarrow> connection_config \<Rightarrow> (string \<times> string) list \<Rightarrow> bool" where
  "certificate_configured E c certificates \<longleftrightarrow>
     (if kc_cert_file c = '''' then kc_key_file c = '''' \<and> certificates = []
      else \<exists>pair. ke_key_pair E (kc_cert_file c) (kc_key_file c) = Inr pair \<and> certificates = [pair])"

lemma loadTLSConfig_ok:
  "loadTLSConfig E c = Inr t \<Longrightarrow> tls_min_version t = 12 \<and> \<not> tls_skip_verify t
     \<and> tls_server_name t = trim_space (kc_server_name c)
     \<and> roots_configured E c (tls_roots t) \<and> certificate_configured E c (tls_certificates t)"
  by (auto simp: loadTLSConfig_def load_roots_def load_certificates_def and_then_eq_Inr Let_def
      roots_configured_def certificate_configured_def split: if_split_asm sum.split_asm)

lemma loadSASLMechanism_ok:
  "loadSASLMechanism E c = Inr m \<Longrightarrow> kc_password c \<noteq> '''' \<and> trim_space (kc_username c) \<noteq> ''''
     \<and> (kc_mechanism c, m) \<in> {(''PLAIN'', PlainMechanism (kc_username c) (kc_password c)),
           (''SCRAM-SHA-256'', ScramMechanism ''SHA-256'' (kc_username c) (kc_password c)),
           (''SCRAM-SHA-512'', ScramMechanism ''SHA-512'' (kc_username c) (kc_password c))}"
  by (auto simp: loadSASLMechanism_def scram_mechanism_def kafka_names split: if_split_asm option.split_asm)

text \<open>
  C37 Security settings: a publisher uses TLS and SASL exactly when its protocol says so, in the dialer that
  checks and in the transport that writes. TLS is at least 1.2, always verified, under the configured name; its
  roots are the system's with the certificates of the CA file added, or the default ones without a CA file, and
  its certificate is the configured pair. SASL uses exactly the configured mechanism, PLAIN, SCRAM-SHA-256 or
  SCRAM-SHA-512, with the configured credentials. Settings the protocol would ignore are refused, and writes
  need all in-sync replicas.
\<close>

theorem kafka_security_respected:
  assumes "newPublisher E config = Inr p"
  defines "c \<equiv> kp_connection config"
  shows "(kd_tls (pu_dialer p) \<noteq> None \<longleftrightarrow> kc_protocol c \<in> {protocolTLS, protocolSASLTLS})
    \<and> (kd_mechanism (pu_dialer p) \<noteq> None \<longleftrightarrow> kc_protocol c \<in> {protocolSASLPlaintext, protocolSASLTLS})
    \<and> kt_tls (kw_transport (pu_writer p)) = kd_tls (pu_dialer p)
    \<and> kt_mechanism (kw_transport (pu_writer p)) = kd_mechanism (pu_dialer p)
    \<and> (case kd_tls (pu_dialer p) of
        None \<Rightarrow> kc_ca_file c = '''' \<and> kc_cert_file c = '''' \<and> kc_key_file c = '''' \<and> kc_server_name c = ''''
      | Some t \<Rightarrow> tls_min_version t = 12 \<and> \<not> tls_skip_verify t \<and> tls_server_name t = trim_space (kc_server_name c)
          \<and> roots_configured E c (tls_roots t) \<and> certificate_configured E c (tls_certificates t))
    \<and> (case kd_mechanism (pu_dialer p) of
        None \<Rightarrow> kc_mechanism c = '''' \<and> kc_username c = '''' \<and> kc_password c = ''''
      | Some m \<Rightarrow> kc_password c \<noteq> '''' \<and> trim_space (kc_username c) \<noteq> '''' \<and>
          (kc_mechanism c, m) \<in> {(''PLAIN'', PlainMechanism (kc_username c) (kc_password c)),
            (''SCRAM-SHA-256'', ScramMechanism ''SHA-256'' (kc_username c) (kc_password c)),
            (''SCRAM-SHA-512'', ScramMechanism ''SHA-512'' (kc_username c) (kc_password c))})
    \<and> kw_acks (pu_writer p) = RequireAll \<and> 0 < kw_batch_timeout (pu_writer p) \<and> 0 < kd_timeout (pu_dialer p)"
proof -
  obtain n where n: "newConnection E c = Inr n" "pu_dialer p = connection_dialer n" "kw_transport (pu_writer p) = connection_transport n"
      "kw_acks (pu_writer p) = RequireAll" "0 < kw_batch_timeout (pu_writer p)"
    using assms(1) by (auto simp: newPublisher_def c_def and_then_eq_Inr Let_def millisecond_def)
  have clone: "cloneTLSConfig t = t" for t by (simp add: cloneTLSConfig_def split: option.split)
  from n(1) show ?thesis
    by (rule newConnection_cases)
      (auto simp: n connection_dialer_def connection_transport_def clone connection_tls_cases connection_sasl_cases
        split: if_split_asm option.split dest!: loadTLSConfig_ok loadSASLMechanism_ok)
qed

section \<open>The check of a topic\<close>

lemma unique_brokers_set: "set (unique_brokers seen brokers) = trim_space ` set brokers - {''''} - set seen"
  by (induction seen brokers rule: unique_brokers.induct) (auto simp: Let_def)

lemma unique_brokers_distinct: "distinct (unique_brokers seen brokers)"
  by (induction seen brokers rule: unique_brokers.induct) (auto simp: Let_def unique_brokers_set)

lemma insort_map: "insort_key fst (x, f x) (map (\<lambda>b. (b, f b)) ys) = map (\<lambda>b. (b, f b)) (insort_key (\<lambda>x. x) x ys)"
  by (induction ys) auto

lemma sort_map: "sort_key fst (map (\<lambda>b. (b, f b)) xs) = map (\<lambda>b. (b, f b)) (sort xs)"
  by (induction xs) (simp_all add: insort_map)

lemma check_failed_perm:
  assumes "mset xs = mset ys"
  shows "check_failed quote topic (map (\<lambda>b. (b, f b)) xs) = check_failed quote topic (map (\<lambda>b. (b, f b)) ys)"
  using properties_for_sort [of "sort xs" ys] assms by (simp add: check_failed_def sort_map)

lemma check_loop_answers:
  "check_loop quote topic (\<lambda>i. None) i (map (\<lambda>b. ProbeDone (b, probe b)) order) failures =
     (if \<exists>b \<in> set order. probe b = None then None
      else Some (check_failed quote topic (failures @ map (\<lambda>b. (b, probe b)) order)))"
  by (induction order arbitrary: i failures) (auto split: option.split)

text \<open>
  C38 Order: while the context lasts, the outcome of a check is that of its probes and not of the order in which
  they finish: it passes exactly when some configured broker serves the topic, and otherwise its error lists the
  failure of every configured broker, blank ones left out, each once however often it was configured, sorted by broker.
\<close>

theorem kafka_check_order:
  assumes "unique_brokers [] brokers \<noteq> []" "trim_space topic \<noteq> ''''" "mset order = mset (unique_brokers [] brokers)"
    "selections (unique_brokers [] brokers) = map (\<lambda>b. ProbeDone (b, probe b)) order"
  shows "checkTopic quote (\<lambda>i. None) brokers topic (Some selections) =
    (if \<exists>b \<in> trim_space ` set brokers - {''''}. probe b = None then None
     else Some (Plain (''kafka startup check failed for topic '' @ quote topic @ '': '' @
       join ''; '' (map (\<lambda>b. failure_message (b, probe b)) (sorted_list_of_set (trim_space ` set brokers - {''''}))))))"
proof -
  have listed: "sort (unique_brokers [] brokers) = sorted_list_of_set (trim_space ` set brokers - {''''})"
    using sorted_list_of_set_sort_remdups [of "unique_brokers [] brokers"] unique_brokers_distinct [of "[]" brokers]
    by (simp add: unique_brokers_set distinct_remdups_id)
  have failed: "check_failed quote topic (map (\<lambda>b. (b, probe b)) (unique_brokers [] brokers)) =
      Plain (''kafka startup check failed for topic '' @ quote topic @ '': '' @
        join ''; '' (map (\<lambda>b. failure_message (b, probe b)) (sorted_list_of_set (trim_space ` set brokers - {''''}))))"
    by (simp add: check_failed_def sort_map listed comp_def)
  have same: "set order = trim_space ` set brokers - {''''}" "length order = length (unique_brokers [] brokers)"
    using mset_eq_setD [OF assms(3)] mset_eq_length [OF assms(3)] by (simp_all add: unique_brokers_set)
  show ?thesis
    unfolding checkTopic_def Let_def option.case assms(4)
    using assms(1,2) same check_failed_perm [OF assms(3), of quote topic probe] by (simp add: check_loop_answers failed)
qed

text \<open>A selection is faithful when it is the result of a probe of one of the brokers, or the end of an ended context.\<close>

fun faithful_selections ::
  "(string \<Rightarrow> string) \<Rightarrow> string \<Rightarrow> (nat \<Rightarrow> go_error option) \<Rightarrow> (string \<Rightarrow> probe_answers) \<Rightarrow> string list \<Rightarrow> nat \<Rightarrow> selection list \<Rightarrow> bool" where
  "faithful_selections quote topic ctx answers brokers i [] = True"
| "faithful_selections quote topic ctx answers brokers i (s # ss) =
     ((case s of
         ContextDone \<Rightarrow> ctx (Suc i) \<noteq> None
       | ProbeDone (b, err) \<Rightarrow> b \<in> set brokers \<and> err = fst (probeTopic quote topic (answers b)))
      \<and> faithful_selections quote topic ctx answers brokers (Suc i) ss)"

lemma faithful_take:
  "faithful_selections quote topic ctx answers brokers i ss \<Longrightarrow> faithful_selections quote topic ctx answers brokers i (take n ss)"
  by (induction ss arbitrary: i n) (auto simp: take_Cons')

lemma check_loop_sound:
  "faithful_selections quote topic ctx answers brokers i ss \<Longrightarrow> check_loop quote topic ctx i ss failures = None \<Longrightarrow>
     \<exists>b \<in> set brokers. fst (probeTopic quote topic (answers b)) = None"
proof (induction ss arbitrary: i failures)
  case (Cons s ss)
  show ?case
  proof (cases s)
    case (ProbeDone r)
    then obtain b err where s: "s = ProbeDone (b, err)" by (cases r) auto
    with Cons.prems have b: "b \<in> set brokers" "err = fst (probeTopic quote topic (answers b))"
        "faithful_selections quote topic ctx answers brokers (Suc i) ss" by auto
    show ?thesis
    proof (cases err)
      case None
      with b show ?thesis by (intro bexI [of _ b]) simp_all
    next
      case (Some e)
      with Cons.prems(2) have "check_loop quote topic ctx (Suc i) ss (failures @ [(b, Some e)]) = None"
        by (simp add: s split: option.split_asm)
      with Cons.IH b(3) show ?thesis by blast
    qed
  qed (use Cons.prems in \<open>auto split: option.split_asm\<close>)
qed (auto split: option.split_asm)

text \<open>A probe closes its connection exactly once, and succeeds only when the broker has partitions of the topic.\<close>

theorem kafka_probe_exact:
  "count_list (snd (probeTopic quote topic p)) CloseConn = (if pa_dial p = None then 1 else 0)
   \<and> (fst (probeTopic quote topic p) = None \<longleftrightarrow>
        pa_dial p = None \<and> (pa_deadline p = None \<or> pa_set_deadline p = None) \<and> pa_close p = None
        \<and> (\<exists>n > 0. pa_read p = Inr n))"
  by (auto simp: probeTopic_def probe_read_def read_calls_def split: option.split sum.split)

text \<open>
  Soundness: whatever the order of the results and whenever the context ends, a check passes only when a
  broker that is configured was dialled and returned at least one partition of the topic.
\<close>

theorem kafka_check_sound:
  assumes "publisher_check quote ctx p selections = None"
    "faithful_selections quote (pu_topic p) ctx answers (unique_brokers [] (pu_brokers p)) 0
       (selections (pu_dialer p) (unique_brokers [] (pu_brokers p)))"
  shows "\<exists>broker \<in> set (pu_brokers p). pa_dial (answers (trim_space broker)) = None
    \<and> (\<exists>n > 0. pa_read (answers (trim_space broker)) = Inr n)"
proof -
  let ?u = "unique_brokers [] (pu_brokers p)"
  have "check_loop quote (pu_topic p) ctx 0 (take (length ?u) (selections (pu_dialer p) ?u)) [] = None"
    using assms(1) by (auto simp: publisher_check_def check_topic_with_def checkTopic_def Let_def split: if_split_asm)
  from check_loop_sound [OF faithful_take [OF assms(2)] this] obtain b where
    "b \<in> set ?u" "fst (probeTopic quote (pu_topic p) (answers b)) = None" by blast
  then show ?thesis
    by (auto simp: unique_brokers_set probeTopic_def probe_read_def split: option.split_asm sum.split_asm if_split_asm)
qed

section \<open>Oversized messages\<close>

lemma found_contains: "found_too_large e \<Longrightarrow> contains_too_large e"
  by (induction e rule: found_too_large.induct) (auto simp: list_ex_iff)

lemma first_contained:
  "first_write_errors e = Some ws \<Longrightarrow> w \<in> set ws \<Longrightarrow> w = Some x \<Longrightarrow> contains_too_large x \<Longrightarrow> contains_too_large e"
  "first_of es = Some ws \<Longrightarrow> w \<in> set ws \<Longrightarrow> w = Some x \<Longrightarrow> contains_too_large x \<Longrightarrow> \<exists>e \<in> set es. contains_too_large e"
  by (induction e and es arbitrary: ws and ws rule: first_write_errors_first_of.induct) (force split: option.split_asm)+

lemma too_large_unfold:
  "isMessageTooLarge (Some e) \<longleftrightarrow> found_too_large e
     \<or> (\<exists>ws x. first_write_errors e = Some ws \<and> Some x \<in> set ws \<and> isMessageTooLarge (Some x))"
proof -
  have "(\<exists>w \<in> set ws. isMessageTooLarge w) \<longleftrightarrow> (\<exists>x. Some x \<in> set ws \<and> isMessageTooLarge (Some x))" for ws
    by (metis isMessageTooLarge.simps(1) not_None_eq)
  then show ?thesis by (subst isMessageTooLarge.simps(2)) (simp split: option.split)
qed

declare isMessageTooLarge.simps(2) [simp del]

lemma too_large_sound: "isMessageTooLarge (Some e) \<Longrightarrow> contains_too_large e"
proof (induction "size e" arbitrary: e rule: less_induct)
  case less
  show ?case
  proof (cases "found_too_large e")
    case False
    with less.prems obtain ws x where ws: "first_write_errors e = Some ws" "Some x \<in> set ws" "isMessageTooLarge (Some x)"
      using too_large_unfold [of e] by blast
    have "size x < size e" using first_smaller(1) [OF ws(1)] entry_smaller [OF ws(2)] by simp
    from less.hyps [OF this ws(3)] show ?thesis by (rule first_contained(1) [OF ws(1,2) refl])
  qed (rule found_contains)
qed

text \<open>An error that wraps one error at a time is a chain down to the error at its end.\<close>

fun chain_end :: "kafka_error \<Rightarrow> kafka_error" where
  "chain_end (Wraps [e]) = chain_end e"
| "chain_end e = e"

lemma chain_end_facts:
  "single_wrapped e \<Longrightarrow> found_too_large e = found_too_large (chain_end e)
     \<and> first_write_errors e = (case chain_end e of WriteErrors ws \<Rightarrow> Some ws | x \<Rightarrow> None)
     \<and> contains_too_large e = contains_too_large (chain_end e) \<and> single_wrapped (chain_end e) \<and> (\<forall>es. chain_end e = Wraps es \<longrightarrow> es = [])"
  by (induction e rule: chain_end.induct) (auto split: option.split)

text \<open>
  Oversized messages: an error that is reported as too large contains such an error at some depth; and for
  errors whose wrappers each wrap one error, those of the writer and of \<open>fmt.Errorf\<close>, all of them are reported.
\<close>

theorem message_too_large_exact:
  "(isMessageTooLarge (Some e) \<longrightarrow> contains_too_large e)
   \<and> (single_wrapped e \<longrightarrow> isMessageTooLarge (Some e) = contains_too_large e)"
proof (intro conjI impI)
  show "contains_too_large e" if "isMessageTooLarge (Some e)" using that by (rule too_large_sound)
  show "isMessageTooLarge (Some e) = contains_too_large e" if "single_wrapped e"
    using that
  proof (induction "size e" arbitrary: e rule: less_induct)
    case less
    note chain = chain_end_facts [OF less.prems]
    show ?case
    proof (cases "\<exists>ws. chain_end e = WriteErrors ws")
      case True
      then obtain ws where ws: "chain_end e = WriteErrors ws" by blast
      have found: "first_write_errors e = Some ws" "\<not> found_too_large e" using chain by (simp_all add: ws)
      have entry: "isMessageTooLarge (Some x) = contains_too_large x" if "Some x \<in> set ws" for x
      proof (rule less.hyps)
        show "size x < size e" using first_smaller(1) [OF found(1)] entry_smaller [OF that] by simp
        show "single_wrapped x" using chain that by (force simp: ws)
      qed
      have "contains_too_large e \<longleftrightarrow> (\<exists>x. Some x \<in> set ws \<and> contains_too_large x)"
        using chain by (force simp: ws split: option.split_asm)
      then show ?thesis using too_large_unfold [of e] found entry by auto
    next
      case False
      then have "first_write_errors e = None" using chain by (auto split: kafka_error.split)
      then have "isMessageTooLarge (Some e) = found_too_large (chain_end e)" using too_large_unfold [of e] chain by simp
      moreover have "found_too_large (chain_end e) = contains_too_large (chain_end e)"
        using False chain by (cases "chain_end e") auto
      ultimately show ?thesis using chain by simp
    qed
  qed
qed

end
