(* ===== verification/KafkaExamples.thy ===== *)
theory KafkaExamples
  imports KafkaProperties
begin

text \<open>The properties of the Kafka publisher at concrete configurations and answers.\<close>

definition sasl_tls :: connection_config where
  "sasl_tls = \<lparr>kc_client_id = ''svc'', kc_protocol = protocolSASLTLS, kc_mechanism = mechanismSCRAM512, kc_username = ''u'',
     kc_password = ''p'', kc_ca_file = ''/ca'', kc_cert_file = '''', kc_key_file = '''', kc_server_name = '''', kc_dial_timeout = 0\<rparr>"

definition demo_kafka_env :: kafka_env where
  "demo_kafka_env = \<lparr>ke_read_file = (\<lambda>f. Inr f), ke_system_pool = Inl (Plain ''none''), ke_pem = (\<lambda>s. [s]),
     ke_key_pair = (\<lambda>c k. Inr (c, k)), ke_scram = (\<lambda>a u p. None), ke_quote = (\<lambda>s. s)\<rparr>"

definition demo_publisher_config :: kafka_config where
  "demo_publisher_config = \<lparr>kp_brokers = [''b'', ''a''], kp_topic = ''t'', kp_batch_timeout = 0, kp_batch_bytes = 0, kp_connection = sasl_tls\<rparr>"

lemma demo_names: "trim_space ''svc'' = ''svc''" "trim_space ''u'' = ''u''" "trim_space ''a'' = ''a''" "trim_space ''b'' = ''b''"
    "trim_space ''t'' = ''t''" "trim_space '''' = ''''"
  by (simp_all add: trim_space_visible)

lemma demo_publisher: "\<exists>p. newPublisher demo_kafka_env demo_publisher_config = Inr p \<and> pu_brokers p = [''b'', ''a''] \<and> pu_topic p = ''t''"
  by (simp add: newPublisher_def newConnection_def connection_tls_def connection_sasl_def loadTLSConfig_def loadSASLMechanism_def
      load_roots_def load_certificates_def scram_mechanism_def demo_publisher_config_def sasl_tls_def demo_kafka_env_def kafka_names
      demo_names second_def reject_if_def Let_def)

theorem kafka_security_respected_witness:
  "\<exists>p t. newPublisher demo_kafka_env demo_publisher_config = Inr p \<and> kd_tls (pu_dialer p) = Some t \<and> tls_min_version t = 12
     \<and> \<not> tls_skip_verify t \<and> tls_roots t = Some [''/ca''] \<and> kd_mechanism (pu_dialer p) = Some (ScramMechanism ''SHA-512'' ''u'' ''p'')"
proof -
  obtain p where p: "newPublisher demo_kafka_env demo_publisher_config = Inr p" using demo_publisher by blast
  have c: "kp_connection demo_publisher_config = sasl_tls" by (simp add: demo_publisher_config_def)
  have "roots_configured demo_kafka_env sasl_tls roots \<longleftrightarrow> roots = Some [''/ca'']" for roots
    by (simp add: roots_configured_def sasl_tls_def demo_kafka_env_def)
  moreover have "kc_protocol sasl_tls = protocolSASLTLS" "kc_mechanism sasl_tls = ''SCRAM-SHA-512''"
    "kc_username sasl_tls = ''u''" "kc_password sasl_tls = ''p''" by (simp_all add: sasl_tls_def kafka_names)
  ultimately show ?thesis
    using kafka_security_respected [OF p] p unfolding c
    by (cases "kd_tls (pu_dialer p)"; cases "kd_mechanism (pu_dialer p)") auto
qed

definition two_probes :: "string \<Rightarrow> go_error option" where
  "two_probes b = Some (Plain ''down'')"

text \<open>A broker that is configured twice, and a blank one.\<close>

theorem kafka_check_order_witness:
  "checkTopic (\<lambda>s. s) (\<lambda>i. None) [''b'', ''a'', ''b'', ''''] ''t''
     (Some (\<lambda>u. [ProbeDone (''a'', two_probes ''a''), ProbeDone (''b'', two_probes ''b'')]))
   = Some (Plain (''kafka startup check failed for topic t: '' @
       join ''; '' [failure_message (''a'', two_probes ''a''), failure_message (''b'', two_probes ''b'')]))"
proof -
  let ?brokers = "[''b'', ''a'', ''b'', '''']"
  have u: "unique_brokers [] ?brokers = [''b'', ''a'']" by (simp add: demo_names)
  have listed: "trim_space ` set ?brokers - {''''} = {''a'', ''b''}" by (auto simp: demo_names)
  have sorted: "sorted_list_of_set {''a'', ''b''} = [''a'', ''b'']"
    using sorted_list_of_set_sort_remdups [of "[''a'', ''b'']"] by simp
  have "checkTopic (\<lambda>s. s) (\<lambda>i. None) ?brokers ''t'' (Some (\<lambda>u. [ProbeDone (''a'', two_probes ''a''), ProbeDone (''b'', two_probes ''b'')]))
    = (if \<exists>b \<in> trim_space ` set ?brokers - {''''}. two_probes b = None then None
       else Some (Plain (''kafka startup check failed for topic '' @ ''t'' @ '': '' @
         join ''; '' (map (\<lambda>b. failure_message (b, two_probes b)) (sorted_list_of_set (trim_space ` set ?brokers - {''''}))))))"
    by (rule kafka_check_order [where order = "[''a'', ''b'']"]) (simp_all add: u demo_names)
  then show ?thesis unfolding listed sorted by (simp add: two_probes_def)
qed

definition one_partition :: probe_answers where
  "one_partition = \<lparr>pa_dial = None, pa_deadline = Some 9, pa_set_deadline = None, pa_cancelled = True, pa_read = Inr 1, pa_close = None\<rparr>"

theorem kafka_check_sound_witness:
  "\<exists>p. newPublisher demo_kafka_env demo_publisher_config = Inr p
     \<and> publisher_check (\<lambda>s. s) (\<lambda>i. None) p (\<lambda>d u. [ProbeDone (''a'', None), ProbeDone (''b'', None)]) = None
     \<and> (\<exists>broker. broker \<in> set (pu_brokers p) \<and> pa_dial ((\<lambda>b. one_partition) (trim_space broker)) = None)"
proof -
  obtain p where p: "newPublisher demo_kafka_env demo_publisher_config = Inr p" "pu_brokers p = [''b'', ''a'']" "pu_topic p = ''t''"
    using demo_publisher by blast
  have run: "publisher_check (\<lambda>s. s) (\<lambda>i. None) p (\<lambda>d u. [ProbeDone (''a'', None), ProbeDone (''b'', None)]) = None"
    by (simp add: publisher_check_def check_topic_with_def checkTopic_def p demo_names)
  have "\<exists>broker \<in> set (pu_brokers p). pa_dial ((\<lambda>b. one_partition) (trim_space broker)) = None
      \<and> (\<exists>n > 0. pa_read ((\<lambda>b. one_partition) (trim_space broker)) = Inr n)"
    by (rule kafka_check_sound [OF run])
      (simp add: p demo_names one_partition_def probeTopic_def probe_read_def)
  with p(1) run show ?thesis by blast
qed

definition batch_error :: kafka_error where
  "batch_error = Wraps [WriteErrors [None, Some (Wraps [MessageSizeTooLarge])]]"

theorem message_too_large_exact_witness: "isMessageTooLarge (Some batch_error)"
proof -
  have "single_wrapped batch_error" "contains_too_large batch_error" by (simp_all add: batch_error_def)
  with message_too_large_exact [of batch_error] show ?thesis by blast
qed

end
