(* ===== verification/LogText.thy ===== *)
theory LogText
  imports GoStrings
begin

text \<open>
  The text functions of \<open>sdk/go/logging/handler.go\<close>: truncation at a UTF-8 boundary, and the normal form
  in which the names of fields are compared.
\<close>

section \<open>Concatenation of valid text\<close>

lemma decode_rune_prefix:
  assumes "decode_rune (s @ t) = (r, w)" "\<not> (r = rune_error \<and> w = 1)" "w \<le> length s" "s \<noteq> []"
  shows "decode_rune (s @ u) = (r, w)"
  using assms
  by (cases s; cases "tl s"; cases "tl (tl s)"; cases "tl (tl (tl s))")
    (auto simp: decode_rune.simps Let_def split: prod.splits if_splits list.splits)

lemma decode_rune_valid_append:
  assumes "decode_rune s = (r, w)" "\<not> (r = rune_error \<and> w = 1)" "s \<noteq> []"
  shows "decode_rune (s @ u) = (r, w)"
  using decode_rune_prefix [of s "[]" r w u] decode_rune_width_le [of s] assms by simp

lemma runes_append_valid:
  "valid_string s \<Longrightarrow> runes (s @ t) = runes s @ runes t"
proof (induction s rule: runes.induct)
  case (2 c s)
  obtain r w where rw: "decode_rune (c # s) = (r, w)" by fastforce
  have w: "0 < w" "w \<le> length (c # s)"
    using decode_rune_width_pos [of c s] decode_rune_width_le [of "c # s"] by (simp_all add: rw)
  have ok: "\<not> (r = rune_error \<and> w = 1)" "valid_string (drop w (c # s))"
    using "2.prems" by (auto simp: valid_string_def runes_Cons rw)
  have "decode_rune (c # s @ t) = (r, w)" using decode_rune_valid_append [OF rw ok(1)] by simp
  moreover have "drop w (c # s @ t) = drop w (c # s) @ t" using w(2) by (cases w) simp_all
  moreover have "runes (drop w (c # s) @ t) = runes (drop w (c # s)) @ runes t" by (rule "2.IH" [OF rw [symmetric] refl ok(2)])
  ultimately show ?case by (simp add: runes_Cons [of c] rw del: drop_append)
qed simp

lemma valid_append: "valid_string s \<Longrightarrow> valid_string t \<Longrightarrow> valid_string (s @ t)"
  using runes_append_valid [of s t] by (simp add: valid_string_def)

lemma valid_Nil [simp]: "valid_string []"
  by (simp add: valid_string_def)

section \<open>Truncation\<close>

definition redactedValue :: string where "redactedValue = ''[REDACTED]''"
definition unserializableValue :: string where "unserializableValue = ''[UNSERIALIZABLE]''"
definition truncatedValue :: string where "truncatedValue = ''[TRUNCATED]''"

text \<open>\<open>strings.ToValidUTF8\<close>: every run of invalid bytes becomes one replacement.\<close>

function to_valid :: "string \<Rightarrow> bool \<Rightarrow> string \<Rightarrow> string" where
  "to_valid rep bad [] = []"
| "to_valid rep bad (c # s) = (let (r, w) = decode_rune (c # s) in
     if r = rune_error \<and> w = 1 then (if bad then [] else rep) @ to_valid rep True s
     else take w (c # s) @ to_valid rep False (drop w (c # s)))"
  by pat_completeness auto
termination
proof (relation "measure (\<lambda>(rep, bad, s). length s)", simp_all add: less_Suc_eq_le, goal_cases)
  case (1 c s x r w)
  then have "0 < w" using decode_rune_width_pos [of c s] by (metis snd_conv)
  then show ?case by simp
qed

declare to_valid.simps(2) [simp del]

fun valid_prefix :: "string \<Rightarrow> nat \<Rightarrow> string" where
  "valid_prefix s 0 = []"
| "valid_prefix s (Suc n) = (if valid_string (take (Suc n) s) then take (Suc n) s else valid_prefix s n)"

text \<open>U+FFFD.\<close>

definition replacement :: string where "replacement = [CHR 0xEF, CHR 0xBF, CHR 0xBD]"

definition truncateUTF8 :: "string \<Rightarrow> int \<Rightarrow> string" where
  "truncateUTF8 text_in limit =
     (let v = to_valid replacement False text_in in
      if int (length v) \<le> limit then v
      else valid_prefix v (nat (limit - int (length truncatedValue))) @ truncatedValue)"

lemma runes_take_valid:
  assumes "decode_rune s = (r, w)" "\<not> (r = rune_error \<and> w = 1)" "s \<noteq> []"
  shows "runes (take w s) = [(r, w)]"
proof -
  have w: "0 < w" "w \<le> length s"
    using decode_rune_width_pos [of "hd s" "tl s"] assms(1,3) decode_rune_width_le [of s] by simp_all
  then have "decode_rune (take w s) = (r, w)"
    using decode_rune_prefix [of "take w s" "drop w s" r w "[]"] assms by simp
  moreover obtain c u where "take w s = c # u" using w by (cases s) (auto simp: take_Cons')
  ultimately show ?thesis using w runes_Cons [of c u] by (metis drop_take diff_self_eq_0 runes.simps(1) snd_conv take0)
qed

lemma replacement_runes: "runes replacement = [(rune_error, 3)]"
  by (simp add: replacement_def runes_Cons decode_rune.simps sequence_length_def second_range_def in_range_def rune_error_def)

lemma to_valid_valid: "valid_string (to_valid replacement bad s)"
proof (induction replacement bad s rule: to_valid.induct)
  case (2 bad c s)
  obtain r w where rw: "decode_rune (c # s) = (r, w)" by fastforce
  have rep: "valid_string replacement" by (simp add: valid_string_def replacement_runes)
  show ?case
  proof (cases "r = rune_error \<and> w = 1")
    case True
    then show ?thesis using 2(1) [OF rw [symmetric] refl True] rw rep valid_append by (simp add: to_valid.simps del: One_nat_def)
  next
    case False
    from runes_take_valid [OF rw False] False have "valid_string (take w (c # s))" by (auto simp: valid_string_def)
    from valid_append [OF this 2(2) [OF rw [symmetric] refl False]] show ?thesis
      unfolding to_valid.simps rw Let_def prod.case if_not_P [OF False] .
  qed
qed simp

lemma to_valid_same: "valid_string s \<Longrightarrow> to_valid rep bad s = s"
proof (induction rep bad s rule: to_valid.induct)
  case (2 rep bad c s)
  obtain r w where rw: "decode_rune (c # s) = (r, w)" by fastforce
  have ok: "\<not> (r = rune_error \<and> w = 1)" "valid_string (drop w (c # s))"
    using "2.prems" by (auto simp: valid_string_def runes_Cons rw)
  show ?case
    unfolding to_valid.simps rw Let_def prod.case if_not_P [OF ok(1)] 2(2) [OF rw [symmetric] refl ok(1,2)] by simp
qed simp

lemma valid_prefix_ok: "valid_string (valid_prefix s n) \<and> length (valid_prefix s n) \<le> n \<and> (\<exists>u. s = valid_prefix s n @ u)"
proof (induction n)
  case (Suc n)
  have "\<exists>u. s = take (Suc n) s @ u" by (metis append_take_drop_id)
  with Suc show ?case by auto
qed simp

lemma truncate_ok:
  assumes "int (length truncatedValue) \<le> limit"
  shows "valid_string (truncateUTF8 s limit) \<and> int (length (truncateUTF8 s limit)) \<le> limit"
proof -
  have marker: "valid_string truncatedValue" by (simp add: valid_string_ascii truncatedValue_def)
  let ?v = "to_valid replacement False s" and ?n = "nat (limit - int (length truncatedValue))"
  have "int (length (valid_prefix ?v ?n)) \<le> limit - int (length truncatedValue)"
    using valid_prefix_ok [of ?v ?n] assms by (meson nat_le_iff of_nat_le_iff order_trans int_nat_eq le_nat_iff diff_ge_0_iff_ge)
  then show ?thesis
    using valid_append [OF _ marker] valid_prefix_ok [of ?v ?n] to_valid_valid
    by (simp add: truncateUTF8_def Let_def)
qed

lemma truncate_same: "valid_string s \<Longrightarrow> int (length s) \<le> limit \<Longrightarrow> truncateUTF8 s limit = s"
  by (simp add: truncateUTF8_def Let_def to_valid_same)

section \<open>Names of fields\<close>

definition normalizeKey :: "unicode_tables \<Rightarrow> string \<Rightarrow> string" where
  "normalizeKey U key = map_runes (\<lambda>r. if rune_letter U r \<or> rune_digit U r then Some (rune_lower U r) else None) key"

definition builtinSensitiveKeys :: "string list" where
  "builtinSensitiveKeys = [''apikey'', ''authorization'', ''clientsecret'', ''cookie'', ''credential'', ''jwt'', ''password'',
     ''privatekey'', ''secret'', ''session'', ''token'', ''accesstoken'', ''refreshtoken'', ''idtoken'', ''sessiontoken'',
     ''csrftoken'', ''xsrftoken'', ''setcookie'']"

lemma normalizeKey_Nil [simp]: "normalizeKey U [] = []"
  by (simp add: normalizeKey_def map_runes_def)

end
