(* ===== verification/LogHandler.thy ===== *)
theory LogHandler
  imports LogText "HOL-Library.AList"
begin

text \<open>
  The sanitizing handler of \<open>sdk/go/logging/handler.go\<close>. A value of type \<open>any\<close> is one of the shapes the
  code distinguishes; what an \<open>Error\<close> or \<open>LogValue\<close> method would return is part of the value, \<open>None\<close> for
  a panic. The fields under construction, which the code mutates through pointers, are trees that are
  returned updated; \<open>sanitizer.remaining\<close> is threaded through. The iteration order of a map is the order
  of its list.
\<close>

section \<open>Values\<close>

datatype go_float = Finite int | Infinite | NotANumber

datatype go_value =
    VNil | VTime int | VDuration int
  | VErr "string option" | VSlog slog_value | VValuer "slog_value option" | VErrValuer "string option" "slog_value option"
  | VString string | VBool bool | VInt int | VUint int | VFloat go_float
  | VMap "(string \<times> go_value) list option" | VOtherMap
  | VBytes nat | VSlice "go_value list option" | VArray "go_value list" | VOpaque
and slog_value = SAny go_value | SGroup "(string \<times> slog_value) list"

type_synonym slog_attr = "string \<times> slog_value"

text \<open>\<open>slog.Value.Resolve\<close>: at most a hundred calls of \<open>LogValue\<close>; a panic becomes an error value.\<close>

fun resolve_steps :: "nat \<Rightarrow> slog_value \<Rightarrow> slog_value" where
  "resolve_steps 0 v = SAny (VErr (Some ''LogValue called too many times''))"
| "resolve_steps (Suc n) (SAny (VValuer result)) = (case result of
     None \<Rightarrow> SAny (VErr (Some ''LogValue panicked'')) | Some v \<Rightarrow> resolve_steps n v)"
| "resolve_steps (Suc n) (SAny (VErrValuer err result)) = (case result of
     None \<Rightarrow> SAny (VErr (Some ''LogValue panicked'')) | Some v \<Rightarrow> resolve_steps n v)"
| "resolve_steps (Suc n) v = v"

definition resolve_value :: "slog_value \<Rightarrow> slog_value" where
  "resolve_value v = resolve_steps 100 v"

lemma slog_size_pos: "1 \<le> size (v :: slog_value)"
  by (cases v) simp_all

lemma resolve_steps_size: "size (resolve_steps n v) \<le> size v"
  by (induction n v rule: resolve_steps.induct) (auto simp: slog_size_pos [simplified] split: option.split)

lemma resolve_size [termination_simp]: "size (resolve_value v) \<le> size v"
  unfolding resolve_value_def by (rule resolve_steps_size)

lemma resolve_valuer_size [termination_simp]:
  "size (resolve_value (SAny (VValuer result))) < Suc (size_option size result)"
proof (cases result)
  case None
  then show ?thesis by (simp add: resolve_value_def numeral_eq_Suc)
next
  case (Some v)
  have "resolve_value (SAny (VValuer result)) = resolve_steps 99 v" by (simp add: Some resolve_value_def numeral_eq_Suc)
  then show ?thesis using resolve_steps_size [of 99 v] by (simp add: Some)
qed

lemma resolved_smaller:
  "resolve_value v = SAny x \<Longrightarrow> size x < size v"
  "resolve_value v = SGroup attrs \<Longrightarrow> size_list (size_prod (\<lambda>k. 0) size) attrs < size v"
  using resolve_size [of v] by simp_all

section \<open>Options\<close>

record log_options =
  lo_extra_keys :: "string list"
  lo_max_message :: int
  lo_max_string :: int
  lo_max_attributes :: int
  lo_max_depth :: int

record log_config =
  lc_unicode :: unicode_tables
  lc_options :: log_options
  lc_keys :: "string list"

fun extra_keys :: "unicode_tables \<Rightarrow> string list \<Rightarrow> string list \<Rightarrow> string list result" where
  "extra_keys U keys [] = Inr keys"
| "extra_keys U keys (key # rest) =
     (if normalizeKey U key = '''' then Inl (Plain ''logging sensitive key must contain a letter or digit'')
      else extra_keys U (keys @ [normalizeKey U key]) rest)"

definition or_default :: "int \<Rightarrow> int \<Rightarrow> int" where
  "or_default n d = (if n = 0 then d else n)"

definition normalizeOptions :: "unicode_tables \<Rightarrow> log_options \<Rightarrow> (log_options \<times> string list) result" where
  "normalizeOptions U options0 =
     (let options = options0\<lparr>lo_max_message := or_default (lo_max_message options0) (16 * 1024),
            lo_max_string := or_default (lo_max_string options0) (16 * 1024),
            lo_max_attributes := or_default (lo_max_attributes options0) 64,
            lo_max_depth := or_default (lo_max_depth options0) 8\<rparr> in
      if lo_max_message options < int (length truncatedValue) \<or> lo_max_string options < int (length truncatedValue)
      then Inl (Plain ''logging byte limits must fit the truncation marker'')
      else if lo_max_attributes options < 1 then Inl (Plain ''logging MaxAttributes must be positive'')
      else if lo_max_depth options < 1 then Inl (Plain ''logging MaxDepth must be positive'')
      else and_then (extra_keys U builtinSensitiveKeys (lo_extra_keys options)) (\<lambda>keys. Inr (options, keys)))"

definition sensitiveKey :: "log_config \<Rightarrow> string \<Rightarrow> bool" where
  "sensitiveKey c key \<longleftrightarrow> list_ex (\<lambda>candidate. normalizeKey (lc_unicode c) key = candidate) (lc_keys c)"

section \<open>Sanitizing\<close>

datatype log_field =
  LogField (lf_key: string) (lf_value: slog_value) (lf_group: bool) (lf_children: "log_field list")

definition placeholder :: "log_config \<Rightarrow> string \<Rightarrow> int \<Rightarrow> slog_value" where
  "placeholder c key depth =
     (if sensitiveKey c key then SAny (VString redactedValue)
      else if depth > lo_max_depth (lc_options c) then SAny (VString truncatedValue)
      else SGroup [])"

text \<open>\<open>group\<close>: the group of that name, appended when there is none.\<close>

definition named_group :: "string \<Rightarrow> log_field \<Rightarrow> bool" where
  "named_group key f \<longleftrightarrow> lf_group f \<and> lf_key f = key"

definition ensure_group :: "log_config \<Rightarrow> string \<Rightarrow> int \<Rightarrow> log_field list \<times> nat \<Rightarrow> log_field list \<times> nat" where
  "ensure_group c key depth st =
     (if list_ex (named_group key) (fst st) then st
      else (fst st @ [LogField key (placeholder c key depth) True []], snd st - 1))"

definition group_field :: "string \<Rightarrow> log_field list \<Rightarrow> log_field" where
  "group_field key fds = the (find (named_group key) fds)"

definition open_group :: "log_field \<Rightarrow> bool" where
  "open_group f = (case lf_value f of SGroup attrs \<Rightarrow> True | SAny v \<Rightarrow> False)"

fun set_children :: "string \<Rightarrow> log_field list \<Rightarrow> log_field list \<Rightarrow> log_field list" where
  "set_children key children [] = []"
| "set_children key children (f # fs) =
     (if named_group key f then LogField (lf_key f) (lf_value f) (lf_group f) children # fs
      else f # set_children key children fs)"

fun fields_object :: "log_field list \<Rightarrow> (string \<times> go_value) list \<Rightarrow> (string \<times> go_value) list" where
  "fields_object [] result = result"
| "fields_object (LogField key v is_group children # fs) result =
     fields_object fs (AList.update key
       (case v of
          SGroup attrs \<Rightarrow> if is_group then VMap (Some (fields_object children [])) else VOpaque
        | SAny x \<Rightarrow> x) result)"

definition fieldsObject :: "log_field list \<Rightarrow> go_value" where
  "fieldsObject fds = VMap (Some (fields_object fds []))"

text \<open>
  \<open>add\<close> on an attribute (\<open>sanitize_add\<close>) and on the attributes of a group (\<open>sanitize_all\<close>), \<open>clean\<close> with
  its loops over maps and sequences, and \<open>cleanSlog\<close> on a resolved value. A state is the list of fds
  that is added to and the remaining budget.
\<close>

function (sequential)
  sanitize_add :: "log_config \<Rightarrow> string list \<Rightarrow> string \<Rightarrow> slog_value \<Rightarrow> int \<Rightarrow> log_field list \<times> nat \<Rightarrow> log_field list \<times> nat"
and sanitize_all :: "log_config \<Rightarrow> slog_attr list \<Rightarrow> int \<Rightarrow> log_field list \<times> nat \<Rightarrow> log_field list \<times> nat"
and clean_value :: "log_config \<Rightarrow> go_value \<Rightarrow> int \<Rightarrow> nat \<Rightarrow> go_value \<times> nat"
and clean_entries :: "log_config \<Rightarrow> (string \<times> go_value) list \<Rightarrow> int \<Rightarrow> (string \<times> go_value) list \<times> nat \<Rightarrow> (string \<times> go_value) list \<times> nat"
and clean_elements :: "log_config \<Rightarrow> go_value list \<Rightarrow> int \<Rightarrow> go_value list \<times> nat \<Rightarrow> go_value list \<times> nat"
and clean_slog :: "log_config \<Rightarrow> slog_value \<Rightarrow> int \<Rightarrow> nat \<Rightarrow> go_value \<times> nat"
where
  "sanitize_add c (g # gs) key v depth st =
     (if snd st = 0 \<or> (key = '''' \<and> v = SAny VNil) then st
      else let st1 = ensure_group c g depth st; f = group_field g (fst st1) in
        if open_group f
        then let (children, remaining) = sanitize_add c gs key v (depth + 1) (lf_children f, snd st1) in
          (set_children g children (fst st1), remaining)
        else st1)"
| "sanitize_add c [] key v depth st =
     (if snd st = 0 \<or> (key = '''' \<and> v = SAny VNil) then st
      else if key \<noteq> '''' \<and> (sensitiveKey c key \<or> depth > lo_max_depth (lc_options c))
      then (fst st @ [LogField key (placeholder c key depth) False []], snd st - 1)
      else case resolve_value v of
        SGroup attrs \<Rightarrow>
          if attrs = [] then st
          else if key \<noteq> ''''
          then let st1 = ensure_group c key depth st;
                   (children, remaining) = sanitize_all c attrs (depth + 1) (lf_children (group_field key (fst st1)), snd st1) in
            (set_children key children (fst st1), remaining)
          else sanitize_all c attrs depth st
      | SAny x \<Rightarrow>
          let (y, remaining) = clean_value c x depth (snd st - 1) in
            (fst st @ [LogField key (SAny y) False []], remaining))"
| "sanitize_all c [] depth st = st"
| "sanitize_all c ((key, v) # attrs) depth st =
     (if snd st = 0 then st else sanitize_all c attrs depth (sanitize_add c [] key v depth st))"
| "clean_value c v depth remaining =
     (let limit = lo_max_string (lc_options c) in
      if depth > lo_max_depth (lc_options c) then (VString truncatedValue, remaining)
      else case v of
        VNil \<Rightarrow> (VNil, remaining)
      | VTime t \<Rightarrow> (VTime t, remaining)
      | VDuration d \<Rightarrow> (VDuration d, remaining)
      | VErr message \<Rightarrow> (VString (truncateUTF8 (case message of None \<Rightarrow> unserializableValue | Some m \<Rightarrow> m) limit), remaining)
      | VErrValuer message result \<Rightarrow>
          (VString (truncateUTF8 (case message of None \<Rightarrow> unserializableValue | Some m \<Rightarrow> m) limit), remaining)
      | VSlog s \<Rightarrow> clean_slog c (resolve_value s) depth remaining
      | VValuer result \<Rightarrow> clean_slog c (resolve_value (SAny (VValuer result))) depth remaining
      | VString s \<Rightarrow> (VString (truncateUTF8 s limit), remaining)
      | VBool b \<Rightarrow> (VBool b, remaining)
      | VInt n \<Rightarrow> (VInt n, remaining)
      | VUint n \<Rightarrow> (VUint n, remaining)
      | VFloat x \<Rightarrow> (case x of Finite n \<Rightarrow> VFloat (Finite n) | _ \<Rightarrow> VString unserializableValue, remaining)
      | VOtherMap \<Rightarrow> (VString unserializableValue, remaining)
      | VMap None \<Rightarrow> (VNil, remaining)
      | VMap (Some entries) \<Rightarrow>
          let (result, remaining') = clean_entries c entries (depth + 1) ([], remaining) in (VMap (Some result), remaining')
      | VBytes n \<Rightarrow> (VString (''<bytes:'' @ nat_string n @ ''>''), remaining)
      | VSlice None \<Rightarrow> (VNil, remaining)
      | VSlice (Some vs) \<Rightarrow>
          let (result, remaining') = clean_elements c vs (depth + 1) ([], remaining) in (VSlice (Some result), remaining')
      | VArray vs \<Rightarrow>
          let (result, remaining') = clean_elements c vs (depth + 1) ([], remaining) in (VSlice (Some result), remaining')
      | VOpaque \<Rightarrow> (VString unserializableValue, remaining))"
| "clean_entries c [] depth st = st"
| "clean_entries c ((key, v) # entries) depth st =
     (if snd st = 0 then st
      else if sensitiveKey c key
      then clean_entries c entries depth (AList.update key (VString redactedValue) (fst st), snd st - 1)
      else let (y, remaining) = clean_value c v depth (snd st - 1) in
        clean_entries c entries depth (AList.update key y (fst st), remaining))"
| "clean_elements c [] depth st = st"
| "clean_elements c (v # vs) depth st =
     (if snd st = 0 then st
      else let (y, remaining) = clean_value c v depth (snd st - 1) in
        clean_elements c vs depth (fst st @ [y], remaining))"
| "clean_slog c (SGroup attrs) depth remaining =
     (let (fds, remaining') = sanitize_all c attrs (depth + 1) ([], remaining) in (fieldsObject fds, remaining'))"
| "clean_slog c (SAny v) depth remaining = clean_value c v depth remaining"
  by pat_completeness auto
termination
proof (relation "measures
    [case_sum (case_sum (\<lambda>(c, gs, key, v, d, st). size v)
       (case_sum (\<lambda>(c, attrs, d, st). size_list (size_prod (\<lambda>k. 0) size) attrs) (\<lambda>(c, v, d, r). size v)))
     (case_sum (\<lambda>(c, es, d, st). size_list (size_prod (\<lambda>k. 0) size) es)
       (case_sum (\<lambda>(c, vs, d, st). size_list size vs) (\<lambda>(c, v, d, r). size v))),
     case_sum (case_sum (\<lambda>(c, gs, key, v, d, st). length gs) (\<lambda>x. 0)) (\<lambda>x. 0)]", goal_cases)
qed (use resolve_size resolve_valuer_size in \<open>auto simp: less_Suc_eq_le resolved_smaller\<close>)

end
