(* ===== verification/LogProperties.thy ===== *)
theory LogProperties
  imports LogHandler
begin

text \<open>
  The handler around the sanitizer, and what a sanitized record is: within the budget of nodes and the
  depth, plain data only, with every sensitive field redacted.
\<close>

declare clean_value.simps [simp del]

section \<open>The handler\<close>

record log_record =
  lr_time :: int
  lr_level :: int
  lr_message :: string
  lr_pc :: int
  lr_attrs :: "slog_attr list"

record ('c, 'w) slog_handler =
  nx_enabled :: "int \<Rightarrow> bool"
  nx_handle :: "'c \<Rightarrow> log_record \<Rightarrow> 'w \<Rightarrow> go_error option ext \<times> 'w"

record ('c, 'w) sanitizing_handler =
  lh_next :: "('c, 'w) slog_handler"
  lh_config :: log_config
  lh_context :: "('c \<Rightarrow> slog_attr list ext) option"
  lh_attrs :: "(string list \<times> slog_attr) list"
  lh_groups :: "string list"

definition newSanitizingHandler ::
  "unicode_tables \<Rightarrow> ('c, 'w) slog_handler option \<Rightarrow> log_options \<Rightarrow> ('c \<Rightarrow> slog_attr list ext) option \<Rightarrow>
   ('c, 'w) sanitizing_handler result" where
  "newSanitizingHandler U next_handler options context = (case next_handler of
     None \<Rightarrow> Inl (Plain ''logging slog Handler is required'')
   | Some n \<Rightarrow> and_then (normalizeOptions U options) (\<lambda>(normalized, keys).
       Inr \<lparr>lh_next = n, lh_config = \<lparr>lc_unicode = U, lc_options = normalized, lc_keys = keys\<rparr>, lh_context = context,
         lh_attrs = [], lh_groups = []\<rparr>))"

definition log_enabled :: "('c, 'w) sanitizing_handler \<Rightarrow> int \<Rightarrow> bool" where
  "log_enabled h level = nx_enabled (lh_next h) level"

fun add_scoped :: "log_config \<Rightarrow> (string list \<times> slog_attr) list \<Rightarrow> log_field list \<times> nat \<Rightarrow> log_field list \<times> nat" where
  "add_scoped c [] st = st"
| "add_scoped c ((groups, key, v) # attrs) st =
     (if snd st = 0 then st else add_scoped c attrs (sanitize_add c groups key v 1 st))"

text \<open>\<open>slog.GroupValue\<close> and \<open>Record.AddAttrs\<close> leave out empty groups.\<close>

definition drop_empty_groups :: "slog_attr list \<Rightarrow> slog_attr list" where
  "drop_empty_groups attrs = filter (\<lambda>(key, v). v \<noteq> SGroup []) attrs"

fun renderFields :: "log_field list \<Rightarrow> slog_attr list" where
  "renderFields [] = []"
| "renderFields (LogField key v is_group children # fs) =
     (key, case v of SGroup attrs \<Rightarrow> if is_group then SGroup (drop_empty_groups (renderFields children)) else v | SAny x \<Rightarrow> v) # renderFields fs"

text \<open>The budget is at least one; the attributes of the context are only asked for while some of it is left.\<close>

definition log_budget :: "log_config \<Rightarrow> nat" where
  "log_budget c = nat (lo_max_attributes (lc_options c))"

definition log_handle ::
  "('c, 'w) sanitizing_handler \<Rightarrow> 'c \<Rightarrow> log_record \<Rightarrow> 'w \<Rightarrow> go_error option ext \<times> 'w" where
  "log_handle h ctx r w =
     (if \<not> log_enabled h (lr_level r) then (Ret None, w)
      else let c = lh_config h; scoped = map (Pair (lh_groups h));
               st = add_scoped c (lh_attrs h) ([], log_budget c) in
        case (if snd st > 0 then (case lh_context h of None \<Rightarrow> Ret [] | Some extract \<Rightarrow> extract ctx) else Ret []) of
          Panics p \<Rightarrow> (Panics p, w)
        | Ret attrs \<Rightarrow>
            nx_handle (lh_next h) ctx (r\<lparr>lr_message := truncateUTF8 (lr_message r) (lo_max_message (lc_options c)),
              lr_attrs := drop_empty_groups (renderFields
                (fst (add_scoped c (scoped (lr_attrs r)) (add_scoped c (scoped attrs) st))))\<rparr>) w)"

definition log_with_attrs :: "('c, 'w) sanitizing_handler \<Rightarrow> slog_attr list \<Rightarrow> ('c, 'w) sanitizing_handler" where
  "log_with_attrs h attrs = h\<lparr>lh_attrs := lh_attrs h @ map (Pair (lh_groups h)) attrs\<rparr>"

definition log_with_group :: "('c, 'w) sanitizing_handler \<Rightarrow> string \<Rightarrow> ('c, 'w) sanitizing_handler" where
  "log_with_group h name = (if name = '''' then h else h\<lparr>lh_groups := lh_groups h @ [name]\<rparr>)"

section \<open>Nodes\<close>

fun value_nodes :: "go_value \<Rightarrow> nat"
and entries_nodes :: "(string \<times> go_value) list \<Rightarrow> nat"
and elements_nodes :: "go_value list \<Rightarrow> nat"
where
  "value_nodes (VMap (Some es)) = entries_nodes es"
| "value_nodes (VSlice (Some vs)) = elements_nodes vs"
| "value_nodes v = 0"
| "entries_nodes [] = 0"
| "entries_nodes ((key, v) # es) = Suc (value_nodes v + entries_nodes es)"
| "elements_nodes [] = 0"
| "elements_nodes (v # vs) = Suc (value_nodes v + elements_nodes vs)"

text \<open>The attributes, map entries and elements of a list of attributes, at every depth.\<close>

fun slog_nodes :: "slog_value \<Rightarrow> nat" and attrs_nodes :: "slog_attr list \<Rightarrow> nat" where
  "slog_nodes (SAny v) = value_nodes v"
| "slog_nodes (SGroup attrs) = attrs_nodes attrs"
| "attrs_nodes [] = 0"
| "attrs_nodes ((key, v) # attrs) = Suc (slog_nodes v + attrs_nodes attrs)"

fun fields_nodes :: "log_field list \<Rightarrow> nat" where
  "fields_nodes [] = 0"
| "fields_nodes (LogField key v is_group children # fs) = Suc (slog_nodes v + fields_nodes children + fields_nodes fs)"

lemma nodes_append [simp]:
  "elements_nodes (vs @ ws) = elements_nodes vs + elements_nodes ws"
  "fields_nodes (fs @ gs) = fields_nodes fs + fields_nodes gs"
  by (induction vs, auto) (induction fs rule: fields_nodes.induct, auto)

lemma entries_nodes_update: "entries_nodes (AList.update key v es) \<le> entries_nodes es + Suc (value_nodes v)"
  by (induction es) auto

lemma entries_nodes_object: "entries_nodes (fields_object fs acc) \<le> entries_nodes acc + fields_nodes fs"
proof (induction fs acc rule: fields_object.induct)
  case (2 key v is_group children fs result)
  let ?x = "case v of SGroup attrs \<Rightarrow> if is_group then VMap (Some (fields_object children [])) else VOpaque | SAny x \<Rightarrow> x"
  have "value_nodes ?x \<le> slog_nodes v + fields_nodes children"
    using "2.IH"(1) by (auto split: slog_value.split)
  with "2.IH"(2) entries_nodes_update [of key ?x result] show ?case by simp
qed simp

lemma drop_empty_nodes: "attrs_nodes (drop_empty_groups attrs) \<le> attrs_nodes attrs"
  by (induction attrs) (auto simp: drop_empty_groups_def)

lemma render_nodes: "attrs_nodes (renderFields fs) \<le> fields_nodes fs"
proof (induction fs rule: renderFields.induct)
  case (2 key v is_group children fs)
  then show ?case
    using drop_empty_nodes [of "renderFields children"] by (auto split: slog_value.split)
qed simp

lemma group_split:
  assumes "list_ex (named_group key) fs"
  shows "fields_nodes (set_children key children fs) + fields_nodes (lf_children (group_field key fs)) = fields_nodes fs + fields_nodes children"
  using assms
proof (induction fs)
  case (Cons f fs)
  show ?case
  proof (cases "named_group key f")
    case True
    then show ?thesis by (cases f) (simp add: group_field_def)
  next
    case False
    with Cons show ?thesis by (cases f) (simp add: group_field_def)
  qed
qed simp

lemma ensure_group_ex [simp]: "list_ex (named_group key) (fst (ensure_group c key depth st))"
  by (simp add: ensure_group_def named_group_def)

lemma ensure_group_nodes:
  "snd st \<noteq> 0 \<Longrightarrow> fields_nodes (fst (ensure_group c key depth st)) + snd (ensure_group c key depth st) = fields_nodes (fst st) + snd st"
  by (simp add: ensure_group_def placeholder_def)

lemma sanitize_nodes:
  "fields_nodes (fst (sanitize_add c gs key v depth st)) + snd (sanitize_add c gs key v depth st) \<le> fields_nodes (fst st) + snd st"
  "fields_nodes (fst (sanitize_all c attrs depth st)) + snd (sanitize_all c attrs depth st) \<le> fields_nodes (fst st) + snd st"
  "value_nodes (fst (clean_value c x depth r)) + snd (clean_value c x depth r) \<le> r"
  "entries_nodes (fst (clean_entries c es depth ent)) + snd (clean_entries c es depth ent) \<le> entries_nodes (fst ent) + snd ent"
  "elements_nodes (fst (clean_elements c vs depth els)) + snd (clean_elements c vs depth els) \<le> elements_nodes (fst els) + snd els"
  "value_nodes (fst (clean_slog c s depth r)) + snd (clean_slog c s depth r) \<le> r"
proof (induction c gs key v depth st and c attrs depth st and c x depth r and c es depth ent and c vs depth els and c s depth r
    rule: sanitize_add_sanitize_all_clean_value_clean_entries_clean_elements_clean_slog.induct)
  case (1 c g gs key v depth st)
  let ?st1 = "ensure_group c g depth st"
  let ?r = "sanitize_add c gs key v (depth + 1) (lf_children (group_field g (fst ?st1)), snd ?st1)"
  show ?case
  proof (cases "snd st = 0 \<or> key = '''' \<and> v = SAny VNil")
    case False
    then have "fields_nodes (fst ?st1) + snd ?st1 = fields_nodes (fst st) + snd st" by (intro ensure_group_nodes) simp
    moreover have "open_group (group_field g (fst ?st1)) \<Longrightarrow> fields_nodes (fst ?r) + snd ?r
        \<le> fields_nodes (lf_children (group_field g (fst ?st1))) + snd ?st1"
      using 1 [OF False refl refl] by simp
    ultimately show ?thesis
      using False group_split [OF ensure_group_ex, of g "fst ?r" c depth st] by (auto simp: Let_def split_beta)
  qed auto
next
  case (2 c key v depth st)
  let ?st1 = "ensure_group c key depth st"
  show ?case
  proof (cases "snd st = 0 \<or> key = '''' \<and> v = SAny VNil \<or> key \<noteq> '''' \<and> (sensitiveKey c key \<or> depth > lo_max_depth (lc_options c))")
    case True
    then show ?thesis by (auto simp: placeholder_def)
  next
    case False
    then have nodes: "fields_nodes (fst ?st1) + snd ?st1 = fields_nodes (fst st) + snd st" by (intro ensure_group_nodes) simp
    show ?thesis
    proof (cases "resolve_value v")
      case (SAny x)
      have "value_nodes (fst (clean_value c x depth (snd st - 1))) + snd (clean_value c x depth (snd st - 1)) \<le> snd st - 1"
        using 2(1) [OF _ _ SAny] False by auto
      then show ?thesis using SAny False by (auto simp: split_beta)
    next
      case (SGroup attrs)
      let ?r = "sanitize_all c attrs (depth + 1) (lf_children (group_field key (fst ?st1)), snd ?st1)"
      have "key \<noteq> '''' \<Longrightarrow> attrs \<noteq> [] \<Longrightarrow> fields_nodes (fst ?r) + snd ?r
          \<le> fields_nodes (lf_children (group_field key (fst ?st1))) + snd ?st1"
        using 2(2) [OF _ _ SGroup _ _ refl] False by auto
      moreover have "key = '''' \<Longrightarrow> attrs \<noteq> [] \<Longrightarrow> fields_nodes (fst (sanitize_all c attrs depth st)) + snd (sanitize_all c attrs depth st)
          \<le> fields_nodes (fst st) + snd st"
        using 2(3) [OF _ _ SGroup] False by auto
      ultimately show ?thesis
        using False SGroup nodes group_split [OF ensure_group_ex, of key "fst ?r" c depth st] by (auto simp: Let_def split_beta)
    qed
  qed
next
  case (4 c key v attrs depth st)
  then show ?case by (cases "snd st = 0") auto
next
  case (5 c v depth remaining)
  then show ?case
    by (cases v) (auto simp: clean_value.simps Let_def split_beta split: option.split go_float.split)
next
  case (7 c key v entries depth st)
  obtain y r where y: "clean_value c v depth (snd st - 1) = (y, r)" by force
  have "entries_nodes (AList.update key (VString redactedValue) (fst st)) \<le> entries_nodes (fst st) + 1"
    "entries_nodes (AList.update key y (fst st)) \<le> entries_nodes (fst st) + Suc (value_nodes y)"
    using entries_nodes_update [of key "VString redactedValue" "fst st"] entries_nodes_update by auto
  then show ?case using 7(1) 7(2) 7(3) [of "(y, r)" y r] y by (cases "snd st = 0"; cases "sensitiveKey c key") auto
next
  case (9 c v vs depth st)
  obtain y r where y: "clean_value c v depth (snd st - 1) = (y, r)" by force
  show ?case using 9(1) 9(2) [of "(y, r)" y r] y by (cases "snd st = 0") auto
next
  case (10 c attrs depth remaining)
  then show ?case
    using entries_nodes_object [of "fst (sanitize_all c attrs (depth + 1) ([], remaining))" "[]"]
    by (simp add: split_beta fieldsObject_def)
qed simp_all

section \<open>Clean data\<close>

text \<open>
  A string the handler writes: a marker, or text that was cut to the limit. A value at depth \<open>d\<close> is clean
  if it is plain data, nothing in it is deeper than one level below the limit, and every field with a
  sensitive name holds the marker.
\<close>

definition log_text :: "log_config \<Rightarrow> string \<Rightarrow> bool" where
  "log_text c s \<longleftrightarrow> s \<in> {redactedValue, unserializableValue, truncatedValue} \<or> (\<exists>n. s = ''<bytes:'' @ nat_string n @ ''>'')
     \<or> valid_string s \<and> int (length s) \<le> lo_max_string (lc_options c)"

definition in_depth :: "log_config \<Rightarrow> int \<Rightarrow> bool" where
  "in_depth c d \<longleftrightarrow> d \<le> lo_max_depth (lc_options c) + 1"

fun clean_data :: "log_config \<Rightarrow> int \<Rightarrow> go_value \<Rightarrow> bool"
and clean_map :: "log_config \<Rightarrow> int \<Rightarrow> (string \<times> go_value) list \<Rightarrow> bool"
and clean_seq :: "log_config \<Rightarrow> int \<Rightarrow> go_value list \<Rightarrow> bool"
where
  "clean_data c d (VString s) = log_text c s"
| "clean_data c d (VFloat (Finite n)) = True"
| "clean_data c d (VMap (Some es)) = clean_map c (d + 1) es"
| "clean_data c d (VSlice (Some vs)) = clean_seq c (d + 1) vs"
| "clean_data c d v = (v = VNil \<or> (\<exists>t. v = VTime t) \<or> (\<exists>t. v = VDuration t) \<or> (\<exists>b. v = VBool b) \<or> (\<exists>n. v = VInt n \<or> v = VUint n))"
| "clean_map c d [] = True"
| "clean_map c d ((key, v) # es) = (in_depth c d \<and> clean_map c d es
     \<and> (if sensitiveKey c key then v = VString redactedValue else clean_data c d v))"
| "clean_seq c d [] = True"
| "clean_seq c d (v # vs) = (in_depth c d \<and> clean_data c d v \<and> clean_seq c d vs)"

fun clean_slog_value :: "log_config \<Rightarrow> int \<Rightarrow> slog_value \<Rightarrow> bool"
and clean_attrs :: "log_config \<Rightarrow> int \<Rightarrow> slog_attr list \<Rightarrow> bool"
where
  "clean_slog_value c d (SAny v) = clean_data c d v"
| "clean_slog_value c d (SGroup attrs) = clean_attrs c (d + 1) attrs"
| "clean_attrs c d [] = True"
| "clean_attrs c d ((key, v) # attrs) = (in_depth c d \<and> clean_attrs c d attrs
     \<and> (if sensitiveKey c key then v = SAny (VString redactedValue) else clean_slog_value c d v))"

fun clean_fields :: "log_config \<Rightarrow> int \<Rightarrow> log_field list \<Rightarrow> bool" where
  "clean_fields c d [] = True"
| "clean_fields c d (LogField key v is_group children # fs) = (in_depth c d \<and> clean_fields c d fs
     \<and> (if sensitiveKey c key then v = SAny (VString redactedValue) else clean_slog_value c d v)
     \<and> (case v of SGroup attrs \<Rightarrow> is_group \<and> in_depth c (d + 1) | SAny x \<Rightarrow> True) \<and> clean_fields c (d + 1) children)"

lemma clean_seq_append [simp]: "clean_seq c d (vs @ ws) \<longleftrightarrow> clean_seq c d vs \<and> clean_seq c d ws"
  by (induction vs) auto

lemma clean_fields_append [simp]: "clean_fields c d (fs @ gs) \<longleftrightarrow> clean_fields c d fs \<and> clean_fields c d gs"
  by (induction fs rule: fields_nodes.induct) auto

lemma clean_map_update:
  "in_depth c d \<Longrightarrow> clean_map c d es \<Longrightarrow> (if sensitiveKey c key then v = VString redactedValue else clean_data c d v) \<Longrightarrow>
     clean_map c d (AList.update key v es)"
  by (induction es) auto

lemma clean_object:
  "clean_fields c d fs \<Longrightarrow> clean_map c d acc \<Longrightarrow> clean_map c d (fields_object fs acc)"
proof (induction fs acc arbitrary: d rule: fields_object.induct)
  case (2 key v is_group children fs result)
  have "clean_map c (d + 1) (fields_object children [])" if "v = SGroup attrs" "is_group" for attrs
    using 2(1) [OF that, of "d + 1"] 2(3) by simp
  then have "clean_map c d (AList.update key (case v of SGroup attrs \<Rightarrow>
      if is_group then VMap (Some (fields_object children [])) else VOpaque | SAny x \<Rightarrow> x) result)"
    using 2(3,4) by (intro clean_map_update) (auto split: slog_value.split_asm slog_value.split if_split_asm)
  then show ?case using 2(3) by (simp add: 2(2))
qed simp

lemma clean_drop_empty: "clean_attrs c d attrs \<Longrightarrow> clean_attrs c d (drop_empty_groups attrs)"
  by (induction attrs) (auto simp: drop_empty_groups_def)

lemma clean_render: "clean_fields c d fs \<Longrightarrow> clean_attrs c d (renderFields fs)"
  by (induction fs arbitrary: d rule: renderFields.induct) (auto intro: clean_drop_empty split: slog_value.split_asm slog_value.split)

lemma group_cases:
  assumes "list_ex (named_group key) fs" "clean_fields c d fs"
  shows "clean_fields c (d + 1) (lf_children (group_field key fs))"
    "open_group (group_field key fs) \<Longrightarrow> in_depth c (d + 1)"
    "clean_fields c (d + 1) children \<Longrightarrow> clean_fields c d (set_children key children fs)"
proof -
  have "clean_fields c (d + 1) (lf_children (group_field key fs)) \<and> (open_group (group_field key fs) \<longrightarrow> in_depth c (d + 1))
      \<and> (clean_fields c (d + 1) children \<longrightarrow> clean_fields c d (set_children key children fs))"
    using assms
  proof (induction fs)
    case (Cons f fs)
    then show ?case
      by (cases f; cases "named_group key f") (auto simp: group_field_def open_group_def split: slog_value.split_asm)
  qed simp
  then show "clean_fields c (d + 1) (lf_children (group_field key fs))"
    "open_group (group_field key fs) \<Longrightarrow> in_depth c (d + 1)"
    "clean_fields c (d + 1) children \<Longrightarrow> clean_fields c d (set_children key children fs)" by blast+
qed

lemma clean_placeholder:
  "in_depth c d \<Longrightarrow> (if sensitiveKey c key then placeholder c key d = SAny (VString redactedValue)
     else clean_slog_value c d (placeholder c key d))
   \<and> (case placeholder c key d of SGroup attrs \<Rightarrow> in_depth c (d + 1) | SAny x \<Rightarrow> True)"
  by (auto simp: placeholder_def in_depth_def log_text_def)

lemma clean_ensure_group:
  "in_depth c d \<Longrightarrow> clean_fields c d (fst st) \<Longrightarrow> clean_fields c d (fst (ensure_group c key d st))"
  using clean_placeholder [of c d key] by (auto simp: ensure_group_def split: slog_value.split_asm slog_value.split)

definition config_ok :: "log_config \<Rightarrow> bool" where
  "config_ok c \<longleftrightarrow> \<not> sensitiveKey c '''' \<and> int (length truncatedValue) \<le> lo_max_string (lc_options c)
     \<and> int (length truncatedValue) \<le> lo_max_message (lc_options c) \<and> 1 \<le> lo_max_attributes (lc_options c)
     \<and> 1 \<le> lo_max_depth (lc_options c)"

lemma sanitize_clean:
  "config_ok c \<Longrightarrow> in_depth c depth \<Longrightarrow> clean_fields c depth (fst st) \<Longrightarrow> clean_fields c depth (fst (sanitize_add c gs key v depth st))"
  "config_ok c \<Longrightarrow> in_depth c depth \<Longrightarrow> clean_fields c depth (fst st) \<Longrightarrow> clean_fields c depth (fst (sanitize_all c attrs depth st))"
  "config_ok c \<Longrightarrow> in_depth c depth \<Longrightarrow> clean_data c depth (fst (clean_value c x depth r))"
  "config_ok c \<Longrightarrow> in_depth c depth \<Longrightarrow> clean_map c depth (fst ent) \<Longrightarrow> clean_map c depth (fst (clean_entries c es depth ent))"
  "config_ok c \<Longrightarrow> in_depth c depth \<Longrightarrow> clean_seq c depth (fst els) \<Longrightarrow> clean_seq c depth (fst (clean_elements c vs depth els))"
  "config_ok c \<Longrightarrow> in_depth c (depth + 1) \<Longrightarrow> clean_data c depth (fst (clean_slog c s depth r))"
proof (induction c gs key v depth st and c attrs depth st and c x depth r and c es depth ent and c vs depth els and c s depth r
    rule: sanitize_add_sanitize_all_clean_value_clean_entries_clean_elements_clean_slog.induct)
  case (1 c g gs key v depth st)
  let ?st1 = "ensure_group c g depth st"
  let ?r = "sanitize_add c gs key v (depth + 1) (lf_children (group_field g (fst ?st1)), snd ?st1)"
  note ok = clean_ensure_group [OF 1(3,4), of g]
  note group = group_cases [OF ensure_group_ex ok]
  have "clean_fields c (depth + 1) (fst ?r)"
    if "\<not> (snd st = 0 \<or> key = '''' \<and> v = SAny VNil)" "open_group (group_field g (fst ?st1))"
    using 1(1) [OF that(1) refl refl that(2)] 1(2) group(1) group(2) [OF that(2)] by simp
  then show ?case using 1(4) ok group(3) by (auto simp: Let_def split_beta)
next
  case (2 c key v depth st)
  let ?st1 = "ensure_group c key depth st"
  show ?case
  proof (cases "snd st = 0 \<or> key = '''' \<and> v = SAny VNil")
    case True
    then show ?thesis using 2 by auto
  next
    case go: False
    show ?thesis
    proof (cases "key \<noteq> '''' \<and> (sensitiveKey c key \<or> depth > lo_max_depth (lc_options c))")
      case True
      with go 2(5,6) show ?thesis by (auto simp: placeholder_def log_text_def)
    next
      case False
      have key: "\<not> sensitiveKey c key" using False 2(4) by (cases "key = ''''") (auto simp: config_ok_def)
      show ?thesis
      proof (cases "resolve_value v")
        case (SAny x)
        have "clean_data c depth (fst (clean_value c x depth (snd st - 1)))" using 2(1) [OF go False SAny 2(4,5)] .
        then show ?thesis using go False SAny key 2(5,6) by (auto simp: split_beta)
      next
        case (SGroup attrs)
        show ?thesis
        proof (cases "attrs = [] \<or> key = ''''")
          case True
          then show ?thesis using go False SGroup 2(3) [OF go False SGroup] 2(4,5,6) by auto
        next
          case named: False
          then have d: "in_depth c (depth + 1)" using False by (auto simp: in_depth_def)
          note group = group_cases [OF ensure_group_ex clean_ensure_group [OF 2(5,6), of key]]
          have "clean_fields c (depth + 1) (fst (sanitize_all c attrs (depth + 1) (lf_children (group_field key (fst ?st1)), snd ?st1)))"
            using 2(2) [OF go False SGroup _ _ refl 2(4) d] named group(1) by simp
          then show ?thesis using go False SGroup named group(3) by (auto simp: Let_def split_beta)
        qed
      qed
    qed
  qed
next
  case (4 c key v attrs depth st)
  then show ?case by (cases "snd st = 0") auto
next
  case (5 c v depth remaining)
  show ?case
  proof (cases "depth > lo_max_depth (lc_options c)")
    case True
    then show ?thesis by (simp add: clean_value.simps log_text_def)
  next
    case False
    then have d: "in_depth c (depth + 1)" by (simp add: in_depth_def)
    have cut: "log_text c (truncateUTF8 s (lo_max_string (lc_options c)))" for s
      using truncate_ok [of "lo_max_string (lc_options c)" s] 5(6) by (simp add: log_text_def config_ok_def)
    show ?thesis
      using False d cut 5
      by (cases v) (auto simp: clean_value.simps log_text_def [of _ unserializableValue] log_text_def [of _ "CHR ''<'' # s" for s]
          Let_def split_beta split: option.split go_float.split)
  qed
next
  case (7 c key v entries depth st)
  obtain y r where y: "clean_value c v depth (snd st - 1) = (y, r)" by force
  show ?case
    using 7(1) 7(2) 7(3) [of "(y, r)" y r] 7(4-6) y clean_map_update [OF 7(5,6)]
    by (cases "snd st = 0"; cases "sensitiveKey c key") auto
next
  case (9 c v vs depth st)
  obtain y r where y: "clean_value c v depth (snd st - 1) = (y, r)" by force
  show ?case using 9(1) 9(2) [of "(y, r)" y r] 9(3-5) y by (cases "snd st = 0") auto
next
  case (10 c attrs depth remaining)
  then show ?case using clean_object [of c "depth + 1" _ "[]"] by (simp add: split_beta fieldsObject_def)
next
  case (11 c v depth remaining)
  then show ?case by (simp add: in_depth_def)
qed simp_all

section \<open>Records\<close>

lemma extra_keys_nonempty: "extra_keys U keys ks = Inr keys' \<Longrightarrow> '''' \<notin> set keys \<Longrightarrow> '''' \<notin> set keys'"
  by (induction U keys ks rule: extra_keys.induct) (auto split: if_split_asm)

lemma normalizeOptions_ok:
  assumes "normalizeOptions U options = Inr (normalized, keys)"
  shows "config_ok \<lparr>lc_unicode = U, lc_options = normalized, lc_keys = keys\<rparr>"
proof -
  have "extra_keys U builtinSensitiveKeys (lo_extra_keys normalized) = Inr keys"
    "\<not> (lo_max_message normalized < int (length truncatedValue) \<or> lo_max_string normalized < int (length truncatedValue))"
    "\<not> lo_max_attributes normalized < 1" "\<not> lo_max_depth normalized < 1"
    using assms by (auto simp: normalizeOptions_def Let_def and_then_eq_Inr split: if_split_asm)
  moreover have "'''' \<notin> set builtinSensitiveKeys" by (simp add: builtinSensitiveKeys_def)
  ultimately show ?thesis
    using extra_keys_nonempty by (auto simp: config_ok_def sensitiveKey_def list_ex_iff)
qed

text \<open>A handler and those derived from it by \<open>WithAttrs\<close> and \<open>WithGroup\<close>.\<close>

datatype derivation = WithAttrs "slog_attr list" | WithGroup string

fun derive :: "('c, 'w) sanitizing_handler \<Rightarrow> derivation list \<Rightarrow> ('c, 'w) sanitizing_handler" where
  "derive h [] = h"
| "derive h (WithAttrs attrs # ds) = derive (log_with_attrs h attrs) ds"
| "derive h (WithGroup name # ds) = derive (log_with_group h name) ds"

lemma derive_config: "lh_config (derive h ds) = lh_config h \<and> lh_next (derive h ds) = lh_next h"
  by (induction h ds rule: derive.induct) (auto simp: log_with_attrs_def log_with_group_def)

lemma newSanitizingHandler_ok:
  assumes "newSanitizingHandler U (Some n) options context = Inr h"
  shows "config_ok (lh_config (derive h ds)) \<and> lh_next (derive h ds) = n"
  using assms normalizeOptions_ok derive_config [of h ds]
  by (auto simp: newSanitizingHandler_def and_then_eq_Inr)

text \<open>A next handler that collects what it is given.\<close>

definition collecting :: "(int \<Rightarrow> bool) \<Rightarrow> ('c, log_record list) slog_handler" where
  "collecting enabled = \<lparr>nx_enabled = enabled, nx_handle = (\<lambda>ctx r w. (Ret None, w @ [r]))\<rparr>"

lemma add_scoped_append: "add_scoped c (xs @ ys) st = add_scoped c ys (add_scoped c xs st)"
proof (induction xs arbitrary: st)
  case (Cons x xs)
  obtain groups key v where x: "x = (groups, key, v)" by (cases x)
  have "snd st = 0 \<Longrightarrow> add_scoped c ys st = st" by (cases ys; cases "hd ys") auto
  with Cons x show ?case by simp
qed simp

lemma add_scoped_ok:
  "fields_nodes (fst (add_scoped c attrs st)) + snd (add_scoped c attrs st) \<le> fields_nodes (fst st) + snd st
   \<and> (config_ok c \<longrightarrow> clean_fields c 1 (fst st) \<longrightarrow> clean_fields c 1 (fst (add_scoped c attrs st)))"
proof (induction c attrs st rule: add_scoped.induct)
  case (2 c groups key v attrs st)
  have "config_ok c \<Longrightarrow> in_depth c 1" by (simp add: config_ok_def in_depth_def)
  with sanitize_nodes(1) [of c groups key v 1 st] sanitize_clean(1) [of c 1 st groups key v] 2 show ?case by auto
qed simp

text \<open>What the next handler is given.\<close>

lemma handled_record:
  assumes "log_handle h ctx r [] = (result, written)" "lh_next h = collecting enabled" "rec \<in> set written"
  shows "written = [rec] \<and> enabled (lr_level r) \<and> lr_message rec = truncateUTF8 (lr_message r) (lo_max_message (lc_options (lh_config h)))
    \<and> (\<exists>attrs. lr_attrs rec = drop_empty_groups (renderFields (fst (add_scoped (lh_config h) attrs ([], log_budget (lh_config h))))))"
proof -
  define attrs where "attrs extra = lh_attrs h @ map (Pair (lh_groups h)) extra @ map (Pair (lh_groups h)) (lr_attrs r)" for extra
  have merged: "add_scoped (lh_config h) (map (Pair (lh_groups h)) (lr_attrs r)) (add_scoped (lh_config h) (map (Pair (lh_groups h)) extra)
      (add_scoped (lh_config h) (lh_attrs h) st)) = add_scoped (lh_config h) (attrs extra) st" for extra st
    by (simp add: attrs_def add_scoped_append)
  show ?thesis
    using assms merged merged [of "[]", simplified] unfolding log_handle_def Let_def log_enabled_def
    by (auto simp: collecting_def split: if_split_asm ext.split_asm option.split_asm)
qed

text \<open>
  C30 Redaction: whatever is logged through a sanitizing handler or one derived from it, what reaches the next
  handler is plain data, every field, group and map entry with a sensitive name holds only the redaction
  marker, every other text is valid UTF-8 within its limit or a marker, and nothing is nested deeper than
  one level below the limit.
\<close>

theorem log_fields_clean:
  assumes "newSanitizingHandler U (Some (collecting enabled)) options context = Inr h"
    "log_handle (derive h ds) ctx r [] = (result, written)" "rec \<in> set written"
  shows "clean_attrs (lh_config h) 1 (lr_attrs rec)"
proof -
  note ok = newSanitizingHandler_ok [OF assms(1), of ds]
  from handled_record [OF assms(2) _ assms(3)] ok derive_config [of h ds] obtain attrs where
    "lr_attrs rec = drop_empty_groups (renderFields (fst (add_scoped (lh_config h) attrs ([], log_budget (lh_config h)))))" by auto
  then show ?thesis
    using add_scoped_ok [of "lh_config h" attrs "([], log_budget (lh_config h))"] ok derive_config [of h ds]
    by (auto intro: clean_drop_empty clean_render)
qed

text \<open>
  C31 Bounds of a record: the next handler is called at most once and only at an enabled level; the message it
  is given is valid UTF-8 within its limit, and all attributes, map entries and elements together, at every
  depth, are no more than the budget.
\<close>

theorem log_record_bounded:
  assumes "newSanitizingHandler U (Some (collecting enabled)) options context = Inr h"
    "log_handle (derive h ds) ctx r [] = (result, written)" "rec \<in> set written"
  shows "written = [rec] \<and> enabled (lr_level r)
    \<and> valid_string (lr_message rec) \<and> int (length (lr_message rec)) \<le> lo_max_message (lc_options (lh_config h))
    \<and> int (attrs_nodes (lr_attrs rec)) \<le> lo_max_attributes (lc_options (lh_config h))"
proof -
  let ?c = "lh_config h"
  note ok = newSanitizingHandler_ok [OF assms(1), of ds]
  have c: "config_ok ?c" "lh_config (derive h ds) = ?c" using ok derive_config [of h ds] by simp_all
  from handled_record [OF assms(2) _ assms(3)] ok c obtain attrs where written: "written = [rec]" "enabled (lr_level r)"
    "lr_message rec = truncateUTF8 (lr_message r) (lo_max_message (lc_options ?c))"
    "lr_attrs rec = drop_empty_groups (renderFields (fst (add_scoped ?c attrs ([], log_budget ?c))))" by auto
  have "attrs_nodes (lr_attrs rec) \<le> log_budget ?c"
    using add_scoped_ok [of ?c attrs "([], log_budget ?c)"] render_nodes [of "fst (add_scoped ?c attrs ([], log_budget ?c))"]
      drop_empty_nodes [of "renderFields (fst (add_scoped ?c attrs ([], log_budget ?c)))"]
    unfolding written(4) by simp
  then have "int (attrs_nodes (lr_attrs rec)) \<le> lo_max_attributes (lc_options ?c)"
    using c(1) by (auto simp: log_budget_def config_ok_def)
  then show ?thesis using written truncate_ok c(1) by (simp add: config_ok_def)
qed

text \<open>
  Attributes attached with \<open>WithAttrs\<close> are those of the record: without attributes from the context, a
  derived handler writes exactly what the handler writes for the record with them in front.
\<close>

theorem log_attrs_equivalent:
  assumes "lh_context h = None"
  shows "log_handle (log_with_attrs h attrs) ctx r w = log_handle h ctx (r\<lparr>lr_attrs := attrs @ lr_attrs r\<rparr>) w"
  using assms by (simp add: log_handle_def log_enabled_def log_with_attrs_def Let_def add_scoped_append)

end
