(* ===== verification/SlogAccess.thy ===== *)
theory SlogAccess
  imports AccessLog LogProperties
begin

text \<open>
  The access logger over \<open>log/slog\<close> (\<open>sdk/go/gateway/slog_access_log.go\<close>), the logger of the storage service
  (\<open>services/storage/internal/observability/logging.go\<close>), and what becomes of an access record that passes
  through the sanitizing handler.
\<close>

section \<open>The access logger\<close>

definition accessLogMessage :: string where
  "accessLogMessage = ''gateway request completed''"

definition levelDebug :: int where "levelDebug = - 4"
definition levelInfo :: int where "levelInfo = 0"
definition levelWarn :: int where "levelWarn = 4"
definition levelError :: int where "levelError = 8"

definition accessLogSlogLevel :: "int \<Rightarrow> int" where
  "accessLogSlogLevel status = (if status \<ge> 500 then levelError else if status \<ge> 400 then levelWarn else levelInfo)"

text \<open>\<open>slog.String\<close>; the empty attribute \<open>slog.Attr{}\<close> stands for no result.\<close>

definition slog_string :: "string \<Rightarrow> string \<Rightarrow> slog_attr" where
  "slog_string key s = (key, SAny (VString s))"

definition slogRateLimitResult :: "(string \<rightharpoonup> string) \<Rightarrow> slog_attr" where
  "slogRateLimitResult results =
     (if dom results = {} then ('''', SAny VNil)
      else (''rate_limit_result'',
            SGroup (map (\<lambda>scope. slog_string scope (the (results scope))) (sorted_list_of_set (dom results)))))"

definition roles_value :: "string list \<Rightarrow> go_value" where
  "roles_value roles = (if roles = [] then VSlice None else VSlice (Some (map VString roles)))"

text \<open>The ten fields of every record, and all attributes of a record.\<close>

definition access_fields :: "access_log \<Rightarrow> (string \<times> go_value) list" where
  "access_fields l =
     [(''request_id'', VString (al_request_id l)), (''method'', VString (al_method l)), (''path'', VString (al_path l)),
      (''route'', VString (al_route l)), (''client_ip'', VString (al_client_ip l)), (''auth_result'', VString (al_auth_result l)),
      (''upstream'', VString (al_upstream l)), (''status'', VInt (al_status l)),
      (''duration_ms'', VInt (milliseconds (al_elapsed l))), (''error_code'', VString (al_error_code l))]"

definition access_attrs :: "bool \<Rightarrow> access_log \<Rightarrow> slog_attr list" where
  "access_attrs include_identity l =
     map (\<lambda>(key, x). (key, SAny x)) (access_fields l)
     @ (let result = slogRateLimitResult (al_rate_limit l) in if result = ('''', SAny VNil) then [] else [result])
     @ (if include_identity then [slog_string ''user_id'' (al_user_id l), (''roles'', SAny (roles_value (al_roles l)))] else [])"

text \<open>A logger is its handler; without one \<open>slog.Default\<close> is asked for at each output.\<close>

record ('c, 'w) slog_access_logger =
  sa_logger :: "('c, 'w) slog_handler option"
  sa_include_identity :: bool

definition newSlogAccessLogger :: "('c, 'w) slog_handler option \<Rightarrow> bool \<Rightarrow> ('c, 'w) slog_access_logger" where
  "newSlogAccessLogger logger include_identity = \<lparr>sa_logger = logger, sa_include_identity = include_identity\<rparr>"

definition slog_access_log ::
  "('c, 'w) slog_handler \<Rightarrow> int \<Rightarrow> ('c, 'w) slog_access_logger \<Rightarrow> 'c \<Rightarrow> access_log \<Rightarrow> 'w \<Rightarrow> go_error option ext \<times> 'w" where
  "slog_access_log default_handler now logger ctx l w =
     (let handler = (case sa_logger logger of None \<Rightarrow> default_handler | Some h \<Rightarrow> h);
          level = accessLogSlogLevel (al_status l) in
      if \<not> nx_enabled handler level then (Ret None, w)
      else nx_handle handler ctx
        \<lparr>lr_time = now, lr_level = level, lr_message = accessLogMessage, lr_pc = 0,
         lr_attrs = access_attrs (sa_include_identity logger) l\<rparr> w)"

text \<open>A sanitizing handler as the handler of a logger.\<close>

definition as_handler :: "('c, 'w) sanitizing_handler \<Rightarrow> ('c, 'w) slog_handler" where
  "as_handler h = \<lparr>nx_enabled = log_enabled h, nx_handle = log_handle h\<rparr>"

definition no_log_options :: log_options where
  "no_log_options = \<lparr>lo_extra_keys = [], lo_max_message = 0, lo_max_string = 0, lo_max_attributes = 0, lo_max_depth = 0\<rparr>"

section \<open>The logger of the storage service\<close>

datatype log_format = TextFormat | JSONFormat

definition parse_level :: "unicode_tables \<Rightarrow> string \<Rightarrow> int \<times> string list" where
  "parse_level U raw =
     (let level = to_lower U (trim_space raw) in
      if level = '''' \<or> level = ''info'' then (levelInfo, [])
      else if level = ''debug'' then (levelDebug, [])
      else if level = ''warn'' \<or> level = ''warning'' then (levelWarn, [])
      else if level = ''error'' then (levelError, [])
      else (levelInfo, [''LOG_LEVEL must be debug, info, warn, warning, or error'']))"

definition parse_format :: "unicode_tables \<Rightarrow> string \<Rightarrow> log_format \<times> string list" where
  "parse_format U raw =
     (let format = to_lower U (trim_space raw) in
      if format = '''' \<or> format = ''pretty'' then (TextFormat, [])
      else if format = ''json'' then (JSONFormat, [])
      else (TextFormat, [''LOG_FORMAT must be pretty or json'']))"

text \<open>
  \<open>NewLogger\<close>: the handler that formats records is an argument, by format and level. The result is the
  handler of the logger, and the configuration errors, which \<open>errors.Join\<close> joins.
\<close>

definition newLogger ::
  "unicode_tables \<Rightarrow> (log_format \<Rightarrow> int \<Rightarrow> ('c, 'w) slog_handler) \<Rightarrow> string \<Rightarrow> string \<Rightarrow> ('c, 'w) slog_handler \<times> string list" where
  "newLogger U formatter rawLevel rawFormat =
     (let (level, level_errors) = parse_level U rawLevel; (format, format_errors) = parse_format U rawFormat;
          base = formatter format level; errs = level_errors @ format_errors in
      case newSanitizingHandler U (Some base) no_log_options None of
        Inl err \<Rightarrow> (base, errs @ [error_text err])
      | Inr safe \<Rightarrow> (as_handler (log_with_attrs safe [slog_string ''service'' ''storage-service'']), errs))"

section \<open>Names that are not sensitive\<close>

lemma normalizeKey_ascii:
  "is_ascii key \<Longrightarrow> normalizeKey U key = map ascii_lower (filter (\<lambda>c. rune_letter U (byte c) \<or> rune_digit U (byte c)) key)"
  by (induction key)
    (auto simp: normalizeKey_def map_runes_def runes_ascii rune_lower_def encode_rune_ascii ascii_lower_def is_ascii_def)

definition access_names :: "string list" where
  "access_names = [''request_id'', ''method'', ''path'', ''route'', ''client_ip'', ''auth_result'', ''upstream'', ''status'',
     ''duration_ms'', ''error_code'']"

lemma access_fields_names: "map fst (access_fields l) = access_names"
  by (simp add: access_fields_def access_names_def)

lemma access_names_normal:
  "map (normalizeKey U) access_names = [''requestid'', ''method'', ''path'', ''route'', ''clientip'', ''authresult'', ''upstream'',
     ''status'', ''durationms'', ''errorcode'']"
  by (simp add: access_names_def normalizeKey_ascii is_ascii_def rune_letter_def rune_digit_def ascii_lower_def)

lemma access_names_plain:
  assumes "key \<in> set access_names"
  shows "key \<noteq> ''''" "normalizeKey U key \<notin> set builtinSensitiveKeys"
proof -
  have "list_all (\<lambda>k. k \<noteq> '''') access_names" by (simp add: access_names_def)
  moreover have "list_all (\<lambda>k. k \<notin> set builtinSensitiveKeys) (map (normalizeKey U) access_names)"
    unfolding access_names_normal by (simp add: builtinSensitiveKeys_def)
  ultimately show "key \<noteq> ''''" "normalizeKey U key \<notin> set builtinSensitiveKeys"
    using assms by (simp_all add: list_all_iff)
qed

section \<open>Through the sanitizing handler\<close>

text \<open>Texts and numbers with a name that is not sensitive are added in order, cut to the limit.\<close>

fun scalar :: "go_value \<Rightarrow> bool" where
  "scalar (VString s) = True"
| "scalar (VInt n) = True"
| "scalar v = False"

fun cut_scalar :: "log_config \<Rightarrow> go_value \<Rightarrow> go_value" where
  "cut_scalar c (VString s) = VString (truncateUTF8 s (lo_max_string (lc_options c)))"
| "cut_scalar c v = v"

lemma resolve_scalar: "scalar x \<Longrightarrow> resolve_value (SAny x) = SAny x"
  by (cases x) (simp_all add: resolve_value_def numeral_eq_Suc)

lemma clean_scalar: "scalar x \<Longrightarrow> 1 \<le> lo_max_depth (lc_options c) \<Longrightarrow> clean_value c x 1 r = (cut_scalar c x, r)"
  by (cases x) (simp_all add: clean_value.simps Let_def)

lemma add_scalar:
  assumes "key \<noteq> ''''" "\<not> sensitiveKey c key" "scalar x" "1 \<le> lo_max_depth (lc_options c)" "0 < snd st"
  shows "sanitize_add c [] key (SAny x) 1 st = (fst st @ [LogField key (SAny (cut_scalar c x)) False []], snd st - 1)"
  using assms by (simp add: resolve_scalar clean_scalar)

definition scalar_fields :: "log_config \<Rightarrow> (string \<times> go_value) list \<Rightarrow> log_field list" where
  "scalar_fields c kxs = map (\<lambda>(key, x). LogField key (SAny (cut_scalar c x)) False []) kxs"

lemma add_scalars:
  "1 \<le> lo_max_depth (lc_options c) \<Longrightarrow> \<forall>(key, x) \<in> set kxs. key \<noteq> '''' \<and> \<not> sensitiveKey c key \<and> scalar x \<Longrightarrow> length kxs \<le> r \<Longrightarrow>
     add_scoped c (map (Pair []) (map (\<lambda>(key, x). (key, SAny x)) kxs)) (fs, r) = (fs @ scalar_fields c kxs, r - length kxs)"
proof (induction kxs arbitrary: fs r)
  case (Cons kx kxs)
  obtain key x where kx: "kx = (key, x)" by (cases kx)
  with Cons.prems add_scalar [of key c x "(fs, r)"] Cons.IH [of "r - 1" "fs @ [LogField key (SAny (cut_scalar c x)) False []]"]
  show ?case by (auto simp: scalar_fields_def simp del: sanitize_add.simps)
qed (simp add: scalar_fields_def)

text \<open>What is added later leaves the fields that are no groups where they are.\<close>

lemma set_children_after:
  "\<forall>f \<in> set pre. \<not> lf_group f \<Longrightarrow> set_children key children (pre @ fs) = pre @ set_children key children fs"
  by (induction pre) (auto simp: named_group_def)

lemma set_children_keys: "lf_key ` set (set_children key children fs) = lf_key ` set fs"
proof -
  have "map lf_key (set_children key children fs) = map lf_key fs" by (induction fs) auto
  then show ?thesis by (metis list.set_map)
qed

lemma add_after:
  assumes "\<forall>f \<in> set pre. \<not> lf_group f" "key \<noteq> ''''"
  shows "\<exists>fs' r'. sanitize_add c [] key v d (pre @ fs, r) = (pre @ fs', r')
    \<and> lf_key ` set fs' \<subseteq> insert key (lf_key ` set fs)"
proof -
  obtain fs'' r'' where g: "ensure_group c key d (pre @ fs, r) = (pre @ fs'', r'')"
    "lf_key ` set fs'' \<subseteq> insert key (lf_key ` set fs)"
    by (cases "list_ex (named_group key) (pre @ fs)") (auto simp: ensure_group_def)
  show ?thesis
  proof (cases "r = 0 \<or> (sensitiveKey c key \<or> d > lo_max_depth (lc_options c))")
    case True
    with assms(2) show ?thesis by auto
  next
    case False
    show ?thesis
    proof (cases "resolve_value v")
      case (SAny x)
      with False assms(2) show ?thesis by (auto simp: split_beta)
    next
      case (SGroup attrs)
      show ?thesis
      proof (cases "attrs = []")
        case True
        with SGroup False assms(2) show ?thesis by auto
      next
        case more: False
        obtain children remaining where
          "sanitize_all c attrs (d + 1) (lf_children (group_field key (pre @ fs'')), r'') = (children, remaining)" by force
        then have "sanitize_add c [] key v d (pre @ fs, r) = (pre @ set_children key children fs'', remaining)
            \<or> sanitize_add c [] key v d (pre @ fs, r) = (pre @ fs, r)"
          using SGroup False more assms(2) g(1) set_children_after [OF assms(1)] by simp
        with g(2) set_children_keys [of key children fs''] show ?thesis by (elim disjE) auto
      qed
    qed
  qed
qed

declare sanitize_add.simps [simp del]

lemma keys_grow: "B \<subseteq> insert k A \<Longrightarrow> C \<subseteq> D \<union> B \<Longrightarrow> C \<subseteq> insert k D \<union> A"
  by blast

lemma add_scoped_after:
  "\<forall>f \<in> set pre. \<not> lf_group f \<Longrightarrow> \<forall>(key, v) \<in> set attrs. key \<noteq> '''' \<Longrightarrow>
     \<exists>fs' r'. add_scoped c (map (Pair []) attrs) (pre @ fs, r) = (pre @ fs', r')
       \<and> lf_key ` set fs' \<subseteq> fst ` set attrs \<union> lf_key ` set fs"
proof (induction attrs arbitrary: fs r)
  case (Cons a attrs)
  obtain key v where a: "a = (key, v)" by (cases a)
  have key: "key \<noteq> ''''" using bspec [OF Cons.prems(2), of a] by (simp add: a)
  have later: "\<forall>(key, v) \<in> set attrs. key \<noteq> ''''" using Cons.prems(2) by simp
  obtain fs1 r1 where one: "sanitize_add c [] key v 1 (pre @ fs, r) = (pre @ fs1, r1)"
      "lf_key ` set fs1 \<subseteq> insert key (lf_key ` set fs)"
    using add_after [OF Cons.prems(1) key] by blast
  obtain fs' r' where rest: "add_scoped c (map (Pair []) attrs) (pre @ fs1, r1) = (pre @ fs', r')"
      "lf_key ` set fs' \<subseteq> fst ` set attrs \<union> lf_key ` set fs1"
    using Cons.IH [OF Cons.prems(1) later] by blast
  have names: "fst ` set (a # attrs) = insert key (fst ` set attrs)" by (simp add: a)
  have keys: "lf_key ` set fs' \<subseteq> fst ` set (a # attrs) \<union> lf_key ` set fs"
    unfolding names by (rule keys_grow [OF one(2) rest(2)])
  show ?case
  proof (cases "r = 0")
    case False
    then have "add_scoped c (map (Pair []) (a # attrs)) (pre @ fs, r) = (pre @ fs', r')"
      by (simp add: a one(1) rest(1))
    with keys show ?thesis by (intro exI conjI)
  next
    case True
    then have "add_scoped c (map (Pair []) (a # attrs)) (pre @ fs, r) = (pre @ fs, r)" by (simp add: a)
    then show ?thesis by (intro exI conjI) auto
  qed
next
  case Nil
  show ?case by (intro exI [of _ fs] exI [of _ r]) simp
qed

lemma render_append: "renderFields (fs @ gs) = renderFields fs @ renderFields gs"
  by (induction fs rule: renderFields.induct) auto

lemma render_keys: "fst ` set (renderFields fs) = lf_key ` set fs"
  by (induction fs rule: renderFields.induct) auto

lemma render_scalars: "renderFields (scalar_fields c kxs) = map (\<lambda>(key, x). (key, SAny (cut_scalar c x))) kxs"
  by (induction kxs) (auto simp: scalar_fields_def)

lemma drop_empty_scalars:
  "drop_empty_groups (map (\<lambda>(key, x). (key, SAny (f x))) kxs @ others) = map (\<lambda>(key, x). (key, SAny (f x))) kxs @ drop_empty_groups others"
  by (induction kxs) (auto simp: drop_empty_groups_def)

lemma drop_empty_subset: "set (drop_empty_groups attrs) \<subseteq> set attrs"
  by (auto simp: drop_empty_groups_def)

text \<open>The sanitizing handler that \<open>New\<close> makes without options.\<close>

lemma default_handler:
  assumes "newSanitizingHandler U (Some n) no_log_options None = Inr h"
  shows "lh_next h = n" "lh_attrs h = []" "lh_groups h = []" "lh_context h = None" "lc_unicode (lh_config h) = U"
    "lc_keys (lh_config h) = builtinSensitiveKeys" "lo_max_attributes (lc_options (lh_config h)) = 64"
    "lo_max_depth (lc_options (lh_config h)) = 8" "lo_max_message (lc_options (lh_config h)) = 16384"
  using assms by (auto simp: newSanitizingHandler_def normalizeOptions_def no_log_options_def or_default_def Let_def truncatedValue_def)

lemma access_name_not_sensitive:
  "newSanitizingHandler U (Some n) no_log_options None = Inr h \<Longrightarrow> key \<in> set access_names \<Longrightarrow>
     key \<noteq> '''' \<and> \<not> sensitiveKey (lh_config h) key"
  using access_names_plain default_handler [of U n h] by (auto simp: sensitiveKey_def list_ex_iff)

lemma access_fields_ok:
  assumes "newSanitizingHandler U (Some n) no_log_options None = Inr h"
  shows "\<forall>(key, x) \<in> set (access_fields l). key \<noteq> '''' \<and> \<not> sensitiveKey (lh_config h) key \<and> scalar x"
proof -
  have "scalar x" if "(key, x) \<in> set (access_fields l)" for key x using that by (auto simp: access_fields_def)
  moreover have "key \<in> set access_names" if "(key, x) \<in> set (access_fields l)" for key x
    using that access_fields_names [of l] by (metis fst_conv image_eqI list.set_map)
  ultimately show ?thesis using access_name_not_sensitive [OF assms] by blast
qed

lemma message_valid: "truncateUTF8 accessLogMessage 16384 = accessLogMessage"
proof (rule truncate_same)
  have "is_ascii accessLogMessage" by (simp add: accessLogMessage_def is_ascii_def)
  then show "valid_string accessLogMessage" by (rule valid_string_ascii)
qed (simp add: accessLogMessage_def)

text \<open>
  C39 Access records: through a sanitizing handler with the default options a request is written at most once,
  at the level of its status; the ten fields of the record arrive in order, none redacted, the texts only
  cut to the limit; and without \<open>IncludeIdentity\<close> no field beyond them and the rate-limit results arrives,
  so neither the user ID nor the roles.
\<close>

theorem access_log_sanitized:
  assumes "newSanitizingHandler U (Some (collecting enabled)) no_log_options None = Inr h"
    "slog_access_log default_logger now (newSlogAccessLogger (Some (as_handler h)) include_identity) ctx l [] = (result, written)"
    "rec \<in> set written"
  shows "written = [rec] \<and> enabled (lr_level rec) \<and> lr_level rec = accessLogSlogLevel (al_status l)
    \<and> lr_message rec = accessLogMessage
    \<and> take 10 (lr_attrs rec) = map (\<lambda>(key, x). (key, SAny (cut_scalar (lh_config h) x))) (access_fields l)
    \<and> (\<not> include_identity \<longrightarrow> fst ` set (lr_attrs rec) \<subseteq> insert ''rate_limit_result'' (set access_names))"
proof -
  let ?c = "lh_config h"
  note h = default_handler [OF assms(1)]
  define others where "others = (let result = slogRateLimitResult (al_rate_limit l) in if result = ('''', SAny VNil) then [] else [result])
     @ (if include_identity then [slog_string ''user_id'' (al_user_id l), (''roles'', SAny (roles_value (al_roles l)))] else [])"
  have attrs: "access_attrs include_identity l = map (\<lambda>(key, x). (key, SAny x)) (access_fields l) @ others"
    by (simp add: others_def access_attrs_def)
  have others: "\<forall>(key, v) \<in> set others. key \<noteq> ''''" "\<not> include_identity \<Longrightarrow> fst ` set others \<subseteq> {''rate_limit_result''}"
    by (auto simp: others_def slogRateLimitResult_def slog_string_def Let_def split: if_split_asm)
  have budget: "log_budget ?c = 64" by (simp add: log_budget_def h)
  have ten: "add_scoped ?c (map (Pair []) (map (\<lambda>(key, x). (key, SAny x)) (access_fields l))) ([], 64)
      = (scalar_fields ?c (access_fields l), 54)"
    using add_scalars [OF _ access_fields_ok [OF assms(1)], of l 64 "[]"] by (simp add: h access_fields_def)
  have "\<forall>f \<in> set (scalar_fields ?c (access_fields l)). \<not> lf_group f" by (auto simp: scalar_fields_def)
  from add_scoped_after [OF this others(1), of ?c "[]" 54] obtain fs r where
    rest: "add_scoped ?c (map (Pair []) others) (scalar_fields ?c (access_fields l), 54) = (scalar_fields ?c (access_fields l) @ fs, r)"
      "lf_key ` set fs \<subseteq> fst ` set others" by auto
  have fields: "fst (add_scoped ?c (map (Pair []) (access_attrs include_identity l)) ([], 64)) = scalar_fields ?c (access_fields l) @ fs"
    unfolding attrs map_append add_scoped_append ten rest by simp
  have run: "written = [rec]" "enabled (lr_level rec)" "lr_level rec = accessLogSlogLevel (al_status l)" "lr_message rec = accessLogMessage"
    "lr_attrs rec = drop_empty_groups (renderFields (scalar_fields ?c (access_fields l) @ fs))"
    using assms(2,3)
    by (auto simp: slog_access_log_def newSlogAccessLogger_def as_handler_def log_handle_def log_enabled_def h budget fields
        message_valid collecting_def Let_def split: if_split_asm)
  have final: "lr_attrs rec = map (\<lambda>(key, x). (key, SAny (cut_scalar ?c x))) (access_fields l) @ drop_empty_groups (renderFields fs)"
    by (simp add: run(5) render_append render_scalars drop_empty_scalars)
  have "fst ` set (lr_attrs rec) \<subseteq> insert ''rate_limit_result'' (set access_names)" if "\<not> include_identity"
  proof -
    have "fst ` set (drop_empty_groups (renderFields fs)) \<subseteq> {''rate_limit_result''}"
      using image_mono [OF drop_empty_subset, of fst "renderFields fs"] rest(2) others(2) [OF that] unfolding render_keys by order
    moreover have "fst ` set (map (\<lambda>(key, x). (key, SAny (cut_scalar ?c x))) (access_fields l)) = set access_names"
      unfolding access_fields_names [symmetric, of l] by (force simp: image_image split_beta)
    ultimately show ?thesis unfolding final set_append image_Un by auto
  qed
  moreover have "take 10 (lr_attrs rec) = map (\<lambda>(key, x). (key, SAny (cut_scalar ?c x))) (access_fields l)"
    unfolding final by (simp add: access_fields_def)
  ultimately show ?thesis using run by blast
qed

end
