(* ===== verification/LogExamples.thy ===== *)
theory LogExamples
  imports LogProperties
begin

text \<open>The properties of the sanitizing handler at a concrete record.\<close>

definition default_options :: log_options where
  "default_options = \<lparr>lo_extra_keys = [], lo_max_message = 0, lo_max_string = 0, lo_max_attributes = 0, lo_max_depth = 0\<rparr>"

definition all_levels :: "(unit, log_record list) slog_handler" where
  "all_levels = collecting (\<lambda>level. True)"

definition demo_record :: log_record where
  "demo_record = \<lparr>lr_time = 0, lr_level = 4, lr_message = ''login'', lr_pc = 0,
     lr_attrs = [(''password'', SAny (VString ''hunter2'')), (''user'', SGroup [(''name'', SAny (VString ''a''))])]\<rparr>"

definition demo_handler :: "(unit, log_record list) sanitizing_handler" where
  "demo_handler = \<lparr>lh_next = all_levels,
     lh_config = \<lparr>lc_unicode = ascii_tables,
       lc_options = \<lparr>lo_extra_keys = [], lo_max_message = 16384, lo_max_string = 16384, lo_max_attributes = 64, lo_max_depth = 8\<rparr>,
       lc_keys = builtinSensitiveKeys\<rparr>,
     lh_context = None, lh_attrs = [], lh_groups = []\<rparr>"

lemma demo_made: "newSanitizingHandler ascii_tables (Some (collecting (\<lambda>level. True))) default_options None = Inr demo_handler"
  by (simp add: newSanitizingHandler_def normalizeOptions_def default_options_def or_default_def demo_handler_def truncatedValue_def
      all_levels_def)

lemma demo_writes:
  "\<exists>result rec. log_handle (derive demo_handler [WithGroup ''http'']) () demo_record [] = (result, [rec])"
  by (simp add: log_handle_def log_enabled_def log_with_group_def demo_handler_def all_levels_def collecting_def Let_def)

theorem log_fields_clean_witness:
  "\<exists>result rec. log_handle (derive demo_handler [WithGroup ''http'']) () demo_record [] = (result, [rec])
     \<and> clean_attrs (lh_config demo_handler) 1 (lr_attrs rec)"
proof -
  obtain result rec where run: "log_handle (derive demo_handler [WithGroup ''http'']) () demo_record [] = (result, [rec])"
    using demo_writes by blast
  from log_fields_clean [OF demo_made run, of rec] run show ?thesis by auto
qed

theorem log_record_bounded_witness:
  "\<exists>result rec. log_handle (derive demo_handler [WithGroup ''http'']) () demo_record [] = (result, [rec])
     \<and> attrs_nodes (lr_attrs rec) \<le> 64"
proof -
  obtain result rec where run: "log_handle (derive demo_handler [WithGroup ''http'']) () demo_record [] = (result, [rec])"
    using demo_writes by blast
  from log_record_bounded [OF demo_made run, of rec] have "int (attrs_nodes (lr_attrs rec)) \<le> 64"
    by (simp add: demo_handler_def)
  with run show ?thesis by auto
qed

theorem log_attrs_equivalent_witness:
  "log_handle (log_with_attrs demo_handler [(''id'', SAny (VInt 1))]) () demo_record []
   = log_handle demo_handler () (demo_record\<lparr>lr_attrs := (''id'', SAny (VInt 1)) # lr_attrs demo_record\<rparr>) []"
  using log_attrs_equivalent [of demo_handler "[(''id'', SAny (VInt 1))]"] by (simp add: demo_handler_def)

end
