(* ===== verification/AccessLogExamples.thy ===== *)
theory AccessLogExamples
  imports SlogAccess LogExamples
begin

text \<open>The access logger on a sanitizing handler, at a concrete record.\<close>

definition demo_access :: access_log where
  "demo_access = \<lparr>al_timestamp = 0, al_request_id = ''r1'', al_method = ''GET'', al_path = ''/a'', al_route = ''a'', al_client_ip = '''',
     al_auth_result = ''success'', al_user_id = ''alice'', al_roles = [''admin''], al_upstream = ''u'', al_status = 503,
     al_elapsed = 2500000, al_error_code = '''', al_rate_limit = Map.empty\<rparr>"

lemma demo_access_handler: "newSanitizingHandler ascii_tables (Some (collecting (\<lambda>level. True))) no_log_options None = Inr demo_handler"
  using demo_made by (simp add: default_options_def no_log_options_def)

lemma demo_access_writes:
  "\<exists>result rec. slog_access_log all_levels 0 (newSlogAccessLogger (Some (as_handler demo_handler)) False) () demo_access [] = (result, [rec])"
  by (simp add: slog_access_log_def newSlogAccessLogger_def as_handler_def log_handle_def log_enabled_def demo_handler_def all_levels_def
      collecting_def Let_def)

theorem access_log_sanitized_witness:
  "\<exists>result rec. slog_access_log all_levels 0 (newSlogAccessLogger (Some (as_handler demo_handler)) False) () demo_access [] = (result, [rec])
     \<and> lr_level rec = 8 \<and> fst ` set (lr_attrs rec) \<subseteq> insert ''rate_limit_result'' (set access_names)"
proof -
  obtain result rec where run:
    "slog_access_log all_levels 0 (newSlogAccessLogger (Some (as_handler demo_handler)) False) () demo_access [] = (result, [rec])"
    using demo_access_writes by blast
  from access_log_sanitized [OF demo_access_handler run, of rec] run show ?thesis
    by (auto simp: accessLogSlogLevel_def levelError_def demo_access_def)
qed

end
