(* ===== verification/GatewayEntry.thy ===== *)
theory GatewayEntry
  imports PipelineTheorems GatewayNew
begin

text \<open>
  What is known of a request at the moment its credential is checked: the header fields the client sent
  are still there, and what the earlier components keep of the world is as it was on entry. On this the
  properties of the gateway together with an authenticator rest.
\<close>

section \<open>The header of the request\<close>

text \<open>An extractor that reads the header only, and of it one field: both that the package offers are.\<close>

definition header_extractor :: "(header \<Rightarrow> string result) \<Rightarrow> 'w extractor_fn" where
  "header_extractor f r w = (Ret (f (req_header r)), w)"

definition reads_field :: "(header \<Rightarrow> string result) \<Rightarrow> string \<Rightarrow> bool" where
  "reads_field f k \<longleftrightarrow> (\<forall>h h'. header_values h k = header_values h' k \<longrightarrow> f h = f h')"

lemma bearer_is_header_extractor: "bearer_extractor = header_extractor BearerCredential"
  by (intro ext) (simp add: bearer_extractor_def header_extractor_def)

lemma bearer_reads_field: "reads_field BearerCredential ''Authorization''"
  unfolding reads_field_def BearerCredential_def by (intro allI impI) (simp only:)

lemma cookie_reads_field: "reads_field (cookie_credential name) ''Cookie''"
  unfolding reads_field_def cookie_credential_def by (intro allI impI) (simp only:)

text \<open>The header with the request ID the gateway chose.\<close>

definition with_request_id :: "'w gateway \<Rightarrow> string \<Rightarrow> header \<Rightarrow> header" where
  "with_request_id gw rid h =
     header_set (header_del h (rid_header (gw_request_id gw))) (rid_header (gw_request_id gw)) rid"

lemma reads_field_with_request_id:
  assumes "reads_field f k" "canonical_key (rid_header (gw_request_id gw)) \<noteq> canonical_key k"
  shows "f (with_request_id gw rid h) = f h"
proof -
  have "header_values (with_request_id gw rid h) k = header_values h k"
    using assms(2) by (simp add: with_request_id_def header_simps)
  with assms(1) show ?thesis unfolding reads_field_def by blast
qed

section \<open>The world before authentication\<close>

text \<open>\<open>keeps v f\<close>: the component leaves the part \<open>v\<close> of the world as it was.\<close>

definition keeps :: "('w \<Rightarrow> 'v) \<Rightarrow> ('w \<Rightarrow> 'a \<times> 'w) \<Rightarrow> bool" where
  "keeps v f \<longleftrightarrow> (\<forall>w. v (snd (f w)) = v w)"

definition quiet_before_auth :: "('w \<Rightarrow> 'v) \<Rightarrow> 'w gateway \<Rightarrow> bool" where
  "quiet_before_auth v gw \<longleftrightarrow> keeps v (generatedRequestID (gw_request_id gw)) \<and> (\<forall>r. keeps v (gw_routes gw r))
     \<and> (\<forall>route. keeps v (gw_upstreams gw route)) \<and> (\<forall>r. keeps v (gw_client_ip gw r))
     \<and> (\<forall>allow q. gw_client_ip_limiter gw = Some allow \<longrightarrow> keeps v (allow q))"

lemma keeps_header_extractor [simp]: "keeps v (header_extractor f r)"
  by (simp add: keeps_def header_extractor_def)

lemma invoke_keeps: "invoke c f st = Continue st' a \<Longrightarrow> keeps v f \<Longrightarrow> v (st_world st') = v (st_world st)"
  by (cases rule: invoke_cases [of f st c]) (auto simp: keeps_def dest!: spec [of _ "st_world st"])

lemma bind_keeps:
  assumes "flow_bind (invoke c f st) g = Continue st' b" "keeps v f"
    "\<And>s a. g s a = Continue st' b \<Longrightarrow> st_world st' = st_world s"
  shows "v (st_world st') = v (st_world st)"
proof -
  obtain s a where s: "invoke c f st = Continue s a" "g s a = Continue st' b"
    using assms(1) by (auto simp: flow_bind_eq_Continue)
  with invoke_keeps [OF s(1) assms(2)] assms(3) [OF s(2)] show ?thesis by simp
qed

lemma check_keeps:
  "or_unavailable gw code s x = Continue s' y \<Longrightarrow> st_world s' = st_world s"
  "checkRoute gw s found = Continue s' route \<Longrightarrow> st_world s' = st_world s"
  "checkUpstream gw s resolved = Continue s' upstream \<Longrightarrow> st_world s' = st_world s"
  "checkClientIP gw s ip = Continue s' ip' \<Longrightarrow> st_world s' = st_world s"
  by (auto simp: or_unavailable_def checkRoute_def checkUpstream_def checkClientIP_def refuse_def
      split: sum.split_asm option.split_asm if_split_asm)

lemma resolveRequestID_keeps:
  assumes "resolveRequestID gw st = Continue st' i" "keeps v (generatedRequestID (gw_request_id gw))"
  shows "v (st_world st') = v (st_world st)"
proof (cases "adoptedRequestID (gw_request_id gw) (header_values (req_header (st_req st)) (rid_header (gw_request_id gw)))")
  case None
  have "v (st_world st') = v (st_world (set_header (\<lambda>h. header_del h (rid_header (gw_request_id gw))) st))"
    by (rule bind_keeps [OF _ assms(2) check_keeps(1)])
      (use assms(1) None in \<open>auto simp: resolveRequestID_def Let_def\<close>)
  then show ?thesis by simp
next
  case (Some i)
  with assms(1) show ?thesis by (auto simp: resolveRequestID_def Let_def)
qed

lemma apply_cors_keeps: "apply_cors U gw st = Continue st' u \<Longrightarrow> st_world st' = st_world st"
  by (auto simp: apply_cors_def cors_handle_Continue Let_def split: option.splits if_splits)

lemma resolveRoute_keeps:
  "resolveRoute gw st = Continue st' route \<Longrightarrow> keeps v (gw_routes gw (st_req st)) \<Longrightarrow> v (st_world st') = v (st_world st)"
  unfolding resolveRoute_def by (rule bind_keeps [OF _ _ check_keeps(2)])

lemma findUpstream_keeps:
  "findUpstream gw route st = Continue st' upstream \<Longrightarrow> keeps v (gw_upstreams gw route) \<Longrightarrow> v (st_world st') = v (st_world st)"
  unfolding findUpstream_def by (rule bind_keeps [OF _ _ check_keeps(3)])

lemma resolveClientIP_keeps:
  "resolveClientIP gw st = Continue st' ip \<Longrightarrow> keeps v (gw_client_ip gw (st_req st)) \<Longrightarrow> v (st_world st') = v (st_world st)"
  unfolding resolveClientIP_def by (rule bind_keeps [OF _ _ check_keeps(4)])

lemma applyRateLimit_keeps:
  assumes "applyRateLimit gw limiter q st = Continue st' u" "\<And>allow. limiter = Some allow \<Longrightarrow> keeps v (allow q)"
  shows "v (st_world st') = v (st_world st)"
  using assms(1) assms(2)
  by (auto simp: applyRateLimit_Continue keeps_def split: option.splits dest!: spec [of _ "st_world st"])

section \<open>The credential of a forwarded request\<close>

text \<open>
  A request that reached an upstream went to a public route without an identity, or the authenticator
  accepted the credential its header carries, in a world that differs from the one on entry only where
  the earlier components changed it.
\<close>

lemma forwarded_credential:
  assumes "CallUpstream q \<in> set (st_calls (serveHTTP U gw t0 t1 r w))"
  obtains (public) route where "CallUpstreams route \<in> set (st_calls (serveHTTP U gw t0 t1 r w))"
      "route_access route = accessPublic"
      "header_values (req_header q) headerXUserID = []" "header_values (req_header q) headerXUserRoles = []"
  | (authenticated) route authenticator req rid c d s0 s1 s2
    where "CallUpstreams route \<in> set (st_calls (serveHTTP U gw t0 t1 r w))" "route_access route \<noteq> accessPublic"
      "gw_authenticator gw = Some authenticator" "req_header req = with_request_id gw rid (req_header r)"
      "quiet_before_auth v gw \<Longrightarrow> v s0 = v w"
      "gw_extractor gw req s0 = (Ret (Inr c), s1)" "c \<noteq> ''''" "authenticator c s1 = (Ret (Inr d), s2)"
      "ad_authenticated d" "header_values (req_header q) headerXUserID = [id_user (ad_identity d)]"
      "header_values (req_header q) headerXUserRoles =
         (if id_roles (ad_identity d) = [] then [] else [join '','' (id_roles (ad_identity d))])"
proof -
  show thesis
  proof (rule forwarded_admitted [OF assms], goal_cases)
    case admitted: (1 st route upstream identity)
    obtain tail where tail: "rev (st_calls (serveHTTP U gw t0 t1 r w)) = rev (CallUpstream q # st_calls st) @ tail"
      using admitted(4) unfolding followed_def by blast
    have "CallUpstreams route \<in> set (rev (st_calls st))"
      by (rule admit_history [OF admitted(1)]) (simp add: admission_calls_def)
    then have "CallUpstreams route \<in> set (rev (st_calls (serveHTTP U gw t0 t1 r w)))" unfolding tail by simp
    then have routed: "CallUpstreams route \<in> set (st_calls (serveHTTP U gw t0 t1 r w))" by simp
    show ?case
    proof (rule admit_Continue [OF admitted(1)], rule authorize_Continue, assumption, goal_cases)
      case stages: (1 s0 rid s1 s2 s3 s4 ip s5 a1 a2 a3 a4 a5)
      have world: "v (st_world a1) = v w" if quiet: "quiet_before_auth v gw"
        using resolveRequestID_keeps [OF stages(1), of v] apply_cors_keeps [OF stages(2)] resolveRoute_keeps [OF stages(4), of v]
          findUpstream_keeps [OF stages(5), of v] resolveClientIP_keeps [OF stages(6), of v]
          applyRateLimit_keeps [OF stages(8), of v] quiet
        by (simp add: quiet_before_auth_def apply_health_Continue [OF stages(3)] entry_def)
      have header: "req_header (st_req a1) = with_request_id gw rid (req_header r)"
        using resolveRequestID_Continue(2) [OF stages(1)] apply_cors_Continue(1) [OF stages(2)] resolveRoute_Continue(2) [OF stages(4)]
          findUpstream_Continue(1) [OF stages(5)] resolveClientIP_Continue(2) [OF stages(6)] applyRateLimit_calls(2) [OF stages(8)]
        by (simp add: apply_health_Continue [OF stages(3)] with_request_id_def entry_def)
      show ?case
      proof (cases "route_access route = accessPublic")
        case True
        with authenticate_identity(1) [OF stages(9)] have "identity = None" by simp
        then show ?thesis
          using public [OF routed True] by (simp add: admitted(3) upstream_request_values injected_user injected_roles)
      next
        case False
        show ?thesis
        proof (rule authenticate_Continue_protected [OF False stages(9)], goal_cases)
          case auth: (1 a c d w1 w2)
          show ?case
            by (rule authenticated [OF routed False auth(1) header world auth(2-5)])
              (simp_all add: admitted(3) auth(7) upstream_request_values injected_user injected_roles)
        qed
      qed
    qed
  qed
qed

end
