(* ===== verification/ComposedGateway.thy ===== *)
theory ComposedGateway
  imports GatewayEntry JwtAuth SessionAuth
begin

text \<open>
  The gateway with the authenticators of the repository: what a request that reaches an upstream proves
  about the token or the session its client presented.
\<close>

section \<open>JSON Web Tokens\<close>

text \<open>
  C5 From the token to the upstream: behind a gateway with the bearer extractor and the JWT authenticator that
  \<open>New\<close> made, an upstream that sees a user ID got a request whose client sent one \<open>Authorization\<close>
  field with a token that is signed with HS256 under the configured secret, for the configured issuer and
  audience, and not expired; the one \<open>X-User-ID\<close> and the roles are those mapped from its claims, trimmed.
\<close>

theorem jwt_gateway_identity:
  assumes "newJWT time_now config w0 = (Ret (Inr a), w1)" "parser_contract J"
    "gw_authenticator gw = Some (jwt_authenticate J a)" "gw_extractor gw = bearer_extractor"
    "canonical_key (rid_header (gw_request_id gw)) \<noteq> canonical_key ''Authorization''"
    "CallUpstream q \<in> set (st_calls (serveHTTP U gw t0 t1 r w))" "header_values (req_header q) headerXUserID \<noteq> []"
  shows "\<exists>token filled i e w2 w3. BearerCredential (req_header r) = Inr token
    \<and> jl_signed J ''HS256'' (jc_secret config) token \<and> 32 \<le> length (jc_secret config)
    \<and> claims_issuer J filled = trim_space (jc_issuer config)
    \<and> trim_space (jc_audience config) \<in> set (claims_audience J filled)
    \<and> claims_expires J filled = Some e \<and> ja_now a w2 < e + po_leeway (ja_parser a)
    \<and> ja_mapper a filled w2 = (Ret (Inr i), w3) \<and> trim_space (id_user i) \<noteq> ''''
    \<and> header_values (req_header q) headerXUserID = [trim_space (id_user i)]
    \<and> header_values (req_header q) headerXUserRoles =
        (if normalizeRoles (id_roles i) = [] then [] else [join '','' (normalizeRoles (id_roles i))])"
  using assms(6)
proof (cases rule: forwarded_credential [where v = "\<lambda>w. ()"])
  case (public route)
  with assms(7) show ?thesis by simp
next
  case (authenticated route authenticator req rid token d s0 s1 s2)
  have token: "BearerCredential (req_header r) = Inr token"
    using authenticated(6) reads_field_with_request_id [OF bearer_reads_field assms(5), of rid "req_header r"]
    by (simp add: assms(4) bearer_is_header_extractor header_extractor_def authenticated(4))
  have run: "jwt_authenticate J a token s1 = (Ret (Inr d), s2)"
    using authenticated(3,8) assms(3) by simp
  show ?thesis
  proof (rule jwt_accepts [OF assms(1,2) run authenticated(9)], goal_cases)
    case (1 filled w2 e i)
    show ?case
      by (intro exI [of _ token] exI [of _ filled] exI [of _ i] exI [of _ e] exI [of _ w2] exI [of _ s2])
        (simp add: token 1(1-3,5-9) authenticated(10,11) 1(10))
  qed
qed

section \<open>Sessions\<close>

text \<open>The session authenticator as a component of the gateway; it never panics.\<close>

definition session_authenticator :: "redis_world session_reader \<Rightarrow> redis_world authenticator_fn" where
  "session_authenticator reader credential w = (let (decided, w') = session_authenticate reader credential w in (Ret decided, w'))"

definition redis_view :: "redis_world \<Rightarrow> int \<times> db" where
  "redis_view w = (rw_now w, rw_db w)"

text \<open>
  C6 Revoked sessions: a gateway whose extractor reads one field (\<open>Cookie\<close>, or \<open>Authorization\<close>), and whose
  components before authentication leave the store's Redis alone, forwards no request with a credential that
  was revoked except to a public route, anonymously; whatever other callers did to the store since,
  short of creating a session with that identifier.
\<close>

theorem revoked_session_refused:
  assumes "newStore config = Inr s" "sc_client config = SingleClient (redis_eval L)" "encodes L"
    "store_ok L (store_namespace s) t (rw_db w)" "t \<le> rw_now w" "revoke s credential w = (x, w1)"
    "store_history L (store_namespace s) (rw_now w1, rw_db w1) es (t2, rw_db w2)" "t2 \<le> rw_now w2"
    "\<forall>(a, r) \<in> set es. sa_op a = OpCreate \<longrightarrow> sa_id a \<noteq> credential"
    "gw_authenticator gw = Some (session_authenticator (lookup E s))" "quiet_before_auth redis_view gw"
    "gw_extractor gw = header_extractor f" "reads_field f name" "f (req_header r) = Inr credential"
    "canonical_key (rid_header (gw_request_id gw)) \<noteq> canonical_key name"
    "CallUpstream q \<in> set (st_calls (serveHTTP U gw t0 t1 r w2))"
  shows "(\<exists>route. CallUpstreams route \<in> set (st_calls (serveHTTP U gw t0 t1 r w2)) \<and> route_access route = accessPublic)
    \<and> header_values (req_header q) headerXUserID = [] \<and> header_values (req_header q) headerXUserRoles = []"
  using assms(16)
proof (cases rule: forwarded_credential [where v = redis_view])
  case (public route)
  then show ?thesis by blast
next
  case (authenticated route authenticator req rid c d s0 s1 s2)
  have c: "c = credential" "s1 = s0"
    using authenticated(6) reads_field_with_request_id [OF assms(13,15), of rid "req_header r"]
    by (simp_all add: assms(12,14) header_extractor_def authenticated(4))
  have world: "rw_now s0 = rw_now w2" "rw_db s0 = rw_db w2"
    using authenticated(5) [OF assms(11)] by (simp_all add: redis_view_def)
  have run: "fst (session_authenticate (lookup E s) credential s0) = Inr d"
    using authenticated(3,8) assms(10) by (auto simp: session_authenticator_def c split: prod.split_asm)
  have "fst (session_authenticate (lookup E s) credential s0) = Inr rejected_decision"
  proof (cases "validSessionID credential")
    case True
    note revoked = revoked_not_live [OF assms(1-9) True]
    show ?thesis
      using session_authenticate_lookup [OF revoked(2), of t2 s0 E credential] revoked(3,4) assms(8) True by (simp add: world)
  qed (simp add: session_authenticate_def)
  with run authenticated(9) show ?thesis by (auto simp: rejected_decision_def)
qed

end
