(* ===== verification/ComposedExamples.thy ===== *)
theory ComposedExamples
  imports ComposedGateway GatewayExamples JwtExamples SessionExamples
begin

text \<open>The properties of the composed gateway on a small one with the example authenticators.\<close>

definition open_route :: route where
  "open_route = demo_route\<lparr>route_access := accessPublic\<rparr>"

definition small_upstream :: "'w upstream_fn" where
  "small_upstream rc r w = ((map UpstreamWrites [WriteHeader 200, WriteBody ''ok''], None), w)"

definition small_gateway :: "route \<Rightarrow> 'w authenticator_fn \<Rightarrow> 'w gateway" where
  "small_gateway route authenticator =
     \<lparr>gw_routes = (\<lambda>r w. (Ret (Inr (Some route)), w)), gw_upstreams = (\<lambda>route w. (Ret (Inr (Some small_upstream)), w)),
      gw_authenticator = Some authenticator, gw_extractor = bearer_extractor, gw_authorizer = None,
      gw_before_proxy = None, gw_client_ip = (\<lambda>r w. (Ret (Inr ''9''), w)), gw_client_ip_limiter = None,
      gw_user_limiter = None, gw_upstream_limiter = None, gw_responder = defaultErrorResponder,
      gw_request_id = \<lparr>rid_header = ''X-Request-ID'', rid_max_length = 128,
        rid_generate = Some (\<lambda>w. (Ret (Inr ''r''), w)), rid_trust_incoming = False\<rparr>,
      gw_cors = None, gw_access_logger = None, gw_observer = None, gw_health = None\<rparr>"

definition bearer_request :: "string \<Rightarrow> http_request" where
  "bearer_request token = demo_request\<lparr>req_header := [''Authorization'' \<mapsto> [''Bearer'' @ '' '' @ token]]\<rparr>"

lemma small_keys: "canonical_key ''X-Request-ID'' \<noteq> canonical_key ''Authorization''"
  by (simp add: demo_keys)

lemma bearer_request_token:
  assumes "token68 token"
  shows "BearerCredential (req_header (bearer_request token)) = Inr token"
    "BearerCredential (with_request_id (small_gateway route authenticator) ''r'' (req_header (bearer_request token))) = Inr token"
proof -
  have "header_values (req_header (bearer_request token)) ''Authorization'' = [''Bearer'' @ '' '' @ token]"
    by (simp add: bearer_request_def header_values_def demo_keys)
  then show token: "BearerCredential (req_header (bearer_request token)) = Inr token"
    by (rule BearerCredential_accepts [OF assms]) code_simp
  show "BearerCredential (with_request_id (small_gateway route authenticator) ''r'' (req_header (bearer_request token))) = Inr token"
    using reads_field_with_request_id [OF bearer_reads_field, of "small_gateway route authenticator"] small_keys token
    by (simp add: small_gateway_def)
qed

lemma open_route_normal: "normalizeResolvedRoute open_route = Inr open_route"
  by (simp add: normalizeResolvedRoute_def open_route_def demo_route_def demo_facts accessProtected_def accessPublic_def Let_def)

lemma small_admit_public:
  "\<exists>st. admit ascii_tables (small_gateway open_route authenticator) (entry 0 (bearer_request token) w)
     = Continue st (open_route, small_upstream, None) \<and> \<not> req_has_body (st_req st)"
  by (simp add: admit_def small_gateway_def entry_def bearer_request_def demo_request_def resolveRequestID_def Let_def
      adoptedRequestID_def invoke_def generatedRequestID_def or_unavailable_def demo_facts assignRequestID_def
      apply_cors_def apply_health_def resolveRoute_def findUpstream_def resolveClientIP_def checkRoute_def
      checkUpstream_def checkClientIP_def open_route_normal authorize_def applyRateLimit_def
      authenticate_def limitUser_def applyAuthorizer_def applyBeforeProxy_def setAuthResult_simps)
    (simp add: open_route_def)

lemma small_admit_protected:
  assumes "token68 token" "authenticator token w = (Ret (Inr d), w')" "ad_authenticated d" "trim_space (id_user (ad_identity d)) \<noteq> ''''"
  shows "\<exists>st. admit ascii_tables (small_gateway demo_route authenticator) (entry 0 (bearer_request token) w)
     = Continue st (demo_route, small_upstream, Some (ad_identity d)) \<and> \<not> req_has_body (st_req st)"
proof -
  have token: "BearerCredential (header_set (header_del (req_header (bearer_request token)) ''X-Request-ID'') ''X-Request-ID'' ''r'') = Inr token"
    using bearer_request_token(2) [OF assms(1), of demo_route authenticator] by (simp add: with_request_id_def small_gateway_def)
  have nonempty: "token \<noteq> ''''" using assms(1) by (auto simp: token68_def)
  have body: "\<not> req_has_body (bearer_request token)" by (simp add: bearer_request_def demo_request_def)
  show ?thesis
    by (simp add: admit_def small_gateway_def entry_def resolveRequestID_def Let_def
        adoptedRequestID_def invoke_def generatedRequestID_def or_unavailable_def demo_facts assignRequestID_def
        apply_cors_def apply_health_def resolveRoute_def findUpstream_def resolveClientIP_def checkRoute_def
        checkUpstream_def checkClientIP_def demo_route_normal authorize_def applyRateLimit_def set_header_def
        authenticate_def checkCredential_def acceptDecision_def bearer_extractor_def token nonempty assms(2-4)
        limitUser_def applyAuthorizer_def applyBeforeProxy_def demo_protected body)
qed

lemma not_too_large: "\<not> req_has_body r \<Longrightarrow> \<not> body_too_large route r"
  by (simp add: body_too_large_def)

section \<open>A signed token\<close>

lemma marked_token68: "token68 (marked demo_secret)"
  unfolding token68_def
  by (intro exI [of _ "marked demo_secret"] exI [of _ 0]) (auto simp: marked_def demo_secret_def bearer_rune_def)

theorem jwt_gateway_identity_witness:
  "\<exists>q (i :: identity). CallUpstream q \<in> set (st_calls (serveHTTP ascii_tables
        (small_gateway demo_route (jwt_authenticate demo_jwt demo_authenticator)) 0 0 (bearer_request (marked demo_secret)) 5))
     \<and> jl_signed demo_jwt ''HS256'' demo_secret (marked demo_secret)
     \<and> header_values (req_header q) headerXUserID = [trim_space (id_user i)]"
proof -
  let ?gw = "small_gateway demo_route (jwt_authenticate demo_jwt demo_authenticator)"
  obtain d where d: "jwt_authenticate demo_jwt demo_authenticator (marked demo_secret) 5 = (Ret (Inr d), 5)" "ad_authenticated d"
    and alice: "id_user (ad_identity d) = ''alice''"
    using demo_run by blast
  have user: "trim_space (id_user (ad_identity d)) \<noteq> ''''" by (simp add: alice demo_trims)
  obtain st where st: "admit ascii_tables ?gw (entry 0 (bearer_request (marked demo_secret)) 5)
      = Continue st (demo_route, small_upstream, Some (ad_identity d))" "\<not> req_has_body (st_req st)"
    using small_admit_protected [where authenticator = "jwt_authenticate demo_jwt demo_authenticator", OF marked_token68 d user] by blast
  define q where "q = upstream_request demo_route (Some (ad_identity d)) (st_req st)"
  have q: "CallUpstream q \<in> set (st_calls (serveHTTP ascii_tables ?gw 0 0 (bearer_request (marked demo_secret)) 5))"
    unfolding q_def by (rule admit_forwards [OF st(1) not_too_large [OF st(2)]])
  have told: "header_values (req_header q) headerXUserID \<noteq> []"
    by (simp add: q_def upstream_request_values injected_user)
  have parts: "gw_authenticator ?gw = Some (jwt_authenticate demo_jwt demo_authenticator)" "gw_extractor ?gw = bearer_extractor"
      "canonical_key (rid_header (gw_request_id ?gw)) \<noteq> canonical_key ''Authorization''"
    by (simp_all add: small_gateway_def demo_keys)
  have secret: "jc_secret JwtExamples.demo_config = demo_secret" by (simp add: JwtExamples.demo_config_def)
  from jwt_gateway_identity [OF demo_jwt_made demo_contract parts q told]
  obtain token and i :: identity where t: "BearerCredential (req_header (bearer_request (marked demo_secret))) = Inr token"
      "jl_signed demo_jwt ''HS256'' demo_secret token" "header_values (req_header q) headerXUserID = [trim_space (id_user i)]"
    unfolding secret by blast
  have "token = marked demo_secret" using t(1) bearer_request_token(1) [OF marked_token68] by simp
  with t(2,3) q show ?thesis by blast
qed

section \<open>A revoked session\<close>

lemma session_id_token68:
  assumes "validSessionID i"
  shows "token68 i"
proof -
  obtain bytes where i: "i = b64_encode bytes" "length i = 43"
    using assms by (auto simp: validSessionID_def split: option.splits)
  have "bearer_rune (byte (b64_char n))" if "n < 64" for n
    using that by (auto simp: bearer_rune_def b64_char_def)
  then have "\<forall>c \<in> set i. bearer_rune (byte c)" using b64_encode_chars [of bytes] by (auto simp: i(1))
  moreover have "i \<noteq> []" using i(2) by auto
  ultimately show ?thesis unfolding token68_def by (intro exI [of _ i] exI [of _ 0]) simp
qed

theorem revoked_session_refused_witness:
  "\<exists>(session :: session) w q. live demo_lib demo_ns (rw_now w) (rw_db w) (ses_id session) \<noteq> None
    \<and> CallUpstream q \<in> set (st_calls (serveHTTP ascii_tables
        (small_gateway open_route (session_authenticator (lookup demo_env demo_store))) 0 0
        (bearer_request (ses_id session)) (snd (revoke demo_store (ses_id session) w))))
    \<and> header_values (req_header q) headerXUserID = []"
proof -
  let ?gw = "small_gateway open_route (session_authenticator (lookup demo_env demo_store))"
  obtain session w where s: "session_stored demo_env demo_lib demo_ns session 61000 w" using demo_created by blast
  then have ok: "store_ok demo_lib demo_ns (rw_now w) (rw_db w)" "validSessionID (ses_id session)"
    and live: "live demo_lib demo_ns (rw_now w) (rw_db w) (ses_id session) \<noteq> None"
    by (auto simp: session_stored_def)
  obtain r w1 where r: "revoke demo_store (ses_id session) w = (r, w1)" by fastforce
  obtain st where st: "admit ascii_tables ?gw (entry 0 (bearer_request (ses_id session)) w1)
      = Continue st (open_route, small_upstream, None)" "\<not> req_has_body (st_req st)"
    using small_admit_public [of "session_authenticator (lookup demo_env demo_store)" "ses_id session" w1] by blast
  from admit_forwards [OF st(1) not_too_large [OF st(2)], of 0] obtain q where
    q: "CallUpstream q \<in> set (st_calls (serveHTTP ascii_tables ?gw 0 0 (bearer_request (ses_id session)) w1))"
    by blast
  have quiet: "quiet_before_auth redis_view ?gw"
    by (simp add: quiet_before_auth_def keeps_def small_gateway_def generatedRequestID_def)
  have parts: "gw_authenticator ?gw = Some (session_authenticator (lookup demo_env demo_store))"
      "gw_extractor ?gw = header_extractor BearerCredential"
      "canonical_key (rid_header (gw_request_id ?gw)) \<noteq> canonical_key ''Authorization''"
    by (simp_all add: small_gateway_def bearer_is_header_extractor demo_keys)
  have "header_values (req_header q) headerXUserID = []"
    using revoked_session_refused [OF demo_newStore encodes_demo ok(1) order_refl r history_start order_refl _ parts(1) quiet
        parts(2) bearer_reads_field bearer_request_token(1) [OF session_id_token68 [OF ok(2)]] parts(3) q]
    by simp
  with q live r show ?thesis by (intro exI [of _ session] exI [of _ w] exI [of _ q]) simp
qed

end
