(* ===== verification/GatewayContext.thy ===== *)
theory GatewayContext
  imports Authentication
begin

text \<open>
  The values the gateway keeps in a request's context (\<open>sdk/go/gateway/context.go\<close>), the functions that read
  them, and the copies they hand out: \<open>RequestIDFromContext\<close>, \<open>RouteFromContext\<close>, \<open>IdentityFromContext\<close>,
  \<open>ClientIPFromContext\<close>, \<open>accessLogStateFromContext\<close>, \<open>cloneRoute\<close>, \<open>cloneIdentity\<close>, \<open>cloneAccessLog\<close>.
  Here slices, maps and pointers are addresses of a memory, because the question is who can change what
  another one reads. The other theories take the values themselves: \<open>represents\<close> says that the context holds
  what the fields of their \<open>http_request\<close> hold.
\<close>

section \<open>Memory\<close>

record identity_value =
  iv_user :: string
  iv_roles :: "nat option"
  iv_attributes :: "nat option"

text \<open>The slice of methods of a route, the roles and the rate-limit results of a log entry are references;
  the fields of the same name in the rest of the value are not read.\<close>

record route_value =
  rv_rest :: route
  rv_methods :: "nat option"

record log_value =
  lv_rest :: access_log
  lv_roles :: "nat option"
  lv_results :: "nat option"

datatype cell =
    Strings "string list"
  | Attributes "string \<rightharpoonup> go_any"
  | Results "string \<rightharpoonup> string"
  | IdentityCell identity_value

record memory =
  me_cells :: "nat \<Rightarrow> cell"
  me_next :: nat

definition allocate :: "cell \<Rightarrow> memory \<Rightarrow> nat \<times> memory" where
  "allocate c m = (me_next m, m\<lparr>me_cells := (me_cells m)(me_next m := c), me_next := me_next m + 1\<rparr>)"

definition strings_at :: "memory \<Rightarrow> nat option \<Rightarrow> string list" where
  "strings_at m s = (case s of None \<Rightarrow> [] | Some a \<Rightarrow> (case me_cells m a of Strings xs \<Rightarrow> xs | other \<Rightarrow> []))"

definition attributes_at :: "memory \<Rightarrow> nat option \<Rightarrow> (string \<rightharpoonup> go_any) option" where
  "attributes_at m s =
     (case s of None \<Rightarrow> None | Some a \<Rightarrow> (case me_cells m a of Attributes f \<Rightarrow> Some f | other \<Rightarrow> Some Map.empty))"

definition results_at :: "memory \<Rightarrow> nat option \<Rightarrow> (string \<rightharpoonup> string)" where
  "results_at m s = (case s of None \<Rightarrow> Map.empty | Some a \<Rightarrow> (case me_cells m a of Results f \<Rightarrow> f | other \<Rightarrow> Map.empty))"

definition identity_at :: "memory \<Rightarrow> nat \<Rightarrow> identity_value" where
  "identity_at m a = (case me_cells m a of IdentityCell i \<Rightarrow> i | other \<Rightarrow> \<lparr>iv_user = '''', iv_roles = None, iv_attributes = None\<rparr>)"

text \<open>What a value means in a memory.\<close>

definition load_identity :: "memory \<Rightarrow> identity_value \<Rightarrow> identity" where
  "load_identity m i = \<lparr>id_user = iv_user i, id_roles = strings_at m (iv_roles i), id_attributes = attributes_at m (iv_attributes i)\<rparr>"

definition load_route :: "memory \<Rightarrow> route_value \<Rightarrow> route" where
  "load_route m v =
     (rv_rest v)\<lparr>route_match := (route_match (rv_rest v))\<lparr>match_methods := strings_at m (rv_methods v)\<rparr>\<rparr>"

definition load_log :: "memory \<Rightarrow> log_value \<Rightarrow> access_log" where
  "load_log m v = (lv_rest v)\<lparr>al_roles := strings_at m (lv_roles v), al_rate_limit := results_at m (lv_results v)\<rparr>"

section \<open>Copies\<close>

text \<open>\<open>append([]string(nil), s...)\<close>: nil for an empty slice, a new array otherwise.\<close>

definition copy_strings :: "memory \<Rightarrow> nat option \<Rightarrow> nat option \<times> memory" where
  "copy_strings m s =
     (if strings_at m s = [] then (None, m)
      else let (a, m') = allocate (Strings (strings_at m s)) m in (Some a, m'))"

definition cloneIdentity :: "memory \<Rightarrow> identity_value \<Rightarrow> identity_value \<times> memory" where
  "cloneIdentity m i =
     (let (roles, m1) = copy_strings m (iv_roles i) in
      case attributes_at m1 (iv_attributes i) of
        None \<Rightarrow> (i\<lparr>iv_roles := roles\<rparr>, m1)
      | Some f \<Rightarrow> let (a, m2) = allocate (Attributes f) m1 in (i\<lparr>iv_roles := roles, iv_attributes := Some a\<rparr>, m2))"

definition cloneRoute :: "memory \<Rightarrow> route_value \<Rightarrow> route_value \<times> memory" where
  "cloneRoute m v = (let (methods, m') = copy_strings m (rv_methods v) in (v\<lparr>rv_methods := methods\<rparr>, m'))"

definition cloneAccessLog :: "memory \<Rightarrow> log_value \<Rightarrow> log_value \<times> memory" where
  "cloneAccessLog m v =
     (let (roles, m1) = copy_strings m (lv_roles v) in
      case lv_results v of
        None \<Rightarrow> (v\<lparr>lv_roles := roles\<rparr>, m1)
      | Some r \<Rightarrow> let (a, m2) = allocate (Results (results_at m1 (Some r))) m1 in (v\<lparr>lv_roles := roles, lv_results := Some a\<rparr>, m2))"

section \<open>Who can change what\<close>

text \<open>
  Code that holds the addresses \<open>A\<close>, and whatever it allocates itself, changes no other cell; that is all
  that is assumed of it. A value refers to allocated cells when its addresses are below the next one.
\<close>

definition effect_on :: "nat set \<Rightarrow> memory \<Rightarrow> memory \<Rightarrow> bool" where
  "effect_on A m m' \<longleftrightarrow> me_next m \<le> me_next m' \<and> (\<forall>a. a < me_next m \<longrightarrow> a \<notin> A \<longrightarrow> me_cells m' a = me_cells m a)"

definition identity_refs :: "identity_value \<Rightarrow> nat set" where
  "identity_refs i = set_option (iv_roles i) \<union> set_option (iv_attributes i)"

definition route_refs :: "route_value \<Rightarrow> nat set" where
  "route_refs v = set_option (rv_methods v)"

definition log_refs :: "log_value \<Rightarrow> nat set" where
  "log_refs v = set_option (lv_roles v) \<union> set_option (lv_results v)"

lemma effect_on_fresh:
  "effect_on {} m m1 \<Longrightarrow> A \<subseteq> {me_next m..} \<Longrightarrow> effect_on A m1 m2 \<Longrightarrow> effect_on {} m m2"
  unfolding effect_on_def by (metis atLeast_iff empty_iff leD order_less_le_trans order_trans subsetD)

text \<open>
  The contract of a copy: it means what the original means, its addresses are new, and making it changes
  nothing. What follows from it is proved once.
\<close>

locale cloning =
  fixes load :: "memory \<Rightarrow> 'a \<Rightarrow> 'b"
    and refs :: "'a \<Rightarrow> nat set"
    and clone :: "memory \<Rightarrow> 'a \<Rightarrow> 'a \<times> memory"
  assumes load_frame: "(\<And>a. a \<in> refs x \<Longrightarrow> me_cells m' a = me_cells m a) \<Longrightarrow> load m' x = load m x"
    and clone_load: "refs x \<subseteq> {..<me_next m} \<Longrightarrow> clone m x = (c, m') \<Longrightarrow> load m' c = load m x"
    and clone_fresh: "clone m x = (c, m') \<Longrightarrow> refs c \<subseteq> {me_next m..<me_next m'}"
    and clone_effect: "clone m x = (c, m') \<Longrightarrow> effect_on {} m m'"
begin

text \<open>Whoever gets the copy cannot change the original, whoever has the original cannot change the copy.\<close>

lemma original_kept:
  assumes "refs x \<subseteq> {..<me_next m}" "clone m x = (c, m1)" "effect_on (refs c) m1 m2"
  shows "load m2 x = load m x" "refs x \<subseteq> {..<me_next m2}"
proof -
  have "refs c \<subseteq> {me_next m..}" using clone_fresh [OF assms(2)] by auto
  then have "effect_on {} m m2" using clone_effect [OF assms(2)] assms(3) effect_on_fresh by blast
  then show "load m2 x = load m x" "refs x \<subseteq> {..<me_next m2}"
    using assms(1) by (auto simp: effect_on_def intro!: load_frame)
qed

lemma copy_kept:
  assumes "clone m x = (c, m1)" "effect_on A m1 m2" "A \<subseteq> {..<me_next m}"
  shows "load m2 c = load m1 c"
  using clone_fresh [OF assms(1)] assms(2,3) by (intro load_frame) (force simp: effect_on_def)

text \<open>A second copy, after any use of the first, means the same.\<close>

lemma copied_again:
  assumes "refs x \<subseteq> {..<me_next m}" "clone m x = (c, m1)" "effect_on (refs c) m1 m2" "clone m2 x = (c2, m3)"
  shows "load m3 c2 = load m1 c"
  using clone_load [OF original_kept(2) [OF assms(1-3)] assms(4)] original_kept(1) [OF assms(1-3)]
    clone_load [OF assms(1,2)] by simp

end

lemma copy_strings_facts:
  assumes "copy_strings m s = (c, m')"
  shows "strings_at m' c = strings_at m s" "set_option c \<subseteq> {me_next m..<me_next m'}" "effect_on {} m m'"
  using assms
  by (auto simp: copy_strings_def allocate_def strings_at_def effect_on_def split: if_split_asm)

lemma load_at_frame:
  "(\<And>a. a \<in> set_option s \<Longrightarrow> me_cells m' a = me_cells m a) \<Longrightarrow>
     strings_at m' s = strings_at m s \<and> attributes_at m' s = attributes_at m s \<and> results_at m' s = results_at m s"
  by (cases s) (simp_all add: strings_at_def attributes_at_def results_at_def)

lemma effect_on_at:
  "effect_on {} m m' \<Longrightarrow> set_option s \<subseteq> {..<me_next m} \<Longrightarrow>
     strings_at m' s = strings_at m s \<and> attributes_at m' s = attributes_at m s \<and> results_at m' s = results_at m s"
  by (rule load_at_frame) (auto simp: effect_on_def)

lemma allocate_facts:
  assumes "allocate c m = (a, m')"
  shows "a = me_next m" "me_next m' = me_next m + 1" "me_cells m' a = c" "effect_on {} m m'"
  using assms by (auto simp: allocate_def effect_on_def)

lemma effect_on_trans: "effect_on {} m m1 \<Longrightarrow> effect_on {} m1 m2 \<Longrightarrow> effect_on {} m m2"
  by (auto simp: effect_on_def)

lemma cloneIdentity_cells:
  assumes "cloneIdentity m x = (c, m')"
  shows "identity_refs c \<subseteq> {me_next m..<me_next m'}" "effect_on {} m m'"
proof -
  obtain roles m1 where r: "copy_strings m (iv_roles x) = (roles, m1)" by fastforce
  note facts = copy_strings_facts [OF r]
  have both: "identity_refs c \<subseteq> {me_next m..<me_next m'} \<and> effect_on {} m m'"
  proof (cases "attributes_at m1 (iv_attributes x)")
    case None
    then have "iv_attributes x = None" by (auto simp: attributes_at_def split: option.splits cell.splits)
    moreover from None have "c = x\<lparr>iv_roles := roles\<rparr>" "m' = m1" using assms r by (simp_all add: cloneIdentity_def)
    ultimately show ?thesis using facts by (simp add: identity_refs_def)
  next
    case (Some f)
    obtain a m2 where a: "allocate (Attributes f) m1 = (a, m2)" by fastforce
    have c: "c = x\<lparr>iv_roles := roles, iv_attributes := Some a\<rparr>" "m' = m2"
      using assms r Some a by (simp_all add: cloneIdentity_def)
    have "me_next m \<le> me_next m1" using facts(3) by (simp add: effect_on_def)
    then show ?thesis
      using facts allocate_facts [OF a] effect_on_trans [OF facts(3)] by (force simp: c identity_refs_def)
  qed
  then show "identity_refs c \<subseteq> {me_next m..<me_next m'}" "effect_on {} m m'" by auto
qed

interpretation identities: cloning load_identity identity_refs cloneIdentity
proof (unfold_locales, goal_cases)
  case (1 x m' m)
  then show ?case
    using load_at_frame [of "iv_roles x" m' m] load_at_frame [of "iv_attributes x" m' m]
    by (simp add: load_identity_def identity_refs_def)
next
  case (2 x m c m')
  obtain roles m1 where r: "copy_strings m (iv_roles x) = (roles, m1)" by fastforce
  note facts = copy_strings_facts [OF r]
  show ?case
  proof (cases "attributes_at m1 (iv_attributes x)")
    case None
    with 2 r facts effect_on_at [OF facts(3), of "iv_attributes x"] show ?thesis
      by (auto simp: cloneIdentity_def load_identity_def identity_refs_def attributes_at_def split: option.splits)
  next
    case (Some f)
    obtain a m2 where a: "allocate (Attributes f) m1 = (a, m2)" by fastforce
    have "strings_at m2 roles = strings_at m1 roles"
      using effect_on_at [OF allocate_facts(4) [OF a], of roles] facts(2) by fastforce
    moreover have "attributes_at m2 (Some a) = Some f" using allocate_facts [OF a] by (simp add: attributes_at_def)
    moreover have "attributes_at m (iv_attributes x) = Some f"
      using 2 Some effect_on_at [OF facts(3), of "iv_attributes x"] by (auto simp: identity_refs_def)
    moreover have "c = x\<lparr>iv_roles := roles, iv_attributes := Some a\<rparr>" "m' = m2"
      using 2 r Some a by (simp_all add: cloneIdentity_def)
    ultimately show ?thesis using facts(1) by (simp add: load_identity_def)
  qed
next
  case (3 m x c m')
  then show ?case using cloneIdentity_cells(1) by blast
next
  case (4 m x c m')
  then show ?case using cloneIdentity_cells(2) by blast
qed

interpretation routes: cloning load_route route_refs cloneRoute
proof (unfold_locales, goal_cases)
  case (1 x m' m)
  then show ?case using load_at_frame [of "rv_methods x" m' m] by (simp add: load_route_def route_refs_def)
next
  case (2 x m c m')
  then show ?case using copy_strings_facts(1) [of m "rv_methods x"] by (auto simp: cloneRoute_def load_route_def split: prod.splits)
next
  case (3 m x c m')
  then show ?case using copy_strings_facts(2) [of m "rv_methods x"] by (auto simp: cloneRoute_def route_refs_def split: prod.splits)
next
  case (4 m x c m')
  then show ?case using copy_strings_facts(3) [of m "rv_methods x"] by (auto simp: cloneRoute_def split: prod.splits)
qed

interpretation logs: cloning load_log log_refs cloneAccessLog
proof (unfold_locales, goal_cases)
  case (1 x m' m)
  then show ?case
    using load_at_frame [of "lv_roles x" m' m] load_at_frame [of "lv_results x" m' m]
    by (simp add: load_log_def log_refs_def)
next
  case (2 x m c m')
  obtain roles m1 where r: "copy_strings m (lv_roles x) = (roles, m1)" by fastforce
  note facts = copy_strings_facts [OF r]
  show ?case
  proof (cases "lv_results x")
    case None
    with 2 r facts show ?thesis by (auto simp: cloneAccessLog_def load_log_def results_at_def)
  next
    case (Some k)
    obtain a m2 where a: "allocate (Results (results_at m1 (Some k))) m1 = (a, m2)" by fastforce
    have "strings_at m2 roles = strings_at m1 roles"
      using effect_on_at [OF allocate_facts(4) [OF a], of roles] facts(2) by fastforce
    moreover have "results_at m2 (Some a) = results_at m1 (Some k)" using allocate_facts [OF a] by (simp add: results_at_def)
    ultimately show ?thesis
      using 2 r Some a facts effect_on_at [OF facts(3), of "lv_results x"]
      by (auto simp: cloneAccessLog_def load_log_def log_refs_def)
  qed
next
  case (3 m x c m')
  then show ?case
    using copy_strings_facts [of m "lv_roles x"]
    by (force simp: cloneAccessLog_def log_refs_def allocate_def Let_def effect_on_def split: prod.splits option.splits)
next
  case (4 m x c m')
  then show ?case
    using copy_strings_facts(3) [of m "lv_roles x"] allocate_facts(4) effect_on_trans
    by (fastforce simp: cloneAccessLog_def Let_def split: prod.splits option.splits)
qed

section \<open>The context\<close>

datatype context_key =
    RequestIDContextKey
  | RouteContextKey
  | IdentityContextKey
  | ClientIPContextKey
  | AccessLogStateContextKey

datatype context_value =
    TextValue string
  | RouteValue route_value
  | IdentityValue identity_value
  | StatePointer nat

text \<open>
  What the request came with, which holds no value under the gateway's keys since their type is not
  exported, and the values added since.
\<close>

datatype go_context = Incoming | WithValue go_context context_key context_value

fun context_lookup :: "go_context \<Rightarrow> context_key \<Rightarrow> context_value option" where
  "context_lookup Incoming k = None"
| "context_lookup (WithValue ctx k' v) k = (if k' = k then Some v else context_lookup ctx k)"

definition requestIDFromContext :: "go_context \<Rightarrow> string \<times> bool" where
  "requestIDFromContext ctx = (case context_lookup ctx RequestIDContextKey of Some (TextValue s) \<Rightarrow> (s, True) | other \<Rightarrow> ('''', False))"

definition clientIPFromContext :: "go_context \<Rightarrow> string \<times> bool" where
  "clientIPFromContext ctx = (case context_lookup ctx ClientIPContextKey of Some (TextValue s) \<Rightarrow> (s, True) | other \<Rightarrow> ('''', False))"

definition zero_identity :: identity_value where
  "zero_identity = \<lparr>iv_user = '''', iv_roles = None, iv_attributes = None\<rparr>"

definition zero_route :: route_value where
  "zero_route = \<lparr>rv_rest = \<lparr>route_name = '''', route_match = \<lparr>match_methods = [], match_exact = '''', match_prefix = ''''\<rparr>,
     route_upstream = '''', route_access = 0, route_max_body = 0\<rparr>, rv_methods = None\<rparr>"

definition routeFromContext :: "memory \<Rightarrow> go_context \<Rightarrow> (route_value \<times> bool) \<times> memory" where
  "routeFromContext m ctx =
     (case context_lookup ctx RouteContextKey of
        Some (RouteValue v) \<Rightarrow> (let (c, m') = cloneRoute m v in ((c, True), m'))
      | other \<Rightarrow> (let (c, m') = cloneRoute m zero_route in ((c, False), m')))"

definition identityFromContext :: "memory \<Rightarrow> go_context \<Rightarrow> (identity_value \<times> bool) \<times> memory" where
  "identityFromContext m ctx =
     (case context_lookup ctx IdentityContextKey of
        Some (IdentityValue i) \<Rightarrow> (let (c, m') = cloneIdentity m i in ((c, True), m'))
      | other \<Rightarrow> (let (c, m') = cloneIdentity m zero_identity in ((c, False), m')))"

definition accessLogStateFromContext :: "go_context \<Rightarrow> nat option" where
  "accessLogStateFromContext ctx = (case context_lookup ctx AccessLogStateContextKey of Some (StatePointer p) \<Rightarrow> Some p | other \<Rightarrow> None)"

text \<open>The context of a request holds what the fields of the request record hold.\<close>

definition represents :: "memory \<Rightarrow> go_context \<Rightarrow> http_request \<Rightarrow> bool" where
  "represents m ctx r \<longleftrightarrow>
     context_lookup ctx RequestIDContextKey = map_option TextValue (ctx_request_id r)
     \<and> context_lookup ctx ClientIPContextKey = map_option TextValue (ctx_client_ip r)
     \<and> (case ctx_route r of None \<Rightarrow> context_lookup ctx RouteContextKey = None
        | Some route \<Rightarrow> \<exists>v. context_lookup ctx RouteContextKey = Some (RouteValue v)
            \<and> load_route m v = route \<and> route_refs v \<subseteq> {..<me_next m})
     \<and> (case ctx_identity r of None \<Rightarrow> context_lookup ctx IdentityContextKey = None
        | Some identity \<Rightarrow> \<exists>i. context_lookup ctx IdentityContextKey = Some (IdentityValue i)
            \<and> load_identity m i = identity \<and> identity_refs i \<subseteq> {..<me_next m})"

text \<open>Each \<open>WithContext\<close> of \<open>ServeHTTP\<close> sets one field; the access state sets none.\<close>

lemma represents_steps:
  "represents m ctx r \<Longrightarrow> represents m (WithValue ctx AccessLogStateContextKey v) r"
  "represents m ctx r \<Longrightarrow> represents m (WithValue ctx RequestIDContextKey (TextValue i)) (r\<lparr>ctx_request_id := Some i\<rparr>)"
  "represents m ctx r \<Longrightarrow> represents m (WithValue ctx ClientIPContextKey (TextValue i)) (r\<lparr>ctx_client_ip := Some i\<rparr>)"
  "represents m ctx r \<Longrightarrow> route_refs w \<subseteq> {..<me_next m} \<Longrightarrow>
     represents m (WithValue ctx RouteContextKey (RouteValue w)) (r\<lparr>ctx_route := Some (load_route m w)\<rparr>)"
  "represents m ctx r \<Longrightarrow> identity_refs j \<subseteq> {..<me_next m} \<Longrightarrow>
     represents m (WithValue ctx IdentityContextKey (IdentityValue j)) (r\<lparr>ctx_identity := Some (load_identity m j)\<rparr>)"
  by (auto simp: represents_def split: option.splits)

text \<open>The functions that read the context return the fields, and tell whether they are set.\<close>

theorem context_readers_exact:
  assumes "represents m ctx r"
  shows "requestIDFromContext ctx = (case ctx_request_id r of None \<Rightarrow> ('''', False) | Some i \<Rightarrow> (i, True))"
    "clientIPFromContext ctx = (case ctx_client_ip r of None \<Rightarrow> ('''', False) | Some i \<Rightarrow> (i, True))"
    "routeFromContext m ctx = ((v, found), m1) \<Longrightarrow> found = (ctx_route r \<noteq> None) \<and> (\<forall>route. ctx_route r = Some route \<longrightarrow> load_route m1 v = route)"
    "identityFromContext m ctx = ((i, known), m2) \<Longrightarrow> known = (ctx_identity r \<noteq> None) \<and> (\<forall>identity. ctx_identity r = Some identity \<longrightarrow> load_identity m2 i = identity)"
proof -
  show "requestIDFromContext ctx = (case ctx_request_id r of None \<Rightarrow> ('''', False) | Some i \<Rightarrow> (i, True))"
    "clientIPFromContext ctx = (case ctx_client_ip r of None \<Rightarrow> ('''', False) | Some i \<Rightarrow> (i, True))"
    using assms by (simp_all add: represents_def requestIDFromContext_def clientIPFromContext_def split: option.split)
  assume "routeFromContext m ctx = ((v, found), m1)"
  then show "found = (ctx_route r \<noteq> None) \<and> (\<forall>route. ctx_route r = Some route \<longrightarrow> load_route m1 v = route)"
    using assms routes.clone_load
    by (cases "ctx_route r") (fastforce simp: represents_def routeFromContext_def split: prod.splits)+
next
  assume "identityFromContext m ctx = ((i, known), m2)"
  then show "known = (ctx_identity r \<noteq> None) \<and> (\<forall>identity. ctx_identity r = Some identity \<longrightarrow> load_identity m2 i = identity)"
    using assms identities.clone_load
    by (cases "ctx_identity r") (fastforce simp: represents_def identityFromContext_def split: prod.splits)+
qed

text \<open>
  What a caller does to the identity or route it was given changes nothing the gateway or a later caller
  reads: the context still represents the request.
\<close>

lemma represents_frame: "represents m ctx r \<Longrightarrow> effect_on {} m m' \<Longrightarrow> represents m' ctx r"
proof -
  assume r: "represents m ctx r" and e: "effect_on {} m m'"
  have "load_route m' v = load_route m v \<and> route_refs v \<subseteq> {..<me_next m'}" if "route_refs v \<subseteq> {..<me_next m}" for v
    using that e by (auto simp: effect_on_def intro!: routes.load_frame)
  moreover have "load_identity m' i = load_identity m i \<and> identity_refs i \<subseteq> {..<me_next m'}"
    if "identity_refs i \<subseteq> {..<me_next m}" for i
    using that e by (auto simp: effect_on_def intro!: identities.load_frame)
  ultimately show ?thesis using r by (fastforce simp: represents_def split: option.splits)
qed

lemma context_copy_fresh:
  "routeFromContext m ctx = ((v, found), m1) \<Longrightarrow> route_refs v \<subseteq> {me_next m..<me_next m1} \<and> effect_on {} m m1"
  "identityFromContext m ctx = ((i, found), m1) \<Longrightarrow> identity_refs i \<subseteq> {me_next m..<me_next m1} \<and> effect_on {} m m1"
  using routes.clone_fresh routes.clone_effect identities.clone_fresh identities.clone_effect
  by (fastforce simp: routeFromContext_def identityFromContext_def split: prod.splits option.splits context_value.splits)+

theorem context_copies_private:
  assumes "represents m ctx r" "identityFromContext m ctx = ((i, known), m1)" "routeFromContext m1 ctx = ((v, found), m2)"
    "effect_on (identity_refs i \<union> route_refs v) m2 m3"
  shows "represents m3 ctx r"
proof -
  note i = context_copy_fresh(2) [OF assms(2)] and v = context_copy_fresh(1) [OF assms(3)]
  have "me_next m \<le> me_next m1" using i by (simp add: effect_on_def)
  with i v have "identity_refs i \<union> route_refs v \<subseteq> {me_next m..}" by force
  moreover have "effect_on {} m m2" using i v effect_on_trans by blast
  ultimately show ?thesis using represents_frame [OF assms(1) effect_on_fresh] assms(4) by blast
qed

section \<open>Who shares the identity\<close>

text \<open>
  The end of \<open>authenticate\<close>, the entry in the access log apart, and what \<open>ServeHTTP\<close> does with its result: the gateway keeps a pointer to a
  copy of the authenticator's identity and puts a second copy into the context. The pointer is what the
  policies get in \<open>RequestContext\<close>, and what it points to is injected into the header.
\<close>

definition identity_stage :: "memory \<Rightarrow> go_context \<Rightarrow> identity_value \<Rightarrow> (nat \<times> go_context) \<times> memory" where
  "identity_stage m ctx decided =
     (let (own, m1) = cloneIdentity m decided; (p, m2) = allocate (IdentityCell own) m1;
          (shown, m3) = cloneIdentity m2 own in
      ((p, WithValue ctx IdentityContextKey (IdentityValue shown)), m3))"

definition inject_pointed :: "memory \<Rightarrow> header \<Rightarrow> nat \<Rightarrow> header" where
  "inject_pointed m h p = stripAndInjectIdentity h (Some (load_identity m (identity_at m p)))"

lemma identity_stage_facts:
  assumes "identity_stage m ctx d = ((p, ctx'), m')" "identity_refs d \<subseteq> {..<me_next m}"
  shows "\<exists>own shown. identity_at m' p = own \<and> ctx' = WithValue ctx IdentityContextKey (IdentityValue shown)
     \<and> load_identity m' own = load_identity m d \<and> load_identity m' shown = load_identity m d
     \<and> me_next m \<le> p \<and> p < me_next m' \<and> effect_on {} m m'
     \<and> insert p (identity_refs own) \<subseteq> {me_next m..<me_next m'} \<and> identity_refs shown \<subseteq> {me_next m..<me_next m'}
     \<and> insert p (identity_refs own) \<inter> identity_refs shown = {}"
proof -
  obtain own m1 where own: "cloneIdentity m d = (own, m1)" by fastforce
  obtain q m2 where q: "allocate (IdentityCell own) m1 = (q, m2)" by fastforce
  obtain shown m3 where shown: "cloneIdentity m2 own = (shown, m3)" by fastforce
  have eqs: "p = q" "ctx' = WithValue ctx IdentityContextKey (IdentityValue shown)" "m' = m3"
    using assms(1) own q shown by (simp_all add: identity_stage_def)
  note f1 = cloneIdentity_cells [OF own] and f2 = allocate_facts [OF q] and f3 = cloneIdentity_cells [OF shown]
  have le: "me_next m \<le> me_next m1" "me_next m2 \<le> me_next m3" using f1(2) f3(2) by (simp_all add: effect_on_def)
  have own2: "identity_refs own \<subseteq> {..<me_next m2}" using f1(1) f2(2) by auto
  have "effect_on {} m1 m3" using effect_on_trans [OF f2(4) f3(2)] .
  then have "load_identity m3 own = load_identity m1 own" "load_identity m2 own = load_identity m1 own"
    using f1(1) f2(4) by (auto simp: effect_on_def intro!: identities.load_frame)
  then have loads: "load_identity m3 own = load_identity m d" "load_identity m3 shown = load_identity m d"
    using identities.clone_load [OF assms(2) own] identities.clone_load [OF own2 shown] by simp_all
  have "me_cells m3 q = IdentityCell own" using f2 f3(2) by (simp add: effect_on_def)
  then have "identity_at m3 q = own" by (simp add: identity_at_def)
  moreover have "effect_on {} m m3" using f1(2) \<open>effect_on {} m1 m3\<close> by (rule effect_on_trans)
  ultimately show ?thesis using loads le f1(1) f2(1,2) f3(1) by (force simp: eqs)
qed

text \<open>
  Whatever the authenticator does later to the identity it returned, one that it caches for instance,
  neither the injected header nor the context changes.
\<close>

theorem decided_identity_detached:
  assumes "identity_stage m ctx d = ((p, ctx'), m1)" "identity_refs d \<subseteq> {..<me_next m}" "effect_on (identity_refs d) m1 m2"
  shows "inject_pointed m2 h p = stripAndInjectIdentity h (Some (load_identity m d))"
    "identityFromContext m2 ctx' = ((i, known), m3) \<Longrightarrow> known \<and> load_identity m3 i = load_identity m d"
proof -
  obtain own shown where f: "identity_at m1 p = own" "ctx' = WithValue ctx IdentityContextKey (IdentityValue shown)"
    "load_identity m1 own = load_identity m d" "load_identity m1 shown = load_identity m d"
    "insert p (identity_refs own) \<subseteq> {me_next m..<me_next m1}" "identity_refs shown \<subseteq> {me_next m..<me_next m1}"
    using identity_stage_facts [OF assms(1,2)] by metis
  have same: "me_cells m2 a = me_cells m1 a" if "a \<in> {me_next m..<me_next m1}" for a
    using that assms(2,3) by (auto simp: effect_on_def)
  have loads: "load_identity m2 own = load_identity m d" "load_identity m2 shown = load_identity m d"
    using identities.load_frame [of own m2 m1] identities.load_frame [of shown m2 m1] same f by (simp_all add: subset_iff)
  have "identity_at m2 p = own" using f(1,5) same [of p] by (simp add: identity_at_def)
  with loads show "inject_pointed m2 h p = stripAndInjectIdentity h (Some (load_identity m d))"
    by (simp add: inject_pointed_def)
  assume "identityFromContext m2 ctx' = ((i, known), m3)"
  moreover have "identity_refs shown \<subseteq> {..<me_next m2}" using f(6) assms(3) by (auto simp: effect_on_def)
  ultimately show "known \<and> load_identity m3 i = load_identity m d"
    using identities.clone_load loads(2) by (auto simp: f(2) identityFromContext_def split: prod.splits)
qed

text \<open>
  But a policy can rewrite the identity the upstream will see: it shares the cell that is injected. Whatever
  name it writes there is sent, and the context still has the one that was authenticated.
\<close>

theorem policy_rewrites_identity:
  assumes "identity_stage m ctx d = ((p, ctx'), m1)" "identity_refs d \<subseteq> {..<me_next m}"
    "m2 = m1\<lparr>me_cells := (me_cells m1)(p := IdentityCell ((identity_at m1 p)\<lparr>iv_user := user\<rparr>))\<rparr>"
  shows "effect_on {p} m1 m2 \<and> header_values (inject_pointed m2 h p) headerXUserID = [user]
    \<and> (\<exists>i m3. identityFromContext m2 ctx' = ((i, True), m3) \<and> load_identity m3 i = load_identity m d)"
proof (intro conjI)
  obtain own shown where f: "identity_at m1 p = own" "ctx' = WithValue ctx IdentityContextKey (IdentityValue shown)"
    "load_identity m1 shown = load_identity m d" "p < me_next m1" "identity_refs shown \<subseteq> {me_next m..<me_next m1}"
    "insert p (identity_refs own) \<inter> identity_refs shown = {}"
    using identity_stage_facts [OF assms(1,2)] by metis
  show "effect_on {p} m1 m2" by (simp add: assms(3) effect_on_def)
  have "identity_at m2 p = own\<lparr>iv_user := user\<rparr>" using f(1) by (simp add: assms(3) identity_at_def)
  then show "header_values (inject_pointed m2 h p) headerXUserID = [user]"
    by (simp add: inject_pointed_def load_identity_def injected_user)
  obtain i m3 where c: "cloneIdentity m2 shown = (i, m3)" by fastforce
  have "load_identity m2 shown = load_identity m d"
    unfolding f(3) [symmetric] by (rule identities.load_frame) (use f(6) in \<open>auto simp: assms(3)\<close>)
  moreover have "identity_refs shown \<subseteq> {..<me_next m2}" using f(5) by (auto simp: assms(3))
  ultimately have "load_identity m3 i = load_identity m d" using identities.clone_load [OF _ c] by simp
  with c show "\<exists>i m3. identityFromContext m2 ctx' = ((i, True), m3) \<and> load_identity m3 i = load_identity m d"
    by (simp add: f(2) identityFromContext_def)
qed

text \<open>A logger that changes the entry it was given changes nothing of the entry the gateway keeps.\<close>

theorem access_log_copy_private:
  assumes "log_refs entry \<subseteq> {..<me_next m}" "cloneAccessLog m entry = (c, m1)" "effect_on (log_refs c) m1 m2"
  shows "load_log m1 c = load_log m entry" "load_log m2 entry = load_log m entry"
  using logs.clone_load [OF assms(1,2)] logs.original_kept(1) [OF assms] by simp_all

end
