(* ===== verification/Spec2Isabelle.thy ===== *)
theory Spec2Isabelle
  imports GatewayExamples SessionExamples StorageExamples StartExamples LimitExamples JwtExamples KafkaExamples AccessLogExamples ComposedExamples GatewayContext
begin

text \<open>
  \<^bold>\<open>What is modelled.\<close>
  The Go code of the stellarmesh SDK (\<open>sdk/go\<close>) and of the storage service built on it
  (\<open>services/storage\<close>). The SDK's centre is an HTTP gateway: \<open>Gateway.ServeHTTP\<close> gives a request an ID,
  applies CORS, answers health checks, resolves a route, an upstream and the client's address, limits,
  authenticates and authorizes, and hands the request to a reverse proxy; a deferred function turns panics
  into responses and logs. The components it asks are interfaces: the repository supplies authenticators
  for JWTs and for Redis sessions and a Redis rate limiter. Beside it stand a sanitizing \<open>slog\<close> handler,
  strict environment parsing, a Kafka publisher and an S3 object store; the storage service serves that
  store over HTTP under an access policy.

  \<^bold>\<open>Conventions.\<close>
  A Go string is a list of bytes (\<open>char list\<close>), an \<open>error\<close> a value of \<open>go_error\<close>, a fallible result a sum
  whose left side is the error, and a panic the outcome \<open>Panics\<close> of \<open>'a ext\<close>. Components supplied by the
  project are functions on a world \<open>'w\<close> of which nothing is assumed. Times are integers in nanoseconds
  (milliseconds in Redis); integers that the code lets overflow are kept within the range of \<open>int64\<close>. A Go
  map whose order the code cannot rely on is a function or an association list in the order of the visit.
  Messages that the source writes in Chinese are given in English.

  \<^bold>\<open>The theories and the code.\<close>
  \<^item> \<open>Prelude\<close>, \<open>GoStrings\<close>, \<open>GoUrl\<close>, \<open>HttpHeader\<close>, \<open>Base64\<close>: errors, results and the parts of Go's standard
    library the code uses (UTF-8, \<open>strings\<close>, \<open>strconv\<close>, \<open>net/url\<close>, \<open>net/http.Header\<close>, \<open>encoding/base64\<close>). The locale
    \<open>field_store\<close> states what a header map promises and is interpreted on it.
  \<^item> \<open>RequestId\<close>, \<open>Route\<close>, \<open>Credential\<close>, \<open>GatewayState\<close>, \<open>Response\<close>, \<open>RateLimit\<close>, \<open>Authentication\<close>, \<open>AccessLog\<close>,
    \<open>Cors\<close>, \<open>Health\<close>, \<open>ClientIp\<close>, \<open>Proxy\<close>: the files of \<open>sdk/go/gateway\<close>, one group of definitions per
    function. The record \<open>st\<close> is the state of one request; a stage of \<open>ServeHTTP\<close> is a function to
    \<open>flow\<close> (go on, return, panic). \<open>st_calls\<close> records the calls to components; no definition reads it. The
    recorder of a response has what it noted and what it passed on to the writer of \<open>net/http\<close>, which may
    panic, and what components do past it (flushes, hijacks).
  \<^item> \<open>GatewayContext\<close>: the values the gateway keeps in a request's context and the copies it hands out, with
    slices, maps and pointers as addresses of a memory. The locale \<open>cloning\<close> is the contract of a copy,
    interpreted on identities, routes and log entries; \<open>represents\<close> relates a context to the fields of
    \<open>http_request\<close> that the other theories use.
  \<^item> \<open>Pipeline\<close>, \<open>GatewayNew\<close>: \<open>ServeHTTP\<close> with its deferred functions, and \<open>New\<close> with every option.
  \<^item> \<open>PipelineSafety\<close>, \<open>PipelineTheorems\<close>, \<open>FailClosed\<close>: each stage meets the locale \<open>guarded_stage\<close> (it neither
    forwards nor logs, and keeps the response consistent) and \<open>closed_stage\<close> (when it ends the request it has
    written an error); from the interpretations follow order, identity, permission and refusal.
    Components are taken to change the request only through their answers: \<open>policy_rewrites_identity\<close> in
    \<open>GatewayContext\<close> shows what a policy can do that does not keep to it.
  \<^item> \<open>SessionKey\<close>, \<open>SessionScript\<close>, \<open>SessionStore\<close>: \<open>sdk/go/gateway/sessionauth\<close>, the Lua script on a model of
    Redis and the Go store that calls it. \<open>SessionInvariant\<close> (with the locale \<open>key_space\<close>), \<open>SessionRefine\<close>,
    \<open>SessionTheorems\<close>, \<open>SessionProperties\<close>, \<open>SessionIsolation\<close>, \<open>SessionClient\<close>, \<open>SessionGo\<close>, \<open>SessionAuth\<close>: the
    invariant \<open>store_ok\<close>, the abstract store \<open>session_spec\<close> the script refines, and what callers rely on.
  \<^item> \<open>JwtAuth\<close>, and \<open>RedisScript\<close>, \<open>RedisLimit\<close>, \<open>RedisLimitProperties\<close>: \<open>jwtauth\<close> and \<open>redislimit\<close>. The token
    bucket computes on rational numbers rounded by an arbitrary function of known relative error.
  \<^item> \<open>GatewayEntry\<close>, \<open>ComposedGateway\<close>: the gateway together with the authenticators.
  \<^item> \<open>LogText\<close>, \<open>LogHandler\<close>, \<open>LogProperties\<close>, \<open>SlogAccess\<close>: \<open>sdk/go/logging\<close> and the access logger over it.
  \<^item> \<open>EnvConfig\<close>, \<open>JsonBody\<close>, \<open>KafkaPublisher\<close>, \<open>KafkaTopic\<close>, \<open>KafkaProperties\<close>: \<open>sdk/go/envconfig\<close>,
    \<open>sdk/go/http/jsonbody\<close> and \<open>sdk/go/mq/kafka\<close>.
  \<^item> \<open>ObjectStorage\<close>, \<open>S3Config\<close>, \<open>S3Store\<close>, \<open>S3Operations\<close>, \<open>S3Properties\<close>: \<open>sdk/go/objectstorage\<close>.
  \<^item> \<open>AccessPolicy\<close>, \<open>StorageService\<close>, \<open>StorageAccess\<close>, \<open>StorageMonitoring\<close>, \<open>StorageConfig\<close>, \<open>StorageStart\<close>,
    \<open>StorageHealth\<close>: \<open>services/storage\<close>; the goroutines of readiness and shutdown are inductive step
    relations on the state of the process. Those of a round of checks (\<open>check_round\<close>) have the deadline of
    their context, the result channel with its capacity and the counter of the wait group, so that waiting
    for ever can be expressed.
  \<^item> The theories named \<open>...Examples\<close> apply each property at concrete inputs.

  \<^bold>\<open>What the theorems show.\<close>
  For the gateway: whatever its components do, a request reaches an upstream only after all of them were
  asked in order and agreed, with the identity headers the gateway itself wrote; every other request ends
  in an error status; what the client receives is what the gateway records, with the exceptions the theorem
  names, and one log entry is written. Which address the trusted-proxy resolver takes is characterised in
  full. The reverse proxy asks the target for the path the gateway has routed, encoded as it was, and hands a
  connection over only for the protocol asked for. With the authenticators of the repository this reaches from the token, or the revoked session, to the header the upstream sees. For
  sessions: refinement of an abstract store, an invariant over all histories, a limit per user, finality of
  revocation, isolation of projects whose keys cannot coincide (\<open>separators_collide\<close> in \<open>SessionKey\<close> shows two
  that do). For the limiter, under any rounding of known relative error: a bound on what passes, that a
  millisecond more than the advised wait suffices (in doubles the wait itself may not, \<open>advised_wait_too_short\<close>
  in \<open>LimitExamples\<close>), and what clocks that disagree do. For logs: redaction, bounds and plain data. For
  storage: every call to S3 is authorized and confined to a namespace, the service is ready only after a round
  in which every store answered, and a round of checks neither deadlocks nor goes on for ever. For Kafka: the
  security settings that were configured are the ones in use, and what a check of a topic reports.

  \<^bold>\<open>Bounds and fuel.\<close>
  No definition runs on invented fuel. The counters there are stand in the code: \<open>slog\<close> resolves a value at
  most a hundred times, \<open>Create\<close> draws at most three identifiers, the sanitizer visits at most its budget of
  nodes and levels. Loops are structural recursions or have a measure; concurrent processes are step
  relations. A round of checks of \<open>n\<close> stores has at most \<open>6 n + 3\<close> steps, which is a theorem.

  \<^bold>\<open>Arguments of the model.\<close>
  Code outside the repository is an argument of the definitions that use it: \<open>net/url.Parse\<close> and the textual
  IP parsers, JSON, SHA-1 and SHA-256, the sources of randomness, golang-jwt (with its documented contract
  \<open>parser_contract\<close>), kafka-go, the AWS SDK, Redis clients, and the rounding and printing of floating-point
  numbers. Hypotheses about them are named in the theorems. The check of a store is taken to return, at the
  latest with an error, when the context it was given is done; the SDK's calls document that they do.

  \<^bold>\<open>Not modelled.\<close>
  The transport below the reverse proxy, trailers, the bytes that pass over a connection that has switched
  protocols, and requests whose URL names no path (\<open>url.URL.Opaque\<close>), which no static route matches; deadlines
  and cancellation of contexts other than where the code reads them (readiness rounds, topic checks); results
  of floating-point operations that overflow to infinity; the texts of object storage errors, which quote
  keys. The TypeScript and Python SDKs, contracts, tests and their fixtures are not Go code of the program.
\<close>

end
